(* ===== verification/Prelude.thy ===== *)
theory Prelude
  imports Main "HOL-Library.Word"
begin

text \<open>
  Shared vocabulary of the development: the fixed-width integer types of the C code, the
  outcome type of a C computation with its sequencing operator, the fact collections the
  component theories extend, and lemmas about words, lists and outcomes that several
  components use.
\<close>

unbundle bit_operations_syntax

section \<open>Machine integers\<close>

type_synonym u8 = "8 word"
type_synonym u16 = "16 word"
type_synonym u32 = "32 word"
type_synonym u64 = "64 word"
type_synonym u128 = "128 word"

section \<open>Outcomes of C computations\<close>

text \<open>
  A C function either returns (\<open>Done\<close>), does something for which the language gives no
  result, such as reading outside an object or through a null pointer (\<open>Fault\<close>), or, where
  the model bounds the recursion depth, exceeds the bound (\<open>OutOfFuel\<close>).
\<close>

datatype 'a run = Done 'a | Fault | OutOfFuel

primrec bind_run :: "'a run \<Rightarrow> ('a \<Rightarrow> 'b run) \<Rightarrow> 'b run" where
  "bind_run (Done x) f = f x"
| "bind_run Fault f = Fault"
| "bind_run OutOfFuel f = OutOfFuel"

definition no_fault :: "'a run \<Rightarrow> bool" where
  "no_fault m \<longleftrightarrow> m \<noteq> Fault"

definition terminates :: "'a run \<Rightarrow> bool" where
  "terminates m \<longleftrightarrow> m \<noteq> OutOfFuel"

named_theorems run_intros \<open>introduction rules for outcomes that are no fault or that terminate\<close>
named_theorems run_simps \<open>rewriting of sequenced outcomes\<close>

lemma bind_run_eq_Done [run_simps]:
  "bind_run m f = Done y \<longleftrightarrow> (\<exists>x. m = Done x \<and> f x = Done y)"
  by (cases m) auto

lemma bind_run_eq_Fault [run_simps]:
  "bind_run m f = Fault \<longleftrightarrow> m = Fault \<or> (\<exists>x. m = Done x \<and> f x = Fault)"
  by (cases m) auto

lemma bind_run_eq_OutOfFuel [run_simps]:
  "bind_run m f = OutOfFuel \<longleftrightarrow> m = OutOfFuel \<or> (\<exists>x. m = Done x \<and> f x = OutOfFuel)"
  by (cases m) auto

lemma bind_run_assoc [run_simps]:
  "bind_run (bind_run m f) g = bind_run m (\<lambda>x. bind_run (f x) g)"
  by (cases m) auto

lemma bind_run_cong [fundef_cong]:
  "m = m' \<Longrightarrow> (\<And>x. m' = Done x \<Longrightarrow> f x = f' x) \<Longrightarrow> bind_run m f = bind_run m' f'"
  by (cases m') auto

lemma no_fault_simps [simp]:
  "no_fault (Done x)" "\<not> no_fault Fault" "no_fault OutOfFuel"
  by (simp_all add: no_fault_def)

lemma terminates_simps [simp]:
  "terminates (Done x)" "terminates Fault" "\<not> terminates OutOfFuel"
  by (simp_all add: terminates_def)

lemma no_fault_bind [run_intros]:
  "no_fault m \<Longrightarrow> (\<And>x. m = Done x \<Longrightarrow> no_fault (f x)) \<Longrightarrow> no_fault (bind_run m f)"
  by (cases m) auto

lemma terminates_bind [run_intros]:
  "terminates m \<Longrightarrow> (\<And>x. m = Done x \<Longrightarrow> terminates (f x)) \<Longrightarrow> terminates (bind_run m f)"
  by (cases m) auto

lemma run_DoneI: "no_fault m \<Longrightarrow> terminates m \<Longrightarrow> \<exists>x. m = Done x"
  by (cases m) auto

section \<open>What holds after a computation\<close>

text \<open>\<open>post m P\<close>: if \<open>m\<close> returns, \<open>P\<close> holds of the result.\<close>

definition post :: "'a run \<Rightarrow> ('a \<Rightarrow> bool) \<Rightarrow> bool" where
  "post m P \<longleftrightarrow> (\<forall>x. m = Done x \<longrightarrow> P x)"

named_theorems post_intros \<open>introduction rules for what holds after a computation\<close>

lemma postD: "post m P \<Longrightarrow> m = Done x \<Longrightarrow> P x"
  by (simp add: post_def)

lemma post_Done [post_intros]: "P x \<Longrightarrow> post (Done x) P"
  by (simp add: post_def)

lemma post_Fault [post_intros]: "post Fault P"
  by (simp add: post_def)

lemma post_bind [post_intros]: "(\<And>x. m = Done x \<Longrightarrow> post (f x) P) \<Longrightarrow> post (bind_run m f) P"
  by (cases m) (simp_all add: post_def)

lemma post_if [post_intros]:
  "(b \<Longrightarrow> post m P) \<Longrightarrow> (\<not> b \<Longrightarrow> post n P) \<Longrightarrow> post (if b then m else n) P"
  by simp

lemma post_prod [post_intros]: "(\<And>a b. x = (a, b) \<Longrightarrow> post (f a b) P) \<Longrightarrow> post (case x of (a, b) \<Rightarrow> f a b) P"
  by (cases x) simp

section \<open>Numbers that fit a word\<close>

lemma unat_word_of_nat: "n < 2 ^ LENGTH('a) \<Longrightarrow> unat (word_of_nat n :: 'a::len word) = n"
  by (simp add: unat_of_nat)

lemma unat_u32: "n < 2 ^ 32 \<Longrightarrow> unat (word_of_nat n :: u32) = n"
  using unat_word_of_nat[of n, where 'a = 32] by simp

lemma word_of_nat_eq_iff_less:
  "m < 2 ^ LENGTH('a) \<Longrightarrow> n < 2 ^ LENGTH('a) \<Longrightarrow>
   (word_of_nat m :: 'a::len word) = word_of_nat n \<longleftrightarrow> m = n"
  by (metis unat_word_of_nat)

lemma unat_u32_less: "unat (w :: u32) < 2 ^ 32"
  using unsigned_less[of w, where 'a = nat] by simp

lemma u32_eq_0: "n < 2 ^ 32 \<Longrightarrow> (word_of_nat n :: u32) = 0 \<longleftrightarrow> n = 0"
  using word_of_nat_eq_iff_less[of n 0, where 'a = 32] by simp

end
