(* ===== verification/CMemory.thy ===== *)
theory CMemory
  imports Prelude
begin

text \<open>
  Read-only byte memory as the C code sees it: a pointer is null or an index into a block of
  bytes, reading outside the block is a fault. On top of it the helpers of
  \<^verbatim>\<open>libmaxminddb/src/maxminddb-compat-util.h\<close>: \<open>mmdb_memmem\<close>, \<open>mmdb_strnlen\<close>,
  \<open>mmdb_strdup\<close> and \<open>mmdb_strndup\<close>, with the laws their callers rely on.
\<close>

section \<open>Pointers\<close>

datatype cptr = Null | Ptr "u8 list" nat

fun ptr_add :: "cptr \<Rightarrow> nat \<Rightarrow> cptr" where
  "ptr_add Null n = Null"
| "ptr_add (Ptr b i) n = Ptr b (i + n)"

fun ptr_diff :: "cptr \<Rightarrow> cptr \<Rightarrow> nat" where
  "ptr_diff (Ptr b i) (Ptr c j) = i - j"
| "ptr_diff _ _ = 0"

text \<open>\<open>deref p i\<close> is the C expression \<^verbatim>\<open>p[i]\<close>.\<close>

fun deref :: "cptr \<Rightarrow> nat \<Rightarrow> u8 run" where
  "deref Null n = Fault"
| "deref (Ptr b i) n = (if i + n < length b then Done (b ! (i + n)) else Fault)"

text \<open>\<open>stored p xs\<close>: the bytes \<open>xs\<close> lie in memory from the place \<open>p\<close> points to.\<close>

definition stored :: "cptr \<Rightarrow> u8 list \<Rightarrow> bool" where
  "stored p xs \<longleftrightarrow> (\<forall>i < length xs. deref p i = Done (xs ! i))"

text \<open>\<open>readable p n\<close>: the \<open>n\<close> bytes from \<open>p\<close> on are inside the block.\<close>

fun readable :: "cptr \<Rightarrow> nat \<Rightarrow> bool" where
  "readable Null n \<longleftrightarrow> n = 0"
| "readable (Ptr b i) n \<longleftrightarrow> i + n \<le> length b \<or> n = 0"

fun bytes_at :: "cptr \<Rightarrow> nat \<Rightarrow> u8 list" where
  "bytes_at Null n = []"
| "bytes_at (Ptr b i) n = take n (drop i b)"

lemma ptr_add_0 [simp]: "ptr_add p 0 = p"
  by (cases p) auto

lemma ptr_add_add [simp]: "ptr_add (ptr_add p m) n = ptr_add p (m + n)"
  by (cases p) auto

lemma ptr_diff_add [simp]: "p \<noteq> Null \<Longrightarrow> ptr_diff (ptr_add p n) p = n"
  by (cases p) auto

lemma ptr_add_eq_Null [simp]: "ptr_add p n = Null \<longleftrightarrow> p = Null"
  by (cases p) auto

lemma ptr_add_cancel [simp]: "p \<noteq> Null \<Longrightarrow> ptr_add p m = ptr_add p n \<longleftrightarrow> m = n"
  by (cases p) auto

lemma deref_ptr_add [simp]: "deref (ptr_add p m) n = deref p (m + n)"
  by (cases p) (auto simp: add.assoc)

lemma deref_terminates [simp]: "deref p n \<noteq> OutOfFuel"
  by (cases p) auto

lemma deref_terminates' [run_intros]: "terminates (deref p n)"
  by (simp add: terminates_def)

lemma deref_readable: "readable p n \<Longrightarrow> i < n \<Longrightarrow> deref p i = Done (bytes_at p n ! i)"
  by (cases p) (auto simp: nth_append)

lemma no_fault_deref [run_intros]: "readable p n \<Longrightarrow> i < n \<Longrightarrow> no_fault (deref p i)"
  by (simp add: deref_readable)

lemma length_bytes_at [simp]: "readable p n \<Longrightarrow> length (bytes_at p n) = n"
  by (cases p) auto

lemma readable_mono: "readable p n \<Longrightarrow> m \<le> n \<Longrightarrow> readable p m"
  by (cases p) auto

lemma readable_ptr_add: "readable p (m + n) \<Longrightarrow> readable (ptr_add p m) n"
  by (cases p) auto

lemma bytes_at_ptr_add: "bytes_at (ptr_add p i) n = take n (drop i (bytes_at p (i + n)))"
  by (cases p) (simp_all add: take_drop add.commute)

lemma stored_bytes_at: "readable p n \<Longrightarrow> stored p (bytes_at p n)"
  by (simp add: stored_def deref_readable)

lemma stored_Nil [simp]: "stored p []"
  by (simp add: stored_def)

lemma stored_Cons: "stored p (x # xs) \<longleftrightarrow> deref p 0 = Done x \<and> stored (ptr_add p 1) xs"
  by (auto simp: stored_def less_Suc_eq_0_disj)

lemma stored_append:
  "stored p (xs @ ys) \<longleftrightarrow> stored p xs \<and> stored (ptr_add p (length xs)) ys"
proof (induction xs arbitrary: p)
  case Nil
  then show ?case by simp
next
  case (Cons x xs)
  then show ?case by (auto simp: stored_Cons)
qed

lemma stored_nth: "stored p xs \<Longrightarrow> i < length xs \<Longrightarrow> deref p i = Done (xs ! i)"
  by (simp add: stored_def)

lemma stored_take_drop:
  assumes "take (length xs) (drop i b) = xs"
  shows "stored (Ptr b i) xs"
proof -
  have "length xs \<le> length b - i" using arg_cong[OF assms, of length] by simp
  moreover have "xs ! j = b ! (i + j)" if "j < length xs" for j
  proof -
    have "xs ! j = take (length xs) (drop i b) ! j" by (simp add: assms)
    then show ?thesis using that calculation by simp
  qed
  ultimately show ?thesis by (auto simp: stored_def)
qed

section \<open>Copies and searches: maxminddb-compat-util.h\<close>

text \<open>The C library's \<open>memcmp (p, q, n) == 0\<close>.\<close>

fun memcmp_eq :: "cptr \<Rightarrow> cptr \<Rightarrow> nat \<Rightarrow> bool run" where
  "memcmp_eq p q 0 = Done True"
| "memcmp_eq p q (Suc n) =
     bind_run (deref p 0) (\<lambda>a. bind_run (deref q 0) (\<lambda>b.
       if a \<noteq> b then Done False else memcmp_eq (ptr_add p 1) (ptr_add q 1) n))"

text \<open>The C library's \<open>memchr\<close>.\<close>

fun memchr :: "cptr \<Rightarrow> u8 \<Rightarrow> nat \<Rightarrow> cptr run" where
  "memchr p c 0 = Done Null"
| "memchr p c (Suc n) =
     bind_run (deref p 0) (\<lambda>a. if a = c then Done p else memchr (ptr_add p 1) c n)"

text \<open>The loop of \<open>mmdb_memmem\<close>: \<open>n\<close> positions are left, the first is \<open>cur\<close>.\<close>

fun memmem_loop :: "cptr \<Rightarrow> nat \<Rightarrow> cptr \<Rightarrow> nat \<Rightarrow> cptr run" where
  "memmem_loop cur 0 cs s_len = Done Null"
| "memmem_loop cur (Suc n) cs s_len =
     bind_run (deref cur 0) (\<lambda>a. bind_run (deref cs 0) (\<lambda>b.
     bind_run (if a = b then memcmp_eq cur cs s_len else Done False) (\<lambda>eq.
       if eq then Done cur else memmem_loop (ptr_add cur 1) n cs s_len)))"

definition mmdb_memmem :: "cptr \<Rightarrow> nat \<Rightarrow> cptr \<Rightarrow> nat \<Rightarrow> cptr run" where
  "mmdb_memmem l l_len s s_len =
     (if l_len = 0 \<or> s_len = 0 then Done Null
      else if l_len < s_len then Done Null
      else if s_len = 1 then bind_run (deref s 0) (\<lambda>c. memchr l c l_len)
      else memmem_loop l (l_len - s_len + 1) s s_len)"

text \<open>\<open>strnlen_loop s k len\<close>: the loop of \<open>mmdb_strnlen\<close> with \<open>k = maxlen - len\<close> rounds left.\<close>

fun strnlen_loop :: "cptr \<Rightarrow> nat \<Rightarrow> nat \<Rightarrow> nat run" where
  "strnlen_loop s 0 len = Done len"
| "strnlen_loop s (Suc k) len =
     bind_run (deref s 0) (\<lambda>c. if c = 0 then Done len else strnlen_loop (ptr_add s 1) k (len + 1))"

definition mmdb_strnlen :: "cptr \<Rightarrow> nat \<Rightarrow> nat run" where
  "mmdb_strnlen s maxlen = strnlen_loop s maxlen 0"

text \<open>\<open>memcpy\<close> out of a readable area: the bytes that arrive in the destination.\<close>

fun copy_bytes :: "cptr \<Rightarrow> nat \<Rightarrow> u8 list run" where
  "copy_bytes p 0 = Done []"
| "copy_bytes p (Suc n) =
     bind_run (deref p 0) (\<lambda>a. bind_run (copy_bytes (ptr_add p 1) n) (\<lambda>as. Done (a # as)))"

text \<open>
  \<open>mmdb_strndup\<close> returns null when \<open>malloc\<close> does (\<open>malloc_ok\<close> is false), else a fresh block
  with the bytes up to the first zero, at most \<open>n\<close> of them, and a closing zero.
\<close>

definition mmdb_strndup :: "bool \<Rightarrow> cptr \<Rightarrow> nat \<Rightarrow> cptr run" where
  "mmdb_strndup malloc_ok str n =
     bind_run (mmdb_strnlen str n) (\<lambda>len.
       if \<not> malloc_ok then Done Null
       else bind_run (copy_bytes str len) (\<lambda>bs. Done (Ptr (bs @ [0]) 0)))"

text \<open>
  \<open>mmdb_strdup\<close> is given a C string, of which the model takes the bytes before the zero.
\<close>

definition mmdb_strdup :: "bool \<Rightarrow> u8 list \<Rightarrow> cptr" where
  "mmdb_strdup malloc_ok str =
     (let len = length str + 1
      in if \<not> malloc_ok then Null else Ptr (take len (str @ [0])) 0)"

lemma memcmp_eq_readable:
  "readable p n \<Longrightarrow> readable q n \<Longrightarrow> memcmp_eq p q n = Done (bytes_at p n = bytes_at q n)"
proof (induction n arbitrary: p q)
  case 0
  then show ?case by (cases p; cases q) auto
next
  case (Suc n)
  obtain b i c j where pq: "p = Ptr b i" "q = Ptr c j"
    using Suc.prems by (cases p; cases q) auto
  have drops: "drop i b = b ! i # drop (Suc i) b" "drop j c = c ! j # drop (Suc j) c"
    using Suc.prems pq by (auto intro!: Cons_nth_drop_Suc[symmetric])
  have "readable (Ptr b (Suc i)) n" "readable (Ptr c (Suc j)) n"
    using Suc.prems pq by auto
  from Suc.IH[OF this] show ?case
    using Suc.prems pq drops by auto
qed

lemma copy_bytes_readable: "readable p n \<Longrightarrow> copy_bytes p n = Done (bytes_at p n)"
proof (induction n arbitrary: p)
  case 0
  then show ?case by (cases p) auto
next
  case (Suc n)
  then obtain b i where p: "p = Ptr b i" by (cases p) auto
  have "drop i b = b ! i # drop (Suc i) b"
    using Suc.prems p by (auto intro!: Cons_nth_drop_Suc[symmetric])
  moreover have "readable (Ptr b (Suc i)) n" using Suc.prems p by auto
  note Suc.IH[OF this]
  ultimately show ?case using Suc.prems p by auto
qed

lemma strnlen_loop_readable:
  "readable s k \<Longrightarrow> strnlen_loop s k len = Done (len + length (takeWhile (\<lambda>c. c \<noteq> 0) (bytes_at s k)))"
proof (induction k arbitrary: s len)
  case 0
  then show ?case by (cases s) auto
next
  case (Suc k)
  then obtain b i where p: "s = Ptr b i" by (cases s) auto
  have "drop i b = b ! i # drop (Suc i) b"
    using Suc.prems p by (auto intro!: Cons_nth_drop_Suc[symmetric])
  moreover have "readable (Ptr b (Suc i)) k" using Suc.prems p by auto
  note Suc.IH[OF this]
  ultimately show ?case using Suc.prems p by auto
qed

text \<open>The copy holds the source up to its first zero, and ends in a zero.\<close>

lemma mmdb_strndup_readable:
  assumes "readable s n"
  shows "mmdb_strndup True s n = Done (Ptr (takeWhile (\<lambda>c. c \<noteq> 0) (bytes_at s n) @ [0]) 0)"
proof -
  let ?tw = "takeWhile (\<lambda>c. c \<noteq> 0) (bytes_at s n)"
  have le: "length ?tw \<le> n"
    using length_takeWhile_le[of "\<lambda>c. c \<noteq> 0" "bytes_at s n"] assms by simp
  have take_tw: "take (length ?tw) (bytes_at s n) = ?tw"
    by (metis takeWhile_eq_take)
  moreover have "bytes_at s (length ?tw) = take (length ?tw) (bytes_at s n)"
    using le by (cases s) (auto simp: min_def)
  ultimately have "copy_bytes s (length ?tw) = Done ?tw"
    using copy_bytes_readable[OF readable_mono[OF assms le]] by simp
  then show ?thesis
    by (simp add: mmdb_strndup_def mmdb_strnlen_def strnlen_loop_readable[OF assms])
qed

end
