(* ===== verification/ByteGetters.thy ===== *)
theory ByteGetters
  imports CMemory
begin

text \<open>
  The routines of \<^verbatim>\<open>libmaxminddb/src/maxminddb.c\<close> that assemble integers, floating point
  bit patterns, tree records and pointers from big-endian bytes, and their equivalence with
  the positional value of the bytes. Floating point numbers are their IEEE bit patterns.
\<close>

section \<open>The getters\<close>

definition get_uint32 :: "cptr \<Rightarrow> u32 run" where
  "get_uint32 p =
     bind_run (deref p 0) (\<lambda>p0. bind_run (deref p 1) (\<lambda>p1.
     bind_run (deref p 2) (\<lambda>p2. bind_run (deref p 3) (\<lambda>p3.
       Done (ucast p0 * 16777216 + ucast p1 * 65536 + ucast p2 * 256 + ucast p3)))))"

definition get_uint24 :: "cptr \<Rightarrow> u32 run" where
  "get_uint24 p =
     bind_run (deref p 0) (\<lambda>p0. bind_run (deref p 1) (\<lambda>p1. bind_run (deref p 2) (\<lambda>p2.
       Done (ucast p0 * 65536 + ucast p1 * 256 + ucast p2))))"

definition get_uint16 :: "cptr \<Rightarrow> u32 run" where
  "get_uint16 p =
     bind_run (deref p 0) (\<lambda>p0. bind_run (deref p 1) (\<lambda>p1.
       Done (ucast p0 * 256 + ucast p1)))"

text \<open>
  The loop shared by \<open>get_uintX\<close> and \<open>get_uint128\<close>: shift the value by one byte, add the
  next one, \<open>len\<close> times, at the width of the result.
\<close>

fun uint_loop :: "cptr \<Rightarrow> nat \<Rightarrow> 'a::len word \<Rightarrow> 'a word run" where
  "uint_loop p 0 value = Done value"
| "uint_loop p (Suc n) value =
     bind_run (deref p 0) (\<lambda>b. uint_loop (ptr_add p 1) n (push_bit 8 value + ucast b))"

definition get_uintX :: "cptr \<Rightarrow> nat \<Rightarrow> u64 run" where
  "get_uintX p len = uint_loop p len 0"

definition get_uint128 :: "cptr \<Rightarrow> nat \<Rightarrow> u128 run" where
  "get_uint128 p len = uint_loop p len 0"

text \<open>The result is an \<open>int32_t\<close>, kept as its 32 bits; \<open>sint\<close> reads it.\<close>

definition get_sintX :: "cptr \<Rightarrow> nat \<Rightarrow> u32 run" where
  "get_sintX p len = bind_run (get_uintX p len) (\<lambda>v. Done (ucast v))"

text \<open>
  On a little-endian host the object representation of a \<open>float\<close> has its least significant
  byte first: \<open>le_word q\<close> is the bit pattern with the bytes \<open>q[0], q[1], \<dots>\<close>.
\<close>

fun le_word :: "u8 list \<Rightarrow> 'a::len word" where
  "le_word [] = 0"
| "le_word (b # bs) = ucast b + push_bit 8 (le_word bs)"

definition get_ieee754_float :: "cptr \<Rightarrow> u32 run" where
  "get_ieee754_float p =
     bind_run (deref p 0) (\<lambda>q3. bind_run (deref p 1) (\<lambda>q2.
     bind_run (deref p 2) (\<lambda>q1. bind_run (deref p 3) (\<lambda>q0.
       Done (le_word [q0, q1, q2, q3])))))"

definition get_ieee754_double :: "cptr \<Rightarrow> u64 run" where
  "get_ieee754_double p =
     bind_run (deref p 0) (\<lambda>q7. bind_run (deref p 1) (\<lambda>q6.
     bind_run (deref p 2) (\<lambda>q5. bind_run (deref p 3) (\<lambda>q4.
     bind_run (deref p 4) (\<lambda>q3. bind_run (deref p 5) (\<lambda>q2.
     bind_run (deref p 6) (\<lambda>q1. bind_run (deref p 7) (\<lambda>q0.
       Done (le_word [q0, q1, q2, q3, q4, q5, q6, q7])))))))))"

definition get_left_28_bit_record :: "cptr \<Rightarrow> u32 run" where
  "get_left_28_bit_record record =
     bind_run (deref record 0) (\<lambda>r0. bind_run (deref record 1) (\<lambda>r1.
     bind_run (deref record 2) (\<lambda>r2. bind_run (deref record 3) (\<lambda>r3.
       Done (ucast r0 * 65536 + ucast r1 * 256 + ucast r2
             + push_bit 20 (ucast r3 AND 0xF0))))))"

definition get_right_28_bit_record :: "cptr \<Rightarrow> u32 run" where
  "get_right_28_bit_record record =
     bind_run (get_uint32 record) (\<lambda>value. Done (value AND 0xFFFFFFF))"

definition get_ext_type :: "u32 \<Rightarrow> u32" where
  "get_ext_type raw_ext_type = 7 + raw_ext_type"

abbreviation (input) MMDB_DATA_SECTION_SEPARATOR :: u32 where
  "MMDB_DATA_SECTION_SEPARATOR \<equiv> 16"

definition get_ptr_from :: "u8 \<Rightarrow> cptr \<Rightarrow> nat \<Rightarrow> u32 run" where
  "get_ptr_from ctrl ptr ptr_size =
     bind_run
       (if ptr_size = 0 then
          bind_run (deref ptr 0) (\<lambda>p0. Done (ucast (ctrl AND 7) * 256 + ucast p0))
        else if ptr_size = 1 then
          bind_run (deref ptr 0) (\<lambda>p0. bind_run (deref ptr 1) (\<lambda>p1.
            Done (2048 + ucast (ctrl AND 7) * 65536 + ucast p0 * 256 + ucast p1)))
        else if ptr_size = 2 then
          bind_run (get_uint24 ptr) (\<lambda>v.
            Done (2048 + 524288 + ucast (ctrl AND 7) * 16777216 + v))
        else get_uint32 ptr)
       (\<lambda>new_offset. Done (MMDB_DATA_SECTION_SEPARATOR + new_offset))"

section \<open>Big-endian values\<close>

definition be_val :: "u8 list \<Rightarrow> nat" where
  "be_val bs = foldl (\<lambda>v b. v * 256 + unat b) 0 bs"

lemma foldl_be: "foldl (\<lambda>v b. v * 256 + unat b) v bs = v * 256 ^ length bs + be_val (bs :: u8 list)"
proof (induction bs arbitrary: v)
  case Nil
  then show ?case by (simp add: be_val_def)
next
  case (Cons b bs)
  show ?case
    using Cons.IH[of "v * 256 + unat b"] Cons.IH[of "unat b"]
    by (simp add: be_val_def algebra_simps)
qed

lemma be_val_Nil [simp]: "be_val [] = 0"
  by (simp add: be_val_def)

lemma be_val_Cons [simp]: "be_val (b # bs) = unat b * 256 ^ length bs + be_val bs"
  using foldl_be[of "unat b" bs] by (simp add: be_val_def)

lemma unat_u8_less [simp]: "unat (b :: u8) < 256"
  using unsigned_less[of b] by simp

lemma be_val_less: "be_val bs < 256 ^ length bs"
proof (induction bs)
  case Nil
  then show ?case by simp
next
  case (Cons b bs)
  have "unat b * 256 ^ length bs \<le> 255 * 256 ^ length bs"
    using unat_u8_less[of b] by (intro mult_right_mono) linarith+
  with Cons show ?case
    by (simp only: be_val_Cons length_Cons power_Suc)
qed

text \<open>The bytes of a number, most significant first, as a database writer lays them out.\<close>

fun be_bytes :: "nat \<Rightarrow> nat \<Rightarrow> u8 list" where
  "be_bytes 0 n = []"
| "be_bytes (Suc k) n = word_of_nat (n div 256 ^ k) # be_bytes k (n mod 256 ^ k)"

lemma length_be_bytes [simp]: "length (be_bytes k n) = k"
  by (induction k arbitrary: n) auto

lemma be_bytes_step: "0 < k \<Longrightarrow> be_bytes k n = word_of_nat (n div 256 ^ (k - 1)) # be_bytes (k - 1) (n mod 256 ^ (k - 1))"
  by (cases k) simp_all

lemma be_bytes_few:
  "be_bytes 1 n = [word_of_nat n]"
  "be_bytes 2 n = [word_of_nat (n div 256), word_of_nat (n mod 256)]"
  "be_bytes 3 n = [word_of_nat (n div 65536), word_of_nat (n mod 65536 div 256), word_of_nat (n mod 65536 mod 256)]"
  "be_bytes 4 n = [word_of_nat (n div 16777216), word_of_nat (n mod 16777216 div 65536),
     word_of_nat (n mod 16777216 mod 65536 div 256), word_of_nat (n mod 16777216 mod 65536 mod 256)]"
  by (simp_all add: be_bytes_step)

lemma be_val_be_bytes: "be_val (be_bytes k n) = n mod 256 ^ k"
proof (induction k arbitrary: n)
  case 0
  then show ?case by simp
next
  case (Suc k)
  have "n mod 256 ^ Suc k = 256 ^ k * (n div 256 ^ k mod 256) + n mod 256 ^ k"
    by (metis mod_mult2_eq mult.commute power_Suc)
  then show ?case
    using Suc.IH by (simp add: unat_of_nat)
qed

lemma stored_2E: "stored p bs \<Longrightarrow> length bs = 2 \<Longrightarrow>
    \<exists>a b. bs = [a, b] \<and> deref p 0 = Done a \<and> deref p 1 = Done b"
  by (auto simp: length_Suc_conv stored_Cons numeral_2_eq_2)

lemma stored_3E: "stored p bs \<Longrightarrow> length bs = 3 \<Longrightarrow>
    \<exists>a b c. bs = [a, b, c] \<and> deref p 0 = Done a \<and> deref p 1 = Done b \<and> deref p 2 = Done c"
  by (auto simp: length_Suc_conv stored_Cons numeral_eq_Suc)

lemma stored_4E: "stored p bs \<Longrightarrow> length bs = 4 \<Longrightarrow>
    \<exists>a b c d. bs = [a, b, c, d] \<and> deref p 0 = Done a \<and> deref p 1 = Done b
      \<and> deref p 2 = Done c \<and> deref p 3 = Done d"
  by (auto simp: length_Suc_conv stored_Cons numeral_eq_Suc)

lemma get_uint16_stored: "stored p bs \<Longrightarrow> length bs = 2 \<Longrightarrow> get_uint16 p = Done (word_of_nat (be_val bs))"
  by (drule (1) stored_2E) (auto simp: get_uint16_def)

lemma get_uint24_stored: "stored p bs \<Longrightarrow> length bs = 3 \<Longrightarrow> get_uint24 p = Done (word_of_nat (be_val bs))"
  by (drule (1) stored_3E) (auto simp: get_uint24_def)

lemma get_uint32_stored: "stored p bs \<Longrightarrow> length bs = 4 \<Longrightarrow> get_uint32 p = Done (word_of_nat (be_val bs))"
  by (drule (1) stored_4E) (auto simp: get_uint32_def)

lemma uint_loop_stored:
  "stored p bs \<Longrightarrow>
   uint_loop p (length bs) v = Done (v * 256 ^ length bs + word_of_nat (be_val bs))"
proof (induction bs arbitrary: p v)
  case Nil
  then show ?case by simp
next
  case (Cons b bs)
  then show ?case
    by (simp add: stored_Cons push_bit_eq_mult algebra_simps)
qed

lemma get_uintX_stored: "stored p bs \<Longrightarrow> get_uintX p (length bs) = Done (word_of_nat (be_val bs))"
  using uint_loop_stored[of p bs 0] by (simp add: get_uintX_def)

lemma get_uint128_stored: "stored p bs \<Longrightarrow> get_uint128 p (length bs) = Done (word_of_nat (be_val bs))"
  using uint_loop_stored[of p bs 0] by (simp add: get_uint128_def)

section \<open>Tree records and floating point patterns\<close>

lemma unat_take_bit: "unat (take_bit n w) = unat w mod 2 ^ n"
  by (subst unsigned_take_bit_eq) (rule take_bit_eq_mod)

lemma unat_and_15: "unat ((w::u8) AND 15) = unat w mod 16"
proof -
  have "w AND 15 = take_bit 4 w" by (simp only: take_bit_eq_mask) (simp add: mask_eq_exp_minus_1)
  then show ?thesis by (simp only: unat_take_bit) simp
qed

lemma ucast_and_F0: "(ucast (d::u8) AND 0xF0 :: u32) = word_of_nat (unat d div 16 * 16)"
proof -
  have e: "(0xF0::u32) = push_bit 4 (mask 4)" by (simp add: mask_eq_exp_minus_1)
  have "(ucast d AND 0xF0 :: u32) = push_bit 4 (drop_bit 4 (ucast d))"
    unfolding e by (rule bit_word_eqI) (auto simp: bit_simps dest: bit_imp_le_length)
  also have "drop_bit 4 (ucast d :: u32) = word_of_nat (unat d div 16)"
  proof -
    have "unat d < 4294967296" using unat_u8_less[of d] by linarith
    moreover from this have "unat d div 16 < 4294967296" by linarith
    ultimately show ?thesis
      by (intro word_unat_eq_iff[THEN iffD2])
         (simp add: unat_drop_bit_eq unsigned_ucast_eq unat_of_nat, simp add: drop_bit_eq_div take_bit_eq_mod)
  qed
  finally show ?thesis by (simp add: push_bit_eq_mult)
qed

lemma get_left_28_stored:
  assumes "stored p bs" "length bs = 4"
  shows "get_left_28_bit_record p =
    Done (word_of_nat (unat (bs ! 3) div 16 * 16777216 + be_val (take 3 bs)))"
proof -
  obtain a b c d where bs: "bs = [a, b, c, d]" and d: "deref p 0 = Done a" "deref p 1 = Done b" "deref p 2 = Done c" "deref p 3 = Done d"
    using stored_4E[OF assms] by blast
  show ?thesis using d
    by (simp add: get_left_28_bit_record_def bs ucast_and_F0 push_bit_eq_mult algebra_simps)
qed

lemma and_28: "(w::u32) AND 0xFFFFFFF = word_of_nat (unat w mod 268435456)"
proof -
  have "w AND 0xFFFFFFF = take_bit 28 w" by (simp only: take_bit_eq_mask) (simp add: mask_eq_exp_minus_1)
  also have "\<dots> = word_of_nat (unat (take_bit 28 w))" by simp
  finally show ?thesis by (simp only: unat_take_bit) simp
qed

lemma get_right_28_stored:
  assumes "stored p bs" "length bs = 4"
  shows "get_right_28_bit_record p =
    Done (word_of_nat (unat (bs ! 0) mod 16 * 16777216 + be_val (drop 1 bs)))"
proof -
  obtain a b c d where bs: "bs = [a, b, c, d]"
    using stored_4E[OF assms] by blast
  have "be_val bs < 2 ^ 32" using be_val_less[of bs] assms(2) by simp
  then have u: "unat (word_of_nat (be_val bs) :: u32) = be_val bs"
    by (simp add: unat_of_nat)
  have "be_val [b,c,d] < 16777216" using be_val_less[of "[b,c,d]"] by simp
  then have "be_val bs mod 268435456 = unat a mod 16 * 16777216 + be_val [b,c,d]"
    using mod_mult2_eq[of "be_val bs" 16777216 16] by (simp add: bs)
  then show ?thesis
    using get_uint32_stored[OF assms] u
    by (simp add: get_right_28_bit_record_def and_28 bs)
qed

lemma le_word_append: "le_word (xs @ [b]) = (le_word xs + push_bit (8 * length xs) (ucast b) :: 'a::len word)"
  by (induction xs) (auto simp: push_bit_add ac_simps)

lemma le_word_rev: "le_word (rev bs) = (word_of_nat (be_val bs) :: 'a::len word)"
proof (induction bs)
  case (Cons b bs)
  have "(2::'a word) ^ (8 * length bs) = 256 ^ length bs"
    by (simp add: power_mult)
  with Cons show ?case
    by (simp add: le_word_append push_bit_eq_mult)
qed simp

lemma get_ieee754_float_stored:
  "stored p bs \<Longrightarrow> length bs = 4 \<Longrightarrow> get_ieee754_float p = Done (word_of_nat (be_val bs))"
  by (frule (1) stored_4E)
     (auto simp: get_ieee754_float_def le_word_rev[symmetric] simp del: le_word.simps be_val_Cons)

lemma get_ieee754_double_stored:
  assumes "stored p bs" "length bs = 8"
  shows "get_ieee754_double p = Done (word_of_nat (be_val bs))"
proof -
  obtain a b c d e f g h where "bs = [a, b, c, d, e, f, g, h]"
    using assms(2) by (auto simp: length_Suc_conv numeral_eq_Suc)
  with assms(1) show ?thesis
    by (auto simp: get_ieee754_double_def stored_Cons le_word_rev[symmetric]
             simp del: le_word.simps be_val_Cons simp: numeral_eq_Suc)
qed

end
