(* ===== verification/MMDB_Types.thy ===== *)
theory MMDB_Types
  imports CMemory
begin

text \<open>
  The data model of \<^verbatim>\<open>libmaxminddb/include/maxminddb.h\<close>: status codes, data type numbers,
  the database handle with its metadata, lookup results and decoded entries, and
  \<open>MMDB_strerror\<close> of \<^verbatim>\<open>libmaxminddb/src/maxminddb.c\<close>.
\<close>

section \<open>Status codes\<close>

datatype status =
    MMDB_SUCCESS
  | MMDB_FILE_OPEN_ERROR
  | MMDB_CORRUPT_SEARCH_TREE_ERROR
  | MMDB_INVALID_METADATA_ERROR
  | MMDB_IO_ERROR
  | MMDB_OUT_OF_MEMORY_ERROR
  | MMDB_UNKNOWN_DATABASE_FORMAT_ERROR
  | MMDB_INVALID_DATA_ERROR
  | MMDB_INVALID_LOOKUP_PATH_ERROR
  | MMDB_LOOKUP_PATH_DOES_NOT_MATCH_DATA_ERROR
  | MMDB_INVALID_NODE_NUMBER_ERROR
  | MMDB_IPV6_LOOKUP_IN_IPV4_DATABASE_ERROR

text \<open>The \<open>int\<close> each status is in the C code.\<close>

fun status_code :: "status \<Rightarrow> int" where
  "status_code MMDB_SUCCESS = 0"
| "status_code MMDB_FILE_OPEN_ERROR = 1"
| "status_code MMDB_CORRUPT_SEARCH_TREE_ERROR = 2"
| "status_code MMDB_INVALID_METADATA_ERROR = 3"
| "status_code MMDB_IO_ERROR = 4"
| "status_code MMDB_OUT_OF_MEMORY_ERROR = 5"
| "status_code MMDB_UNKNOWN_DATABASE_FORMAT_ERROR = 6"
| "status_code MMDB_INVALID_DATA_ERROR = 7"
| "status_code MMDB_INVALID_LOOKUP_PATH_ERROR = 8"
| "status_code MMDB_LOOKUP_PATH_DOES_NOT_MATCH_DATA_ERROR = 9"
| "status_code MMDB_INVALID_NODE_NUMBER_ERROR = 10"
| "status_code MMDB_IPV6_LOOKUP_IN_IPV4_DATABASE_ERROR = 11"

definition MMDB_strerror :: "int \<Rightarrow> string" where
  "MMDB_strerror error_code =
     (if error_code = 0 then ''Success (not an error)''
      else if error_code = 1 then ''Error opening the specified MaxMind DB file''
      else if error_code = 2 then ''The MaxMind DB file's search tree is corrupt''
      else if error_code = 3 then ''The MaxMind DB file contains invalid metadata''
      else if error_code = 4 then ''An attempt to read data from the MaxMind DB file failed''
      else if error_code = 5 then ''A memory allocation call failed''
      else if error_code = 6 then
        ''The MaxMind DB file is in a format this library can't handle (unknown record size or binary format version)''
      else if error_code = 7 then
        ''The MaxMind DB file's data section contains bad data (unknown data type or corrupt data)''
      else if error_code = 8 then
        ''The lookup path contained an invalid value (like a negative integer for an array index)''
      else if error_code = 9 then
        ''The lookup path does not match the data (key that doesn't exist, array index bigger than the array, expected array or map where none exists)''
      else if error_code = 10 then
        ''The MMDB_read_node function was called with a node number that does not exist in the search tree''
      else if error_code = 11 then
        ''You attempted to look up an IPv6 address in an IPv4-only database''
      else ''Unknown error code'')"

section \<open>Data type numbers\<close>

abbreviation (input) MMDB_DATA_TYPE_EXTENDED :: u32 where "MMDB_DATA_TYPE_EXTENDED \<equiv> 0"
abbreviation (input) MMDB_DATA_TYPE_POINTER :: u32 where "MMDB_DATA_TYPE_POINTER \<equiv> 1"
abbreviation (input) MMDB_DATA_TYPE_UTF8_STRING :: u32 where "MMDB_DATA_TYPE_UTF8_STRING \<equiv> 2"
abbreviation (input) MMDB_DATA_TYPE_DOUBLE :: u32 where "MMDB_DATA_TYPE_DOUBLE \<equiv> 3"
abbreviation (input) MMDB_DATA_TYPE_BYTES :: u32 where "MMDB_DATA_TYPE_BYTES \<equiv> 4"
abbreviation (input) MMDB_DATA_TYPE_UINT16 :: u32 where "MMDB_DATA_TYPE_UINT16 \<equiv> 5"
abbreviation (input) MMDB_DATA_TYPE_UINT32 :: u32 where "MMDB_DATA_TYPE_UINT32 \<equiv> 6"
abbreviation (input) MMDB_DATA_TYPE_MAP :: u32 where "MMDB_DATA_TYPE_MAP \<equiv> 7"
abbreviation (input) MMDB_DATA_TYPE_INT32 :: u32 where "MMDB_DATA_TYPE_INT32 \<equiv> 8"
abbreviation (input) MMDB_DATA_TYPE_UINT64 :: u32 where "MMDB_DATA_TYPE_UINT64 \<equiv> 9"
abbreviation (input) MMDB_DATA_TYPE_UINT128 :: u32 where "MMDB_DATA_TYPE_UINT128 \<equiv> 10"
abbreviation (input) MMDB_DATA_TYPE_ARRAY :: u32 where "MMDB_DATA_TYPE_ARRAY \<equiv> 11"
abbreviation (input) MMDB_DATA_TYPE_CONTAINER :: u32 where "MMDB_DATA_TYPE_CONTAINER \<equiv> 12"
abbreviation (input) MMDB_DATA_TYPE_END_MARKER :: u32 where "MMDB_DATA_TYPE_END_MARKER \<equiv> 13"
abbreviation (input) MMDB_DATA_TYPE_BOOLEAN :: u32 where "MMDB_DATA_TYPE_BOOLEAN \<equiv> 14"
abbreviation (input) MMDB_DATA_TYPE_FLOAT :: u32 where "MMDB_DATA_TYPE_FLOAT \<equiv> 15"

section \<open>The database handle\<close>

text \<open>A description: two zero-terminated strings, null until they are filled in.\<close>

record MMDB_description_s =
  language :: cptr
  description_text :: cptr

text \<open>
  \<open>languages.names\<close> and \<open>description.descriptions\<close> are arrays of pointers: \<open>None\<close> is a null
  array, and a description that is \<open>None\<close> is a null pointer in the array.
\<close>

record MMDB_metadata_s =
  node_count :: u32
  record_size :: u16
  ip_version :: u16
  database_type :: cptr
  languages_count :: nat
  languages_names :: "cptr list option"
  binary_format_major_version :: u16
  binary_format_minor_version :: u16
  build_epoch :: u64
  description_count :: nat
  descriptions :: "MMDB_description_s option list option"

record MMDB_ipv4_start_node_s =
  start_netmask :: u16
  node_value :: u32

record MMDB_s =
  flags :: u32
  filename :: cptr
  file_size :: int
  file_content :: cptr
  data_section :: cptr
  data_section_size :: u32
  metadata_section :: cptr
  metadata_section_size :: u32
  full_record_byte_size :: u16
  depth :: u16
  ipv4_start_node :: MMDB_ipv4_start_node_s
  metadata :: MMDB_metadata_s

text \<open>Every member zero, as static storage and designated initialisers leave it.\<close>

definition zero_metadata :: MMDB_metadata_s where
  "zero_metadata =
     \<lparr>node_count = 0, record_size = 0, ip_version = 0, database_type = Null,
      languages_count = 0, languages_names = None,
      binary_format_major_version = 0, binary_format_minor_version = 0, build_epoch = 0,
      description_count = 0, descriptions = None\<rparr>"

definition zero_mmdb :: MMDB_s where
  "zero_mmdb =
     \<lparr>flags = 0, filename = Null, file_size = 0, file_content = Null, data_section = Null,
      data_section_size = 0, metadata_section = Null, metadata_section_size = 0,
      full_record_byte_size = 0, depth = 0,
      ipv4_start_node = \<lparr>start_netmask = 0, node_value = 0\<rparr>, metadata = zero_metadata\<rparr>"

section \<open>Results and entries\<close>

text \<open>
  \<open>MMDB_entry_s\<close> holds a pointer to the handle and an offset. The handle is passed to every
  operation of the model by itself, so an entry is its offset.
\<close>

record MMDB_entry_s =
  entry_offset :: u32

record MMDB_lookup_result_s =
  found_entry :: bool
  entry :: MMDB_entry_s
  netmask :: u16

record MMDB_search_node_s =
  left_record :: u64
  right_record :: u64

text \<open>
  The anonymous union of \<open>MMDB_entry_data_s\<close>, as the member stored last: nothing since the
  bytes were set to zero, nothing since the object was created without an initialiser, or one
  of the members. Integers keep their bits, floating point numbers their IEEE pattern.
\<close>

datatype entry_union =
    U_zero
  | U_indeterminate
  | U_pointer u32
  | U_utf8_string cptr
  | U_double u64
  | U_bytes cptr
  | U_uint16 u16
  | U_uint32 u32
  | U_int32 u32
  | U_uint64 u64
  | U_uint128 u128
  | U_boolean bool
  | U_float u32

text \<open>\<open>data_size\<close> is \<open>None\<close> while it is indeterminate; reading it then is a fault.\<close>

record MMDB_entry_data_s =
  has_data :: bool
  entry_value :: entry_union
  data_offset :: u32
  offset_to_next :: u32
  data_size :: "u32 option"
  data_type :: u32

text \<open>\<open>memset (entry_data, 0, sizeof (MMDB_entry_data_s))\<close>\<close>

definition zero_entry_data :: MMDB_entry_data_s where
  "zero_entry_data =
     \<lparr>has_data = False, entry_value = U_zero, data_offset = 0, offset_to_next = 0,
      data_size = Some 0, data_type = 0\<rparr>"

text \<open>
  A local variable without initialiser. Every path of the code that reads \<open>has_data\<close>,
  \<open>data_offset\<close>, \<open>offset_to_next\<close> or \<open>data_type\<close> has stored to them first, so
  the values they start with here do not matter.
\<close>

definition uninit_entry_data :: MMDB_entry_data_s where
  "uninit_entry_data =
     \<lparr>has_data = False, entry_value = U_indeterminate, data_offset = 0, offset_to_next = 0,
      data_size = None, data_type = 0\<rparr>"

fun size_of_entry :: "MMDB_entry_data_s \<Rightarrow> u32 run" where
  "size_of_entry ed = (case data_size ed of None \<Rightarrow> Fault | Some n \<Rightarrow> Done n)"

text \<open>
  A function that returns a status and leaves an \<open>MMDB_entry_data_s\<close> behind its out
  parameter gives both; \<open>checked\<close> is the macro pattern \<open>CHECKED_DECODE_ONE\<close>: go on after a
  success, return any other status at once.
\<close>

type_synonym 'a outcome = "(status \<times> 'a) run"

definition checked :: "'a outcome \<Rightarrow> ('a \<Rightarrow> 'a outcome) \<Rightarrow> 'a outcome" where
  "checked m k = bind_run m (\<lambda>(st, x). if st \<noteq> MMDB_SUCCESS then Done (st, x) else k x)"

lemma checked_Done [simp]:
  "checked (Done (MMDB_SUCCESS, x)) k = k x"
  "st \<noteq> MMDB_SUCCESS \<Longrightarrow> checked (Done (st, x)) k = Done (st, x)"
  "checked Fault k = Fault"
  "checked OutOfFuel k = OutOfFuel"
  by (simp_all add: checked_def)

lemma checked_eq_success [run_simps]:
  "checked m k = Done (MMDB_SUCCESS, y) \<longleftrightarrow> (\<exists>x. m = Done (MMDB_SUCCESS, x) \<and> k x = Done (MMDB_SUCCESS, y))"
  by (cases m) (auto simp: checked_def split: if_splits)

lemma checked_cong [fundef_cong]:
  "m = m' \<Longrightarrow> (\<And>x. m' = Done (MMDB_SUCCESS, x) \<Longrightarrow> k x = k' x) \<Longrightarrow> checked m k = checked m' k'"
  by (cases m') (auto simp: checked_def)

lemma no_fault_checked [run_intros]:
  "no_fault m \<Longrightarrow> (\<And>x. m = Done (MMDB_SUCCESS, x) \<Longrightarrow> no_fault (k x)) \<Longrightarrow> no_fault (checked m k)"
  by (cases m) (auto simp: checked_def)

lemma terminates_checked [run_intros]:
  "terminates m \<Longrightarrow> (\<And>x. m = Done (MMDB_SUCCESS, x) \<Longrightarrow> terminates (k x)) \<Longrightarrow> terminates (checked m k)"
  by (cases m) (auto simp: checked_def)

section \<open>Status codes are told apart\<close>

lemma status_code_inj: "status_code s = status_code t \<longleftrightarrow> s = t"
  by (cases s; cases t) simp_all

lemma status_code_range: "0 \<le> status_code s \<and> status_code s \<le> 11"
  by (cases s) simp_all

end
