(* ===== verification/DataSection.thy ===== *)
theory DataSection
  imports ByteGetters MMDB_Types
begin

text \<open>
  Decoding one field of the data section: \<open>decode_one\<close> and \<open>decode_one_follow\<close> of
  \<^verbatim>\<open>libmaxminddb/src/maxminddb.c\<close>. Offsets are \<open>uint32_t\<close> and wrap; the bytes
  come from the file block the handle's \<open>data_section\<close> points into.
\<close>

section \<open>decode_one\<close>

text \<open>The \<open>switch (size)\<close>: the payload size and the offset behind the size bytes.\<close>

definition decode_size :: "cptr \<Rightarrow> u8 \<Rightarrow> u32 \<Rightarrow> (u32 \<times> u32) run" where
  "decode_size mem ctrl off =
     (let sz = ucast (ctrl AND 31) in
      if sz = 29 then
        bind_run (deref mem (unat off)) (\<lambda>b. Done (29 + ucast b, off + 1))
      else if sz = 30 then
        bind_run (get_uint16 (ptr_add mem (unat off))) (\<lambda>v. Done (285 + v, off + 2))
      else if sz = 31 then
        bind_run (get_uint24 (ptr_add mem (unat off))) (\<lambda>v. Done (65821 + v, off + 3))
      else Done (sz, off))"

text \<open>
  The chain of type tests behind the size. \<open>store\<close> is the common end of the scalar types:
  the union member is stored and \<open>offset_to_next\<close> is \<open>off + sz\<close>.
\<close>

definition decode_payload ::
  "cptr \<Rightarrow> MMDB_entry_data_s \<Rightarrow> u32 \<Rightarrow> u32 \<Rightarrow> u32 \<Rightarrow> MMDB_entry_data_s outcome" where
  "decode_payload mem ed type sz off =
     (let at = ptr_add mem (unat off);
          finish = (\<lambda>ed. Done (MMDB_SUCCESS, ed\<lparr>offset_to_next := off + sz\<rparr>));
          store = (\<lambda>m. bind_run m (\<lambda>u. finish (ed\<lparr>entry_value := u\<rparr>)));
          invalid = Done (MMDB_INVALID_DATA_ERROR, ed)
      in
      if type = MMDB_DATA_TYPE_MAP \<or> type = MMDB_DATA_TYPE_ARRAY then
        Done (MMDB_SUCCESS, ed\<lparr>data_size := Some sz, offset_to_next := off\<rparr>)
      else if type = MMDB_DATA_TYPE_BOOLEAN then
        Done (MMDB_SUCCESS, ed\<lparr>entry_value := U_boolean (sz \<noteq> 0), data_size := Some 0, offset_to_next := off\<rparr>)
      else if type = MMDB_DATA_TYPE_UINT16 then
        if sz > 2 then invalid
        else store (bind_run (get_uintX at (unat sz)) (\<lambda>v. Done (U_uint16 (ucast v))))
      else if type = MMDB_DATA_TYPE_UINT32 then
        if sz > 4 then invalid
        else store (bind_run (get_uintX at (unat sz)) (\<lambda>v. Done (U_uint32 (ucast v))))
      else if type = MMDB_DATA_TYPE_INT32 then
        if sz > 4 then invalid
        else store (bind_run (get_sintX at (unat sz)) (\<lambda>v. Done (U_int32 v)))
      else if type = MMDB_DATA_TYPE_UINT64 then
        if sz > 8 then invalid
        else store (bind_run (get_uintX at (unat sz)) (\<lambda>v. Done (U_uint64 v)))
      else if type = MMDB_DATA_TYPE_UINT128 then
        if sz > 16 then invalid
        else store (bind_run (get_uint128 at (unat sz)) (\<lambda>v. Done (U_uint128 v)))
      else if type = MMDB_DATA_TYPE_FLOAT then
        if sz \<noteq> 4 then invalid
        else store (bind_run (get_ieee754_float at) (\<lambda>v. Done (U_float v)))
      else if type = MMDB_DATA_TYPE_DOUBLE then
        if sz \<noteq> 8 then invalid
        else store (bind_run (get_ieee754_double at) (\<lambda>v. Done (U_double v)))
      else if type = MMDB_DATA_TYPE_UTF8_STRING then
        finish (ed\<lparr>entry_value := U_utf8_string (if sz = 0 then Ptr [0] 0 else at), data_size := Some sz\<rparr>)
      else if type = MMDB_DATA_TYPE_BYTES then
        finish (ed\<lparr>entry_value := U_bytes at, data_size := Some sz\<rparr>)
      else finish ed)"

definition decode_one :: "MMDB_s \<Rightarrow> u32 \<Rightarrow> MMDB_entry_data_s \<Rightarrow> MMDB_entry_data_s outcome" where
  "decode_one mmdb off ed =
     (let mem = data_section mmdb in
      if off > data_section_size mmdb then Done (MMDB_INVALID_DATA_ERROR, ed)
      else
        let ed = ed\<lparr>data_offset := off, has_data := True\<rparr> in
        bind_run (deref mem (unat off)) (\<lambda>ctrl.
        let off = off + 1; type = ucast (drop_bit 5 ctrl AND 7) in
        bind_run
          (if type = MMDB_DATA_TYPE_EXTENDED then
             bind_run (deref mem (unat off)) (\<lambda>b. Done (get_ext_type (ucast b), off + 1))
           else Done (type, off)) (\<lambda>(type, off).
        let ed = ed\<lparr>data_type := type\<rparr> in
        if type = MMDB_DATA_TYPE_POINTER then
          let psize = drop_bit 3 ctrl AND 3 in
          bind_run (get_ptr_from ctrl (ptr_add mem (unat off)) (unat psize)) (\<lambda>p.
            Done (MMDB_SUCCESS, ed\<lparr>entry_value := U_pointer p, data_size := Some (ucast psize + 1),
                                   offset_to_next := off + ucast psize + 1\<rparr>))
        else
          bind_run (decode_size mem ctrl off) (\<lambda>(sz, off).
            decode_payload mem ed type sz off))))"

section \<open>decode_one_follow\<close>

text \<open>Reading the \<open>pointer\<close> member of the union.\<close>

fun union_pointer :: "entry_union \<Rightarrow> u32 run" where
  "union_pointer (U_pointer p) = Done p"
| "union_pointer U_zero = Done 0"
| "union_pointer _ = Fault"

definition decode_one_follow :: "MMDB_s \<Rightarrow> u32 \<Rightarrow> MMDB_entry_data_s \<Rightarrow> MMDB_entry_data_s outcome" where
  "decode_one_follow mmdb off ed =
     checked (decode_one mmdb off ed) (\<lambda>ed.
       if data_type ed = MMDB_DATA_TYPE_POINTER then
         let nxt = offset_to_next ed in
         bind_run (union_pointer (entry_value ed)) (\<lambda>p.
         checked (decode_one mmdb p ed) (\<lambda>ed.
           if data_type ed \<noteq> MMDB_DATA_TYPE_MAP \<and> data_type ed \<noteq> MMDB_DATA_TYPE_ARRAY
           then Done (MMDB_SUCCESS, ed\<lparr>offset_to_next := nxt\<rparr>)
           else Done (MMDB_SUCCESS, ed)))
       else Done (MMDB_SUCCESS, ed))"

end
