(* ===== verification/DataSpec.thy ===== *)
theory DataSpec
  imports DataSection
begin

text \<open>
  Values of the data section and their encodings, after
  \<^verbatim>\<open>libmaxminddb/t/maxmind-db/MaxMind-DB-spec.md\<close> (Output Data Section), and the
  proof that \<open>decode_one\<close> reads every encoding of a value back.
\<close>

section \<open>Values\<close>

datatype field =
    F_string "u8 list"
  | F_double u64
  | F_bytes "u8 list"
  | F_uint16 u16
  | F_uint32 u32
  | F_map "(u8 list \<times> field) list"
  | F_int32 u32
  | F_uint64 u64
  | F_uint128 u128
  | F_array "field list"
  | F_boolean bool
  | F_float u32

text \<open>The type number of a scalar and the payloads that stand for it.\<close>

fun scalar :: "field \<Rightarrow> nat \<Rightarrow> u8 list \<Rightarrow> bool" where
  "scalar (F_string s) ty bs \<longleftrightarrow> ty = 2 \<and> bs = s"
| "scalar (F_double d) ty bs \<longleftrightarrow> ty = 3 \<and> length bs = 8 \<and> d = word_of_nat (be_val bs)"
| "scalar (F_bytes s) ty bs \<longleftrightarrow> ty = 4 \<and> bs = s"
| "scalar (F_uint16 w) ty bs \<longleftrightarrow> ty = 5 \<and> length bs \<le> 2 \<and> w = word_of_nat (be_val bs)"
| "scalar (F_uint32 w) ty bs \<longleftrightarrow> ty = 6 \<and> length bs \<le> 4 \<and> w = word_of_nat (be_val bs)"
| "scalar (F_int32 w) ty bs \<longleftrightarrow> ty = 8 \<and> length bs \<le> 4 \<and> w = word_of_nat (be_val bs)"
| "scalar (F_uint64 w) ty bs \<longleftrightarrow> ty = 9 \<and> length bs \<le> 8 \<and> w = word_of_nat (be_val bs)"
| "scalar (F_uint128 w) ty bs \<longleftrightarrow> ty = 10 \<and> length bs \<le> 16 \<and> w = word_of_nat (be_val bs)"
| "scalar (F_float w) ty bs \<longleftrightarrow> ty = 15 \<and> length bs = 4 \<and> w = word_of_nat (be_val bs)"
| "scalar _ ty bs \<longleftrightarrow> False"

section \<open>Control bytes and pointers\<close>

text \<open>
  The control byte with the type number in its upper three bits, or 0 and the number minus 7 in
  the next byte; the size in the lower five bits, or 29, 30, 31 and the excess in one, two or
  three bytes behind.
\<close>

abbreviation max_size :: nat where "max_size \<equiv> 16843036"

definition ctrl_bytes :: "nat \<Rightarrow> nat \<Rightarrow> u8 list" where
  "ctrl_bytes ty n =
     (let t = (if ty \<le> 7 then ty else 0); ext = (if ty \<le> 7 then [] else [word_of_nat (ty - 7)]) in
      if n < 29 then word_of_nat (t * 32 + n) # ext
      else if n < 285 then word_of_nat (t * 32 + 29) # ext @ be_bytes 1 (n - 29)
      else if n < 65821 then word_of_nat (t * 32 + 30) # ext @ be_bytes 2 (n - 285)
      else word_of_nat (t * 32 + 31) # ext @ be_bytes 3 (n - 65821))"

text \<open>
  The offset a pointer field leads to. Offsets are counted from the 16 separator bytes in front
  of the data section, as \<open>data_section\<close> of the handle points there.
\<close>

definition pointer_target :: "u8 list \<Rightarrow> nat option" where
  "pointer_target bs =
     (case bs of [] \<Rightarrow> None | c # ps \<Rightarrow>
        let ss = unat c div 8 mod 4; vvv = unat c mod 8 in
        if unat c div 32 = 1 \<and> length ps = ss + 1 then
          Some (16 + (if ss = 0 then vvv * 256 + be_val ps
                      else if ss = 1 then 2048 + vvv * 65536 + be_val ps
                      else if ss = 2 then 526336 + vvv * 16777216 + be_val ps
                      else be_val ps))
        else None)"

section \<open>Encodings in memory\<close>

text \<open>
  \<open>encoded mem off v e\<close>: the bytes from \<open>off\<close> to before \<open>e\<close> are an encoding of \<open>v\<close>.
  \<open>field_at\<close> allows a pointer to such an encoding instead, never a pointer to a pointer.
\<close>

inductive encoded :: "cptr \<Rightarrow> nat \<Rightarrow> field \<Rightarrow> nat \<Rightarrow> bool"
  and field_at :: "cptr \<Rightarrow> nat \<Rightarrow> field \<Rightarrow> nat \<Rightarrow> bool"
  and fields_at :: "cptr \<Rightarrow> nat \<Rightarrow> field list \<Rightarrow> nat \<Rightarrow> bool"
  and pairs_at :: "cptr \<Rightarrow> nat \<Rightarrow> (u8 list \<times> field) list \<Rightarrow> nat \<Rightarrow> bool"
  for mem :: cptr where
  enc_scalar: "scalar v ty bs \<Longrightarrow> length bs \<le> max_size \<Longrightarrow>
     stored (ptr_add mem off) (ctrl_bytes ty (length bs) @ bs) \<Longrightarrow>
     e = off + length (ctrl_bytes ty (length bs) @ bs) \<Longrightarrow> encoded mem off v e"
| enc_boolean: "stored (ptr_add mem off) (ctrl_bytes 14 (of_bool b)) \<Longrightarrow>
     e = off + length (ctrl_bytes 14 (of_bool b)) \<Longrightarrow> encoded mem off (F_boolean b) e"
| enc_map: "length kvs \<le> max_size \<Longrightarrow> stored (ptr_add mem off) (ctrl_bytes 7 (length kvs)) \<Longrightarrow>
     pairs_at mem (off + length (ctrl_bytes 7 (length kvs))) kvs e \<Longrightarrow> encoded mem off (F_map kvs) e"
| enc_array: "length vs \<le> max_size \<Longrightarrow> stored (ptr_add mem off) (ctrl_bytes 11 (length vs)) \<Longrightarrow>
     fields_at mem (off + length (ctrl_bytes 11 (length vs))) vs e \<Longrightarrow> encoded mem off (F_array vs) e"
| at_direct: "encoded mem off v e \<Longrightarrow> field_at mem off v e"
| at_pointer: "stored (ptr_add mem off) bs \<Longrightarrow> pointer_target bs = Some t \<Longrightarrow>
     encoded mem t v e' \<Longrightarrow> e = off + length bs \<Longrightarrow> field_at mem off v e"
| fields_nil: "fields_at mem off [] off"
| fields_cons: "field_at mem off v m \<Longrightarrow> fields_at mem m vs e \<Longrightarrow> fields_at mem off (v # vs) e"
| pairs_nil: "pairs_at mem off [] off"
| pairs_cons: "field_at mem off (F_string k) m \<Longrightarrow> field_at mem m v m' \<Longrightarrow>
     pairs_at mem m' kvs e \<Longrightarrow> pairs_at mem off ((k, v) # kvs) e"

inductive_cases fields_nilE: "fields_at mem off [] e"
inductive_cases fields_consE: "fields_at mem off (v # vs) e"
inductive_cases pairs_nilE: "pairs_at mem off [] e"
inductive_cases pairs_consE: "pairs_at mem off (kv # kvs) e"

section \<open>Control bytes are decoded\<close>

lemma unat_and_7: "unat ((w :: u8) AND 7) = unat w mod 8"
proof -
  have "w AND 7 = take_bit 3 w" by (simp only: take_bit_eq_mask) (simp add: mask_eq_exp_minus_1)
  then show ?thesis by (simp only: unat_take_bit) simp
qed

lemma unat_and_3: "unat ((w :: u8) AND 3) = unat w mod 4"
proof -
  have "w AND 3 = take_bit 2 w" by (simp only: take_bit_eq_mask) (simp add: mask_eq_exp_minus_1)
  then show ?thesis by (simp only: unat_take_bit) simp
qed

lemma unat_and_31: "unat ((w :: u8) AND 31) = unat w mod 32"
proof -
  have "w AND 31 = take_bit 5 w" by (simp only: take_bit_eq_mask) (simp add: mask_eq_exp_minus_1)
  then show ?thesis by (simp only: unat_take_bit) simp
qed

lemma unat_drop_bit_u8: "unat (drop_bit n (w :: u8)) = unat w div 2 ^ n"
  by (subst unat_drop_bit_eq) (rule drop_bit_eq_div)

lemma ucast_u8: "(ucast (w :: u8) :: 'a::len word) = word_of_nat (unat w)"
  by simp

lemma ctrl_type: "(ucast (drop_bit 5 (c :: u8) AND 7) :: u32) = word_of_nat (unat c div 32)"
proof -
  have "unat c div 32 < 8" using unat_u8_less[of c] by (intro less_mult_imp_div_less) simp
  then have "unat c div 32 mod 8 = unat c div 32" by (rule mod_less)
  then show ?thesis
    by (simp only: ucast_u8 unat_and_7 unat_drop_bit_u8) simp
qed

lemma ctrl_size: "(ucast ((c :: u8) AND 31) :: u32) = word_of_nat (unat c mod 32)"
  by (simp only: ucast_u8 unat_and_31)

lemma ctrl_psize: "unat (drop_bit 3 (c :: u8) AND 3) = unat c div 8 mod 4"
  by (simp add: unat_and_3 unat_drop_bit_u8)

lemma unat_ctrl: "t \<le> 7 \<Longrightarrow> k < 32 \<Longrightarrow> unat (word_of_nat (t * 32 + k) :: u8) = t * 32 + k"
  by (intro unat_word_of_nat) simp


text \<open>A handle whose \<open>data_section_size\<close> covers the rest of the block, as after \<open>MMDB_open\<close>.\<close>

definition data_ok :: "MMDB_s \<Rightarrow> bool" where
  "data_ok mmdb \<longleftrightarrow>
     (case data_section mmdb of Null \<Rightarrow> False
      | Ptr b i \<Rightarrow> length b \<le> i + unat (data_section_size mmdb))"

lemma stored_end:
  assumes "data_ok mmdb" "stored (ptr_add (data_section mmdb) off) bs" "bs \<noteq> []"
  shows "off + length bs \<le> unat (data_section_size mmdb)"
proof -
  obtain b i where b: "data_section mmdb = Ptr b i" "length b \<le> i + unat (data_section_size mmdb)"
    using assms(1) by (auto simp: data_ok_def split: cptr.splits)
  have "deref (ptr_add (data_section mmdb) off) (length bs - 1) \<noteq> Fault"
    using assms(2,3) by (simp add: stored_def)
  then have "i + off + (length bs - 1) < length b"
    using b(1) by (auto split: if_splits)
  then show ?thesis using b(2) assms(3) by (cases bs) auto
qed

lemma stored_end_u32:
  assumes "data_ok mmdb" "stored (ptr_add (data_section mmdb) off) bs" "bs \<noteq> []"
  shows "off + length bs < 2 ^ 32"
  using stored_end[OF assms] unat_u32_less[of "data_section_size mmdb"] by simp

lemma ctrl_bytes_nonempty [simp]: "ctrl_bytes ty n \<noteq> []"
  by (simp add: ctrl_bytes_def Let_def)

lemma word_of_nat_Suc: "(word_of_nat off :: 'a::len word) + 1 = word_of_nat (Suc off)"
  by simp

text \<open>The size bytes, wherever the control byte ends.\<close>

definition size_code :: "nat \<Rightarrow> nat \<times> u8 list" where
  "size_code n =
     (if n < 29 then (n, [])
      else if n < 285 then (29, be_bytes 1 (n - 29))
      else if n < 65821 then (30, be_bytes 2 (n - 285))
      else (31, be_bytes 3 (n - 65821)))"

lemma ctrl_bytes_size_code:
  "ctrl_bytes ty n =
     word_of_nat ((if ty \<le> 7 then ty else 0) * 32 + fst (size_code n))
       # (if ty \<le> 7 then [] else [word_of_nat (ty - 7)]) @ snd (size_code n)"
  by (simp add: ctrl_bytes_def size_code_def Let_def)

lemma size_code_less: "fst (size_code n) < 32"
  by (simp add: size_code_def)

lemma decode_size_code:
  assumes c: "unat c mod 32 = fst (size_code n)" and n: "n \<le> max_size"
    and st: "stored (ptr_add mem off) (snd (size_code n))" and off: "off < 2 ^ 32"
  shows "decode_size mem c (word_of_nat off)
    = Done (word_of_nat n, word_of_nat (off + length (snd (size_code n))))"
proof -
  have o: "unat (word_of_nat off :: u32) = off" by (rule unat_u32[OF off])
  have sz: "(ucast (c AND 31) :: u32) = word_of_nat (fst (size_code n))"
    by (simp only: ctrl_size c)
  have be: "be_val (be_bytes k m) = m" if "m < 256 ^ k" for k m
    using that by (simp add: be_val_be_bytes)
  consider "n < 29" | "29 \<le> n" "n < 285" | "285 \<le> n" "n < 65821" | "65821 \<le> n" by linarith
  then show ?thesis
  proof cases
    case 1
    then have "(word_of_nat n :: u32) \<noteq> 29" "(word_of_nat n :: u32) \<noteq> 30" "(word_of_nat n :: u32) \<noteq> 31"
      using word_of_nat_eq_iff_less[of n 29, where 'a = 32] word_of_nat_eq_iff_less[of n 30, where 'a = 32]
        word_of_nat_eq_iff_less[of n 31, where 'a = 32] by auto
    with 1 sz show ?thesis by (simp add: decode_size_def size_code_def Let_def)
  next
    case 2
    then have "deref (ptr_add mem off) 0 = Done (word_of_nat (n - 29))"
      using st by (simp add: size_code_def stored_Cons)
    moreover have "unat (word_of_nat (n - 29) :: u8) = n - 29"
      using 2 by (intro unat_word_of_nat) simp
    then have "(ucast (word_of_nat (n - 29) :: u8) :: u32) = word_of_nat (n - 29)"
      by (simp only: ucast_u8)
    ultimately show ?thesis
      using 2 sz by (simp add: decode_size_def size_code_def Let_def o of_nat_diff)
  next
    case 3
    have "get_uint16 (ptr_add mem off) = Done (word_of_nat (n - 285))"
      using get_uint16_stored[of "ptr_add mem off" "be_bytes 2 (n - 285)"] st 3
      by (simp add: size_code_def be)
    with 3 sz show ?thesis
      by (simp add: decode_size_def size_code_def Let_def o of_nat_diff)
  next
    case 4
    have "get_uint24 (ptr_add mem off) = Done (word_of_nat (n - 65821))"
      using get_uint24_stored[of "ptr_add mem off" "be_bytes 3 (n - 65821)"] st 4 n
      by (simp add: size_code_def be)
    with 4 sz show ?thesis
      by (simp add: decode_size_def size_code_def Let_def o of_nat_diff)
  qed
qed

text \<open>The first control byte: where it is read, and the type and the size code it holds.\<close>

lemma ctrl_byte_read:
  fixes off
  defines "o' \<equiv> word_of_nat off :: u32"
  assumes ok: "data_ok mmdb" and ty: "2 \<le> ty" "ty \<le> 15"
    and st: "stored (ptr_add (data_section mmdb) off) (ctrl_bytes ty n)"
  shows "unat o' = off" "\<not> data_section_size mmdb < o'"
    "\<exists>c. deref (data_section mmdb) off = Done c \<and> unat c mod 32 = fst (size_code n)
      \<and> (ucast (drop_bit 5 c AND 7) :: u32) = word_of_nat (if ty \<le> 7 then ty else 0)"
proof -
  let ?t = "if ty \<le> 7 then ty else 0"
  let ?c = "word_of_nat (?t * 32 + fst (size_code n)) :: u8"
  have le: "off + length (ctrl_bytes ty n) \<le> unat (data_section_size mmdb)"
    and lt: "off + length (ctrl_bytes ty n) < 2 ^ 32"
    using stored_end[OF ok st] stored_end_u32[OF ok st] by auto
  show o: "unat o' = off" using lt unfolding o'_def by (intro unat_u32) simp
  show "\<not> data_section_size mmdb < o'"
    using le o by (simp add: word_less_nat_alt)
  have c: "unat ?c = ?t * 32 + fst (size_code n)"
    using ty size_code_less[of n] by (intro unat_ctrl) auto
  have "(ucast (drop_bit 5 ?c AND 7) :: u32) = word_of_nat ?t"
    using size_code_less[of n] by (simp only: ctrl_type c) simp
  moreover have "unat ?c mod 32 = fst (size_code n)"
    using size_code_less[of n] by (simp only: c) simp
  moreover have "deref (data_section mmdb) off = Done ?c"
    using st by (simp add: ctrl_bytes_size_code stored_Cons)
  ultimately show "\<exists>c. deref (data_section mmdb) off = Done c \<and> unat c mod 32 = fst (size_code n)
      \<and> (ucast (drop_bit 5 c AND 7) :: u32) = word_of_nat ?t" by blast
qed

text \<open>The byte behind it, which holds the type of an extended control byte.\<close>

lemma ext_type_read:
  assumes ty: "7 < ty" "ty \<le> 15" and st: "stored (ptr_add mem off) (ctrl_bytes ty n)"
  shows "\<exists>b. deref mem (Suc off) = Done b \<and> get_ext_type (ucast b) = word_of_nat ty"
proof -
  have d: "deref mem (Suc off) = Done (word_of_nat (ty - 7))"
    using st ty(1) by (simp add: ctrl_bytes_size_code stored_Cons)
  have "unat (word_of_nat (ty - 7) :: u8) = ty - 7"
    using ty by (intro unat_word_of_nat) simp
  then have "(ucast (word_of_nat (ty - 7) :: u8) :: u32) = word_of_nat (ty - 7)"
    by (simp only: ucast_u8)
  then have "get_ext_type (ucast (word_of_nat (ty - 7) :: u8)) = word_of_nat ty"
    using ty(1) by (simp add: get_ext_type_def of_nat_diff)
  with d show ?thesis by blast
qed

lemma decode_one_ctrl:
  assumes ok: "data_ok mmdb" and ty: "2 \<le> ty" "ty \<le> 15" and n: "n \<le> max_size"
    and st: "stored (ptr_add (data_section mmdb) off) (ctrl_bytes ty n)"
  shows "decode_one mmdb (word_of_nat off) ed
    = decode_payload (data_section mmdb)
        (ed\<lparr>data_offset := word_of_nat off, has_data := True, data_type := word_of_nat ty\<rparr>)
        (word_of_nat ty) (word_of_nat n) (word_of_nat (off + length (ctrl_bytes ty n)))"
proof -
  let ?mem = "data_section mmdb"
  note first = ctrl_byte_read[OF ok ty st]
  obtain c where c: "deref ?mem off = Done c" "unat c mod 32 = fst (size_code n)"
    "(ucast (drop_bit 5 c AND 7) :: u32) = word_of_nat (if ty \<le> 7 then ty else 0)"
    using first(3) by blast
  have lt: "off + length (ctrl_bytes ty n) < 2 ^ 32" using stored_end_u32[OF ok st] by auto
  have neq: "(word_of_nat ty :: u32) \<noteq> 0" "(word_of_nat ty :: u32) \<noteq> 1"
    using ty word_of_nat_eq_iff_less[of ty 0, where 'a = 32]
      word_of_nat_eq_iff_less[of ty 1, where 'a = 32] by auto
  show ?thesis
  proof (cases "ty \<le> 7")
    case True
    then have s: "stored (ptr_add ?mem (Suc off)) (snd (size_code n))"
      and l: "length (ctrl_bytes ty n) = Suc (length (snd (size_code n)))"
      using st by (simp_all add: ctrl_bytes_size_code stored_Cons)
    have "Suc off < 2 ^ 32" using lt l by simp
    from True c(3) decode_size_code[OF c(2) n s this] l neq show ?thesis
      by (simp add: decode_one_def Let_def first(1,2) c(1) add.commute add.left_commute)
  next
    case False
    then have s: "stored (ptr_add ?mem (Suc (Suc off))) (snd (size_code n))"
      and l: "length (ctrl_bytes ty n) = Suc (Suc (length (snd (size_code n))))"
      using st by (simp_all add: ctrl_bytes_size_code stored_Cons)
    have o1: "unat (word_of_nat off + 1 :: u32) = Suc off"
      using unat_u32[of "Suc off"] lt l by (simp add: add.commute)
    have "Suc (Suc off) < 2 ^ 32" using lt l by simp
    note dec = decode_size_code[OF c(2) n s this]
    obtain b where "deref ?mem (Suc off) = Done b" "get_ext_type (ucast b) = word_of_nat ty"
      using ext_type_read[OF _ ty(2) st] False by auto
    then show ?thesis
      using False c(3) dec l neq
      by (simp add: decode_one_def Let_def first(1,2) c(1) o1)
  qed
qed

section \<open>What an entry shows\<close>

text \<open>
  The members of a decoded entry that a caller reads, for each kind of value; a string or byte
  sequence is read through its pointer and \<open>data_size\<close>.
\<close>

fun entry_shows :: "MMDB_entry_data_s \<Rightarrow> field \<Rightarrow> bool" where
  "entry_shows ed (F_string s) \<longleftrightarrow> data_type ed = MMDB_DATA_TYPE_UTF8_STRING
     \<and> data_size ed = Some (word_of_nat (length s)) \<and> length s \<le> max_size
     \<and> (case entry_value ed of U_utf8_string p \<Rightarrow> stored p s | _ \<Rightarrow> False)"
| "entry_shows ed (F_double d) \<longleftrightarrow> data_type ed = MMDB_DATA_TYPE_DOUBLE \<and> entry_value ed = U_double d"
| "entry_shows ed (F_bytes s) \<longleftrightarrow> data_type ed = MMDB_DATA_TYPE_BYTES
     \<and> data_size ed = Some (word_of_nat (length s)) \<and> length s \<le> max_size
     \<and> (case entry_value ed of U_bytes p \<Rightarrow> stored p s | _ \<Rightarrow> False)"
| "entry_shows ed (F_uint16 w) \<longleftrightarrow> data_type ed = MMDB_DATA_TYPE_UINT16 \<and> entry_value ed = U_uint16 w"
| "entry_shows ed (F_uint32 w) \<longleftrightarrow> data_type ed = MMDB_DATA_TYPE_UINT32 \<and> entry_value ed = U_uint32 w"
| "entry_shows ed (F_map kvs) \<longleftrightarrow> data_type ed = MMDB_DATA_TYPE_MAP
     \<and> data_size ed = Some (word_of_nat (length kvs)) \<and> length kvs \<le> max_size"
| "entry_shows ed (F_int32 w) \<longleftrightarrow> data_type ed = MMDB_DATA_TYPE_INT32 \<and> entry_value ed = U_int32 w"
| "entry_shows ed (F_uint64 w) \<longleftrightarrow> data_type ed = MMDB_DATA_TYPE_UINT64 \<and> entry_value ed = U_uint64 w"
| "entry_shows ed (F_uint128 w) \<longleftrightarrow> data_type ed = MMDB_DATA_TYPE_UINT128 \<and> entry_value ed = U_uint128 w"
| "entry_shows ed (F_array vs) \<longleftrightarrow> data_type ed = MMDB_DATA_TYPE_ARRAY
     \<and> data_size ed = Some (word_of_nat (length vs)) \<and> length vs \<le> max_size"
| "entry_shows ed (F_boolean b) \<longleftrightarrow> data_type ed = MMDB_DATA_TYPE_BOOLEAN \<and> entry_value ed = U_boolean b"
| "entry_shows ed (F_float w) \<longleftrightarrow> data_type ed = MMDB_DATA_TYPE_FLOAT \<and> entry_value ed = U_float w"

text \<open>Where the next entry is: the first one inside a map or array, else the one behind.\<close>

fun contents_at :: "cptr \<Rightarrow> field \<Rightarrow> u32 \<Rightarrow> nat \<Rightarrow> bool" where
  "contents_at mem (F_map kvs) nxt e \<longleftrightarrow> pairs_at mem (unat nxt) kvs e"
| "contents_at mem (F_array vs) nxt e \<longleftrightarrow> fields_at mem (unat nxt) vs e"
| "contents_at mem v nxt e \<longleftrightarrow> nxt = word_of_nat e"

definition entry_at :: "cptr \<Rightarrow> field \<Rightarrow> nat \<Rightarrow> MMDB_entry_data_s \<Rightarrow> bool" where
  "entry_at mem v e ed \<longleftrightarrow> has_data ed \<and> entry_shows ed v \<and> contents_at mem v (offset_to_next ed) e"

lemma ucast_u64: "n < 2 ^ 64 \<Longrightarrow> (ucast (word_of_nat n :: u64) :: 'a::len word) = word_of_nat n"
  by (simp add: unsigned_of_nat take_bit_nat_eq_self)

lemma payload_u64:
  assumes "length bs \<le> 8"
  shows "(ucast (word_of_nat (be_val bs) :: u64) :: 'a::len word) = word_of_nat (be_val bs)"
proof -
  have "be_val bs < 256 ^ 8"
    using be_val_less[of bs] power_increasing[OF assms, of "256::nat"] by linarith
  then show ?thesis by (intro ucast_u64) simp
qed

lemma word_of_nat_le_numeral:
  "n < 2 ^ 32 \<Longrightarrow> (numeral k :: u32) < word_of_nat n \<longleftrightarrow> unat (numeral k :: u32) < n"
  by (simp add: word_less_nat_alt unat_u32)

lemma decode_payload_scalar:
  assumes sc: "scalar v ty bs" and len: "length bs \<le> max_size"
    and st: "stored (ptr_add mem off) bs" and off: "off + length bs < 2 ^ 32"
    and ed: "has_data ed" "data_type ed = word_of_nat ty"
  shows "\<exists>ed'. decode_payload mem ed (word_of_nat ty) (word_of_nat (length bs)) (word_of_nat off)
      = Done (MMDB_SUCCESS, ed') \<and> data_offset ed' = data_offset ed
      \<and> entry_at mem v (off + length bs) ed'"
proof -
  have o: "unat (word_of_nat off :: u32) = off" using off by (intro unat_u32) simp
  have l: "unat (word_of_nat (length bs) :: u32) = length bs" using off by (intro unat_u32) simp
  have lt: "(numeral k :: u32) < word_of_nat (length bs) \<longleftrightarrow> unat (numeral k :: u32) < length bs" for k
    using off by (intro word_of_nat_le_numeral) simp
  have uX: "get_uintX (ptr_add mem off) (length bs) = Done (word_of_nat (be_val bs))"
    by (rule get_uintX_stored[OF st])
  have u128: "get_uint128 (ptr_add mem off) (length bs) = Done (word_of_nat (be_val bs))"
    by (rule get_uint128_stored[OF st])
  show ?thesis
  proof (cases v)
    case (F_string s)
    have "(word_of_nat (length bs) :: u32) = 0 \<longleftrightarrow> bs = []"
      using u32_eq_0[of "length bs"] off by simp
    with F_string sc st ed len show ?thesis
      by (auto simp: decode_payload_def Let_def o entry_at_def)
  qed (use sc st ed lt uX u128 len get_ieee754_float_stored[OF st] get_ieee754_double_stored[OF st] in
    \<open>auto simp: decode_payload_def Let_def o l entry_at_def get_sintX_def payload_u64\<close>)
qed

lemma decode_one_encoded:
  assumes ok: "data_ok mmdb" and enc: "encoded (data_section mmdb) off v e"
  shows "\<exists>ed'. decode_one mmdb (word_of_nat off) ed = Done (MMDB_SUCCESS, ed')
    \<and> data_offset ed' = word_of_nat off \<and> entry_at (data_section mmdb) v e ed'"
  using enc
proof (cases rule: encoded.cases)
  case (enc_scalar ty bs)
  let ?ctrl = "ctrl_bytes ty (length bs)"
  have ty: "2 \<le> ty" "ty \<le> 15" using enc_scalar(1) by (cases v; simp)+
  have st: "stored (ptr_add (data_section mmdb) off) ?ctrl"
    "stored (ptr_add (data_section mmdb) (off + length ?ctrl)) bs"
    using enc_scalar(3) by (simp_all add: stored_append)
  have "off + length ?ctrl + length bs < 2 ^ 32"
    using stored_end_u32[OF ok enc_scalar(3)] by simp
  from decode_payload_scalar[OF enc_scalar(1,2) st(2) this,
      of "ed\<lparr>data_offset := word_of_nat off, has_data := True, data_type := word_of_nat ty\<rparr>"]
  show ?thesis
    using decode_one_ctrl[OF ok ty enc_scalar(2) st(1), of ed] enc_scalar(4)
    by (simp add: add.assoc)
next
  case (enc_boolean b)
  then show ?thesis
    using decode_one_ctrl[OF ok _ _ _ enc_boolean(2), of ed]
    by (auto simp: decode_payload_def entry_at_def Let_def)
next
  case (enc_map kvs)
  have "unat (word_of_nat off + word_of_nat (length (ctrl_bytes 7 (length kvs))) :: u32)
      = off + length (ctrl_bytes 7 (length kvs))"
    using unat_u32[of "off + length (ctrl_bytes 7 (length kvs))"] stored_end_u32[OF ok enc_map(3)]
    by simp
  then show ?thesis
    using decode_one_ctrl[OF ok _ _ enc_map(2,3), of ed] enc_map(1,2,4)
    by (simp add: decode_payload_def entry_at_def Let_def)
next
  case (enc_array vs)
  have "unat (word_of_nat off + word_of_nat (length (ctrl_bytes 11 (length vs))) :: u32)
      = off + length (ctrl_bytes 11 (length vs))"
    using unat_u32[of "off + length (ctrl_bytes 11 (length vs))"] stored_end_u32[OF ok enc_array(3)]
    by simp
  then show ?thesis
    using decode_one_ctrl[OF ok _ _ enc_array(2,3), of ed] enc_array(1,2,4)
    by (simp add: decode_payload_def entry_at_def Let_def)
qed

lemma encoded_off:
  assumes ok: "data_ok mmdb" and enc: "encoded (data_section mmdb) off v e"
  shows "unat (word_of_nat off :: u32) = off"
proof -
  have "\<exists>bs. bs \<noteq> [] \<and> stored (ptr_add (data_section mmdb) off) bs"
    using enc
  proof (cases rule: encoded.cases)
    case (enc_scalar ty bs)
    then show ?thesis by (intro exI[of _ "ctrl_bytes ty (length bs) @ bs"]) simp
  qed (use ctrl_bytes_nonempty in blast)+
  then obtain bs where "bs \<noteq> []" "stored (ptr_add (data_section mmdb) off) bs" by blast
  with stored_end_u32[OF ok] show ?thesis by (intro unat_u32) force
qed

end
