(* ===== verification/PathLookup.thy ===== *)
theory PathLookup
  imports DataSection
begin

text \<open>
  Looking a value up by a path of map keys and array indexes: \<open>MMDB_aget_value\<close> and the
  functions under it in \<^verbatim>\<open>libmaxminddb/src/maxminddb.c\<close>, over a model of the C
  library's \<open>strtol\<close>. A path is the list of its elements before the closing null pointer.
\<close>

section \<open>strtol, base 10\<close>

definition is_space :: "char \<Rightarrow> bool" where
  "is_space c \<longleftrightarrow> c \<in> {CHR '' '', CHR 0x09, CHR 0x0A, CHR 0x0B, CHR 0x0C, CHR 0x0D}"

definition is_digit :: "char \<Rightarrow> bool" where
  "is_digit c \<longleftrightarrow> 48 \<le> (of_char c :: nat) \<and> (of_char c :: nat) \<le> 57"

definition digits_value :: "string \<Rightarrow> nat" where
  "digits_value ds = foldl (\<lambda>v c. v * 10 + (of_char c - 48)) 0 ds"

definition LONG_MAX :: int where "LONG_MAX = 2 ^ 63 - 1"
definition LONG_MIN :: int where "LONG_MIN = - (2 ^ 63)"

text \<open>
  The value clamped to \<open>long\<close>, whether \<open>errno\<close> is set to \<open>ERANGE\<close>, and the rest of the string
  at \<open>first_invalid\<close>: the whole string when there is no digit.
\<close>

definition strtol :: "string \<Rightarrow> int \<times> bool \<times> string" where
  "strtol s =
     (let t = dropWhile is_space s;
          neg = (t \<noteq> [] \<and> hd t = CHR ''-'');
          u = (if t \<noteq> [] \<and> (hd t = CHR ''-'' \<or> hd t = CHR ''+'') then tl t else t);
          ds = takeWhile is_digit u
      in if ds = [] then (0, False, s)
         else
           let v = (if neg then - int (digits_value ds) else int (digits_value ds)) in
           (max LONG_MIN (min LONG_MAX v), v < LONG_MIN \<or> LONG_MAX < v, dropWhile is_digit u))"

text \<open>The conversion of the \<open>long\<close> to \<open>int\<close> keeps the low 32 bits.\<close>

definition int_of_long :: "int \<Rightarrow> int" where
  "int_of_long v = sint (word_of_int v :: u32)"

section \<open>Skipping a value\<close>

text \<open>
  \<open>skip_map_or_array\<close> calls itself for the values inside a map or an array; the first argument
  bounds that nesting. The loops count down \<open>size\<close>.
\<close>

fun skip_map_or_array :: "nat \<Rightarrow> MMDB_s \<Rightarrow> MMDB_entry_data_s \<Rightarrow> MMDB_entry_data_s outcome"
  and skip_map_loop :: "nat \<Rightarrow> MMDB_s \<Rightarrow> nat \<Rightarrow> MMDB_entry_data_s \<Rightarrow> MMDB_entry_data_s outcome"
  and skip_array_loop :: "nat \<Rightarrow> MMDB_s \<Rightarrow> nat \<Rightarrow> MMDB_entry_data_s \<Rightarrow> MMDB_entry_data_s outcome" where
  "skip_map_or_array 0 mmdb ed = OutOfFuel"
| "skip_map_or_array (Suc nest) mmdb ed =
     (if data_type ed = MMDB_DATA_TYPE_MAP then
        bind_run (size_of_entry ed) (\<lambda>sz. skip_map_loop nest mmdb (unat sz) ed)
      else if data_type ed = MMDB_DATA_TYPE_ARRAY then
        bind_run (size_of_entry ed) (\<lambda>sz. skip_array_loop nest mmdb (unat sz) ed)
      else Done (MMDB_SUCCESS, ed))"
| "skip_map_loop nest mmdb 0 ed = Done (MMDB_SUCCESS, ed)"
| "skip_map_loop nest mmdb (Suc n) ed =
     checked (decode_one mmdb (offset_to_next ed) ed) (\<lambda>ed.
     checked (decode_one mmdb (offset_to_next ed) ed) (\<lambda>ed.
     checked (skip_map_or_array nest mmdb ed) (\<lambda>ed.
       skip_map_loop nest mmdb n ed)))"
| "skip_array_loop nest mmdb 0 ed = Done (MMDB_SUCCESS, ed)"
| "skip_array_loop nest mmdb (Suc n) ed =
     checked (decode_one mmdb (offset_to_next ed) ed) (\<lambda>ed.
     checked (skip_map_or_array nest mmdb ed) (\<lambda>ed.
       skip_array_loop nest mmdb n ed))"

section \<open>One path element\<close>

text \<open>The loop over the elements before \<open>array_index\<close>, \<open>n\<close> of them left.\<close>

fun array_index_loop :: "nat \<Rightarrow> MMDB_s \<Rightarrow> nat \<Rightarrow> MMDB_entry_data_s \<Rightarrow> MMDB_entry_data_s outcome" where
  "array_index_loop nest mmdb 0 ed = Done (MMDB_SUCCESS, ed)"
| "array_index_loop nest mmdb (Suc n) ed =
     checked (decode_one mmdb (offset_to_next ed) ed) (\<lambda>ed.
     checked (skip_map_or_array nest mmdb ed) (\<lambda>ed.
       array_index_loop nest mmdb n ed))"

definition lookup_path_in_array ::
  "nat \<Rightarrow> string \<Rightarrow> MMDB_s \<Rightarrow> MMDB_entry_data_s \<Rightarrow> MMDB_entry_data_s outcome" where
  "lookup_path_in_array nest path_elem mmdb ed =
     bind_run (size_of_entry ed) (\<lambda>sz.
     case strtol path_elem of (v, erange, first_invalid) \<Rightarrow>
       let array_index = int_of_long v in
       if array_index < 0 \<or> erange then Done (MMDB_INVALID_LOOKUP_PATH_ERROR, ed)
       else if first_invalid \<noteq> [] \<or> uint sz \<le> array_index then
         Done (MMDB_LOOKUP_PATH_DOES_NOT_MATCH_DATA_ERROR, ed)
       else
         checked (array_index_loop nest mmdb (nat array_index) ed) (\<lambda>ed.
         bind_run (decode_one_follow mmdb (offset_to_next ed) uninit_entry_data) (\<lambda>(st, val).
           if st \<noteq> MMDB_SUCCESS then Done (st, ed) else Done (MMDB_SUCCESS, val))))"

text \<open>Reading the \<open>utf8_string\<close> member of the union.\<close>

fun union_utf8_string :: "entry_union \<Rightarrow> cptr run" where
  "union_utf8_string (U_utf8_string p) = Done p"
| "union_utf8_string U_zero = Done Null"
| "union_utf8_string _ = Fault"

text \<open>The bytes of a C string.\<close>

definition c_bytes :: "string \<Rightarrow> u8 list" where
  "c_bytes s = map of_char s"

text \<open>
  \<open>key.data_size == path_elem_len && !memcmp (path_elem, key.utf8_string, path_elem_len)\<close>
\<close>

definition key_matches :: "string \<Rightarrow> MMDB_entry_data_s \<Rightarrow> bool run" where
  "key_matches path_elem key =
     bind_run (size_of_entry key) (\<lambda>sz.
       if unat sz = length path_elem then
         bind_run (union_utf8_string (entry_value key)) (\<lambda>p.
           memcmp_eq (Ptr (c_bytes path_elem) 0) p (length path_elem))
       else Done False)"

text \<open>The loop over the pairs of a map, \<open>n\<close> of them left, the next key at \<open>off\<close>.\<close>

fun lookup_map_loop ::
  "nat \<Rightarrow> string \<Rightarrow> MMDB_s \<Rightarrow> nat \<Rightarrow> u32 \<Rightarrow> MMDB_entry_data_s \<Rightarrow> MMDB_entry_data_s outcome" where
  "lookup_map_loop nest path_elem mmdb 0 off ed =
     Done (MMDB_LOOKUP_PATH_DOES_NOT_MATCH_DATA_ERROR, zero_entry_data)"
| "lookup_map_loop nest path_elem mmdb (Suc n) off ed =
     bind_run (decode_one_follow mmdb off uninit_entry_data) (\<lambda>(st, key).
     if st \<noteq> MMDB_SUCCESS then Done (st, ed)
     else if data_type key \<noteq> MMDB_DATA_TYPE_UTF8_STRING then Done (MMDB_INVALID_DATA_ERROR, ed)
     else
       bind_run (key_matches path_elem key) (\<lambda>eq.
       if eq then
         bind_run (decode_one_follow mmdb (offset_to_next key) uninit_entry_data) (\<lambda>(st, val).
           if st \<noteq> MMDB_SUCCESS then Done (st, ed) else Done (MMDB_SUCCESS, val))
       else
         bind_run (decode_one mmdb (offset_to_next key) uninit_entry_data) (\<lambda>(st, val).
         if st \<noteq> MMDB_SUCCESS then Done (st, ed)
         else
           bind_run (skip_map_or_array nest mmdb val) (\<lambda>(st, val).
             if st \<noteq> MMDB_SUCCESS then Done (st, ed)
             else lookup_map_loop nest path_elem mmdb n (offset_to_next val) ed))))"

definition lookup_path_in_map ::
  "nat \<Rightarrow> string \<Rightarrow> MMDB_s \<Rightarrow> MMDB_entry_data_s \<Rightarrow> MMDB_entry_data_s outcome" where
  "lookup_path_in_map nest path_elem mmdb ed =
     bind_run (size_of_entry ed) (\<lambda>sz.
       lookup_map_loop nest path_elem mmdb (unat sz) (offset_to_next ed) ed)"

section \<open>The whole path\<close>

fun aget_loop :: "nat \<Rightarrow> MMDB_s \<Rightarrow> string list \<Rightarrow> MMDB_entry_data_s \<Rightarrow> MMDB_entry_data_s outcome" where
  "aget_loop nest mmdb [] ed = Done (MMDB_SUCCESS, ed)"
| "aget_loop nest mmdb (path_elem # path) ed =
     (if data_type ed = MMDB_DATA_TYPE_ARRAY then
        bind_run (lookup_path_in_array nest path_elem mmdb ed) (\<lambda>(st, ed).
          if st \<noteq> MMDB_SUCCESS then Done (st, zero_entry_data) else aget_loop nest mmdb path ed)
      else if data_type ed = MMDB_DATA_TYPE_MAP then
        bind_run (lookup_path_in_map nest path_elem mmdb ed) (\<lambda>(st, ed).
          if st \<noteq> MMDB_SUCCESS then Done (st, zero_entry_data) else aget_loop nest mmdb path ed)
      else Done (MMDB_LOOKUP_PATH_DOES_NOT_MATCH_DATA_ERROR, zero_entry_data))"

definition MMDB_aget_value :: "nat \<Rightarrow> MMDB_s \<Rightarrow> MMDB_entry_s \<Rightarrow> string list \<Rightarrow> MMDB_entry_data_s outcome" where
  "MMDB_aget_value nest mmdb start path =
     checked (decode_one_follow mmdb (entry_offset start) zero_entry_data) (\<lambda>ed.
       if \<not> has_data ed then Done (MMDB_INVALID_LOOKUP_PATH_ERROR, ed)
       else aget_loop nest mmdb path ed)"

text \<open>
  Variable arguments: the arguments behind the last named one, \<open>None\<close> the null pointer that ends
  the path. Taking an argument that was not passed is a fault.
\<close>

fun path_length :: "string option list \<Rightarrow> nat run" where
  "path_length [] = Fault"
| "path_length (None # va) = Done 0"
| "path_length (Some _ # va) = bind_run (path_length va) (\<lambda>i. Done (Suc i))"

fun collect_path :: "string option list \<Rightarrow> string list run" where
  "collect_path [] = Fault"
| "collect_path (None # va) = Done []"
| "collect_path (Some path_elem # va) = bind_run (collect_path va) (\<lambda>path. Done (path_elem # path))"

text \<open>
  \<open>MMDB_vget_value\<close> allocates an array for \<open>path_length + 1\<close> pointers (\<open>malloc_ok\<close> of that
  number tells whether \<open>malloc\<close> succeeds), fills it and calls \<open>MMDB_aget_value\<close>; \<open>entry_data\<close> is
  what the caller's variable holds before.
\<close>

definition MMDB_vget_value ::
  "(nat \<Rightarrow> bool) \<Rightarrow> nat \<Rightarrow> MMDB_s \<Rightarrow> MMDB_entry_s \<Rightarrow> MMDB_entry_data_s \<Rightarrow> string option list \<Rightarrow>
     MMDB_entry_data_s outcome" where
  "MMDB_vget_value malloc_ok nest mmdb start entry_data va_path =
     bind_run (path_length va_path) (\<lambda>len.
       if \<not> malloc_ok (len + 1) then Done (MMDB_OUT_OF_MEMORY_ERROR, entry_data)
       else bind_run (collect_path va_path) (\<lambda>path. MMDB_aget_value nest mmdb start path))"

definition MMDB_get_value ::
  "(nat \<Rightarrow> bool) \<Rightarrow> nat \<Rightarrow> MMDB_s \<Rightarrow> MMDB_entry_s \<Rightarrow> MMDB_entry_data_s \<Rightarrow> string option list \<Rightarrow>
     MMDB_entry_data_s outcome" where
  "MMDB_get_value malloc_ok nest mmdb start entry_data path =
     MMDB_vget_value malloc_ok nest mmdb start entry_data path"

end
