(* ===== verification/PathSpec.thy ===== *)
theory PathSpec
  imports DataSpec PathLookup
begin

text \<open>
  Path lookup computes the abstract lookup in the encoded value. A locale states what reading a
  data section promises (following a field, stepping over a field), the lookup lemmas are
  proved inside it, and the code's \<open>decode_one\<close>, \<open>decode_one_follow\<close> and
  \<open>skip_map_or_array\<close> interpret it.
\<close>

section \<open>Nesting depth\<close>

fun fdepth :: "field \<Rightarrow> nat" where
  "fdepth (F_map kvs) = Suc (foldr (\<lambda>kv d. max (fdepth (snd kv)) d) kvs 0)"
| "fdepth (F_array vs) = Suc (foldr (\<lambda>v d. max (fdepth v) d) vs 0)"
| "fdepth v = 0"

lemma foldr_max_less: "foldr (\<lambda>x d. max (f x) d) xs (0::nat) < n \<longleftrightarrow> 0 < n \<and> (\<forall>x \<in> set xs. f x < n)"
  by (induction xs) auto

lemma fdepth_map_less: "fdepth (F_map kvs) < Suc n \<longleftrightarrow> 0 < n \<and> (\<forall>kv \<in> set kvs. fdepth (snd kv) < n)"
  by (simp add: foldr_max_less)

lemma fdepth_array_less: "fdepth (F_array vs) < Suc n \<longleftrightarrow> 0 < n \<and> (\<forall>v \<in> set vs. fdepth v < n)"
  by (simp add: foldr_max_less)

declare fdepth.simps(1,2) [simp del]

section \<open>Pointers are followed\<close>

text \<open>The bytes of a pointer, its size code \<open>ss\<close> in the control byte.\<close>

lemma get_ptr_from_target:
  fixes c :: u8
  defines "ss \<equiv> unat c div 8 mod 4"
  assumes t: "pointer_target (c # ps) = Some t" and c: "unat c div 32 = 1" and len: "length ps = ss + 1"
    and sp: "stored p ps"
  shows "get_ptr_from c p ss = Done (word_of_nat t)"
proof -
  have cv: "(ucast (c AND 7) :: u32) = word_of_nat (unat c mod 8)" by (simp only: ucast_u8 unat_and_7)
  note defs = get_ptr_from_def pointer_target_def cv Let_def
  have "ss = 0 \<or> ss = 1 \<or> ss = 2 \<or> ss = 3" unfolding ss_def by linarith
  then show ?thesis
  proof (elim disjE)
    assume s: "ss = 0"
    then obtain p0 where "ps = [p0]" using len by (auto simp: length_Suc_conv)
    then show ?thesis using s t c sp by (auto simp: defs stored_Cons ss_def)
  next
    assume s: "ss = 1"
    then obtain p0 p1 where "ps = [p0, p1]" using len by (auto simp: length_Suc_conv)
    then show ?thesis using s t c sp by (auto simp: defs stored_Cons ss_def)
  next
    assume s: "ss = 2"
    then have "get_uint24 p = Done (word_of_nat (be_val ps))"
      using get_uint24_stored[OF sp] len by simp
    then show ?thesis using s t c len by (auto simp: defs ss_def)
  next
    assume s: "ss = 3"
    then have "get_uint32 p = Done (word_of_nat (be_val ps))"
      using get_uint32_stored[OF sp] len by simp
    then show ?thesis using s t c len by (auto simp: defs ss_def)
  qed
qed

lemma decode_one_pointer:
  assumes ok: "data_ok mmdb" and st: "stored (ptr_add (data_section mmdb) off) bs"
    and t: "pointer_target bs = Some t"
  shows "\<exists>ed'. decode_one mmdb (word_of_nat off) ed = Done (MMDB_SUCCESS, ed')
    \<and> has_data ed' \<and> data_type ed' = MMDB_DATA_TYPE_POINTER \<and> entry_value ed' = U_pointer (word_of_nat t)
    \<and> offset_to_next ed' = word_of_nat (off + length bs)"
proof -
  let ?mem = "data_section mmdb"
  obtain c ps where bs: "bs = c # ps"
    using t by (auto simp: pointer_target_def split: list.splits)
  let ?ss = "unat c div 8 mod 4"
  have c: "unat c div 32 = 1" and len: "length ps = ?ss + 1"
    using t bs by (auto simp: pointer_target_def Let_def split: if_splits)
  have le: "off + length bs \<le> unat (data_section_size mmdb)" and lt: "off + length bs < 2 ^ 32"
    using stored_end[OF ok st] stored_end_u32[OF ok st] bs by auto
  have o: "unat (word_of_nat off :: u32) = off" using lt by (intro unat_u32) simp
  have "unat (word_of_nat off + 1 :: u32) = Suc off"
    using unat_u32[of "Suc off"] lt bs by (simp add: add.commute)
  then have o1: "unat (1 + word_of_nat off :: u32) = Suc off" by (simp add: add.commute)
  have chk: "\<not> data_section_size mmdb < word_of_nat off"
    using le o by (simp add: word_less_nat_alt)
  have d0: "deref ?mem off = Done c" and sp: "stored (ptr_add ?mem (Suc off)) ps"
    using st bs by (simp_all add: stored_Cons)
  have ct: "(ucast (drop_bit 5 c AND 7) :: u32) = 1" by (simp only: ctrl_type c) simp
  have cs: "(ucast (drop_bit 3 c AND 3) :: u32) = word_of_nat ?ss" by (simp only: ucast_u8 ctrl_psize)
  show ?thesis
    using get_ptr_from_target[OF t[unfolded bs] c len sp] len bs
    by (simp add: decode_one_def Let_def chk o o1 d0 ct ctrl_psize cs add.commute add.left_commute)
qed

section \<open>Reading a data section: the interface\<close>

text \<open>
  An entry that was reached through a field which ends at \<open>e\<close>. For a scalar the next entry is
  behind the field, pointer or not; for a map or an array it is the first one inside. The offset
  of the entry is that of the value, where the pointer leads.
\<close>

fun compound :: "field \<Rightarrow> bool" where
  "compound (F_map kvs) \<longleftrightarrow> True"
| "compound (F_array vs) \<longleftrightarrow> True"
| "compound v \<longleftrightarrow> False"

definition followed :: "cptr \<Rightarrow> field \<Rightarrow> nat \<Rightarrow> MMDB_entry_data_s \<Rightarrow> bool" where
  "followed mem v e ed \<longleftrightarrow>
     (\<exists>e'. entry_at mem v e' ed \<and> (compound v \<or> e' = e))
     \<and> (\<exists>e''. encoded mem (unat (data_offset ed)) v e'')"

text \<open>A loop of \<open>n\<close> rounds, each of which may end it with a status.\<close>

fun rounds :: "nat \<Rightarrow> ('a \<Rightarrow> 'a outcome) \<Rightarrow> 'a \<Rightarrow> 'a outcome" where
  "rounds 0 f x = Done (MMDB_SUCCESS, x)"
| "rounds (Suc n) f x = checked (f x) (rounds n f)"

locale field_reader =
  fixes ok :: "MMDB_s \<Rightarrow> bool"
    and decode follow :: "MMDB_s \<Rightarrow> u32 \<Rightarrow> MMDB_entry_data_s \<Rightarrow> MMDB_entry_data_s outcome"
    and skip :: "nat \<Rightarrow> MMDB_s \<Rightarrow> MMDB_entry_data_s \<Rightarrow> MMDB_entry_data_s outcome"
  assumes follow_field: "ok db \<Longrightarrow> field_at (data_section db) off v e \<Longrightarrow>
      \<exists>ed'. follow db (word_of_nat off) ed = Done (MMDB_SUCCESS, ed') \<and> followed (data_section db) v e ed'"
    and step_over: "ok db \<Longrightarrow> field_at (data_section db) off v e \<Longrightarrow> fdepth v < nest \<Longrightarrow>
      \<exists>ed'. checked (decode db (word_of_nat off) ed) (skip nest db) = Done (MMDB_SUCCESS, ed')
        \<and> offset_to_next ed' = word_of_nat e"
begin

lemma step_over_fields:
  assumes "ok db"
  shows "fields_at (data_section db) off vs e \<Longrightarrow> i \<le> length vs \<Longrightarrow>
    \<forall>v \<in> set (take i vs). fdepth v < nest \<Longrightarrow> offset_to_next ed = word_of_nat off \<Longrightarrow>
    \<exists>ed' off'. rounds i (\<lambda>ed. checked (decode db (offset_to_next ed) ed) (skip nest db)) ed
        = Done (MMDB_SUCCESS, ed')
      \<and> offset_to_next ed' = word_of_nat off' \<and> fields_at (data_section db) off' (drop i vs) e"
proof (induction i arbitrary: vs off ed)
  case 0
  then show ?case by auto
next
  case (Suc i)
  then obtain v ws where vs: "vs = v # ws" by (cases vs) auto
  obtain m where m: "field_at (data_section db) off v m" "fields_at (data_section db) m ws e"
    using Suc.prems(1) unfolding vs by (rule fields_consE)
  obtain ed1 where ed1: "checked (decode db (word_of_nat off) ed) (skip nest db) = Done (MMDB_SUCCESS, ed1)"
      "offset_to_next ed1 = word_of_nat m"
    using step_over[OF assms m(1), of nest ed] Suc.prems(3) vs by auto
  let ?f = "\<lambda>ed. checked (decode db (offset_to_next ed) ed) (skip nest db)"
  have "i \<le> length ws" "\<forall>v \<in> set (take i ws). fdepth v < nest"
    using Suc.prems(2,3) vs by simp_all
  from Suc.IH[OF m(2) this ed1(2)] obtain ed' off' where
    ih: "rounds i ?f ed1 = Done (MMDB_SUCCESS, ed')" "offset_to_next ed' = word_of_nat off'"
      "fields_at (data_section db) off' (drop i ws) e"
    by blast
  have "rounds (Suc i) ?f ed = Done (MMDB_SUCCESS, ed')"
    by (simp add: Suc.prems(4) ed1(1) ih(1))
  with ih(2,3) vs show ?case by auto
qed

lemma read_element:
  assumes "ok db" "fields_at (data_section db) off vs e" "i < length vs"
    "\<forall>v \<in> set vs. fdepth v < nest" "offset_to_next ed = word_of_nat off"
  shows "\<exists>ed' ed'' e'. rounds i (\<lambda>ed. checked (decode db (offset_to_next ed) ed) (skip nest db)) ed
        = Done (MMDB_SUCCESS, ed')
      \<and> follow db (offset_to_next ed') init = Done (MMDB_SUCCESS, ed'')
      \<and> followed (data_section db) (vs ! i) e' ed''"
proof -
  have "i \<le> length vs" "\<forall>v \<in> set (take i vs). fdepth v < nest"
    using assms(3,4) by (auto dest: in_set_takeD)
  from step_over_fields[OF assms(1,2) this assms(5)] obtain ed' off' where
    ed': "rounds i (\<lambda>ed. checked (decode db (offset_to_next ed) ed) (skip nest db)) ed
        = Done (MMDB_SUCCESS, ed')" "offset_to_next ed' = word_of_nat off'"
      "fields_at (data_section db) off' (drop i vs) e"
    by blast
  have "drop i vs = vs ! i # drop (Suc i) vs"
    using assms(3) by (simp add: Cons_nth_drop_Suc)
  with ed'(3) have "fields_at (data_section db) off' (vs ! i # drop (Suc i) vs) e" by simp
  then obtain m where "field_at (data_section db) off' (vs ! i) m" by (rule fields_consE)
  from follow_field[OF assms(1) this, of init] show ?thesis
    using ed'(1,2) by metis
qed

end

section \<open>The code reads data sections\<close>

lemma entry_shows_next [simp]: "entry_shows (ed\<lparr>offset_to_next := n\<rparr>) v = entry_shows ed v"
  by (cases v) auto

lemma entry_shows_compound:
  "entry_shows ed v \<Longrightarrow> compound v \<longleftrightarrow> data_type ed = MMDB_DATA_TYPE_MAP \<or> data_type ed = MMDB_DATA_TYPE_ARRAY"
  by (cases v) auto

lemma entry_shows_no_pointer: "entry_shows ed v \<Longrightarrow> data_type ed \<noteq> MMDB_DATA_TYPE_POINTER"
  by (cases v) auto

lemma contents_at_scalar: "\<not> compound v \<Longrightarrow> contents_at mem v nxt e \<longleftrightarrow> nxt = word_of_nat e"
  by (cases v) auto

lemma decode_one_follow_field:
  assumes ok: "data_ok db" and at: "field_at (data_section db) off v e"
  shows "\<exists>ed'. decode_one_follow db (word_of_nat off) ed = Done (MMDB_SUCCESS, ed')
    \<and> followed (data_section db) v e ed'"
  using at
proof (cases rule: field_at.cases)
  case at_direct
  obtain ed' where ed': "decode_one db (word_of_nat off) ed = Done (MMDB_SUCCESS, ed')"
      "entry_at (data_section db) v e ed'" "data_offset ed' = word_of_nat off"
    using decode_one_encoded[OF ok at_direct] by blast
  then show ?thesis
    using encoded_off[OF ok at_direct] at_direct
    by (auto simp: decode_one_follow_def followed_def entry_at_def dest: entry_shows_no_pointer)
next
  case (at_pointer bs t e')
  obtain ed1 where ed1: "decode_one db (word_of_nat off) ed = Done (MMDB_SUCCESS, ed1)"
      "data_type ed1 = MMDB_DATA_TYPE_POINTER" "entry_value ed1 = U_pointer (word_of_nat t)"
      "offset_to_next ed1 = word_of_nat e"
    using decode_one_pointer[OF ok at_pointer(1,2), of ed] at_pointer(4) by blast
  obtain ed2 where ed2: "decode_one db (word_of_nat t) ed1 = Done (MMDB_SUCCESS, ed2)"
      "entry_at (data_section db) v e' ed2" "data_offset ed2 = word_of_nat t"
    using decode_one_encoded[OF ok at_pointer(3)] by blast
  then have enc: "encoded (data_section db) (unat (data_offset ed2)) v e'"
    using encoded_off[OF ok at_pointer(3)] at_pointer(3) by simp
  show ?thesis
  proof (cases "compound v")
    case True
    then show ?thesis
      using ed1 ed2 enc entry_shows_compound[of ed2 v]
      by (auto simp: decode_one_follow_def followed_def entry_at_def)
  next
    case False
    then show ?thesis
      using ed1 ed2 enc entry_shows_compound[of ed2 v]
      by (auto simp: decode_one_follow_def followed_def entry_at_def contents_at_scalar)
  qed
qed

lemma skip_array_loop_rounds:
  "skip_array_loop nest db n = rounds n (\<lambda>ed. checked (decode_one db (offset_to_next ed) ed)
     (skip_map_or_array nest db))"
proof (induction n)
  case (Suc n)
  show ?case
    by (rule ext) (auto simp: Suc checked_def run_simps split: prod.split intro!: bind_run_cong)
qed (rule ext, simp)


lemma decode_one_field_next:
  assumes ok: "data_ok db" and at: "field_at (data_section db) off v e" and sc: "\<not> compound v"
  shows "\<exists>ed'. decode_one db (word_of_nat off) ed = Done (MMDB_SUCCESS, ed')
    \<and> offset_to_next ed' = word_of_nat e"
  using at
proof (cases rule: field_at.cases)
  case at_direct
  then show ?thesis
    using decode_one_encoded[OF ok at_direct, of ed] sc by (auto simp: entry_at_def contents_at_scalar)
next
  case (at_pointer bs t e')
  then show ?thesis using decode_one_pointer[OF ok at_pointer(1,2), of ed] by blast
qed

text \<open>Stepping over one field, given that values of the same nesting can be skipped.\<close>

lemma step_over_field:
  assumes ok: "data_ok db" and at: "field_at (data_section db) off v e" and nest: "fdepth v < nest"
    and skip: "\<And>e ed. entry_at (data_section db) v e ed \<Longrightarrow>
      \<exists>ed'. skip_map_or_array nest db ed = Done (MMDB_SUCCESS, ed') \<and> offset_to_next ed' = word_of_nat e"
  shows "\<exists>ed'. checked (decode_one db (word_of_nat off) ed) (skip_map_or_array nest db)
      = Done (MMDB_SUCCESS, ed') \<and> offset_to_next ed' = word_of_nat e"
  using at
proof (cases rule: field_at.cases)
  case at_direct
  obtain ed1 where "decode_one db (word_of_nat off) ed = Done (MMDB_SUCCESS, ed1)"
      "entry_at (data_section db) v e ed1"
    using decode_one_encoded[OF ok at_direct] by blast
  with skip[of e ed1] show ?thesis by simp
next
  case (at_pointer bs t e')
  obtain n where "nest = Suc n" using nest by (cases nest) auto
  then show ?thesis
    using decode_one_pointer[OF ok at_pointer(1,2), of ed] at_pointer(4) by fastforce
qed

lemma skip_fields:
  assumes ok: "data_ok db"
    and skip: "\<And>v e ed. fdepth v < nest \<Longrightarrow> entry_at (data_section db) v e ed \<Longrightarrow>
      \<exists>ed'. skip_map_or_array nest db ed = Done (MMDB_SUCCESS, ed') \<and> offset_to_next ed' = word_of_nat e"
  shows "fields_at (data_section db) off vs e \<Longrightarrow> \<forall>v \<in> set vs. fdepth v < nest \<Longrightarrow>
    offset_to_next ed = word_of_nat off \<Longrightarrow>
    \<exists>ed'. skip_array_loop nest db (length vs) ed = Done (MMDB_SUCCESS, ed')
      \<and> offset_to_next ed' = word_of_nat e"
proof (induction vs arbitrary: off ed)
  case Nil
  then show ?case by (auto elim: fields_nilE)
next
  case (Cons v vs)
  from Cons.prems(1) obtain m where m: "field_at (data_section db) off v m"
    "fields_at (data_section db) m vs e" by (rule fields_consE)
  have v: "fdepth v < nest" using Cons.prems(2) by simp
  from step_over_field[OF ok m(1) v skip[OF v]] obtain ed1 where
    s: "checked (decode_one db (word_of_nat off) ed) (skip_map_or_array nest db) = Done (MMDB_SUCCESS, ed1)"
      "offset_to_next ed1 = word_of_nat m" by blast
  from Cons.IH[OF m(2) _ s(2)] Cons.prems(2) obtain ed' where
    "skip_array_loop nest db (length vs) ed1 = Done (MMDB_SUCCESS, ed')" "offset_to_next ed' = word_of_nat e"
    by auto
  with s Cons.prems(3) show ?case by (simp add: skip_array_loop_rounds)
qed

lemma skip_map_loop_Suc:
  "skip_map_loop nest db (Suc n) ed =
     checked (decode_one db (offset_to_next ed) ed) (\<lambda>ed.
     checked (checked (decode_one db (offset_to_next ed) ed) (skip_map_or_array nest db))
       (skip_map_loop nest db n))"
  by (auto simp: checked_def run_simps split: prod.split intro!: bind_run_cong)

lemma skip_pairs:
  assumes ok: "data_ok db"
    and skip: "\<And>v e ed. fdepth v < nest \<Longrightarrow> entry_at (data_section db) v e ed \<Longrightarrow>
      \<exists>ed'. skip_map_or_array nest db ed = Done (MMDB_SUCCESS, ed') \<and> offset_to_next ed' = word_of_nat e"
  shows "pairs_at (data_section db) off kvs e \<Longrightarrow> \<forall>kv \<in> set kvs. fdepth (snd kv) < nest \<Longrightarrow>
    offset_to_next ed = word_of_nat off \<Longrightarrow>
    \<exists>ed'. skip_map_loop nest db (length kvs) ed = Done (MMDB_SUCCESS, ed')
      \<and> offset_to_next ed' = word_of_nat e"
proof (induction kvs arbitrary: off ed)
  case Nil
  then show ?case by (auto elim: pairs_nilE)
next
  case (Cons kv kvs)
  from Cons.prems(1) obtain k v m m' where kv: "kv = (k, v)"
    and m: "field_at (data_section db) off (F_string k) m" "field_at (data_section db) m v m'"
      "pairs_at (data_section db) m' kvs e" by (rule pairs_consE)
  have v: "fdepth v < nest" using Cons.prems(2) kv by simp
  obtain ed0 where s0: "decode_one db (word_of_nat off) ed = Done (MMDB_SUCCESS, ed0)"
      "offset_to_next ed0 = word_of_nat m"
    using decode_one_field_next[OF ok m(1)] by auto
  from step_over_field[OF ok m(2) v skip[OF v]] obtain ed1 where
    s: "checked (decode_one db (word_of_nat m) ed0) (skip_map_or_array nest db) = Done (MMDB_SUCCESS, ed1)"
      "offset_to_next ed1 = word_of_nat m'" by blast
  from Cons.IH[OF m(3) _ s(2)] Cons.prems(2) obtain ed' where
    "skip_map_loop nest db (length kvs) ed1 = Done (MMDB_SUCCESS, ed')" "offset_to_next ed' = word_of_nat e"
    by auto
  with s s0 Cons.prems(3) show ?case by (simp add: skip_map_loop_Suc del: skip_map_loop.simps(2))
qed

lemma size_word: "n \<le> max_size \<Longrightarrow> unat (word_of_nat n :: u32) = n"
  by (intro unat_u32) simp

lemma word_of_unat: "(word_of_nat (unat w) :: 'a::len word) = w"
  by simp

lemma skip_entry:
  assumes ok: "data_ok db"
  shows "fdepth v < nest \<Longrightarrow> entry_at (data_section db) v e ed \<Longrightarrow>
    \<exists>ed'. skip_map_or_array nest db ed = Done (MMDB_SUCCESS, ed') \<and> offset_to_next ed' = word_of_nat e"
proof (induction nest arbitrary: v e ed)
  case (Suc nest)
  show ?case
  proof (cases "compound v")
    case False
    then show ?thesis
      using Suc.prems(2) entry_shows_compound[of ed v] by (auto simp: entry_at_def contents_at_scalar)
  next
    case True
    then consider (map) kvs where "v = F_map kvs" | (array) vs where "v = F_array vs"
      by (cases v) auto
    then show ?thesis
    proof cases
      case map
      with Suc.prems have d: "\<forall>kv \<in> set kvs. fdepth (snd kv) < nest"
        and p: "pairs_at (data_section db) (unat (offset_to_next ed)) kvs e"
        and t: "data_type ed = MMDB_DATA_TYPE_MAP" "data_size ed = Some (word_of_nat (length kvs))"
          "length kvs \<le> max_size"
        by (auto simp: fdepth_map_less entry_at_def)
      then show ?thesis
        using skip_pairs[OF ok Suc.IH p d] t by (simp add: size_word)
    next
      case array
      with Suc.prems have d: "\<forall>v \<in> set vs. fdepth v < nest"
        and p: "fields_at (data_section db) (unat (offset_to_next ed)) vs e"
        and t: "data_type ed = MMDB_DATA_TYPE_ARRAY" "data_size ed = Some (word_of_nat (length vs))"
          "length vs \<le> max_size"
        by (auto simp: fdepth_array_less entry_at_def)
      then show ?thesis
        using skip_fields[OF ok Suc.IH p d] t by (simp add: size_word)
    qed
  qed
qed simp

interpretation section_reader: field_reader data_ok decode_one decode_one_follow skip_map_or_array
  by unfold_locales (auto intro!: decode_one_follow_field step_over_field skip_entry)

end
