(* ===== verification/PathRefinement.thy ===== *)
theory PathRefinement
  imports PathSpec
begin

text \<open>
  The abstract lookup of a path in a value, and the proof that \<open>MMDB_aget_value\<close> of
  \<^verbatim>\<open>libmaxminddb/src/maxminddb.c\<close> computes it on every data section that holds an
  encoding of the value. Reading the section goes through the laws of \<open>field_reader\<close>.
\<close>

section \<open>Lookup in a value\<close>

text \<open>One path element: a decimal index into an array, or a key of a map.\<close>

fun field_step :: "field \<Rightarrow> string \<Rightarrow> status + field" where
  "field_step (F_array vs) path_elem =
     (case strtol path_elem of (v, erange, first_invalid) \<Rightarrow>
        if int_of_long v < 0 \<or> erange then Inl MMDB_INVALID_LOOKUP_PATH_ERROR
        else if first_invalid \<noteq> [] \<or> length vs \<le> nat (int_of_long v) then
          Inl MMDB_LOOKUP_PATH_DOES_NOT_MATCH_DATA_ERROR
        else Inr (vs ! nat (int_of_long v)))"
| "field_step (F_map kvs) path_elem =
     (case map_of kvs (c_bytes path_elem) of
        None \<Rightarrow> Inl MMDB_LOOKUP_PATH_DOES_NOT_MATCH_DATA_ERROR
      | Some v \<Rightarrow> Inr v)"
| "field_step _ path_elem = Inl MMDB_LOOKUP_PATH_DOES_NOT_MATCH_DATA_ERROR"

fun field_get :: "field \<Rightarrow> string list \<Rightarrow> status + field" where
  "field_get v [] = Inr v"
| "field_get v (path_elem # path) =
     (case field_step v path_elem of Inl st \<Rightarrow> Inl st | Inr w \<Rightarrow> field_get w path)"

text \<open>A status and an entry that stand for the result of a lookup.\<close>

definition gives :: "cptr \<Rightarrow> MMDB_entry_data_s outcome \<Rightarrow> status + field \<Rightarrow> bool" where
  "gives mem m r \<longleftrightarrow> (\<exists>st ed. m = Done (st, ed) \<and>
     (case r of Inl err \<Rightarrow> st = err \<and> err \<noteq> MMDB_SUCCESS
      | Inr w \<Rightarrow> st = MMDB_SUCCESS \<and> (\<exists>e. entry_at mem w e ed)
         \<and> (\<exists>e. encoded mem (unat (data_offset ed)) w e)))"

lemma gives_Inl: "gives mem m (Inl err) \<longleftrightarrow> (\<exists>ed. m = Done (err, ed)) \<and> err \<noteq> MMDB_SUCCESS"
  by (auto simp: gives_def)

lemma gives_Inr: "gives mem m (Inr w) \<longleftrightarrow> (\<exists>ed e e'. m = Done (MMDB_SUCCESS, ed) \<and> entry_at mem w e ed
    \<and> encoded mem (unat (data_offset ed)) w e')"
  by (auto simp: gives_def)

lemma gives_cases:
  assumes "gives mem m r"
  obtains (err) err ed where "r = Inl err" "m = Done (err, ed)" "err \<noteq> MMDB_SUCCESS"
  | (ok) w ed e e' where "r = Inr w" "m = Done (MMDB_SUCCESS, ed)" "entry_at mem w e ed"
      "encoded mem (unat (data_offset ed)) w e'"
  using assms by (cases r) (auto simp: gives_Inl gives_Inr)

lemma map_size_word:
  "entry_at mem (F_map kvs) e ed \<Longrightarrow> size_of_entry ed = Done (word_of_nat (length kvs)) \<and> length kvs \<le> max_size"
  by (simp add: entry_at_def)

lemma array_size_word:
  "entry_at mem (F_array vs) e ed \<Longrightarrow> size_of_entry ed = Done (word_of_nat (length vs)) \<and> length vs \<le> max_size"
  by (simp add: entry_at_def)

section \<open>Arrays\<close>

lemma array_index_loop_rounds:
  "array_index_loop nest db n = rounds n (\<lambda>ed. checked (decode_one db (offset_to_next ed) ed)
     (skip_map_or_array nest db))"
proof (induction n)
  case (Suc n)
  show ?case
    by (rule ext) (auto simp: Suc checked_def run_simps split: prod.split intro!: bind_run_cong)
qed (rule ext, simp)

lemma lookup_path_in_array_gives:
  assumes ok: "data_ok db" and at: "entry_at (data_section db) (F_array vs) e ed"
    and nest: "fdepth (F_array vs) < Suc nest"
  shows "gives (data_section db) (lookup_path_in_array nest path_elem db ed)
    (field_step (F_array vs) path_elem)"
proof -
  obtain v erange rest where s: "strtol path_elem = (v, erange, rest)"
    by (cases "strtol path_elem")
  let ?i = "int_of_long v"
  have sz: "size_of_entry ed = Done (word_of_nat (length vs))" "length vs \<le> max_size"
    using array_size_word[OF at] by auto
  then have u: "uint (word_of_nat (length vs) :: u32) = int (length vs)"
    using size_word[of "length vs"] by (metis uint_nat)
  show ?thesis
  proof (cases "?i < 0 \<or> erange \<or> rest \<noteq> [] \<or> length vs \<le> nat ?i")
    case True
    then show ?thesis
      using sz(1) s by (auto simp: lookup_path_in_array_def gives_Inl u Let_def simp del: size_of_entry.simps)
  next
    case False
    then have i: "0 \<le> ?i" "nat ?i < length vs" "\<not> erange" "rest = []" by auto
    have d: "\<forall>v \<in> set vs. fdepth v < nest" using nest by (simp add: fdepth_array_less)
    have p: "fields_at (data_section db) (unat (offset_to_next ed)) vs e"
      using at by (simp add: entry_at_def)
    obtain ed1 ed2 e' where loop: "array_index_loop nest db (nat ?i) ed = Done (MMDB_SUCCESS, ed1)"
      and val: "decode_one_follow db (offset_to_next ed1) uninit_entry_data = Done (MMDB_SUCCESS, ed2)"
        "followed (data_section db) (vs ! nat ?i) e' ed2"
      using section_reader.read_element[OF ok p i(2) d word_of_unat[symmetric], of uninit_entry_data]
      unfolding array_index_loop_rounds by blast
    have "lookup_path_in_array nest path_elem db ed = Done (MMDB_SUCCESS, ed2)"
      using i sz(1) s loop val(1)
      by (simp add: lookup_path_in_array_def u Let_def not_le del: size_of_entry.simps)
    moreover have "field_step (F_array vs) path_elem = Inr (vs ! nat ?i)"
      using i s by simp
    ultimately show ?thesis
      using val(2) by (auto simp: gives_Inr followed_def)
  qed
qed

section \<open>Maps\<close>

lemma stored_readable: "stored p bs \<Longrightarrow> readable p (length bs)"
proof (cases p)
  case (Ptr b i)
  assume s: "stored p bs"
  show ?thesis
  proof (cases "bs = []")
    case False
    with s have "deref p (length bs - 1) \<noteq> Fault" by (simp add: stored_def)
    then show ?thesis using Ptr False by (auto split: if_splits)
  qed (simp add: Ptr)
qed (auto simp: stored_def)

lemma stored_bytes_at_eq: "stored p bs \<Longrightarrow> bytes_at p (length bs) = bs"
proof -
  assume s: "stored p bs"
  have r: "readable p (length bs)" by (rule stored_readable[OF s])
  show ?thesis
  proof (rule nth_equalityI)
    fix i assume "i < length (bytes_at p (length bs))"
    then have i: "i < length bs" using r by simp
    show "bytes_at p (length bs) ! i = bs ! i"
      using deref_readable[OF r i] stored_nth[OF s i] by simp
  qed (simp add: r)
qed

lemma memcmp_eq_stored: "stored p xs \<Longrightarrow> stored q ys \<Longrightarrow> length xs = length ys \<Longrightarrow>
    memcmp_eq p q (length ys) = Done (xs = ys)"
  using memcmp_eq_readable[of p "length ys" q] stored_readable[of p xs] stored_readable[of q ys]
    stored_bytes_at_eq[of p xs] stored_bytes_at_eq[of q ys] by simp

lemma stored_block: "stored (Ptr bs 0) bs"
  by (simp add: stored_def)

lemma key_matches_entry:
  assumes "entry_at mem (F_string k) e key"
  shows "key_matches path_elem key = Done (k = c_bytes path_elem)"
proof -
  have sz: "data_size key = Some (word_of_nat (length k))" "length k \<le> max_size"
    using assms by (auto simp: entry_at_def)
  obtain p where p: "entry_value key = U_utf8_string p" "stored p k"
    using assms by (auto simp: entry_at_def split: entry_union.splits)
  have u: "unat (word_of_nat (length k) :: u32) = length k" by (rule size_word[OF sz(2)])
  have "memcmp_eq (Ptr (c_bytes path_elem) 0) p (length k) = Done (c_bytes path_elem = k)"
    if "length k = length path_elem"
    using memcmp_eq_stored[OF stored_block p(2), of "c_bytes path_elem"] that by (simp add: c_bytes_def)
  then show ?thesis
    using sz p(1) u by (auto simp: key_matches_def c_bytes_def)
qed

lemma lookup_map_loop_gives:
  assumes ok: "data_ok db"
  shows "pairs_at (data_section db) off kvs e \<Longrightarrow> \<forall>kv \<in> set kvs. fdepth (snd kv) < nest \<Longrightarrow>
    gives (data_section db) (lookup_map_loop nest path_elem db (length kvs) (word_of_nat off) ed)
      (field_step (F_map kvs) path_elem)"
proof (induction kvs arbitrary: off)
  case Nil
  then show ?case by (simp add: gives_Inl)
next
  case (Cons kv kvs)
  from Cons.prems(1) obtain k v m m' where kv: "kv = (k, v)"
    and m: "field_at (data_section db) off (F_string k) m" "field_at (data_section db) m v m'"
      "pairs_at (data_section db) m' kvs e" by (rule pairs_consE)
  obtain key e1 where key: "decode_one_follow db (word_of_nat off) uninit_entry_data = Done (MMDB_SUCCESS, key)"
      "entry_at (data_section db) (F_string k) e1 key" "offset_to_next key = word_of_nat m"
    using section_reader.follow_field[OF ok m(1), of uninit_entry_data]
    by (auto simp: followed_def entry_at_def)
  have ty: "data_type key = MMDB_DATA_TYPE_UTF8_STRING"
    using key(2) by (simp add: entry_at_def)
  note km = key_matches_entry[OF key(2), of path_elem]
  show ?case
  proof (cases "k = c_bytes path_elem")
    case True
    obtain val e2 e3 where "decode_one_follow db (word_of_nat m) uninit_entry_data = Done (MMDB_SUCCESS, val)"
        "entry_at (data_section db) v e2 val" "encoded (data_section db) (unat (data_offset val)) v e3"
      using section_reader.follow_field[OF ok m(2), of uninit_entry_data]
      by (auto simp: followed_def)
    then show ?thesis
      using True key km ty kv by (auto simp: gives_Inr)
  next
    case False
    have "fdepth v < nest" using Cons.prems(2) kv by simp
    from section_reader.step_over[OF ok m(2) this, of uninit_entry_data] obtain ed1 where
      "checked (decode_one db (word_of_nat m) uninit_entry_data) (skip_map_or_array nest db)
        = Done (MMDB_SUCCESS, ed1)" and n1: "offset_to_next ed1 = word_of_nat m'" by blast
    then obtain ed0 where "decode_one db (word_of_nat m) uninit_entry_data = Done (MMDB_SUCCESS, ed0)"
      "skip_map_or_array nest db ed0 = Done (MMDB_SUCCESS, ed1)"
      by (auto simp: checked_eq_success)
    then have "lookup_map_loop nest path_elem db (length (kv # kvs)) (word_of_nat off) ed
        = lookup_map_loop nest path_elem db (length kvs) (word_of_nat m') ed"
      using False key km ty n1 by simp
    moreover have "field_step (F_map (kv # kvs)) path_elem = field_step (F_map kvs) path_elem"
      using False kv by simp
    ultimately show ?thesis using Cons.IH[OF m(3)] Cons.prems(2) by simp
  qed
qed

lemma lookup_path_in_map_gives:
  assumes ok: "data_ok db" and at: "entry_at (data_section db) (F_map kvs) e ed"
    and nest: "fdepth (F_map kvs) < Suc nest"
  shows "gives (data_section db) (lookup_path_in_map nest path_elem db ed) (field_step (F_map kvs) path_elem)"
proof -
  have sz: "size_of_entry ed = Done (word_of_nat (length kvs))" "length kvs \<le> max_size"
    using map_size_word[OF at] by auto
  have d: "\<forall>kv \<in> set kvs. fdepth (snd kv) < nest" using nest by (simp add: fdepth_map_less)
  have p: "pairs_at (data_section db) (unat (offset_to_next ed)) kvs e"
    using at by (simp add: entry_at_def)
  show ?thesis
    using lookup_map_loop_gives[OF ok p d, of path_elem ed] sz
    by (simp add: lookup_path_in_map_def size_word del: size_of_entry.simps field_step.simps)
qed

section \<open>Whole paths\<close>

lemma field_step_depth: "field_step v p = Inr w \<Longrightarrow> fdepth v < Suc nest \<Longrightarrow> fdepth w < nest"
proof (cases v)
  case (F_map kvs)
  assume "field_step v p = Inr w" "fdepth v < Suc nest"
  then show ?thesis
    using F_map map_of_SomeD[of kvs "c_bytes p" w] by (auto simp: fdepth_map_less split: option.splits)
next
  case (F_array vs)
  assume "field_step v p = Inr w" "fdepth v < Suc nest"
  then show ?thesis
    using F_array nth_mem[of _ vs] by (auto simp: fdepth_array_less split: prod.splits if_splits)
qed auto

lemma aget_loop_gives:
  assumes ok: "data_ok db"
  shows "entry_at (data_section db) v e ed \<Longrightarrow> encoded (data_section db) (unat (data_offset ed)) v e' \<Longrightarrow>
    fdepth v < Suc nest \<Longrightarrow>
    gives (data_section db) (aget_loop nest db path ed) (field_get v path)
    \<and> (\<forall>err. field_get v path = Inl err \<longrightarrow> aget_loop nest db path ed = Done (err, zero_entry_data))"
proof (induction path arbitrary: v e e' ed)
  case Nil
  then show ?case by (auto simp: gives_Inr)
next
  case (Cons p path)
  define look where "look = (if data_type ed = MMDB_DATA_TYPE_ARRAY
    then lookup_path_in_array nest p db ed else lookup_path_in_map nest p db ed)"
  show ?case
  proof (cases "compound v")
    case False
    then have "field_step v p = Inl MMDB_LOOKUP_PATH_DOES_NOT_MATCH_DATA_ERROR" by (cases v) auto
    moreover have "data_type ed \<noteq> MMDB_DATA_TYPE_MAP" "data_type ed \<noteq> MMDB_DATA_TYPE_ARRAY"
      using False Cons.prems(1) entry_shows_compound[of ed v] by (auto simp: entry_at_def)
    ultimately show ?thesis by (simp add: gives_Inl)
  next
    case True
    have "gives (data_section db) look (field_step v p)"
      using True Cons.prems lookup_path_in_array_gives[OF ok] lookup_path_in_map_gives[OF ok]
      by (cases v) (simp_all add: look_def entry_at_def del: field_step.simps)
    moreover have "aget_loop nest db (p # path) ed = bind_run look (\<lambda>(st, ed).
        if st \<noteq> MMDB_SUCCESS then Done (st, zero_entry_data) else aget_loop nest db path ed)"
      using True Cons.prems(1) entry_shows_compound[of ed v] by (auto simp: look_def entry_at_def)
    ultimately show ?thesis
    proof (cases rule: gives_cases)
      case (err err ed1)
      then show ?thesis
        using \<open>aget_loop nest db (p # path) ed = _\<close> by (simp add: gives_Inl)
    next
      case (ok w ed1 e1 e2)
      have "fdepth w < Suc nest"
        using field_step_depth[OF ok(1) Cons.prems(3)] by simp
      from Cons.IH[OF ok(3,4) this] show ?thesis
        using \<open>aget_loop nest db (p # path) ed = _\<close> ok by simp
    qed
  qed
qed

lemma aget_value_gives:
  assumes "data_ok db" "field_at (data_section db) (unat (entry_offset start)) v e" "fdepth v \<le> nest"
  shows "gives (data_section db) (MMDB_aget_value nest db start path) (field_get v path)
    \<and> (\<forall>err. field_get v path = Inl err \<longrightarrow>
        MMDB_aget_value nest db start path = Done (err, zero_entry_data))"
proof -
  obtain ed e' e'' where ed: "decode_one_follow db (entry_offset start) zero_entry_data = Done (MMDB_SUCCESS, ed)"
      "entry_at (data_section db) v e' ed" "encoded (data_section db) (unat (data_offset ed)) v e''"
    using section_reader.follow_field[OF assms(1,2), of zero_entry_data]
    by (auto simp: followed_def)
  then have "MMDB_aget_value nest db start path = aget_loop nest db path ed"
    by (simp add: MMDB_aget_value_def entry_at_def)
  then show ?thesis
    using aget_loop_gives[OF assms(1) ed(2,3)] assms(3) by simp
qed

lemma aget_value_cases:
  assumes "data_ok db" "field_at (data_section db) (unat (entry_offset start)) v e" "fdepth v \<le> nest"
  shows "case field_get v path of
      Inl err \<Rightarrow> err \<noteq> MMDB_SUCCESS \<and> MMDB_aget_value nest db start path = Done (err, zero_entry_data)
    | Inr w \<Rightarrow> \<exists>ed. MMDB_aget_value nest db start path = Done (MMDB_SUCCESS, ed) \<and> entry_shows ed w"
  using aget_value_gives[OF assms, of path]
  by (cases "field_get v path") (auto simp: gives_Inl gives_Inr entry_at_def)

section \<open>Variable arguments\<close>

lemma collect_path_list: "collect_path (map Some path @ None # va) = Done path"
  by (induction path) simp_all

lemma path_length_list: "path_length (map Some path @ None # va) = Done (length path)"
  by (induction path) simp_all

end
