(* ===== verification/DataSafety.thy ===== *)
theory DataSafety
  imports PathRefinement
begin

text \<open>
  Decoding arbitrary bytes: how far \<open>decode_one\<close> reads, which statuses it returns, that it always
  moves forward, and that skipping and path lookup therefore end on every content of the file.
\<close>

section \<open>Getters\<close>

lemma get_uint24_Done: "get_uint24 p = Done v \<Longrightarrow> unat v < 2 ^ 24"
proof -
  assume "get_uint24 p = Done v"
  then obtain a b c :: u8 where v: "v = ucast a * 65536 + ucast b * 256 + ucast c"
    unfolding get_uint24_def bind_run_eq_Done by blast
  then have "v = word_of_nat (be_val [a, b, c])" by (simp add: algebra_simps)
  moreover have "be_val [a, b, c] < 2 ^ 24" using be_val_less[of "[a, b, c]"] by simp
  ultimately show ?thesis using unat_u32[of "be_val [a, b, c]"] by simp
qed

lemma get_uint16_Done: "get_uint16 p = Done v \<Longrightarrow> unat v < 2 ^ 16"
proof -
  assume "get_uint16 p = Done v"
  then obtain a b :: u8 where v: "v = ucast a * 256 + ucast b"
    unfolding get_uint16_def bind_run_eq_Done by blast
  then have "v = word_of_nat (be_val [a, b])" by (simp add: algebra_simps)
  moreover have "be_val [a, b] < 2 ^ 16" using be_val_less[of "[a, b]"] by simp
  ultimately show ?thesis using unat_u32[of "be_val [a, b]"] by simp
qed

lemma uint_loop_terminates [run_intros]: "terminates (uint_loop p n v)"
  by (induction n arbitrary: p v) (auto intro: run_intros)

lemma getters_terminate [run_intros]:
  "terminates (get_uint16 p)" "terminates (get_uint24 p)" "terminates (get_uint32 p)"
  "terminates (get_uintX p n)" "terminates (get_sintX p n)" "terminates (get_uint128 p n)"
  "terminates (get_ieee754_float p)" "terminates (get_ieee754_double p)"
  by (auto simp: get_uint16_def get_uint24_def get_uint32_def get_uintX_def get_sintX_def
      get_uint128_def get_ieee754_float_def get_ieee754_double_def intro!: run_intros)

lemma get_ptr_from_terminates [run_intros]: "terminates (get_ptr_from c p n)"
  by (auto simp: get_ptr_from_def intro!: run_intros)

text \<open>Inside readable memory the getters return.\<close>

lemma uint_loop_no_fault: "readable p n \<Longrightarrow> no_fault (uint_loop p n v)"
  using uint_loop_stored[OF stored_bytes_at, of p n v] by simp

lemma getters_no_fault [run_intros]:
  "readable p 2 \<Longrightarrow> no_fault (get_uint16 p)" "readable p 3 \<Longrightarrow> no_fault (get_uint24 p)"
  "readable p 4 \<Longrightarrow> no_fault (get_uint32 p)" "readable p n \<Longrightarrow> no_fault (get_uintX p n)"
  "readable p n \<Longrightarrow> no_fault (get_sintX p n)" "readable p n \<Longrightarrow> no_fault (get_uint128 p n)"
  "readable p 4 \<Longrightarrow> no_fault (get_ieee754_float p)" "readable p 8 \<Longrightarrow> no_fault (get_ieee754_double p)"
  using get_uint16_stored[OF stored_bytes_at] get_uint24_stored[OF stored_bytes_at]
    get_uint32_stored[OF stored_bytes_at] get_ieee754_float_stored[OF stored_bytes_at]
    get_ieee754_double_stored[OF stored_bytes_at]
  by (simp_all add: get_sintX_def get_uintX_def get_uint128_def uint_loop_no_fault no_fault_bind)

lemma get_ptr_from_no_fault [run_intros]: "readable p (n + 1) \<Longrightarrow> n < 4 \<Longrightarrow> no_fault (get_ptr_from c p n)"
  by (auto simp: get_ptr_from_def intro!: run_intros elim: readable_mono)

section \<open>decode_one\<close>

lemma decode_size_Done:
  assumes "decode_size mem c off = Done (sz, off')"
  shows "unat sz \<le> max_size \<and> (\<exists>k \<le> 3. off' = off + word_of_nat k)"
proof -
  have small: "unat (29 + ucast (b :: u8) :: u32) \<le> max_size" for b
  proof -
    have "29 + unat b \<le> max_size" using unat_u8_less[of b] by linarith
    then show ?thesis using size_word[of "29 + unat b"] by (simp only: ucast_u8) simp
  qed
  have c: "unat (ucast (c AND 31) :: u32) \<le> max_size"
  proof -
    have "unat c mod 32 < 32" by simp
    then have "unat c mod 32 \<le> max_size" by linarith
    then show ?thesis using size_word[of "unat c mod 32"] by (simp only: ctrl_size)
  qed
  have mid: "unat (285 + v :: u32) \<le> max_size" if "unat v < 2 ^ 16" for v
    using that by (simp add: unat_word_ariths)
  have big: "unat (65821 + v :: u32) \<le> max_size" if "unat v < 2 ^ 24" for v
    using that by (simp add: unat_word_ariths)
  from assms show ?thesis
    using small c mid[OF get_uint16_Done] big[OF get_uint24_Done]
    by (auto simp: decode_size_def Let_def run_simps split: if_splits
        intro: exI[of _ 0] exI[of _ 1] exI[of _ 2] exI[of _ 3])
qed

lemma decode_payload_Done:
  assumes "decode_payload mem ed ty sz off = Done (st, ed')"
  shows "st \<in> {MMDB_SUCCESS, MMDB_INVALID_DATA_ERROR}
    \<and> (st = MMDB_SUCCESS \<longrightarrow> has_data ed' = has_data ed \<and> data_type ed' = data_type ed
        \<and> (offset_to_next ed' = off \<or> offset_to_next ed' = off + sz)
        \<and> ((ty = MMDB_DATA_TYPE_MAP \<or> ty = MMDB_DATA_TYPE_ARRAY \<or> ty = MMDB_DATA_TYPE_UTF8_STRING) \<longrightarrow> data_size ed' = Some sz))"
  using assms by (auto simp: decode_payload_def Let_def run_simps split: if_splits)

text \<open>What \<open>decode_one\<close> does behind the type number.\<close>

definition decode_rest :: "cptr \<Rightarrow> u8 \<Rightarrow> MMDB_entry_data_s \<Rightarrow> u32 \<Rightarrow> u32 \<Rightarrow> MMDB_entry_data_s outcome" where
  "decode_rest mem ctrl ed ty off =
     (if ty = MMDB_DATA_TYPE_POINTER then
        bind_run (get_ptr_from ctrl (ptr_add mem (unat off)) (unat (drop_bit 3 ctrl AND 3))) (\<lambda>p.
          Done (MMDB_SUCCESS, ed\<lparr>entry_value := U_pointer p,
            data_size := Some (ucast (drop_bit 3 ctrl AND 3) + 1),
            offset_to_next := off + ucast (drop_bit 3 ctrl AND 3) + 1\<rparr>))
      else bind_run (decode_size mem ctrl off) (\<lambda>(sz, off). decode_payload mem ed ty sz off))"

lemma decode_rest_Done:
  assumes "decode_rest mem ctrl ed ty off = Done (st, ed')" "data_type ed = ty" "has_data ed"
  shows "st \<in> {MMDB_SUCCESS, MMDB_INVALID_DATA_ERROR}
    \<and> (st = MMDB_SUCCESS \<longrightarrow> has_data ed'
        \<and> (\<exists>n \<le> max_size + 3. offset_to_next ed' = off + word_of_nat n)
        \<and> ((data_type ed' = MMDB_DATA_TYPE_MAP \<or> data_type ed' = MMDB_DATA_TYPE_ARRAY) \<longrightarrow> data_size ed' \<noteq> None))"
proof (cases "ty = MMDB_DATA_TYPE_POINTER")
  case True
  let ?ss = "unat ctrl div 8 mod 4"
  have cs: "(ucast (drop_bit 3 ctrl AND 3) :: u32) = word_of_nat ?ss" by (simp only: ucast_u8 ctrl_psize)
  have n: "off + ucast (drop_bit 3 ctrl AND 3) + 1 = off + word_of_nat (?ss + 1)" unfolding cs by simp
  from True assms(1) obtain p where st: "st = MMDB_SUCCESS" and ed': "ed' = ed\<lparr>entry_value := U_pointer p,
      data_size := Some (ucast (drop_bit 3 ctrl AND 3) + 1),
      offset_to_next := off + ucast (drop_bit 3 ctrl AND 3) + 1\<rparr>"
    by (auto simp: decode_rest_def bind_run_eq_Done)
  have "offset_to_next ed' = off + word_of_nat (?ss + 1)" using ed' n by simp
  moreover have "?ss + 1 \<le> max_size + 3" by linarith
  ultimately have "\<exists>n \<le> max_size + 3. offset_to_next ed' = off + word_of_nat n" by blast
  with st ed' assms(3) show ?thesis by simp
next
  case False
  with assms(1) obtain sz off' where sz: "decode_size mem ctrl off = Done (sz, off')"
    and pay: "decode_payload mem ed ty sz off' = Done (st, ed')"
    by (auto simp: decode_rest_def bind_run_eq_Done)
  from decode_size_Done[OF sz] obtain k where k: "unat sz \<le> max_size" "k \<le> 3" "off' = off + word_of_nat k"
    by blast
  have "off' + sz = off + word_of_nat (k + unat sz)" using k(3) by (simp add: add.assoc)
  have "\<exists>n \<le> max_size + 3. offset_to_next ed' = off + word_of_nat n"
    if "offset_to_next ed' = off' \<or> offset_to_next ed' = off' + sz"
  proof (cases "offset_to_next ed' = off'")
    case True
    then show ?thesis using k(2,3) by (intro exI[of _ k]) simp
  next
    case False
    then have "offset_to_next ed' = off + word_of_nat (k + unat sz)"
      using that \<open>off' + sz = off + word_of_nat (k + unat sz)\<close> by simp
    moreover have "k + unat sz \<le> max_size + 3" using k(1,2) by linarith
    ultimately show ?thesis by blast
  qed
  with decode_payload_Done[OF pay] assms(2,3) show ?thesis by auto
qed

lemma decode_one_rest:
  assumes "\<not> data_section_size mmdb < off"
  shows "decode_one mmdb off ed
    = bind_run (deref (data_section mmdb) (unat off)) (\<lambda>ctrl.
      bind_run (if ucast (drop_bit 5 ctrl AND 7) = MMDB_DATA_TYPE_EXTENDED then
             bind_run (deref (data_section mmdb) (unat (off + 1)))
               (\<lambda>b. Done (get_ext_type (ucast b), off + 1 + 1))
           else Done (ucast (drop_bit 5 ctrl AND 7), off + 1)) (\<lambda>(ty, off').
        decode_rest (data_section mmdb) ctrl
          (ed\<lparr>data_offset := off, has_data := True, data_type := ty\<rparr>) ty off'))"
  using assms
  by (auto simp: decode_one_def decode_rest_def Let_def intro!: bind_run_cong split: prod.split)

text \<open>
  A decoding that succeeds started at most at \<open>data_section_size\<close> and ends between 1 and
  16843041 bytes further on.
\<close>

lemma decode_one_Done:
  assumes "decode_one mmdb off ed = Done (st, ed')"
  shows "st \<in> {MMDB_SUCCESS, MMDB_INVALID_DATA_ERROR}
    \<and> (st = MMDB_SUCCESS \<longrightarrow> off \<le> data_section_size mmdb \<and> has_data ed'
        \<and> (\<exists>n. 1 \<le> n \<and> n \<le> max_size + 5 \<and> offset_to_next ed' = off + word_of_nat n)
        \<and> ((data_type ed' = MMDB_DATA_TYPE_MAP \<or> data_type ed' = MMDB_DATA_TYPE_ARRAY) \<longrightarrow> data_size ed' \<noteq> None))"
proof (cases "off > data_section_size mmdb")
  case True
  then show ?thesis using assms by (simp add: decode_one_def)
next
  case False
  note step = decode_one_rest[OF False]
  obtain ctrl ty off' where off': "off' = off + 1 \<or> off' = off + 1 + 1"
    and rest: "decode_rest (data_section mmdb) ctrl
      (ed\<lparr>data_offset := off, has_data := True, data_type := ty\<rparr>) ty off' = Done (st, ed')"
    using assms unfolding step by (auto simp: bind_run_eq_Done split: if_splits)
  from off' obtain j where j: "1 \<le> j" "j \<le> 2" "off' = off + word_of_nat j"
  proof
    assume "off' = off + 1 + 1"
    then show thesis by (intro that[of 2]) (simp_all add: add.assoc)
  qed (auto intro: that[of 1])
  from decode_rest_Done[OF rest] have r: "st \<in> {MMDB_SUCCESS, MMDB_INVALID_DATA_ERROR}"
    "st = MMDB_SUCCESS \<Longrightarrow> has_data ed' \<and> (\<exists>n \<le> max_size + 3. offset_to_next ed' = off' + word_of_nat n)
      \<and> ((data_type ed' = MMDB_DATA_TYPE_MAP \<or> data_type ed' = MMDB_DATA_TYPE_ARRAY) \<longrightarrow> data_size ed' \<noteq> None)"
    by simp_all
  have "\<exists>n. 1 \<le> n \<and> n \<le> max_size + 5 \<and> offset_to_next ed' = off + word_of_nat n"
    if ok: "st = MMDB_SUCCESS"
  proof -
    obtain n where "n \<le> max_size + 3" "offset_to_next ed' = off' + word_of_nat n" using r(2)[OF ok] by blast
    then have "1 \<le> j + n \<and> j + n \<le> max_size + 5 \<and> offset_to_next ed' = off + word_of_nat (j + n)"
      using j by (simp add: add.assoc)
    then show ?thesis by blast
  qed
  with r False show ?thesis by (simp add: not_less)
qed

lemma decode_one_advances:
  assumes dec: "decode_one mmdb off ed = Done (MMDB_SUCCESS, ed')"
    and small: "unat (data_section_size mmdb) + max_size + 5 < 2 ^ 32"
  shows "unat off \<le> unat (data_section_size mmdb)" "unat off < unat (offset_to_next ed')"
proof -
  from decode_one_Done[OF dec] obtain n where le: "off \<le> data_section_size mmdb"
    and n: "1 \<le> n" "n \<le> max_size + 5" "offset_to_next ed' = off + word_of_nat n" by auto
  from le show u: "unat off \<le> unat (data_section_size mmdb)" by (simp add: word_le_nat_alt)
  then have "unat off + n < 2 ^ 32" using n(2) small by linarith
  then have "unat (word_of_nat (unat off + n) :: u32) = unat off + n" by (rule unat_u32)
  then show "unat off < unat (offset_to_next ed')" using n by simp
qed

section \<open>decode_one returns\<close>

lemma decode_size_terminates [run_intros]: "terminates (decode_size mem c off)"
  by (auto simp: decode_size_def Let_def intro!: run_intros)

lemma decode_payload_terminates [run_intros]: "terminates (decode_payload mem ed ty sz off)"
  by (auto simp: decode_payload_def Let_def intro!: run_intros)

lemma decode_one_terminates [run_intros]: "terminates (decode_one mmdb off ed)"
  by (auto simp: decode_one_def Let_def intro!: run_intros split: prod.split)

lemma readable_from: "readable p n \<Longrightarrow> m + k \<le> n \<Longrightarrow> readable (ptr_add p m) k"
  by (rule readable_ptr_add, rule readable_mono)

lemma decode_payload_no_fault:
  assumes "readable (ptr_add mem (unat off)) 16"
  shows "no_fault (decode_payload mem ed ty sz off)"
proof -
  have r: "readable (ptr_add mem (unat off)) (unat sz)" if "sz \<le> word_of_nat n" "n \<le> 16" for n
    using that readable_mono[OF assms, of "unat sz"] by (simp add: word_le_nat_alt unat_u32)
  show ?thesis
    using r[of 2] r[of 4] r[of 8] r[of 16] readable_mono[OF assms, of 4] readable_mono[OF assms, of 8]
    by (auto simp: decode_payload_def Let_def not_less intro!: run_intros)
qed

lemma decode_size_no_fault:
  assumes "readable (ptr_add mem (unat off)) 3"
  shows "no_fault (decode_size mem c off)"
proof -
  have "readable mem (unat off + 1)" using assms by (cases mem) auto
  then show ?thesis
    using readable_mono[OF assms, of 2] assms
    by (auto simp: decode_size_def Let_def intro!: run_intros)
qed

lemma unat_add_u32: "unat (off :: u32) + k < 2 ^ 32 \<Longrightarrow> unat (off + word_of_nat k) = unat off + k"
proof -
  assume "unat off + k < 2 ^ 32"
  moreover have "off + word_of_nat k = word_of_nat (unat off + k)"
    by (simp only: of_nat_add word_of_unat)
  ultimately show ?thesis by (simp only: unat_u32)
qed

lemma readable_off:
  assumes "readable mem (unat (off :: u32) + n)" "unat off + n < 2 ^ 32" "k \<le> n"
  shows "readable (ptr_add mem (unat (off + word_of_nat k))) (n - k)"
proof -
  have "unat (off + word_of_nat k) = unat off + k"
    using unat_add_u32[of off k] assms(2,3) by simp
  then show ?thesis using readable_from[OF assms(1), of "unat off + k" "n - k"] assms(3) by simp
qed

lemma decode_rest_no_fault:
  fixes off :: u32
  assumes r: "readable mem (unat off + 21)" and off: "unat off + 21 < 2 ^ 32" and j: "j \<le> 2"
  shows "no_fault (decode_rest mem ctrl ed ty (off + word_of_nat j))"
proof -
  have at: "readable (ptr_add mem (unat (off + word_of_nat k))) m" if "k \<le> 21" "m \<le> 21 - k" for k m
    using readable_mono[OF readable_off[OF r off that(1)] that(2)] .
  have p: "readable (ptr_add mem (unat (off + word_of_nat j))) (m + 1)" if "m < 4" for m
    using at[of j "m + 1"] that j by simp
  have s: "readable (ptr_add mem (unat (off + word_of_nat j))) 3"
    using at[of j 3] j by simp
  have pay: "no_fault (decode_payload mem ed ty sz off2)"
    if sz: "decode_size mem ctrl (off + word_of_nat j) = Done (sz, off2)" for sz off2
  proof -
    obtain k where "k \<le> 3" "off2 = off + word_of_nat j + word_of_nat k"
      using decode_size_Done[OF sz] by blast
    then have "off2 = off + word_of_nat (j + k)" "j + k \<le> 5"
      using j by (simp_all add: add.assoc)
    then have "readable (ptr_add mem (unat off2)) 16"
      using at[of "j + k" 16] by simp
    then show ?thesis by (rule decode_payload_no_fault)
  qed
  have "unat (drop_bit 3 ctrl AND 3) < 4" by (simp add: ctrl_psize)
  from p[OF this] this show ?thesis
    using s pay by (auto simp: decode_rest_def intro!: run_intros decode_size_no_fault)
qed

lemma decode_one_no_fault:
  assumes r: "off \<le> data_section_size mmdb \<Longrightarrow> readable (data_section mmdb) (unat off + 21)"
    and off: "unat off + 21 < 2 ^ 32"
  shows "no_fault (decode_one mmdb off ed)"
proof (cases "off > data_section_size mmdb")
  case True
  then show ?thesis by (simp add: decode_one_def)
next
  case False
  let ?mem = "data_section mmdb"
  have r: "readable ?mem (unat off + 21)" using r False by (simp add: not_less)
  have o1: "unat (off + 1) = unat off + 1"
    using unat_add_u32[of off 1] off by simp
  have reads: "no_fault (deref ?mem (unat off))" "no_fault (deref ?mem (unat (off + 1)))"
    using no_fault_deref[OF r, of "unat off"] no_fault_deref[OF r, of "unat (off + 1)"] o1 by simp_all
  note rest = decode_rest_no_fault[OF r off]
  have "decode_one mmdb off ed
    = bind_run (deref ?mem (unat off)) (\<lambda>ctrl.
      bind_run (if ucast (drop_bit 5 ctrl AND 7) = MMDB_DATA_TYPE_EXTENDED then
             bind_run (deref ?mem (unat (off + 1)))
               (\<lambda>b. Done (get_ext_type (ucast b), off + 1 + 1))
           else Done (ucast (drop_bit 5 ctrl AND 7), off + 1)) (\<lambda>(ty, off').
        decode_rest ?mem ctrl (ed\<lparr>data_offset := off, has_data := True, data_type := ty\<rparr>) ty off'))"
    using False by (rule decode_one_rest)
  then show ?thesis
    using reads rest[of 1] rest[of 2]
    by (auto intro!: run_intros simp: add.assoc bind_run_eq_Done split: if_splits)
qed

section \<open>Skipping and looking up end\<close>

text \<open>
  Every decoding moves forward and starts inside the section, so the nesting of a value is less
  than the number of bytes from its first entry to the end of the section.
\<close>

definition no_wrap :: "MMDB_s \<Rightarrow> bool" where
  "no_wrap mmdb \<longleftrightarrow> unat (data_section_size mmdb) + max_size + 5 < 2 ^ 32"

definition enough :: "MMDB_s \<Rightarrow> nat \<Rightarrow> MMDB_entry_data_s \<Rightarrow> bool" where
  "enough mmdb nest ed \<longleftrightarrow> 0 < nest \<and> unat (data_section_size mmdb) + 2 \<le> nest + unat (offset_to_next ed)"

definition skips :: "(MMDB_entry_data_s \<Rightarrow> MMDB_entry_data_s outcome) \<Rightarrow> MMDB_entry_data_s \<Rightarrow> bool" where
  "skips f ed \<longleftrightarrow> terminates (f ed) \<and>
     (\<forall>ed'. f ed = Done (MMDB_SUCCESS, ed') \<longrightarrow> unat (offset_to_next ed) \<le> unat (offset_to_next ed'))"

lemma skips_rounds:
  assumes f: "\<And>ed. P ed \<Longrightarrow> skips f ed"
    and P: "\<And>ed ed'. P ed \<Longrightarrow> unat (offset_to_next ed) \<le> unat (offset_to_next ed') \<Longrightarrow> P ed'"
  shows "P ed \<Longrightarrow> skips (rounds n f) ed"
proof (induction n arbitrary: ed)
  case 0
  then show ?case by (simp add: skips_def)
next
  case (Suc n)
  have "skips (rounds n f) ed'" if "f ed = Done (MMDB_SUCCESS, ed')" for ed'
    using Suc f[OF Suc.prems] that P[OF Suc.prems] by (auto simp: skips_def)
  then show ?case
    using f[OF Suc.prems]
    by (auto simp: skips_def checked_eq_success intro!: run_intros intro: le_trans)
qed

lemma skips_decode:
  assumes w: "no_wrap mmdb" and e: "enough mmdb (Suc nest) ed"
    and k: "\<And>ed'. enough mmdb nest ed' \<Longrightarrow> skips k ed'"
  shows "skips (\<lambda>ed. checked (decode_one mmdb (offset_to_next ed) ed) k) ed"
proof -
  have step: "enough mmdb nest ed' \<and> unat (offset_to_next ed) < unat (offset_to_next ed')"
    if d: "decode_one mmdb (offset_to_next ed) ed = Done (MMDB_SUCCESS, ed')" for ed'
    using decode_one_advances[OF d] w e by (auto simp: no_wrap_def enough_def)
  then have "skips k ed'" if "decode_one mmdb (offset_to_next ed) ed = Done (MMDB_SUCCESS, ed')" for ed'
    using that k by blast
  with step show ?thesis
    by (auto simp: skips_def checked_eq_success intro!: run_intros intro: le_trans less_imp_le)
qed

lemma enough_mono:
  "enough mmdb nest ed \<Longrightarrow> unat (offset_to_next ed) \<le> unat (offset_to_next ed') \<Longrightarrow> enough mmdb nest ed'"
  by (simp add: enough_def)

lemma skip_map_loop_rounds:
  "skip_map_loop nest db n = rounds n (\<lambda>ed. checked (decode_one db (offset_to_next ed) ed) (\<lambda>ed.
     checked (decode_one db (offset_to_next ed) ed) (skip_map_or_array nest db)))"
proof (induction n)
  case (Suc n)
  show ?case
    by (rule ext) (auto simp: Suc checked_def run_simps split: prod.split intro!: bind_run_cong)
qed (rule ext, simp)

lemma size_of_entry_terminates [run_intros]: "terminates (size_of_entry ed)"
  by (simp split: option.split)

lemma skip_skips:
  assumes w: "no_wrap mmdb"
  shows "enough mmdb nest ed \<Longrightarrow> skips (skip_map_or_array nest mmdb) ed"
proof (induction nest arbitrary: ed)
  case 0
  then show ?case by (simp add: enough_def)
next
  case (Suc nest)
  have one: "skips (\<lambda>ed. checked (decode_one mmdb (offset_to_next ed) ed) (skip_map_or_array nest mmdb)) ed"
    if "enough mmdb (Suc nest) ed" for ed
    by (rule skips_decode[OF w that Suc.IH])
  have "skips (\<lambda>ed. checked (decode_one mmdb (offset_to_next ed) ed) (\<lambda>ed.
      checked (decode_one mmdb (offset_to_next ed) ed) (skip_map_or_array nest mmdb))) ed"
    if "enough mmdb (Suc nest) ed" for ed
    using that by (intro skips_decode[OF w _ one, of nest]) (auto simp: enough_def)
  then have "skips (skip_map_loop nest mmdb n) ed" "skips (skip_array_loop nest mmdb n) ed" for n
    unfolding skip_map_loop_rounds skip_array_loop_rounds
    using Suc.prems one by (auto intro!: skips_rounds[of "enough mmdb (Suc nest)"] elim: enough_mono)
  then show ?case
    by (auto simp: skips_def bind_run_eq_Done simp del: size_of_entry.simps intro!: run_intros)
qed

lemma skip_after_decode:
  assumes w: "no_wrap mmdb" and n: "unat (data_section_size mmdb) < nest"
    and d: "decode_one mmdb off ed = Done (MMDB_SUCCESS, ed')"
  shows "skips (skip_map_or_array nest mmdb) ed'"
  using decode_one_advances[OF d] w n by (intro skip_skips) (simp_all add: no_wrap_def enough_def)

lemma union_terminates [run_intros]: "terminates (union_pointer u)" "terminates (union_utf8_string u)"
  by (cases u; simp)+

lemma decode_one_follow_terminates [run_intros]: "terminates (decode_one_follow mmdb off ed)"
  by (auto simp: decode_one_follow_def Let_def intro!: run_intros)

lemma memcmp_eq_terminates [run_intros]: "terminates (memcmp_eq p q n)"
  by (induction n arbitrary: p q) (auto intro!: run_intros)

lemma key_matches_terminates [run_intros]: "terminates (key_matches path_elem key)"
  by (auto simp: key_matches_def simp del: size_of_entry.simps intro!: run_intros)

lemma lookup_map_loop_terminates:
  assumes w: "no_wrap mmdb" and n: "unat (data_section_size mmdb) < nest"
  shows "terminates (lookup_map_loop nest path_elem mmdb k off ed)"
proof (induction k arbitrary: off)
  case (Suc k)
  have "terminates (skip_map_or_array nest mmdb val)"
    if "decode_one mmdb off' e = Done (MMDB_SUCCESS, val)" for off' e val
    using skip_after_decode[OF w n that] by (simp add: skips_def)
  with Suc show ?case by (auto intro!: run_intros)
qed simp

lemma array_index_loop_terminates:
  assumes w: "no_wrap mmdb" and n: "unat (data_section_size mmdb) < nest"
  shows "terminates (array_index_loop nest mmdb k ed)"
proof -
  have "skips (\<lambda>ed. checked (decode_one mmdb (offset_to_next ed) ed) (skip_map_or_array nest mmdb)) ed" for ed
    using n by (intro skips_decode[OF w _ skip_skips[OF w], where nest = nest]) (simp_all add: enough_def)
  then have "skips (rounds k (\<lambda>ed. checked (decode_one mmdb (offset_to_next ed) ed)
      (skip_map_or_array nest mmdb))) ed"
    by (intro skips_rounds[of "\<lambda>_. True"]) simp_all
  then show ?thesis by (simp add: array_index_loop_rounds skips_def)
qed

lemma aget_loop_terminates:
  assumes "no_wrap mmdb" "unat (data_section_size mmdb) < nest"
  shows "terminates (aget_loop nest mmdb path ed)"
proof (induction path arbitrary: ed)
  case (Cons p path)
  then show ?case
    using array_index_loop_terminates[OF assms] lookup_map_loop_terminates[OF assms]
    by (auto simp: lookup_path_in_array_def lookup_path_in_map_def Let_def simp del: size_of_entry.simps
        intro!: run_intros split: prod.splits)
qed simp

lemma aget_value_terminates:
  assumes "no_wrap mmdb" "unat (data_section_size mmdb) < nest"
  shows "terminates (MMDB_aget_value nest mmdb start path)"
  using aget_loop_terminates[OF assms] by (auto simp: MMDB_aget_value_def intro!: run_intros)

end
