(* ===== verification/EntryList.thy ===== *)
theory EntryList
  imports PathLookup
begin

text \<open>
  Unfolding a value into a list of entries: \<open>MMDB_get_entry_data_list\<close>,
  \<open>get_entry_data_list\<close>, \<open>new_entry_data_list\<close> and \<open>MMDB_free_entry_data_list\<close> of
  \<^verbatim>\<open>libmaxminddb/src/maxminddb.c\<close>. A linked list is the list of the entries
  of its nodes. \<open>calloc_ok k\<close> tells whether the \<open>k\<close>-th allocation succeeds; the number of
  allocations so far is threaded through.
\<close>

section \<open>Pointers\<close>

text \<open>
  The loop \<^verbatim>\<open>while (entry_data.type == MMDB_DATA_TYPE_POINTER)\<close>, at most
  \<open>hops\<close> rounds of it; the result holds \<open>last_offset\<close>.
\<close>

fun pointer_loop ::
  "nat \<Rightarrow> MMDB_s \<Rightarrow> u32 \<Rightarrow> MMDB_entry_data_s \<Rightarrow> (status \<times> u32 \<times> MMDB_entry_data_s) run" where
  "pointer_loop hops mmdb last_offset ed =
     (if data_type ed \<noteq> MMDB_DATA_TYPE_POINTER then Done (MMDB_SUCCESS, last_offset, ed)
      else case hops of 0 \<Rightarrow> OutOfFuel | Suc hops \<Rightarrow>
        bind_run (union_pointer (entry_value ed)) (\<lambda>p.
        bind_run (decode_one mmdb p ed) (\<lambda>(st, ed).
          if st \<noteq> MMDB_SUCCESS then Done (st, p, ed) else pointer_loop hops mmdb p ed)))"

declare pointer_loop.simps [simp del]

section \<open>get_entry_data_list\<close>

text \<open>
  What is left behind: the status, the number of allocations, the entry of the node that was
  passed in and the entries of the nodes now linked behind it.
\<close>

type_synonym listing = "(status \<times> nat \<times> MMDB_entry_data_s \<times> MMDB_entry_data_s list) run"

text \<open>
  The loops over the elements of an array and the pairs of a map, \<open>n\<close> of them left. They hold the
  offset of the next element and the nodes behind the head, to whose end \<open>previous\<close> points.
  \<open>list_node\<close> links a fresh node there and fills it by \<open>get\<close>, the recursive call.
\<close>

type_synonym loop_state = "(status \<times> nat \<times> u32 \<times> MMDB_entry_data_s list) run"

definition list_node ::
  "(u32 \<Rightarrow> nat \<Rightarrow> MMDB_entry_data_s \<Rightarrow> listing) \<Rightarrow> (nat \<Rightarrow> bool) \<Rightarrow> u32 \<Rightarrow> nat \<Rightarrow>
     MMDB_entry_data_s list \<Rightarrow> (u32 \<Rightarrow> nat \<Rightarrow> MMDB_entry_data_s list \<Rightarrow> loop_state) \<Rightarrow> loop_state" where
  "list_node get calloc_ok off c behind continue =
     (if \<not> calloc_ok c then Done (MMDB_OUT_OF_MEMORY_ERROR, c + 1, off, behind)
      else
        bind_run (get off (c + 1) zero_entry_data) (\<lambda>(st, c, to, more).
        if st \<noteq> MMDB_SUCCESS then Done (st, c, off, behind @ to # more)
        else continue (offset_to_next to) c (behind @ to # more)))"

primrec list_array_loop ::
  "(u32 \<Rightarrow> nat \<Rightarrow> MMDB_entry_data_s \<Rightarrow> listing) \<Rightarrow> (nat \<Rightarrow> bool) \<Rightarrow> nat \<Rightarrow>
     u32 \<Rightarrow> nat \<Rightarrow> MMDB_entry_data_s list \<Rightarrow> loop_state" where
  "list_array_loop get calloc_ok 0 = (\<lambda>off c behind. Done (MMDB_SUCCESS, c, off, behind))"
| "list_array_loop get calloc_ok (Suc n) = (\<lambda>off c behind.
     list_node get calloc_ok off c behind (list_array_loop get calloc_ok n))"

text \<open>A pair adds two nodes, the key and the value.\<close>

primrec list_map_loop ::
  "(u32 \<Rightarrow> nat \<Rightarrow> MMDB_entry_data_s \<Rightarrow> listing) \<Rightarrow> (nat \<Rightarrow> bool) \<Rightarrow> nat \<Rightarrow>
     u32 \<Rightarrow> nat \<Rightarrow> MMDB_entry_data_s list \<Rightarrow> loop_state" where
  "list_map_loop get calloc_ok 0 = (\<lambda>off c behind. Done (MMDB_SUCCESS, c, off, behind))"
| "list_map_loop get calloc_ok (Suc n) = (\<lambda>off c behind.
     list_node get calloc_ok off c behind (\<lambda>off c behind.
     list_node get calloc_ok off c behind (list_map_loop get calloc_ok n)))"

text \<open>\<open>nest\<close> bounds the depth of the recursion.\<close>

primrec get_entry_data_list ::
  "nat \<Rightarrow> (nat \<Rightarrow> bool) \<Rightarrow> MMDB_s \<Rightarrow> u32 \<Rightarrow> nat \<Rightarrow> MMDB_entry_data_s \<Rightarrow> listing" where
  "get_entry_data_list 0 calloc_ok mmdb = (\<lambda>off c ed. OutOfFuel)"
| "get_entry_data_list (Suc nest) calloc_ok mmdb = (\<lambda>off c ed.
     bind_run (decode_one mmdb off ed) (\<lambda>(st, ed).
     if st \<noteq> MMDB_SUCCESS then Done (st, c, ed, [])
     else if data_type ed = MMDB_DATA_TYPE_POINTER then
       let next_offset = offset_to_next ed in
       bind_run (pointer_loop nest mmdb 0 ed) (\<lambda>(st, last_offset, ed).
       if st \<noteq> MMDB_SUCCESS then Done (st, c, ed, [])
       else if data_type ed = MMDB_DATA_TYPE_ARRAY \<or> data_type ed = MMDB_DATA_TYPE_MAP then
         bind_run (get_entry_data_list nest calloc_ok mmdb last_offset c ed) (\<lambda>(st, c, ed, behind).
           if st \<noteq> MMDB_SUCCESS then Done (st, c, ed, behind)
           else Done (MMDB_SUCCESS, c, ed\<lparr>offset_to_next := next_offset\<rparr>, behind))
       else Done (MMDB_SUCCESS, c, ed\<lparr>offset_to_next := next_offset\<rparr>, []))
     else if data_type ed = MMDB_DATA_TYPE_ARRAY then
       bind_run (size_of_entry ed) (\<lambda>sz.
       bind_run (list_array_loop (get_entry_data_list nest calloc_ok mmdb) calloc_ok (unat sz)
           (offset_to_next ed) c []) (\<lambda>(st, c, off, behind).
         if st \<noteq> MMDB_SUCCESS then Done (st, c, ed, behind)
         else Done (MMDB_SUCCESS, c, ed\<lparr>offset_to_next := off\<rparr>, behind)))
     else if data_type ed = MMDB_DATA_TYPE_MAP then
       bind_run (size_of_entry ed) (\<lambda>sz.
       bind_run (list_map_loop (get_entry_data_list nest calloc_ok mmdb) calloc_ok (unat sz)
           (offset_to_next ed) c []) (\<lambda>(st, c, off, behind).
         if st \<noteq> MMDB_SUCCESS then Done (st, c, ed, behind)
         else Done (MMDB_SUCCESS, c, ed\<lparr>offset_to_next := off\<rparr>, behind)))
     else Done (MMDB_SUCCESS, c, ed, [])))"

declare get_entry_data_list.simps(2) [simp del]

section \<open>The exported functions\<close>

text \<open>
  \<open>calloc\<close> fills a new node with zero bytes. The result is the status and the list the caller's
  pointer leads to, empty for the null pointer.
\<close>

definition new_entry_data_list :: "bool \<Rightarrow> MMDB_entry_data_s list" where
  "new_entry_data_list calloc_ok = (if calloc_ok then [zero_entry_data] else [])"

definition MMDB_get_entry_data_list ::
  "nat \<Rightarrow> (nat \<Rightarrow> bool) \<Rightarrow> MMDB_s \<Rightarrow> MMDB_entry_s \<Rightarrow> (status \<times> MMDB_entry_data_s list) run" where
  "MMDB_get_entry_data_list nest calloc_ok mmdb start =
     (case new_entry_data_list (calloc_ok 0) of
        [] \<Rightarrow> Done (MMDB_OUT_OF_MEMORY_ERROR, [])
      | node # _ \<Rightarrow>
          bind_run (get_entry_data_list nest calloc_ok mmdb (entry_offset start) 1 node)
            (\<lambda>(st, c, ed, behind). Done (st, ed # behind)))"

text \<open>The nodes \<open>MMDB_free_entry_data_list\<close> hands to \<open>free\<close>, in that order.\<close>

fun MMDB_free_entry_data_list :: "'node list \<Rightarrow> 'node list" where
  "MMDB_free_entry_data_list [] = []"
| "MMDB_free_entry_data_list (node # nodes) =
     (if nodes \<noteq> [] then MMDB_free_entry_data_list nodes else []) @ [node]"

end
