(* ===== verification/ListSpec.thy ===== *)
theory ListSpec
  imports EntryList PathRefinement
begin

text \<open>
  The list \<open>get_entry_data_list\<close> builds is the value in pre-order: a map is followed by its keys
  and values, an array by its elements. It is complete when every allocation succeeds, and the
  function reports lack of memory otherwise.
\<close>

section \<open>The value in pre-order\<close>

fun flat :: "field \<Rightarrow> field list" where
  "flat (F_map kvs) = F_map kvs # concat (map (\<lambda>kv. F_string (fst kv) # flat (snd kv)) kvs)"
| "flat (F_array vs) = F_array vs # concat (map flat vs)"
| "flat v = [v]"

text \<open>What lies behind the first entry.\<close>

definition inner :: "field \<Rightarrow> field list" where
  "inner v = tl (flat v)"

lemma flat_Cons: "flat v = v # inner v"
  by (cases v) (simp_all add: inner_def)

lemma inner_simps [simp]:
  "inner (F_map kvs) = concat (map (\<lambda>kv. F_string (fst kv) # flat (snd kv)) kvs)"
  "inner (F_array vs) = concat (map flat vs)"
  by (simp_all add: inner_def)

lemma inner_scalar: "\<not> compound v \<Longrightarrow> inner v = []"
  by (cases v) (simp_all add: inner_def)

text \<open>The allocations number \<open>c\<close> to before \<open>c + n\<close> succeed.\<close>

fun all_ok :: "(nat \<Rightarrow> bool) \<Rightarrow> nat \<Rightarrow> nat \<Rightarrow> bool" where
  "all_ok f c 0 \<longleftrightarrow> True"
| "all_ok f c (Suc n) \<longleftrightarrow> f c \<and> all_ok f (Suc c) n"

lemma all_ok_add: "all_ok f c (m + n) \<longleftrightarrow> all_ok f c m \<and> all_ok f (c + m) n"
  by (induction m arbitrary: c) auto

lemma all_ok_from: "all_ok f c n \<longleftrightarrow> (\<forall>k < n. f (c + k))"
  by (induction n arbitrary: c) (auto simp: less_Suc_eq_0_disj)

lemma all_ok_less: "all_ok f 0 n \<longleftrightarrow> (\<forall>k < n. f k)"
  by (simp add: all_ok_from)

section \<open>Results\<close>

definition listed :: "(nat \<Rightarrow> bool) \<Rightarrow> nat \<Rightarrow> field \<Rightarrow> nat \<Rightarrow> listing \<Rightarrow> bool" where
  "listed calloc_ok c v e m \<longleftrightarrow>
     (if all_ok calloc_ok c (length (inner v)) then
        \<exists>ed behind. m = Done (MMDB_SUCCESS, c + length (inner v), ed, behind)
          \<and> entry_shows ed v \<and> list_all2 entry_shows behind (inner v) \<and> offset_to_next ed = word_of_nat e
      else \<exists>c' ed behind. m = Done (MMDB_OUT_OF_MEMORY_ERROR, c', ed, behind))"

definition listed_loop ::
  "(nat \<Rightarrow> bool) \<Rightarrow> nat \<Rightarrow> MMDB_entry_data_s list \<Rightarrow> field list \<Rightarrow> nat \<Rightarrow> loop_state \<Rightarrow> bool" where
  "listed_loop calloc_ok c behind vs e m \<longleftrightarrow>
     (if all_ok calloc_ok c (length vs) then
        \<exists>more. m = Done (MMDB_SUCCESS, c + length vs, word_of_nat e, behind @ more)
          \<and> list_all2 entry_shows more vs
      else \<exists>c' off nodes. m = Done (MMDB_OUT_OF_MEMORY_ERROR, c', off, nodes))"

lemma listed_ok:
  "listed calloc_ok c v e m \<Longrightarrow> all_ok calloc_ok c (length (inner v)) \<Longrightarrow>
    \<exists>ed behind. m = Done (MMDB_SUCCESS, c + length (inner v), ed, behind)
      \<and> list_all2 entry_shows (ed # behind) (flat v) \<and> offset_to_next ed = word_of_nat e"
  by (auto simp: listed_def flat_Cons)

lemma listed_oom:
  "listed calloc_ok c v e m \<Longrightarrow> \<not> all_ok calloc_ok c (length (inner v)) \<Longrightarrow>
    \<exists>c' ed behind. m = Done (MMDB_OUT_OF_MEMORY_ERROR, c', ed, behind)"
  by (simp add: listed_def)

text \<open>One more node: the value \<open>v\<close> in front of what the loop adds behind it.\<close>

lemma list_node_listed:
  assumes get: "listed calloc_ok (Suc c) v nxt (get off (Suc c) zero_entry_data)"
    and rest: "\<And>behind'. listed_loop calloc_ok (c + length (flat v)) behind' vs e
      (continue (word_of_nat nxt) (c + length (flat v)) behind')"
  shows "listed_loop calloc_ok c behind (flat v @ vs) e (list_node get calloc_ok off c behind continue)"
proof (cases "calloc_ok c \<and> all_ok calloc_ok (Suc c) (length (inner v))")
  case False
  then have "\<not> all_ok calloc_ok c (length (flat v @ vs))"
    by (auto simp: flat_Cons all_ok_add)
  moreover have "\<exists>c' off' nodes. list_node get calloc_ok off c behind continue
      = Done (MMDB_OUT_OF_MEMORY_ERROR, c', off', nodes)"
    using False listed_oom[OF get] by (auto simp: list_node_def)
  ultimately show ?thesis by (simp add: listed_loop_def)
next
  case True
  let ?c = "c + length (flat v)"
  from True obtain ed more where g: "get off (Suc c) zero_entry_data
      = Done (MMDB_SUCCESS, Suc c + length (inner v), ed, more)"
    "list_all2 entry_shows (ed # more) (flat v)" "offset_to_next ed = word_of_nat nxt"
    using listed_ok[OF get] by blast
  have node: "list_node get calloc_ok off c behind continue
      = continue (word_of_nat nxt) ?c (behind @ ed # more)"
    using True g(1,3) by (simp add: list_node_def flat_Cons)
  have ok: "all_ok calloc_ok c (length (flat v @ vs)) \<longleftrightarrow> all_ok calloc_ok ?c (length vs)"
    using True by (simp add: flat_Cons all_ok_add)
  show ?thesis
  proof (cases "all_ok calloc_ok ?c (length vs)")
    case True
    with rest[of "behind @ ed # more"] obtain more' where
      m': "continue (word_of_nat nxt) ?c (behind @ ed # more)
        = Done (MMDB_SUCCESS, ?c + length vs, word_of_nat e, (behind @ ed # more) @ more')"
        "list_all2 entry_shows more' vs"
      unfolding listed_loop_def by auto
    have "list_all2 entry_shows ((ed # more) @ more') (flat v @ vs)"
      by (intro list_all2_appendI g(2) m'(2))
    then show ?thesis
      unfolding listed_loop_def ok node m'(1) using True by (auto simp: add.assoc)
  next
    case False
    with rest[of "behind @ ed # more"] show ?thesis unfolding listed_loop_def ok node by simp
  qed
qed

section \<open>The loops\<close>

text \<open>
  \<open>get\<close> lists the fields that satisfy \<open>P\<close>; the loops then list arrays and maps of such fields.
\<close>

definition lists_fields ::
  "cptr \<Rightarrow> (nat \<Rightarrow> bool) \<Rightarrow> (field \<Rightarrow> bool) \<Rightarrow> (u32 \<Rightarrow> nat \<Rightarrow> MMDB_entry_data_s \<Rightarrow> listing) \<Rightarrow> bool" where
  "lists_fields mem calloc_ok P get \<longleftrightarrow>
     (\<forall>v off e c ed. field_at mem off v e \<and> P v \<longrightarrow> listed calloc_ok c v e (get (word_of_nat off) c ed))"

lemma lists_fieldsD:
  "lists_fields mem calloc_ok P get \<Longrightarrow> field_at mem off v e \<Longrightarrow> P v \<Longrightarrow>
    listed calloc_ok c v e (get (word_of_nat off) c ed)"
  by (simp add: lists_fields_def)

lemma list_array_loop_listed:
  assumes get: "lists_fields mem calloc_ok P get"
  shows "fields_at mem off vs e \<Longrightarrow> \<forall>v \<in> set vs. P v \<Longrightarrow>
    listed_loop calloc_ok c behind (concat (map flat vs)) e
      (list_array_loop get calloc_ok (length vs) (word_of_nat off) c behind)"
proof (induction vs arbitrary: off c behind)
  case Nil
  then have "off = e" by (auto elim: fields_nilE)
  then show ?case by (simp add: listed_loop_def)
next
  case (Cons v vs)
  from Cons.prems(1) obtain m where m: "field_at mem off v m" "fields_at mem m vs e"
    by (rule fields_consE)
  have v: "P v" and vs: "\<forall>v \<in> set vs. P v" using Cons.prems(2) by simp_all
  have "listed_loop calloc_ok c behind (flat v @ concat (map flat vs)) e
      (list_node get calloc_ok (word_of_nat off) c behind (list_array_loop get calloc_ok (length vs)))"
    by (rule list_node_listed[where nxt = m], rule lists_fieldsD[OF get m(1) v],
        rule Cons.IH[OF m(2) vs])
  then show ?case by simp
qed

lemma list_map_loop_listed:
  assumes get: "lists_fields mem calloc_ok P get" and str: "\<And>s. P (F_string s)"
  shows "pairs_at mem off kvs e \<Longrightarrow> \<forall>kv \<in> set kvs. P (snd kv) \<Longrightarrow>
    listed_loop calloc_ok c behind (concat (map (\<lambda>kv. F_string (fst kv) # flat (snd kv)) kvs)) e
      (list_map_loop get calloc_ok (length kvs) (word_of_nat off) c behind)"
proof (induction kvs arbitrary: off c behind)
  case Nil
  then have "off = e" by (auto elim: pairs_nilE)
  then show ?case by (simp add: listed_loop_def)
next
  case (Cons kv kvs)
  from Cons.prems(1) obtain k v m m' where kv: "kv = (k, v)"
    and m: "field_at mem off (F_string k) m" "field_at mem m v m'" "pairs_at mem m' kvs e"
    by (rule pairs_consE)
  have v: "P v" and kvs: "\<forall>kv \<in> set kvs. P (snd kv)" using Cons.prems(2) kv by simp_all
  have "listed_loop calloc_ok c behind (flat (F_string k) @ flat v @
      concat (map (\<lambda>kv. F_string (fst kv) # flat (snd kv)) kvs)) e
      (list_node get calloc_ok (word_of_nat off) c behind (\<lambda>off c behind.
       list_node get calloc_ok off c behind (list_map_loop get calloc_ok (length kvs))))"
    by (rule list_node_listed[where nxt = m], rule lists_fieldsD[OF get m(1) str],
        rule list_node_listed[where nxt = m'], rule lists_fieldsD[OF get m(2) v],
        rule Cons.IH[OF m(3) kvs])
  then show ?case using kv by simp
qed

section \<open>The recursion\<close>

text \<open>How deep the recursion goes: two calls for each level, one more for a pointer.\<close>

lemma listed_next:
  "listed calloc_ok c v e m \<Longrightarrow> next_offset = word_of_nat e' \<Longrightarrow>
    listed calloc_ok c v e' (bind_run m (\<lambda>(st, c, ed, behind).
      if st \<noteq> MMDB_SUCCESS then Done (st, c, ed, behind)
      else Done (MMDB_SUCCESS, c, ed\<lparr>offset_to_next := next_offset\<rparr>, behind)))"
  by (auto simp: listed_def)

lemma listed_loop_entry:
  assumes "listed_loop calloc_ok c [] (inner v) e m" "entry_shows ed v"
  shows "listed calloc_ok c v e (bind_run m (\<lambda>(st, c, off, behind).
      if st \<noteq> MMDB_SUCCESS then Done (st, c, ed, behind)
      else Done (MMDB_SUCCESS, c, ed\<lparr>offset_to_next := off\<rparr>, behind)))"
  using assms by (auto simp: listed_def listed_loop_def)

lemma pointer_loop_one:
  "data_type ed = MMDB_DATA_TYPE_POINTER \<Longrightarrow> entry_value ed = U_pointer p \<Longrightarrow>
    decode_one mmdb p ed = Done (MMDB_SUCCESS, ed') \<Longrightarrow> data_type ed' \<noteq> MMDB_DATA_TYPE_POINTER \<Longrightarrow>
    pointer_loop (Suc hops) mmdb from_off ed = Done (MMDB_SUCCESS, p, ed')"
  by (simp add: pointer_loop.simps)

lemma get_direct:
  assumes ok: "data_ok db" and enc: "encoded (data_section db) off v e" and d: "2 * fdepth v < Suc nest"
    and get: "lists_fields (data_section db) calloc_ok (\<lambda>v. 2 * fdepth v + 1 < nest)
      (get_entry_data_list nest calloc_ok db)"
  shows "listed calloc_ok c v e (get_entry_data_list (Suc nest) calloc_ok db (word_of_nat off) c ed)"
proof -
  obtain ed1 where dec: "decode_one db (word_of_nat off) ed = Done (MMDB_SUCCESS, ed1)"
    and at: "entry_at (data_section db) v e ed1"
    using decode_one_encoded[OF ok enc] by blast
  have sh: "entry_shows ed1 v" using at by (simp add: entry_at_def)
  show ?thesis
  proof (cases "compound v")
    case False
    with dec at sh show ?thesis
      using entry_shows_compound[OF sh] entry_shows_no_pointer[OF sh]
      by (simp add: get_entry_data_list.simps(2) listed_def inner_scalar entry_at_def contents_at_scalar)
  next
    case True
    then consider (map) kvs where "v = F_map kvs" | (array) vs where "v = F_array vs"
      by (cases v) auto
    then show ?thesis
    proof cases
      case map
      have p: "pairs_at (data_section db) (unat (offset_to_next ed1)) kvs e"
        using at map by (simp add: entry_at_def)
      have P: "\<forall>kv \<in> set kvs. 2 * fdepth (snd kv) + 1 < nest" "1 < nest"
        using fdepth_map_less[of kvs "fdepth v"] d map by fastforce+
      note loop = list_map_loop_listed[OF get _ p P(1), of c "[]"]
      from map dec sh show ?thesis
        using listed_loop_entry[OF _ sh, of calloc_ok c e] loop P(2) map_size_word[OF at[unfolded map]]
        by (simp add: get_entry_data_list.simps(2) size_word)
    next
      case array
      have p: "fields_at (data_section db) (unat (offset_to_next ed1)) vs e"
        using at array by (simp add: entry_at_def)
      have P: "\<forall>v \<in> set vs. 2 * fdepth v + 1 < nest"
        using fdepth_array_less[of vs "fdepth v"] d array by fastforce
      note loop = list_array_loop_listed[OF get p P, of c "[]"]
      from array dec sh show ?thesis
        using listed_loop_entry[OF _ sh, of calloc_ok c e] loop array_size_word[OF at[unfolded array]]
        by (simp add: get_entry_data_list.simps(2) size_word)
    qed
  qed
qed

lemma get_pointer:
  assumes ok: "data_ok db" and st: "stored (ptr_add (data_section db) off) bs"
    and t: "pointer_target bs = Some t" and enc: "encoded (data_section db) t v e'"
    and get: "\<And>ed. listed calloc_ok c v e' (get_entry_data_list (Suc hops) calloc_ok db (word_of_nat t) c ed)"
  shows "listed calloc_ok c v (off + length bs)
    (get_entry_data_list (Suc (Suc hops)) calloc_ok db (word_of_nat off) c ed)"
proof -
  obtain ed1 where ed1: "decode_one db (word_of_nat off) ed = Done (MMDB_SUCCESS, ed1)"
      "data_type ed1 = MMDB_DATA_TYPE_POINTER" "entry_value ed1 = U_pointer (word_of_nat t)"
      "offset_to_next ed1 = word_of_nat (off + length bs)"
    using decode_one_pointer[OF ok st t, of ed] by blast
  obtain ed2 where ed2: "decode_one db (word_of_nat t) ed1 = Done (MMDB_SUCCESS, ed2)"
      "entry_at (data_section db) v e' ed2"
    using decode_one_encoded[OF ok enc] by blast
  have sh: "entry_shows ed2 v" using ed2(2) by (simp add: entry_at_def)
  note loop = pointer_loop_one[OF ed1(2,3) ed2(1) entry_shows_no_pointer[OF sh], of hops 0]
  show ?thesis
  proof (cases "compound v")
    case True
    with listed_next[OF get[of ed2] ed1(4)] show ?thesis
      using ed1(1,2) loop entry_shows_compound[OF sh]
      by (subst get_entry_data_list.simps(2)) auto
  next
    case False
    then show ?thesis
      using ed1 loop entry_shows_compound[OF sh] sh
      by (subst get_entry_data_list.simps(2)) (auto simp: listed_def inner_scalar)
  qed
qed

lemma get_fields:
  assumes ok: "data_ok db"
  shows "(\<forall>v off e c ed. encoded (data_section db) off v e \<and> 2 * fdepth v < nest \<longrightarrow>
      listed calloc_ok c v e (get_entry_data_list nest calloc_ok db (word_of_nat off) c ed))
    \<and> lists_fields (data_section db) calloc_ok (\<lambda>v. 2 * fdepth v + 1 < nest)
      (get_entry_data_list nest calloc_ok db)"
proof (induction nest)
  case 0
  then show ?case by (simp add: lists_fields_def)
next
  case (Suc nest)
  have direct: "listed calloc_ok c v e (get_entry_data_list (Suc nest) calloc_ok db (word_of_nat off) c ed)"
    if "encoded (data_section db) off v e" "2 * fdepth v < Suc nest" for v off e c ed
    using get_direct[OF ok that] Suc.IH by blast
  have "listed calloc_ok c v e (get_entry_data_list (Suc nest) calloc_ok db (word_of_nat off) c ed)"
    if at: "field_at (data_section db) off v e" and d: "2 * fdepth v + 1 < Suc nest" for v off e c ed
    using at
  proof (cases rule: field_at.cases)
    case at_direct
    with direct d show ?thesis by simp
  next
    case (at_pointer bs t e')
    obtain hops where h: "nest = Suc hops" using d by (cases nest) auto
    have "listed calloc_ok c v e' (get_entry_data_list (Suc hops) calloc_ok db (word_of_nat t) c ed)" for ed
      using Suc.IH at_pointer(3) d unfolding h by simp
    from get_pointer[OF ok at_pointer(1,2,3) this] show ?thesis
      using at_pointer(4) h by simp
  qed
  with direct show ?case by (simp add: lists_fields_def)
qed

lemma get_entry_data_list_field:
  assumes ok: "data_ok db" and at: "field_at (data_section db) (unat (entry_offset start)) v e"
    and d: "2 * fdepth v + 1 < nest"
  shows "if all_ok calloc_ok 0 (length (flat v))
    then \<exists>nodes. MMDB_get_entry_data_list nest calloc_ok db start = Done (MMDB_SUCCESS, nodes)
      \<and> list_all2 entry_shows nodes (flat v)
    else \<exists>nodes. MMDB_get_entry_data_list nest calloc_ok db start = Done (MMDB_OUT_OF_MEMORY_ERROR, nodes)"
proof -
  have "lists_fields (data_section db) calloc_ok (\<lambda>v. 2 * fdepth v + 1 < nest)
      (get_entry_data_list nest calloc_ok db)"
    using get_fields[OF ok] by blast
  from lists_fieldsD[OF this at d, of 1 zero_entry_data] show ?thesis
    by (auto simp: MMDB_get_entry_data_list_def new_entry_data_list_def listed_def flat_Cons)
qed

section \<open>A pointer to itself\<close>

text \<open>A pointer field that leads to itself keeps the loop going for ever.\<close>

lemma pointer_loop_self:
  assumes "\<And>ed. \<exists>ed'. decode_one db p ed = Done (MMDB_SUCCESS, ed')
      \<and> data_type ed' = MMDB_DATA_TYPE_POINTER \<and> entry_value ed' = U_pointer p"
  shows "data_type ed = MMDB_DATA_TYPE_POINTER \<Longrightarrow> entry_value ed = U_pointer p \<Longrightarrow>
    pointer_loop hops db from_off ed = OutOfFuel"
proof (induction hops arbitrary: from_off ed)
  case (Suc hops)
  obtain ed' where "decode_one db p ed = Done (MMDB_SUCCESS, ed')"
      "data_type ed' = MMDB_DATA_TYPE_POINTER" "entry_value ed' = U_pointer p"
    using assms by blast
  with Suc show ?case by (simp add: pointer_loop.simps[of "Suc hops"])
qed (simp add: pointer_loop.simps)

lemma get_entry_data_list_self:
  assumes ok: "data_ok db" and st: "stored (ptr_add (data_section db) off) bs"
    and t: "pointer_target bs = Some off" and al: "calloc_ok 0"
  shows "MMDB_get_entry_data_list nest calloc_ok db \<lparr>entry_offset = word_of_nat off\<rparr> = OutOfFuel"
proof (cases nest)
  case (Suc hops)
  have p: "\<exists>ed'. decode_one db (word_of_nat off) ed = Done (MMDB_SUCCESS, ed')
      \<and> data_type ed' = MMDB_DATA_TYPE_POINTER \<and> entry_value ed' = U_pointer (word_of_nat off)" for ed
    using decode_one_pointer[OF ok st t, of ed] by blast
  then obtain ed1 where "decode_one db (word_of_nat off) zero_entry_data = Done (MMDB_SUCCESS, ed1)"
      "data_type ed1 = MMDB_DATA_TYPE_POINTER" "entry_value ed1 = U_pointer (word_of_nat off)"
    by blast
  with pointer_loop_self[OF p] Suc al show ?thesis
    by (simp add: MMDB_get_entry_data_list_def new_entry_data_list_def get_entry_data_list.simps(2))
qed (simp add: MMDB_get_entry_data_list_def new_entry_data_list_def al)

end
