(* ===== verification/DataTheorems.thy ===== *)
theory DataTheorems
  imports DataSafety ListSpec
begin

text \<open>
  What decoding, skipping, path lookup and unfolding of the data section in
  \<^verbatim>\<open>libmaxminddb/src/maxminddb.c\<close> guarantee, each property with an
  application to a small data section.
\<close>

section \<open>A small data section\<close>

text \<open>
  Behind the separator, the map with \<open>ab\<close> for the array of the number 7 and a pointer to the
  first key, and \<open>c\<close> for true.
\<close>

definition section_bytes :: "u8 list" where
  "section_bytes = replicate 16 0 @
     [0xE2, 0x42, 0x61, 0x62, 0x02, 0x04, 0xA1, 0x07, 0x20, 0x01, 0x41, 0x63, 0x01, 0x07]"

definition section_db :: MMDB_s where
  "section_db = zero_mmdb\<lparr>data_section := Ptr section_bytes 0, data_section_size := 30\<rparr>"

definition section_value :: field where
  "section_value = F_map [([0x61, 0x62], F_array [F_uint16 7, F_string [0x61, 0x62]]), ([0x63], F_boolean True)]"

lemma section_db_ok: "data_ok section_db"
  by (simp add: data_ok_def section_db_def section_bytes_def)

lemma section_stored:
  "stored (ptr_add (data_section section_db) off) bs \<longleftrightarrow>
     off + length bs \<le> 30 \<and> take (length bs) (drop off section_bytes) = bs \<or> bs = []"
proof (cases "bs = []")
  case False
  have l: "length section_bytes = 30" by (simp add: section_bytes_def)
  show ?thesis
  proof
    assume s: "stored (ptr_add (data_section section_db) off) bs"
    have "bytes_at (ptr_add (data_section section_db) off) (length bs) = bs"
      by (rule stored_bytes_at_eq[OF s])
    moreover have "readable (ptr_add (data_section section_db) off) (length bs)"
      by (rule stored_readable[OF s])
    ultimately show "off + length bs \<le> 30 \<and> take (length bs) (drop off section_bytes) = bs \<or> bs = []"
      using False l by (simp add: section_db_def)
  next
    assume "off + length bs \<le> 30 \<and> take (length bs) (drop off section_bytes) = bs \<or> bs = []"
    then have b: "off + length bs \<le> 30" "bs = take (length bs) (drop off section_bytes)" using False by auto
    have "readable (ptr_add (data_section section_db) off) (length bs)"
      using b(1) l by (simp add: section_db_def)
    from stored_bytes_at[OF this] b(2) show "stored (ptr_add (data_section section_db) off) bs"
      by (simp add: section_db_def)
  qed
qed simp

lemma section_entry:
  "encoded (data_section section_db) 16 section_value 30"
  "encoded (data_section section_db) 17 (F_string [0x61, 0x62]) 20"
  "encoded (data_section section_db) 20 (F_array [F_uint16 7, F_string [0x61, 0x62]]) 26"
proof -
  note st = section_stored section_bytes_def ctrl_bytes_def
  show s: "encoded (data_section section_db) 17 (F_string [0x61, 0x62]) 20"
    by (rule enc_scalar[of _ 2 "[0x61, 0x62]"]) (simp_all add: st)
  have c: "encoded (data_section section_db) 26 (F_string [0x63]) 28"
    by (rule enc_scalar[of _ 2 "[0x63]"]) (simp_all add: st)
  have n: "encoded (data_section section_db) 22 (F_uint16 7) 24"
    by (rule enc_scalar[of _ 5 "[0x07]"]) (simp_all add: st)
  have b: "encoded (data_section section_db) 28 (F_boolean True) 30"
    by (rule enc_boolean) (simp_all add: st)
  have p: "field_at (data_section section_db) 24 (F_string [0x61, 0x62]) 26"
    by (rule at_pointer[of _ _ "[0x20, 0x01]" 17, OF _ _ s]) (simp_all add: st pointer_target_def)
  have "fields_at (data_section section_db) 22 [F_uint16 7, F_string [0x61, 0x62]] 26"
    by (intro fields_cons[OF at_direct[OF n]] fields_cons[OF p] fields_nil)
  then show a: "encoded (data_section section_db) 20 (F_array [F_uint16 7, F_string [0x61, 0x62]]) 26"
    by (intro enc_array) (simp_all add: st)
  have "pairs_at (data_section section_db) 17
      [([0x61, 0x62], F_array [F_uint16 7, F_string [0x61, 0x62]]), ([0x63], F_boolean True)] 30"
    by (intro pairs_cons[OF at_direct[OF s] at_direct[OF a]] pairs_cons[OF at_direct[OF c] at_direct[OF b]] pairs_nil)
  then show "encoded (data_section section_db) 16 section_value 30"
    unfolding section_value_def by (intro enc_map) (simp_all add: st)
qed

section \<open>Decoding\<close>

text \<open>
  C7: \<open>decode_one\<close> reads back every encoding of every value: strings, byte sequences, numbers of
  each width from a payload of any allowed length, booleans, maps and arrays, with sizes from 0 to
  16843036 in any form of the size bytes. The entry shows the value, and its next offset is
  behind the value, or at the first entry of a map or an array.
\<close>
theorem decode_one_reads_every_encoding:
  assumes "data_ok db" "encoded (data_section db) off v e"
  shows "\<exists>ed'. decode_one db (word_of_nat off) ed = Done (MMDB_SUCCESS, ed')
    \<and> has_data ed' \<and> data_offset ed' = word_of_nat off \<and> entry_shows ed' v
    \<and> contents_at (data_section db) v (offset_to_next ed') e"
  using decode_one_encoded[OF assms, of ed] by (auto simp: entry_at_def)

theorem decode_one_reads_every_encoding_witness:
  "\<exists>ed'. decode_one section_db 17 zero_entry_data = Done (MMDB_SUCCESS, ed')
    \<and> has_data ed' \<and> data_offset ed' = 17 \<and> entry_shows ed' (F_string [0x61, 0x62])
    \<and> contents_at (data_section section_db) (F_string [0x61, 0x62]) (offset_to_next ed') 20"
  using decode_one_reads_every_encoding[OF section_db_ok section_entry(2), of zero_entry_data] by simp

text \<open>
  \<open>decode_one_follow\<close> sees no difference between a value and a pointer to it, except for where
  the next entry is: behind the pointer for a scalar, inside the map or array the pointer leads to
  otherwise.
\<close>
theorem decode_one_follow_sees_through_pointers:
  assumes "data_ok db" "field_at (data_section db) off v e"
  shows "\<exists>ed'. decode_one_follow db (word_of_nat off) ed = Done (MMDB_SUCCESS, ed')
    \<and> has_data ed' \<and> entry_shows ed' v
    \<and> (if compound v then \<exists>e'. contents_at (data_section db) v (offset_to_next ed') e'
       else offset_to_next ed' = word_of_nat e)"
  using decode_one_follow_field[OF assms, of ed]
  by (auto simp: followed_def entry_at_def contents_at_scalar)

theorem decode_one_follow_sees_through_pointers_witness:
  "\<exists>ed'. decode_one_follow section_db 24 zero_entry_data = Done (MMDB_SUCCESS, ed')
    \<and> has_data ed' \<and> entry_shows ed' (F_string [0x61, 0x62]) \<and> offset_to_next ed' = 26"
proof -
  have "field_at (data_section section_db) 24 (F_string [0x61, 0x62]) 26"
    by (rule at_pointer[of _ _ "[0x20, 0x01]" 17, OF _ _ section_entry(2)])
      (simp_all add: section_stored section_bytes_def pointer_target_def)
  from decode_one_follow_sees_through_pointers[OF section_db_ok this, of zero_entry_data]
  show ?thesis by simp
qed

text \<open>
  C30: \<open>decode_one\<close> returns success or invalid data on arbitrary bytes, and reads at most 21 bytes
  from its offset on: nothing at all at an offset greater than \<open>data_section_size\<close>, and it does not fail where these
  bytes are in the file and the offset is not within 21 bytes of \<open>2 ^ 32\<close>. After success it has moved forward by 1 to 16843041 bytes.
\<close>
theorem decode_one_on_arbitrary_bytes:
  assumes "off \<le> data_section_size db \<Longrightarrow> readable (data_section db) (unat off + 21)"
    and "unat off + 21 < 2 ^ 32"
  shows "\<exists>st ed'. decode_one db off ed = Done (st, ed')
    \<and> (if data_section_size db < off then st = MMDB_INVALID_DATA_ERROR \<and> ed' = ed
       else st \<in> {MMDB_SUCCESS, MMDB_INVALID_DATA_ERROR})
    \<and> (st = MMDB_SUCCESS \<longrightarrow>
         (\<exists>n. 1 \<le> n \<and> n \<le> max_size + 5 \<and> offset_to_next ed' = off + word_of_nat n))"
proof -
  have "no_fault (decode_one db off ed)" "terminates (decode_one db off ed)"
    using decode_one_no_fault[OF assms, of ed] decode_one_terminates[of db off ed] by auto
  then obtain st ed' where d: "decode_one db off ed = Done (st, ed')"
    using run_DoneI by fastforce
  moreover have "st = MMDB_INVALID_DATA_ERROR \<and> ed' = ed" if "data_section_size db < off"
    using d that by (simp add: decode_one_def)
  ultimately show ?thesis using decode_one_Done[OF d] by auto
qed

theorem decode_one_on_arbitrary_bytes_witness:
  "\<exists>st ed'. decode_one section_db 9 zero_entry_data = Done (st, ed')
    \<and> st \<in> {MMDB_SUCCESS, MMDB_INVALID_DATA_ERROR}
    \<and> (st = MMDB_SUCCESS \<longrightarrow>
         (\<exists>n. 1 \<le> n \<and> n \<le> max_size + 5 \<and> offset_to_next ed' = 9 + word_of_nat n))"
  using decode_one_on_arbitrary_bytes[of 9 section_db zero_entry_data]
  by (simp add: section_db_def section_bytes_def)

section \<open>Reading outside the file\<close>

text \<open>
  How many bytes from its control byte on \<open>decode_one\<close> reads of a field, the payload of a string or of bytes not
  being read. Every size that is not in the control byte itself is too great for a number.
\<close>

definition payload_reads :: "u32 \<Rightarrow> u32 \<Rightarrow> nat" where
  "payload_reads ty sz =
     (if ty = MMDB_DATA_TYPE_UINT16 \<and> sz \<le> 2 \<or> (ty = MMDB_DATA_TYPE_UINT32 \<or> ty = MMDB_DATA_TYPE_INT32) \<and> sz \<le> 4
         \<or> ty = MMDB_DATA_TYPE_UINT64 \<and> sz \<le> 8 \<or> ty = MMDB_DATA_TYPE_UINT128 \<and> sz \<le> 16
         \<or> ty = MMDB_DATA_TYPE_FLOAT \<and> sz = 4 \<or> ty = MMDB_DATA_TYPE_DOUBLE \<and> sz = 8
      then unat sz else 0)"

definition rest_reads :: "u8 \<Rightarrow> u32 \<Rightarrow> nat" where
  "rest_reads ctrl ty =
     (let sz = ucast (ctrl AND 31) in
      if ty = MMDB_DATA_TYPE_POINTER then unat (drop_bit 3 ctrl AND 3) + 1
      else if sz \<ge> (29 :: u32) then unat sz - 28 else payload_reads ty sz)"

fun field_reads :: "u8 list \<Rightarrow> nat" where
  "field_reads [] = 1"
| "field_reads (ctrl # bs) =
     (let ty = ucast (drop_bit 5 ctrl AND 7) in
      if ty \<noteq> MMDB_DATA_TYPE_EXTENDED then 1 + rest_reads ctrl ty
      else case bs of [] \<Rightarrow> 2 | b # _ \<Rightarrow> 2 + rest_reads ctrl (get_ext_type (ucast b)))"

lemma no_fault_bind_iff: "no_fault (bind_run m f) \<longleftrightarrow> no_fault m \<and> (\<forall>x. m = Done x \<longrightarrow> no_fault (f x))"
  by (cases m) simp_all

lemma no_fault_deref_iff: "no_fault (deref (Ptr b i) n) \<longleftrightarrow> i + n < length b"
  by simp

lemma uint_loop_faults: "no_fault (uint_loop (Ptr b i) n v) \<longleftrightarrow> n = 0 \<or> i + n \<le> length b"
proof (induction n arbitrary: i v)
  case (Suc n)
  then show ?case by (auto simp: no_fault_bind_iff)
qed simp

lemma getters_fault:
  "no_fault (get_uint16 (Ptr b i)) \<longleftrightarrow> i + 2 \<le> length b" "no_fault (get_uint24 (Ptr b i)) \<longleftrightarrow> i + 3 \<le> length b"
  "no_fault (get_uint32 (Ptr b i)) \<longleftrightarrow> i + 4 \<le> length b" "no_fault (get_ieee754_float (Ptr b i)) \<longleftrightarrow> i + 4 \<le> length b"
  "no_fault (get_ieee754_double (Ptr b i)) \<longleftrightarrow> i + 8 \<le> length b"
  "no_fault (get_uintX (Ptr b i) n) \<longleftrightarrow> n = 0 \<or> i + n \<le> length b"
  "no_fault (get_sintX (Ptr b i) n) \<longleftrightarrow> n = 0 \<or> i + n \<le> length b"
  "no_fault (get_uint128 (Ptr b i) n) \<longleftrightarrow> n = 0 \<or> i + n \<le> length b"
  by (auto simp: get_uint16_def get_uint24_def get_uint32_def get_ieee754_float_def get_ieee754_double_def
      get_uintX_def get_sintX_def get_uint128_def no_fault_bind_iff uint_loop_faults)

lemma pointer_faults:
  "n < 4 \<Longrightarrow> no_fault (get_ptr_from c (Ptr b i) n) \<longleftrightarrow> i + n + 1 \<le> length b"
  by (auto simp: get_ptr_from_def no_fault_bind_iff getters_fault)

lemma payload_faults:
  "no_fault (decode_payload (Ptr b i) ed ty sz off)
    \<longleftrightarrow> payload_reads ty sz = 0 \<or> i + unat off + payload_reads ty sz \<le> length b"
proof -
  note d = decode_payload_def payload_reads_def Let_def no_fault_bind_iff getters_fault
  consider "ty = MMDB_DATA_TYPE_UINT16" | "ty = MMDB_DATA_TYPE_UINT32" | "ty = MMDB_DATA_TYPE_INT32"
    | "ty = MMDB_DATA_TYPE_UINT64" | "ty = MMDB_DATA_TYPE_UINT128" | "ty = MMDB_DATA_TYPE_FLOAT"
    | "ty = MMDB_DATA_TYPE_DOUBLE"
    | "ty \<notin> {MMDB_DATA_TYPE_UINT16, MMDB_DATA_TYPE_UINT32, MMDB_DATA_TYPE_INT32, MMDB_DATA_TYPE_UINT64,
        MMDB_DATA_TYPE_UINT128, MMDB_DATA_TYPE_FLOAT, MMDB_DATA_TYPE_DOUBLE}"
    by blast
  then show ?thesis
  proof cases
    case 8
    then show ?thesis by (simp add: d)
  qed (simp_all add: d flip: not_le)
qed

lemma payload_reads_big: "29 \<le> unat sz \<Longrightarrow> payload_reads ty sz = 0"
  by (auto simp: payload_reads_def word_le_nat_alt)

lemma size_bytes_fault:
  assumes "(29 :: u32) \<le> ucast (ctrl AND 31)"
  shows "no_fault (decode_size (Ptr b i) ctrl off) \<longleftrightarrow> i + unat off + (unat (ucast (ctrl AND 31) :: u32) - 28) \<le> length b"
    and "decode_size (Ptr b i) ctrl off = Done (sz, off') \<Longrightarrow> 29 \<le> unat sz"
proof -
  have "unat (word_of_nat (unat ctrl mod 32) :: u32) = unat ctrl mod 32" by (rule unat_u32) simp
  then have "unat (ucast (ctrl AND 31) :: u32) < 32" by (simp only: ctrl_size)
  moreover have "29 \<le> unat (ucast (ctrl AND 31) :: u32)" using assms by (simp add: word_le_nat_alt)
  ultimately have "unat (ucast (ctrl AND 31) :: u32) \<in> {29, 30, 31}" by auto
  then consider "(ucast (ctrl AND 31) :: u32) = 29" | "(ucast (ctrl AND 31) :: u32) = 30"
    | "(ucast (ctrl AND 31) :: u32) = 31"
    by (auto simp: word_unat_eq_iff)
  note c = this
  show "no_fault (decode_size (Ptr b i) ctrl off) \<longleftrightarrow> i + unat off + (unat (ucast (ctrl AND 31) :: u32) - 28) \<le> length b"
    by (cases rule: c) (auto simp: decode_size_def Let_def no_fault_bind_iff getters_fault)
  have small: "29 \<le> unat (29 + ucast x :: u32)" for x :: u8
  proof -
    have "29 + unat x < 2 ^ 32" by (rule less_le_trans[of _ "29 + 256"]) simp_all
    from unat_u32[OF this] show ?thesis by (simp only: ucast_u8) simp
  qed
  have mid: "29 \<le> unat (285 + v :: u32)" if "unat v < 2 ^ 16" for v
    using that by (simp add: unat_word_ariths)
  have big: "29 \<le> unat (65821 + v :: u32)" if "unat v < 2 ^ 24" for v
    using that by (simp add: unat_word_ariths)
  assume "decode_size (Ptr b i) ctrl off = Done (sz, off')"
  then show "29 \<le> unat sz"
    by (cases rule: c)
      (auto simp: decode_size_def Let_def run_simps split: if_splits intro: small mid[OF get_uint16_Done] big[OF get_uint24_Done])
qed

lemma rest_faults:
  "no_fault (decode_rest (Ptr b i) ctrl ed ty off)
    \<longleftrightarrow> rest_reads ctrl ty = 0 \<or> i + unat off + rest_reads ctrl ty \<le> length b"
proof (cases "ty = MMDB_DATA_TYPE_POINTER")
  case True
  have "unat (drop_bit 3 ctrl AND 3) < 4" by (simp add: ctrl_psize)
  with True show ?thesis
    by (simp add: decode_rest_def rest_reads_def no_fault_bind_iff pointer_faults Let_def add.assoc)
next
  case False
  show ?thesis
  proof (cases "(29 :: u32) \<le> ucast (ctrl AND 31)")
    case True
    have "29 \<le> unat (ucast (ctrl AND 31) :: u32)" using True by (simp add: word_le_nat_alt)
    then show ?thesis
      using False True size_bytes_fault[OF True, of b i off]
      by (auto simp: decode_rest_def rest_reads_def no_fault_bind_iff payload_faults payload_reads_big Let_def)
  next
    case small: False
    then have "decode_size (Ptr b i) ctrl off = Done (ucast (ctrl AND 31), off)"
      by (auto simp: decode_size_def Let_def)
    then show ?thesis
      using False small by (simp add: decode_rest_def rest_reads_def payload_faults Let_def)
  qed
qed

text \<open>
  C39: What \<open>decode_one\<close> reads outside the file. An offset greater than \<open>data_section_size\<close> is refused and
  nothing is read. At every other offset, \<open>data_section_size\<close> itself included, the code reads the field without
  comparing its length with anything: the decoding leaves the block of the file exactly if the block ends before
  the bytes that the first two bytes of the field ask for. So the test lets just one offset too many pass, at
  which the control byte is behind the section and, where the file ends there, behind the file; and a field that
  is cut off at the end of the file is read behind it. Offsets
  less than 21 bytes from the end of the range of \<open>uint32_t\<close>, which would wrap, are left out.
\<close>
theorem decode_one_reads_behind_the_section:
  assumes "data_section db = Ptr b i" "unat off + 21 < 2 ^ 32"
  shows "(decode_one db off ed = Fault \<longleftrightarrow>
      off \<le> data_section_size db \<and> length b < i + unat off + field_reads (drop (i + unat off) b))
    \<and> (data_section_size db < off \<longrightarrow> decode_one db off ed = Done (MMDB_INVALID_DATA_ERROR, ed))
    \<and> (length b = i + unat (data_section_size db) \<and> off = data_section_size db \<longrightarrow> decode_one db off ed = Fault)"
proof (cases "data_section_size db < off")
  case True
  then show ?thesis by (auto simp: decode_one_def)
next
  case False
  let ?ty = "\<lambda>ctrl :: u8. ucast (drop_bit 5 ctrl AND 7) :: u32" and ?at = "i + unat off"
  have o: "unat (off + 1) = unat off + 1" "unat (off + 1 + 1) = unat off + 2" "unat (2 + off) = unat off + 2"
    using unat_add_u32[of off 1] unat_add_u32[of off 2] assms(2) by (simp_all add: add.assoc add.commute)
  have f: "no_fault (decode_one db off ed) \<longleftrightarrow> ?at + field_reads (drop ?at b) \<le> length b"
  proof (cases "?at < length b")
    case True
    then obtain ctrl bs where d: "drop ?at b = ctrl # bs" "b ! ?at = ctrl" "length bs = length b - ?at - 1"
      by (metis Cons_nth_drop_Suc length_drop diff_diff_left plus_1_eq_Suc add.commute)
    have r: "no_fault (decode_rest (Ptr b i) ctrl ed' ty off') \<longleftrightarrow> i + unat off' + rest_reads ctrl ty \<le> length b"
      if "i + unat off' \<le> length b" for ed' ty off'
      using rest_faults[of b i ctrl ed' ty off'] that by auto
    show ?thesis
    proof (cases "?ty ctrl = MMDB_DATA_TYPE_EXTENDED")
      case ext: True
      show ?thesis
      proof (cases bs)
        case Nil
        then show ?thesis
          using d ext \<open>?at < length b\<close> by (simp add: decode_one_rest[OF False] assms(1) o)
      next
        case (Cons e es)
        then have e: "b ! Suc ?at = e" "Suc ?at < length b"
          using d by (metis Cons_nth_drop_Suc True list.inject nth_via_drop, simp)
        then show ?thesis
          using d ext Cons \<open>?at < length b\<close> r[of "off + 1 + 1"]
          by (simp add: decode_one_rest[OF False] assms(1) o)
      qed
    next
      case False
      then show ?thesis
        using d \<open>?at < length b\<close> r[of "off + 1"]
        by (simp add: decode_one_rest[OF \<open>\<not> data_section_size db < off\<close>] assms(1) o)
    qed
  next
    case out: False
    then show ?thesis by (simp add: decode_one_rest[OF False] assms(1))
  qed
  then have iff: "decode_one db off ed = Fault \<longleftrightarrow> length b < ?at + field_reads (drop ?at b)"
    unfolding no_fault_def not_le[symmetric] by blast
  have "0 < field_reads bs" for bs
    by (cases bs) (auto simp: Let_def split: list.split)
  then show ?thesis using False iff by (auto simp: not_less)
qed

theorem decode_one_reads_behind_the_section_witness:
  "decode_one section_db 30 zero_entry_data = Fault
    \<and> decode_one section_db 31 zero_entry_data = Done (MMDB_INVALID_DATA_ERROR, zero_entry_data)
    \<and> decode_one section_db 29 zero_entry_data = Fault
    \<and> decode_one section_db 28 zero_entry_data \<noteq> Fault"
proof -
  have "field_reads (drop 29 section_bytes) = 2" "field_reads (drop 28 section_bytes) = 2" by code_simp+
  moreover have "data_section section_db = Ptr section_bytes 0" "data_section_size section_db = 30"
    "length section_bytes = 30"
    by (simp_all add: section_db_def section_bytes_def)
  ultimately show ?thesis
    using decode_one_reads_behind_the_section[of section_db section_bytes 0 _ zero_entry_data] by simp
qed

section \<open>Skipping\<close>

text \<open>
  Decoding a field, value or pointer, and skipping it arrives exactly behind the field, at
  whatever depth maps and arrays are nested in it.
\<close>
theorem skip_arrives_behind_the_field:
  assumes "data_ok db" "field_at (data_section db) off v e" "fdepth v < nest"
  shows "\<exists>ed'. checked (decode_one db (word_of_nat off) ed) (skip_map_or_array nest db)
      = Done (MMDB_SUCCESS, ed') \<and> offset_to_next ed' = word_of_nat e"
  by (rule section_reader.step_over[OF assms])

lemma section_value_depth [simp]: "fdepth section_value = 2"
  by (simp add: section_value_def fdepth.simps)

theorem skip_arrives_behind_the_field_witness:
  "\<exists>ed'. checked (decode_one section_db 16 zero_entry_data) (skip_map_or_array 3 section_db)
      = Done (MMDB_SUCCESS, ed') \<and> offset_to_next ed' = 30"
  using skip_arrives_behind_the_field[OF section_db_ok at_direct[OF section_entry(1)], of 3 zero_entry_data]
  by simp

text \<open>
  Skipping ends on every content of the section: the recursion is never deeper than the section
  is long, whatever the bytes say, because each decoding starts inside the section and moves
  forward.
\<close>
theorem skip_ends:
  assumes "no_wrap db" "unat (data_section_size db) + 2 \<le> nest"
  shows "skip_map_or_array nest db ed \<noteq> OutOfFuel"
proof -
  have "skips (skip_map_or_array nest db) ed"
    using assms by (intro skip_skips) (simp_all add: enough_def)
  then show ?thesis by (simp add: skips_def terminates_def)
qed

theorem skip_ends_witness: "skip_map_or_array 32 section_db zero_entry_data \<noteq> OutOfFuel"
  using skip_ends[of section_db 32 zero_entry_data] by (simp add: no_wrap_def section_db_def)

section \<open>Path lookup\<close>

text \<open>
  C5: A lookup by path computes the lookup in the value. Where the data section holds a value,
  every path gives the entry of the element that map keys and decimal array indexes select,
  through pointers or not; a path that selects nothing gives its error and an entry of zeros.
\<close>
theorem aget_value_is_lookup_in_the_value:
  assumes "data_ok db" "field_at (data_section db) (unat (entry_offset start)) v e" "fdepth v \<le> nest"
  shows "case field_get v path of
      Inl err \<Rightarrow> err \<noteq> MMDB_SUCCESS \<and> MMDB_aget_value nest db start path = Done (err, zero_entry_data)
    | Inr w \<Rightarrow> \<exists>ed. MMDB_aget_value nest db start path = Done (MMDB_SUCCESS, ed) \<and> entry_shows ed w"
  by (rule aget_value_cases[OF assms])

theorem aget_value_is_lookup_in_the_value_witness:
  "(\<exists>ed. MMDB_aget_value 2 section_db \<lparr>entry_offset = 16\<rparr> [''ab'', ''1''] = Done (MMDB_SUCCESS, ed)
      \<and> entry_shows ed (F_string [0x61, 0x62]))
    \<and> MMDB_aget_value 2 section_db \<lparr>entry_offset = 16\<rparr> [''ab'', ''2'']
      = Done (MMDB_LOOKUP_PATH_DOES_NOT_MATCH_DATA_ERROR, zero_entry_data)"
proof -
  have f: "field_at (data_section section_db) (unat (entry_offset \<lparr>entry_offset = 16\<rparr>)) section_value 30"
    using at_direct[OF section_entry(1)] by simp
  have g: "field_get section_value [''ab'', ''1''] = Inr (F_string [0x61, 0x62])"
    "field_get section_value [''ab'', ''2''] = Inl MMDB_LOOKUP_PATH_DOES_NOT_MATCH_DATA_ERROR"
    by code_simp+
  show ?thesis
    using aget_value_is_lookup_in_the_value[OF section_db_ok f, of 2 "[''ab'', ''1'']"]
      aget_value_is_lookup_in_the_value[OF section_db_ok f, of 2 "[''ab'', ''2'']"]
    unfolding g by simp
qed

text \<open>
  C31: A lookup by path ends on every content of the section and every path, for a section that is smaller than 4 GiB by more than
  the greatest size of a field, about 16 MiB, so that offsets do not wrap; the recursion is at most as deep as the section is long.
\<close>
theorem aget_value_ends:
  assumes "no_wrap db" "unat (data_section_size db) < nest"
  shows "MMDB_aget_value nest db start path \<noteq> OutOfFuel"
  using aget_value_terminates[OF assms, of start path] by (simp add: terminates_def)

theorem aget_value_ends_witness:
  "MMDB_aget_value 31 section_db \<lparr>entry_offset = 3\<rparr> [''x'', ''0''] \<noteq> OutOfFuel"
  using aget_value_ends[of section_db 31 "\<lparr>entry_offset = 3\<rparr>" "[''x'', ''0'']"]
  by (simp add: no_wrap_def section_db_def)

text \<open>
  \<open>MMDB_get_value\<close> with the arguments of a path and the closing null pointer, whatever is
  behind it, is \<open>MMDB_aget_value\<close> with that path; without memory for the copied path it returns
  its error and does not touch the caller's entry.
\<close>
theorem get_value_is_aget_value:
  "MMDB_get_value malloc_ok nest db start entry_data (map Some path @ None # va)
    = (if malloc_ok (length path + 1) then MMDB_aget_value nest db start path
       else Done (MMDB_OUT_OF_MEMORY_ERROR, entry_data))"
  by (simp add: MMDB_get_value_def MMDB_vget_value_def path_length_list collect_path_list)

text \<open>
  An array index is converted from \<open>long\<close> to \<open>int\<close> before it is tested, so indexes that
  differ by a multiple of \<open>2 ^ 32\<close> select the same element, negative ones included, and an
  empty path element selects the first.
\<close>
theorem array_index_wraps:
  "lookup_path_in_array nest ''4294967297'' db ed = lookup_path_in_array nest ''1'' db ed
    \<and> lookup_path_in_array nest ''-4294967295'' db ed = lookup_path_in_array nest ''1'' db ed
    \<and> lookup_path_in_array nest '''' db ed = lookup_path_in_array nest ''0'' db ed"
proof -
  have s: "strtol ''4294967297'' = (4294967297, False, '''')" "strtol ''-4294967295'' = (- 4294967295, False, '''')"
    "strtol ''1'' = (1, False, '''')" "strtol '''' = (0, False, '''')" "strtol ''0'' = (0, False, '''')"
    by (simp_all add: strtol_def is_space_def is_digit_def digits_value_def LONG_MAX_def LONG_MIN_def Let_def)
  have i: "int_of_long 4294967297 = 1" "int_of_long (- 4294967295) = 1" "int_of_long 1 = 1"
    by (simp_all add: int_of_long_def)
  show ?thesis unfolding lookup_path_in_array_def s by (simp add: i)
qed

section \<open>Unfolding a value into a list\<close>

text \<open>
  C8: \<open>MMDB_get_entry_data_list\<close> lists the value at the start, pointers followed, in pre-order:
  one node for the value and one for every key, value and element inside. If an allocation for
  one of these nodes fails, the result is that error, and otherwise success; no more
  allocations are made than there are nodes.
\<close>
theorem entry_data_list_is_the_value_in_preorder:
  assumes "data_ok db" "field_at (data_section db) (unat (entry_offset start)) v e" "2 * fdepth v + 1 < nest"
  shows "if \<forall>k < length (flat v). calloc_ok k
    then \<exists>nodes. MMDB_get_entry_data_list nest calloc_ok db start = Done (MMDB_SUCCESS, nodes)
      \<and> list_all2 entry_shows nodes (flat v)
    else \<exists>nodes. MMDB_get_entry_data_list nest calloc_ok db start = Done (MMDB_OUT_OF_MEMORY_ERROR, nodes)"
  using get_entry_data_list_field[OF assms, of calloc_ok] by (simp add: all_ok_less)

theorem entry_data_list_is_the_value_in_preorder_witness:
  "\<exists>nodes. MMDB_get_entry_data_list 6 (\<lambda>_. True) section_db \<lparr>entry_offset = 16\<rparr> = Done (MMDB_SUCCESS, nodes)
    \<and> list_all2 entry_shows nodes
        [section_value, F_string [0x61, 0x62], F_array [F_uint16 7, F_string [0x61, 0x62]],
         F_uint16 7, F_string [0x61, 0x62], F_string [0x63], F_boolean True]"
proof -
  have f: "field_at (data_section section_db) (unat (entry_offset \<lparr>entry_offset = 16\<rparr>)) section_value 30"
    using at_direct[OF section_entry(1)] by simp
  have "flat section_value = [section_value, F_string [0x61, 0x62], F_array [F_uint16 7, F_string [0x61, 0x62]],
      F_uint16 7, F_string [0x61, 0x62], F_string [0x63], F_boolean True]"
    by (simp add: section_value_def)
  with entry_data_list_is_the_value_in_preorder[OF section_db_ok f, of 6 "\<lambda>_. True"]
  show ?thesis by simp
qed

text \<open>
  C40: A pointer that leads to itself makes \<open>MMDB_get_entry_data_list\<close> run for ever: no bound on the
  number of steps is enough.
\<close>
theorem entry_data_list_of_self_pointer_never_ends:
  assumes "data_ok db" "stored (ptr_add (data_section db) off) bs" "pointer_target bs = Some off" "calloc_ok 0"
  shows "\<forall>nest. MMDB_get_entry_data_list nest calloc_ok db \<lparr>entry_offset = word_of_nat off\<rparr> = OutOfFuel"
  using get_entry_data_list_self[of db off bs calloc_ok, OF assms] by blast

theorem entry_data_list_of_self_pointer_never_ends_witness:
  "\<forall>nest. MMDB_get_entry_data_list nest (\<lambda>_. True)
      (section_db\<lparr>data_section := Ptr (replicate 16 0 @ [0x20, 0x00]) 0, data_section_size := 18\<rparr>)
      \<lparr>entry_offset = 16\<rparr> = OutOfFuel"
  using entry_data_list_of_self_pointer_never_ends[of "section_db\<lparr>data_section := Ptr (replicate 16 0 @ [0x20, 0x00]) 0,
      data_section_size := 18\<rparr>" 16 "[0x20, 0x00]" "\<lambda>_. True"]
  by (simp add: data_ok_def stored_Cons pointer_target_def nth_append)

text \<open>
  \<open>MMDB_free_entry_data_list\<close> frees every node of a list exactly once, the last one first.
\<close>
theorem free_entry_data_list_frees_each_node_once:
  "MMDB_free_entry_data_list nodes = rev nodes"
  by (induction nodes) auto

end
