(* ===== verification/EntryTyping.thy ===== *)
theory EntryTyping
  imports DataTheorems
begin

text \<open>
  A type invariant of entries: what decoding leaves behind in an \<open>MMDB_entry_data_s\<close> agrees with its
  \<open>type\<close>, whatever the bytes of the file are, so that whoever goes by the type reads the member of the
  union that was stored.
\<close>

section \<open>Entries and their types\<close>

text \<open>The type that goes with the member of the union stored last.\<close>

fun member_type :: "entry_union \<Rightarrow> u32 option" where
  "member_type U_zero = None"
| "member_type U_indeterminate = None"
| "member_type (U_pointer p) = Some MMDB_DATA_TYPE_POINTER"
| "member_type (U_utf8_string p) = Some MMDB_DATA_TYPE_UTF8_STRING"
| "member_type (U_double w) = Some MMDB_DATA_TYPE_DOUBLE"
| "member_type (U_bytes p) = Some MMDB_DATA_TYPE_BYTES"
| "member_type (U_uint16 w) = Some MMDB_DATA_TYPE_UINT16"
| "member_type (U_uint32 w) = Some MMDB_DATA_TYPE_UINT32"
| "member_type (U_int32 w) = Some MMDB_DATA_TYPE_INT32"
| "member_type (U_uint64 w) = Some MMDB_DATA_TYPE_UINT64"
| "member_type (U_uint128 w) = Some MMDB_DATA_TYPE_UINT128"
| "member_type (U_boolean b) = Some MMDB_DATA_TYPE_BOOLEAN"
| "member_type (U_float w) = Some MMDB_DATA_TYPE_FLOAT"

text \<open>
  The types of scalars have their member stored; strings, bytes, maps and arrays have their size. The
  two types without contents and the numbers above 15, which a corrupt file may hold, say nothing.
\<close>

definition well_typed :: "MMDB_entry_data_s \<Rightarrow> bool" where
  "well_typed ed \<longleftrightarrow> has_data ed
     \<and> (data_type ed \<in> {1, 2, 3, 4, 5, 6, 8, 9, 10, 14, 15} \<longrightarrow> member_type (entry_value ed) = Some (data_type ed))
     \<and> (data_type ed \<in> {2, 4, 7, 11} \<longrightarrow> data_size ed \<noteq> None)"

lemma well_typed_next [simp]: "well_typed (ed\<lparr>offset_to_next := off\<rparr>) = well_typed ed"
  by (simp add: well_typed_def)

section \<open>Decoding\<close>

lemma decode_payload_typed:
  assumes "has_data ed" "data_type ed = ty" "ty \<noteq> MMDB_DATA_TYPE_POINTER"
  shows "post (decode_payload mem ed ty sz off) (\<lambda>(st, ed'). st = MMDB_SUCCESS \<longrightarrow> well_typed ed')"
  using assms unfolding decode_payload_def Let_def
  by (intro post_intros) (auto simp: well_typed_def run_simps)

lemma decode_one_typed:
  "post (decode_one mmdb off ed) (\<lambda>(st, ed'). st = MMDB_SUCCESS \<longrightarrow> well_typed ed')"
  unfolding decode_one_def Let_def
  by (intro post_intros decode_payload_typed) (auto simp: well_typed_def run_simps)

lemma decode_one_typedD: "decode_one mmdb off ed = Done (MMDB_SUCCESS, ed') \<Longrightarrow> well_typed ed'"
  using postD[OF decode_one_typed] by fastforce

section \<open>What holds of every decoded entry\<close>

text \<open>
  A law of the entries that \<open>decode_one\<close> gives, of which the offset behind the entry is no part, is a law of
  whatever is made of them: of what a pointer leads to, of the nodes of a list and of the values at paths.
\<close>

definition gives_nodes :: "(MMDB_entry_data_s \<Rightarrow> bool) \<Rightarrow> (u32 \<Rightarrow> nat \<Rightarrow> MMDB_entry_data_s \<Rightarrow> listing) \<Rightarrow> bool" where
  "gives_nodes ok get \<longleftrightarrow> (\<forall>off c ed. post (get off c ed) (\<lambda>(st, c', ed', behind2).
     st = MMDB_SUCCESS \<longrightarrow> ok ed' \<and> list_all ok behind2))"

definition keeps_nodes :: "(MMDB_entry_data_s \<Rightarrow> bool) \<Rightarrow> (u32 \<Rightarrow> nat \<Rightarrow> MMDB_entry_data_s list \<Rightarrow> loop_state) \<Rightarrow> bool" where
  "keeps_nodes ok loop \<longleftrightarrow> (\<forall>off c behind. list_all ok behind \<longrightarrow> post (loop off c behind) (\<lambda>(st, c', off', behind').
     st = MMDB_SUCCESS \<longrightarrow> list_all ok behind'))"

lemma gives_nodesD:
  "gives_nodes ok get \<Longrightarrow> get off c ed = Done (MMDB_SUCCESS, c', ed', behind2) \<Longrightarrow> ok ed' \<and> list_all ok behind2"
  by (fastforce simp: gives_nodes_def dest: postD)

lemma keeps_nodesD:
  "keeps_nodes ok loop \<Longrightarrow> loop off c [] = Done (MMDB_SUCCESS, c', off', behind') \<Longrightarrow> list_all ok behind'"
proof -
  assume k: "keeps_nodes ok loop" and l: "loop off c [] = Done (MMDB_SUCCESS, c', off', behind')"
  have "post (loop off c []) (\<lambda>(st, c', off', behind'). st = MMDB_SUCCESS \<longrightarrow> list_all ok behind')"
    using k unfolding keeps_nodes_def by simp
  from postD[OF this l] show ?thesis by simp
qed

lemma list_node_keeps:
  assumes get: "gives_nodes ok get" and cont: "keeps_nodes ok continue"
  shows "keeps_nodes ok (\<lambda>off c behind. list_node get calloc_ok off c behind continue)"
  unfolding keeps_nodes_def
proof (intro allI impI)
  fix off c behind
  assume b: "list_all ok behind"
  show "post (list_node get calloc_ok off c behind continue)
      (\<lambda>(st, c', off', behind'). st = MMDB_SUCCESS \<longrightarrow> list_all ok behind')"
    unfolding list_node_def
  proof (intro post_intros)
    fix x a y st r to rest
    assume g: "get off (c + 1) zero_entry_data = Done x" and x: "x = (st, y)" "y = (a, r)" "r = (to, rest)"
      and st: "\<not> st \<noteq> MMDB_SUCCESS"
    then have "ok to \<and> list_all ok rest" using gives_nodesD[OF get] by simp
    with b have "list_all ok (behind @ to # rest)" by simp
    with cont show "post (continue (offset_to_next to) a (behind @ to # rest))
        (\<lambda>(st, c', off', behind'). st = MMDB_SUCCESS \<longrightarrow> list_all ok behind')"
      unfolding keeps_nodes_def by blast
  qed simp_all
qed

lemma nothing_kept: "keeps_nodes ok (\<lambda>off c behind. Done (MMDB_SUCCESS, c, off, behind))"
  by (simp add: keeps_nodes_def post_def)

lemma list_array_loop_keeps: "gives_nodes ok get \<Longrightarrow> keeps_nodes ok (list_array_loop get calloc_ok n)"
  by (induction n) (simp_all add: list_node_keeps nothing_kept)

lemma list_map_loop_keeps: "gives_nodes ok get \<Longrightarrow> keeps_nodes ok (list_map_loop get calloc_ok n)"
  by (induction n) (simp_all add: list_node_keeps nothing_kept)

locale entry_law =
  fixes mmdb :: MMDB_s and ok :: "MMDB_entry_data_s \<Rightarrow> bool"
  assumes decoded: "decode_one mmdb off ed = Done (MMDB_SUCCESS, ed') \<Longrightarrow> ok ed'"
    and moved: "ok (ed\<lparr>offset_to_next := to\<rparr>) = ok ed"
begin

abbreviation value_ok :: "MMDB_entry_data_s \<Rightarrow> bool" where
  "value_ok ed \<equiv> ok ed \<and> data_type ed \<noteq> MMDB_DATA_TYPE_POINTER"

lemma followed_ok: "decode_one_follow mmdb off ed = Done (MMDB_SUCCESS, ed') \<Longrightarrow> ok ed'"
  by (auto simp: decode_one_follow_def run_simps moved split: if_splits dest: decoded)

lemma pointer_loop_ok: "ok ed \<Longrightarrow> pointer_loop hops mmdb lo ed = Done (MMDB_SUCCESS, lo', ed') \<Longrightarrow> value_ok ed'"
proof (induction hops arbitrary: lo ed)
  case 0
  then show ?case by (subst (asm) pointer_loop.simps) (auto split: if_splits)
next
  case (Suc hops)
  from Suc.prems(2) show ?case
    by (subst (asm) pointer_loop.simps)
      (use Suc.prems(1) in \<open>auto simp: run_simps split: if_splits dest!: decoded Suc.IH[rotated]\<close>)
qed

lemma get_entry_data_list_ok: "gives_nodes value_ok (get_entry_data_list nest calloc_ok mmdb)"
proof (induction nest)
  case 0
  then show ?case by (simp add: gives_nodes_def post_def)
next
  case (Suc nest)
  note array = keeps_nodesD[OF list_array_loop_keeps[OF Suc]]
  note map = keeps_nodesD[OF list_map_loop_keeps[OF Suc]]
  show ?case
    unfolding gives_nodes_def get_entry_data_list.simps Let_def
    by (intro allI post_intros)
      (auto simp: moved dest: array map gives_nodesD[OF Suc] dest!: decoded dest: pointer_loop_ok)
qed

lemma nodes_ok:
  assumes "MMDB_get_entry_data_list nest calloc_ok mmdb start = Done (MMDB_SUCCESS, nodes)"
  shows "list_all value_ok nodes"
proof -
  obtain c ed behind where g: "get_entry_data_list nest calloc_ok mmdb (entry_offset start) 1 zero_entry_data
      = Done (MMDB_SUCCESS, c, ed, behind)" "nodes = ed # behind"
    using assms by (auto simp: MMDB_get_entry_data_list_def new_entry_data_list_def run_simps split: list.splits if_splits)
  from gives_nodesD[OF get_entry_data_list_ok g(1)] g(2) show ?thesis by simp
qed

lemma array_element_ok:
  "lookup_path_in_array nest path_elem mmdb ed = Done (MMDB_SUCCESS, ed') \<Longrightarrow> ok ed'"
  by (cases "strtol path_elem")
    (auto simp: lookup_path_in_array_def run_simps Let_def simp del: size_of_entry.simps split: if_splits dest: followed_ok)

lemma map_loop_ok:
  "lookup_map_loop nest path_elem mmdb n off ed = Done (MMDB_SUCCESS, ed') \<Longrightarrow> ok ed'"
  by (induction n arbitrary: off) (auto simp: run_simps split: prod.splits if_splits dest: followed_ok)

lemma aget_loop_ok: "ok ed \<Longrightarrow> aget_loop nest mmdb path ed = Done (MMDB_SUCCESS, ed') \<Longrightarrow> ok ed'"
proof (induction path arbitrary: ed)
  case (Cons path_elem path)
  from Cons.prems(2) obtain ed1 where "ok ed1" "aget_loop nest mmdb path ed1 = Done (MMDB_SUCCESS, ed')"
    by (auto simp: run_simps lookup_path_in_map_def split: prod.splits if_splits dest: array_element_ok map_loop_ok)
  then show ?case by (rule Cons.IH)
qed simp

lemma value_at_path_ok: "MMDB_aget_value nest mmdb start path = Done (MMDB_SUCCESS, ed) \<Longrightarrow> ok ed"
  by (auto simp: MMDB_aget_value_def run_simps split: if_splits dest: aget_loop_ok[OF followed_ok])

end

text \<open>Two such laws: entries are well typed, and strings are in the file, or empty.\<close>

interpretation typed: entry_law mmdb well_typed for mmdb
  by unfold_locales (auto dest: decode_one_typedD)

definition string_inside :: "MMDB_s \<Rightarrow> MMDB_entry_data_s \<Rightarrow> bool" where
  "string_inside mmdb ed \<longleftrightarrow> (data_type ed = MMDB_DATA_TYPE_UTF8_STRING \<longrightarrow>
     (\<exists>p. entry_value ed = U_utf8_string p \<and> (p = Ptr [0] 0 \<or> data_size ed \<noteq> Some 0 \<and> (\<exists>k. p = ptr_add (data_section mmdb) k))))"

lemma decode_payload_string_inside:
  assumes "data_type ed = ty"
  shows "post (decode_payload (data_section mmdb) ed ty sz off) (\<lambda>(st, ed'). st = MMDB_SUCCESS \<longrightarrow> string_inside mmdb ed')"
  using assms unfolding decode_payload_def Let_def
  by (intro post_intros) (auto simp: string_inside_def run_simps)

lemma decode_one_string_inside:
  "post (decode_one mmdb off ed) (\<lambda>(st, ed'). st = MMDB_SUCCESS \<longrightarrow> string_inside mmdb ed')"
  unfolding decode_one_def Let_def
  by (intro post_intros decode_payload_string_inside) (auto simp: string_inside_def run_simps)

interpretation inside: entry_law mmdb "string_inside mmdb" for mmdb
proof unfold_locales
  show "string_inside mmdb ed'" if "decode_one mmdb off ed = Done (MMDB_SUCCESS, ed')" for off ed ed'
    using postD[OF decode_one_string_inside that] by simp
qed (simp add: string_inside_def)

text \<open>
  C25: Entries are well typed. Whatever the bytes of the section, when \<open>MMDB_get_entry_data_list\<close> succeeds,
  every node of its list has data, is no pointer, and holds the member of the union, and the size,
  that its type calls for.
\<close>
theorem entry_data_list_is_well_typed:
  assumes "MMDB_get_entry_data_list nest calloc_ok mmdb start = Done (MMDB_SUCCESS, nodes)"
  shows "list_all (\<lambda>ed. well_typed ed \<and> data_type ed \<noteq> MMDB_DATA_TYPE_POINTER) nodes"
  by (rule typed.nodes_ok[OF assms])

theorem entry_data_list_is_well_typed_witness:
  "\<exists>nodes. MMDB_get_entry_data_list 6 (\<lambda>_. True) section_db \<lparr>entry_offset = 16\<rparr> = Done (MMDB_SUCCESS, nodes)
    \<and> list_all (\<lambda>ed. well_typed ed \<and> data_type ed \<noteq> MMDB_DATA_TYPE_POINTER) nodes"
proof -
  have f: "field_at (data_section section_db) (unat (entry_offset \<lparr>entry_offset = 16\<rparr>)) section_value 30"
    using at_direct[OF section_entry(1)] by simp
  obtain nodes where "MMDB_get_entry_data_list 6 (\<lambda>_. True) section_db \<lparr>entry_offset = 16\<rparr> = Done (MMDB_SUCCESS, nodes)"
    using get_entry_data_list_field[OF section_db_ok f, of 6 "\<lambda>_. True"] by (auto simp: section_value_def fdepth.simps)
  with entry_data_list_is_well_typed[OF this] show ?thesis by blast
qed

end
