(* ===== verification/Metadata.thy ===== *)
theory Metadata
  imports EntryList
begin

text \<open>
  The metadata of a database file: finding it, \<open>make_fake_metadata_db\<close>, \<open>value_for_key_as_\<dots>\<close>,
  \<open>populate_languages_metadata\<close>, \<open>populate_description_metadata\<close>, \<open>read_metadata\<close> and
  \<open>MMDB_get_metadata_as_entry_data_list\<close> of \<^verbatim>\<open>libmaxminddb/src/maxminddb.c\<close>.
  \<open>nest\<close> bounds the recursion of the lookups; \<open>malloc_ok\<close> tells for each call of \<open>malloc\<close>,
  named by the place it is made from, whether it succeeds.
\<close>

section \<open>Finding the metadata\<close>

text \<open>\<^verbatim>\<open>"\xab\xcd\xefMaxMind.com"\<close>\<close>

definition METADATA_MARKER :: "u8 list" where
  "METADATA_MARKER = [0xAB, 0xCD, 0xEF, 0x4D, 0x61, 0x78, 0x4D, 0x69, 0x6E, 0x64, 0x2E, 0x63, 0x6F, 0x6D]"

definition METADATA_BLOCK_MAX_SIZE :: nat where
  "METADATA_BLOCK_MAX_SIZE = 131072"

text \<open>The \<open>do \<dots> while\<close> loop, at most \<open>rounds\<close> rounds of it; the result is \<open>search_area\<close>.\<close>

fun find_metadata_loop :: "nat \<Rightarrow> cptr \<Rightarrow> nat \<Rightarrow> cptr run" where
  "find_metadata_loop 0 search_area max_sz = OutOfFuel"
| "find_metadata_loop (Suc rounds) search_area max_sz =
     bind_run (mmdb_memmem search_area max_sz (Ptr METADATA_MARKER 0) (length METADATA_MARKER)) (\<lambda>tmp.
     case (if tmp \<noteq> Null then (tmp, max_sz - ptr_diff tmp search_area) else (search_area, max_sz)) of
       (search_area, max_sz) \<Rightarrow>
         if tmp \<noteq> Null \<and> tmp \<noteq> search_area then find_metadata_loop rounds search_area max_sz
         else Done search_area)"

text \<open>The start of the metadata and its size; two rounds are more than the loop ever takes.\<close>

definition find_metadata :: "cptr \<Rightarrow> nat \<Rightarrow> (cptr \<times> u32) run" where
  "find_metadata content sz =
     (let max_sz = (if sz > METADATA_BLOCK_MAX_SIZE then METADATA_BLOCK_MAX_SIZE else sz) in
      bind_run (find_metadata_loop 2 (ptr_add content (sz - max_sz)) max_sz) (\<lambda>search_area.
        Done (ptr_add search_area (length METADATA_MARKER),
              word_of_nat (sz - ptr_diff search_area content))))"

definition make_fake_metadata_db :: "MMDB_s \<Rightarrow> MMDB_s" where
  "make_fake_metadata_db mmdb =
     zero_mmdb\<lparr>data_section := metadata_section mmdb, data_section_size := metadata_section_size mmdb\<rparr>"

section \<open>Values by key\<close>

text \<open>
  Reading an integer member of \<open>bytes\<close> bytes from the union, little-endian, whatever member was
  stored last; reading more bytes than that member has, or the bytes of a pointer, is a fault.
\<close>

fun union_low :: "nat \<Rightarrow> entry_union \<Rightarrow> nat run" where
  "union_low bytes U_zero = Done 0"
| "union_low bytes (U_pointer w) = (if bytes \<le> 4 then Done (unat w) else Fault)"
| "union_low bytes (U_double w) = (if bytes \<le> 8 then Done (unat w) else Fault)"
| "union_low bytes (U_uint16 w) = (if bytes \<le> 2 then Done (unat w) else Fault)"
| "union_low bytes (U_uint32 w) = (if bytes \<le> 4 then Done (unat w) else Fault)"
| "union_low bytes (U_int32 w) = (if bytes \<le> 4 then Done (unat w) else Fault)"
| "union_low bytes (U_uint64 w) = (if bytes \<le> 8 then Done (unat w) else Fault)"
| "union_low bytes (U_uint128 w) = (if bytes \<le> 16 then Done (unat w) else Fault)"
| "union_low bytes (U_float w) = (if bytes \<le> 4 then Done (unat w) else Fault)"
| "union_low bytes (U_boolean b) = (if bytes \<le> 1 then Done (of_bool b) else Fault)"
| "union_low bytes _ = Fault"

definition value_for_key_as_uint16 :: "nat \<Rightarrow> MMDB_s \<Rightarrow> MMDB_entry_s \<Rightarrow> string \<Rightarrow> u16 run" where
  "value_for_key_as_uint16 nest mmdb start key =
     bind_run (MMDB_aget_value nest mmdb start [key]) (\<lambda>(st, ed).
     bind_run (union_low 2 (entry_value ed)) (\<lambda>n. Done (word_of_nat n)))"

definition value_for_key_as_uint32 :: "nat \<Rightarrow> MMDB_s \<Rightarrow> MMDB_entry_s \<Rightarrow> string \<Rightarrow> u32 run" where
  "value_for_key_as_uint32 nest mmdb start key =
     bind_run (MMDB_aget_value nest mmdb start [key]) (\<lambda>(st, ed).
     bind_run (union_low 4 (entry_value ed)) (\<lambda>n. Done (word_of_nat n)))"

definition value_for_key_as_uint64 :: "nat \<Rightarrow> MMDB_s \<Rightarrow> MMDB_entry_s \<Rightarrow> string \<Rightarrow> u64 run" where
  "value_for_key_as_uint64 nest mmdb start key =
     bind_run (MMDB_aget_value nest mmdb start [key]) (\<lambda>(st, ed).
     bind_run (union_low 8 (entry_value ed)) (\<lambda>n. Done (word_of_nat n)))"

text \<open>The copy of the string an entry shows.\<close>

definition strndup_entry :: "bool \<Rightarrow> MMDB_entry_data_s \<Rightarrow> cptr run" where
  "strndup_entry malloc_ok ed =
     bind_run (union_utf8_string (entry_value ed)) (\<lambda>p.
     bind_run (size_of_entry ed) (\<lambda>sz. mmdb_strndup malloc_ok p (unat sz)))"

definition value_for_key_as_string ::
  "bool \<Rightarrow> nat \<Rightarrow> MMDB_s \<Rightarrow> MMDB_entry_s \<Rightarrow> string \<Rightarrow> cptr run" where
  "value_for_key_as_string malloc_ok nest mmdb start key =
     bind_run (MMDB_aget_value nest mmdb start [key]) (\<lambda>(st, ed). strndup_entry malloc_ok ed)"

section \<open>Languages and descriptions\<close>

text \<open>The calls of \<open>malloc\<close> while a file is opened.\<close>

datatype alloc_site =
    A_filename
  | A_database_type
  | A_language_node nat
  | A_names
  | A_name nat
  | A_description_node nat
  | A_descriptions
  | A_description nat
  | A_description_language nat
  | A_description_text nat

text \<open>
  The loop over the names, \<open>n\<close> left, the \<open>i\<close>-th next; \<open>nodes\<close> are the nodes behind \<open>member\<close>.
  The array is the list of the names stored so far. A node that is missing is read through a
  null pointer.
\<close>

fun languages_loop ::
  "(alloc_site \<Rightarrow> bool) \<Rightarrow> nat \<Rightarrow> nat \<Rightarrow> MMDB_entry_data_s list \<Rightarrow> cptr list \<Rightarrow> MMDB_metadata_s \<Rightarrow>
     MMDB_metadata_s outcome" where
  "languages_loop malloc_ok i 0 nodes names md = Done (MMDB_SUCCESS, md)"
| "languages_loop malloc_ok i (Suc n) nodes names md =
     (case nodes of [] \<Rightarrow> Fault | member # nodes \<Rightarrow>
        if data_type member \<noteq> MMDB_DATA_TYPE_UTF8_STRING then Done (MMDB_INVALID_METADATA_ERROR, md)
        else
          bind_run (strndup_entry (malloc_ok (A_name i)) member) (\<lambda>s.
            let names = names @ [s]; md = md\<lparr>languages_names := Some names\<rparr> in
            if s = Null then Done (MMDB_OUT_OF_MEMORY_ERROR, md)
            else languages_loop malloc_ok (i + 1) n nodes names (md\<lparr>languages_count := i + 1\<rparr>)))"

text \<open>
  The list is read from its first node on, whatever the status of building it was. It belongs to the function alone,
  which frees it just before it returns with success; the result has the nodes that are left allocated when it
  returns, which no pointer leads to any more.
\<close>

definition populate_languages_metadata ::
  "(alloc_site \<Rightarrow> bool) \<Rightarrow> nat \<Rightarrow> MMDB_s \<Rightarrow> MMDB_entry_s \<Rightarrow> MMDB_metadata_s \<Rightarrow>
     (MMDB_entry_data_s list \<times> MMDB_metadata_s) outcome" where
  "populate_languages_metadata malloc_ok nest metadata_db metadata_start md =
     bind_run (MMDB_aget_value nest metadata_db metadata_start [''languages'']) (\<lambda>(st, ed).
     if data_type ed \<noteq> MMDB_DATA_TYPE_ARRAY then Done (MMDB_INVALID_METADATA_ERROR, [], md)
     else
       bind_run (MMDB_get_entry_data_list nest (\<lambda>k. malloc_ok (A_language_node k)) metadata_db
                   \<lparr>entry_offset = data_offset ed\<rparr>) (\<lambda>(st, entries).
       case entries of [] \<Rightarrow> Fault | member # nodes \<Rightarrow>
         bind_run (size_of_entry member) (\<lambda>array_size.
           let md = md\<lparr>languages_count := 0,
                       languages_names := (if malloc_ok A_names then Some [] else None)\<rparr> in
           if \<not> malloc_ok A_names then Done (MMDB_OUT_OF_MEMORY_ERROR, entries, md)
           else bind_run (languages_loop malloc_ok 0 (unat array_size) nodes [] md) (\<lambda>(st, md).
             if st \<noteq> MMDB_SUCCESS then Done (st, entries, md)
             else Done (MMDB_SUCCESS, [], md)))))"

text \<open>
  The loop over the descriptions. The \<open>i\<close>-th description is stored in the array first and its
  members are filled in then.
\<close>

fun descriptions_loop ::
  "(alloc_site \<Rightarrow> bool) \<Rightarrow> nat \<Rightarrow> nat \<Rightarrow> MMDB_entry_data_s list \<Rightarrow>
     MMDB_description_s option list \<Rightarrow> MMDB_metadata_s \<Rightarrow> MMDB_metadata_s outcome" where
  "descriptions_loop malloc_ok i 0 nodes ds md = Done (MMDB_SUCCESS, md)"
| "descriptions_loop malloc_ok i (Suc n) nodes ds md =
     (if \<not> malloc_ok (A_description i) then
        Done (MMDB_OUT_OF_MEMORY_ERROR, md\<lparr>descriptions := Some (ds @ [None])\<rparr>)
      else
        let store = (\<lambda>l t. md\<lparr>description_count := i + 1,
                          descriptions := Some (ds @ [Some \<lparr>language = l, description_text = t\<rparr>])\<rparr>) in
        case nodes of [] \<Rightarrow> Fault | member # nodes \<Rightarrow>
        if data_type member \<noteq> MMDB_DATA_TYPE_UTF8_STRING then
          Done (MMDB_INVALID_METADATA_ERROR, store Null Null)
        else
          bind_run (strndup_entry (malloc_ok (A_description_language i)) member) (\<lambda>l.
          if l = Null then Done (MMDB_OUT_OF_MEMORY_ERROR, store Null Null)
          else
            case nodes of [] \<Rightarrow> Fault | member # nodes \<Rightarrow>
            if data_type member \<noteq> MMDB_DATA_TYPE_UTF8_STRING then
              Done (MMDB_INVALID_METADATA_ERROR, store l Null)
            else
              bind_run (strndup_entry (malloc_ok (A_description_text i)) member) (\<lambda>t.
              if t = Null then Done (MMDB_OUT_OF_MEMORY_ERROR, store l Null)
              else
                descriptions_loop malloc_ok (i + 1) n nodes
                  (ds @ [Some \<lparr>language = l, description_text = t\<rparr>]) (store l t))))"

definition populate_description_metadata ::
  "(alloc_site \<Rightarrow> bool) \<Rightarrow> nat \<Rightarrow> MMDB_s \<Rightarrow> MMDB_entry_s \<Rightarrow> MMDB_metadata_s \<Rightarrow>
     (MMDB_entry_data_s list \<times> MMDB_metadata_s) outcome" where
  "populate_description_metadata malloc_ok nest metadata_db metadata_start md =
     bind_run (MMDB_aget_value nest metadata_db metadata_start [''description'']) (\<lambda>(st, ed).
     if data_type ed \<noteq> MMDB_DATA_TYPE_MAP then Done (MMDB_INVALID_METADATA_ERROR, [], md)
     else
       bind_run (MMDB_get_entry_data_list nest (\<lambda>k. malloc_ok (A_description_node k)) metadata_db
                   \<lparr>entry_offset = data_offset ed\<rparr>) (\<lambda>(st, entries).
       case entries of [] \<Rightarrow> Fault | member # nodes \<Rightarrow>
         bind_run (size_of_entry member) (\<lambda>map_size.
           let md = md\<lparr>description_count := 0,
                       descriptions := (if malloc_ok A_descriptions then Some [] else None)\<rparr> in
           if \<not> malloc_ok A_descriptions then Done (MMDB_OUT_OF_MEMORY_ERROR, entries, md)
           else bind_run (descriptions_loop malloc_ok 0 (unat map_size) nodes [] md) (\<lambda>(st, md).
             if st \<noteq> MMDB_SUCCESS then Done (st, entries, md)
             else Done (MMDB_SUCCESS, [], md)))))"

section \<open>read_metadata\<close>

text \<open>
  The members are stored as they are read. \<open>put st md\<close> is a return with the handle so far;
  the test of \<open>build_epoch\<close> and the others are against zero, the result for a key not found. \<open>lost\<close> are the nodes of
  a list that is left allocated.
\<close>

definition read_metadata :: "(alloc_site \<Rightarrow> bool) \<Rightarrow> nat \<Rightarrow> MMDB_s \<Rightarrow>
     (MMDB_entry_data_s list \<times> MMDB_s) outcome" where
  "read_metadata malloc_ok nest mmdb =
     (let metadata_db = make_fake_metadata_db mmdb; start = \<lparr>entry_offset = 0\<rparr>;
          put = (\<lambda>st md. Done (st, [], mmdb\<lparr>metadata := md\<rparr>)); md = metadata mmdb in
      bind_run (value_for_key_as_uint32 nest metadata_db start ''node_count'') (\<lambda>v.
      let md = md\<lparr>node_count := v\<rparr> in
      if node_count md = 0 then put MMDB_INVALID_METADATA_ERROR md else
      bind_run (value_for_key_as_uint16 nest metadata_db start ''record_size'') (\<lambda>v.
      let md = md\<lparr>record_size := v\<rparr> in
      if record_size md = 0 then put MMDB_INVALID_METADATA_ERROR md else
      if record_size md \<noteq> 24 \<and> record_size md \<noteq> 28 \<and> record_size md \<noteq> 32 then
        put MMDB_UNKNOWN_DATABASE_FORMAT_ERROR md else
      bind_run (value_for_key_as_uint16 nest metadata_db start ''ip_version'') (\<lambda>v.
      let md = md\<lparr>ip_version := v\<rparr> in
      if ip_version md = 0 then put MMDB_INVALID_METADATA_ERROR md else
      if \<not> (ip_version md = 4 \<or> ip_version md = 6) then put MMDB_INVALID_METADATA_ERROR md else
      bind_run (value_for_key_as_string (malloc_ok A_database_type) nest metadata_db start ''database_type'') (\<lambda>s.
      let md = md\<lparr>database_type := s\<rparr> in
      if database_type md = Null then put MMDB_INVALID_METADATA_ERROR md else
      bind_run (populate_languages_metadata malloc_ok nest metadata_db start md) (\<lambda>(st, lost, md).
      if st \<noteq> MMDB_SUCCESS then Done (st, lost, mmdb\<lparr>metadata := md\<rparr>) else
      bind_run (value_for_key_as_uint16 nest metadata_db start ''binary_format_major_version'') (\<lambda>v.
      let md = md\<lparr>binary_format_major_version := v\<rparr> in
      if binary_format_major_version md = 0 then put MMDB_INVALID_METADATA_ERROR md else
      bind_run (value_for_key_as_uint16 nest metadata_db start ''binary_format_minor_version'') (\<lambda>v.
      let md = md\<lparr>binary_format_minor_version := v\<rparr> in
      bind_run (value_for_key_as_uint64 nest metadata_db start ''build_epoch'') (\<lambda>v.
      let md = md\<lparr>build_epoch := v\<rparr> in
      if build_epoch md = 0 then put MMDB_INVALID_METADATA_ERROR md else
      bind_run (populate_description_metadata malloc_ok nest metadata_db start md) (\<lambda>(st, lost, md).
      if st \<noteq> MMDB_SUCCESS then Done (st, lost, mmdb\<lparr>metadata := md\<rparr>) else
      Done (MMDB_SUCCESS, [],
        mmdb\<lparr>metadata := md,
             full_record_byte_size := ucast ((ucast (record_size md) :: u32) * 2 div 8),
             depth := (if ip_version md = 4 then 32 else 128)\<rparr>)))))))))))"

definition MMDB_get_metadata_as_entry_data_list ::
  "nat \<Rightarrow> (nat \<Rightarrow> bool) \<Rightarrow> MMDB_s \<Rightarrow> (status \<times> MMDB_entry_data_s list) run" where
  "MMDB_get_metadata_as_entry_data_list nest calloc_ok mmdb =
     MMDB_get_entry_data_list nest calloc_ok (make_fake_metadata_db mmdb) \<lparr>entry_offset = 0\<rparr>"

end
