(* ===== verification/Printing.thy ===== *)
theory Printing
  imports Metadata
begin

text \<open>
  The conversions of \<open>fprintf\<close>, \<open>sprintf\<close> and \<open>snprintf\<close> that the program uses, as the C standard and
  the host's library define them: \<open>%u\<close>, \<open>%d\<close>, \<open>%02X\<close>, \<open>%016X\<close>, \<open>%f\<close> and \<open>%s\<close>. Printed text is a list of
  bytes.
\<close>

section \<open>Integers\<close>

text \<open>The character of a digit; capital letters stand for 10 to 15.\<close>

definition digit_char :: "nat \<Rightarrow> u8" where
  "digit_char d = (if d < 10 then word_of_nat (48 + d) else word_of_nat (55 + d))"

definition char_digit :: "u8 \<Rightarrow> nat" where
  "char_digit c = (if unat c < 58 then unat c - 48 else unat c - 55)"

text \<open>\<open>%u\<close>\<close>

fun print_nat :: "nat \<Rightarrow> u8 list" where
  "print_nat n = (if n < 10 then [digit_char n] else print_nat (n div 10) @ [digit_char (n mod 10)])"

declare print_nat.simps [simp del]

text \<open>\<open>%d\<close>\<close>

definition print_int :: "int \<Rightarrow> u8 list" where
  "print_int i = (if i < 0 then 0x2D # print_nat (nat (- i)) else print_nat (nat i))"

text \<open>The last \<open>k\<close> digits in base \<open>b\<close>, with leading zeros: \<open>%02X\<close> and \<open>%016X\<close> for base 16.\<close>

fun print_fixed :: "nat \<Rightarrow> nat \<Rightarrow> nat \<Rightarrow> u8 list" where
  "print_fixed b 0 n = []"
| "print_fixed b (Suc k) n = print_fixed b k (n div b) @ [digit_char (n mod b)]"

text \<open>The number that digits stand for.\<close>

definition read_digits :: "nat \<Rightarrow> u8 list \<Rightarrow> nat" where
  "read_digits b cs = foldl (\<lambda>n c. n * b + char_digit c) 0 cs"

lemma char_digit_char [simp]:
  assumes "d < 16"
  shows "char_digit (digit_char d) = d"
proof -
  have "unat (word_of_nat (48 + d) :: u8) = 48 + d" "unat (word_of_nat (55 + d) :: u8) = 55 + d"
    by (rule unat_word_of_nat, use assms in simp)+
  then show ?thesis using assms by (simp add: char_digit_def digit_char_def del: of_nat_add)
qed

lemma read_digits_append [simp]: "read_digits b (cs @ [c]) = read_digits b cs * b + char_digit c"
  by (simp add: read_digits_def)

lemma read_print_nat [simp]: "read_digits 10 (print_nat n) = n"
proof (induction n rule: print_nat.induct)
  case (1 n)
  then show ?case
    by (subst print_nat.simps) (simp add: read_digits_def[of 10 "[_]"])
qed

lemma read_print_fixed [simp]:
  "1 < b \<Longrightarrow> b \<le> 16 \<Longrightarrow> read_digits b (print_fixed b k n) = n mod b ^ k"
proof (induction k arbitrary: n)
  case 0
  then show ?case by (simp add: read_digits_def)
next
  case (Suc k)
  have "n mod b < 16" using Suc.prems by (meson less_le_trans mod_less_divisor order_less_trans zero_less_one)
  then show ?case
    using Suc by (simp add: mod_mult2_eq mult.commute)
qed

lemma length_print_fixed [simp]: "length (print_fixed b k n) = k"
  by (induction k arbitrary: n) auto

section \<open>Floating point numbers\<close>

text \<open>The quotient, rounded to the nearest integer, to the even one in the middle.\<close>

definition round_even :: "nat \<Rightarrow> nat \<Rightarrow> nat" where
  "round_even num den =
     (let q = num div den; r = num mod den in
      if 2 * r < den \<or> 2 * r = den \<and> even q then q else q + 1)"

text \<open>\<open>%f\<close> of the number \<open>num / den\<close>, with six digits behind the point.\<close>

definition print_ratio :: "nat \<Rightarrow> nat \<Rightarrow> u8 list" where
  "print_ratio num den =
     (let n = round_even (num * 1000000) den in
      print_nat (n div 1000000) @ [0x2E] @ print_fixed 10 6 (n mod 1000000))"

text \<open>
  \<open>%f\<close> of an IEEE pattern with \<open>eb\<close> bits of exponent and \<open>fb\<close> bits of fraction. A \<open>float\<close> is converted
  to \<open>double\<close> first, which changes nothing about the number.
\<close>

definition print_ieee :: "nat \<Rightarrow> nat \<Rightarrow> nat \<Rightarrow> u8 list" where
  "print_ieee eb fb w =
     (let sgn = (if w div 2 ^ (eb + fb) mod 2 = 1 then [0x2D] else []);
          ex = w div 2 ^ fb mod 2 ^ eb; fr = w mod 2 ^ fb; bias = 2 ^ (eb - 1) - 1 + fb in
      if ex = 2 ^ eb - 1 then sgn @ c_bytes (if fr = 0 then ''inf'' else ''nan'')
      else
        let m = (if ex = 0 then fr else 2 ^ fb + fr); e = (if ex = 0 then 1 else ex) in
        sgn @ (if bias \<le> e then print_ratio (m * 2 ^ (e - bias)) 1 else print_ratio m (2 ^ (bias - e))))"

definition print_double :: "u64 \<Rightarrow> u8 list" where
  "print_double w = print_ieee 11 52 (unat w)"

definition print_float :: "u32 \<Rightarrow> u8 list" where
  "print_float w = print_ieee 8 23 (unat w)"

lemma round_even_nearest:
  assumes "0 < den"
  shows "2 * num \<le> (2 * round_even num den + 1) * den" "2 * round_even num den * den \<le> 2 * num + den"
proof -
  define q r where "q = num div den" and "r = num mod den"
  have n: "num = q * den + r" and r: "r < den" using assms by (simp_all add: q_def r_def)
  have "round_even num den = (if 2 * r < den \<or> 2 * r = den \<and> even q then q else q + 1)"
    by (simp add: round_even_def Let_def q_def r_def)
  then show "2 * num \<le> (2 * round_even num den + 1) * den" "2 * round_even num den * den \<le> 2 * num + den"
    using n r by (auto simp: algebra_simps)
qed

section \<open>Strings\<close>

text \<open>\<open>%s\<close>: the bytes before the first zero, which must be inside the block.\<close>

fun print_string :: "cptr \<Rightarrow> u8 list run" where
  "print_string Null = Fault"
| "print_string (Ptr b i) =
     (if 0 \<in> set (drop i b) then Done (takeWhile (\<lambda>c. c \<noteq> 0) (drop i b)) else Fault)"

lemma print_string_closed [simp]: "0 \<notin> set s \<Longrightarrow> print_string (Ptr (s @ [0]) 0) = Done s"
  by (subst print_string.simps) (auto simp: takeWhile_eq_all_conv takeWhile_append)

declare print_string.simps [simp del]

text \<open>Text that is written directly.\<close>

abbreviation newline :: u8 where "newline \<equiv> 0x0A"
abbreviation quote_char :: u8 where "quote_char \<equiv> 0x22"

end
