(* ===== verification/Dump.thy ===== *)
theory Dump
  imports Printing
begin

text \<open>
  Printing a list of entries: \<open>MMDB_dump_entry_data_list\<close>, \<open>dump_entry_data_list\<close>,
  \<open>print_indentation\<close> and \<open>bytes_to_hex\<close> of \<^verbatim>\<open>libmaxminddb/src/maxminddb.c\<close>. What is written to the
  stream is a result.
\<close>

section \<open>print_indentation and bytes_to_hex\<close>

text \<open>A negative width becomes a huge one when it is passed to \<open>memset\<close>.\<close>

definition print_indentation :: "int \<Rightarrow> u8 list run" where
  "print_indentation i =
     (let sz = (if i \<ge> 1024 then 1023 else i) in
      if sz < 0 then Fault else Done (replicate (nat sz) 32))"

text \<open>The loop, \<open>n\<close> bytes left, \<open>i\<close> next; \<open>hex_string\<close> is the text written so far.\<close>

fun hex_loop :: "cptr \<Rightarrow> nat \<Rightarrow> nat \<Rightarrow> u8 list \<Rightarrow> u8 list run" where
  "hex_loop bytes i 0 hex_string = Done hex_string"
| "hex_loop bytes i (Suc n) hex_string =
     bind_run (deref bytes i) (\<lambda>b. hex_loop bytes (i + 1) n (hex_string @ print_fixed 16 2 (unat b)))"

text \<open>
  The result of \<open>malloc\<close> is not tested, so that writing to it is a fault when it is null. The bytes
  of the new block are indeterminate, and are left so if there is nothing to convert: no byte of
  the block can be read then. Each \<open>sprintf\<close> ends the text written so far with a zero.
\<close>

definition bytes_to_hex :: "bool \<Rightarrow> cptr \<Rightarrow> u32 \<Rightarrow> cptr run" where
  "bytes_to_hex malloc_ok bytes sz =
     (if sz = 0 then Done (if malloc_ok then Ptr [] 0 else Null)
      else if \<not> malloc_ok \<or> unat (sz * 2 + 1) \<le> 2 * unat sz then Fault
      else bind_run (hex_loop bytes 0 (unat sz) []) (\<lambda>hex. Done (Ptr (hex @ [0]) 0)))"

section \<open>dump_entry_data_list\<close>

text \<open>
  The status, the text written and the list left. At most one call of \<open>malloc\<close> is made for a node;
  \<open>malloc_ok k\<close> tells whether the one for the node with \<open>k\<close> nodes behind it succeeds.
\<close>

type_synonym dumped = "(status \<times> u8 list \<times> MMDB_entry_data_s list) run"

text \<open>Adding to an \<open>int\<close>; leaving its range has no defined result.\<close>

definition int_add :: "int \<Rightarrow> int \<Rightarrow> int run" where
  "int_add a b = (if - 2147483648 \<le> a + b \<and> a + b \<le> 2147483647 then Done (a + b) else Fault)"

definition print_line :: "int \<Rightarrow> u8 list \<Rightarrow> MMDB_entry_data_s list \<Rightarrow> dumped" where
  "print_line indent t next_nodes =
     bind_run (print_indentation indent) (\<lambda>sp. Done (MMDB_SUCCESS, sp @ t @ [newline], next_nodes))"

fun union_bytes :: "entry_union \<Rightarrow> cptr run" where
  "union_bytes (U_bytes p) = Done p"
| "union_bytes U_zero = Done Null"
| "union_bytes _ = Fault"

text \<open>
  The cases of the \<open>switch\<close> other than maps and arrays; the text of \<open>bytes_to_hex\<close> and of a string
  is what \<open>%s\<close> prints of it.
\<close>

definition dump_scalar :: "(nat \<Rightarrow> bool) \<Rightarrow> int \<Rightarrow> MMDB_entry_data_s \<Rightarrow> MMDB_entry_data_s list \<Rightarrow> dumped" where
  "dump_scalar malloc_ok indent ed next_nodes =
     (let ok = malloc_ok (length next_nodes); ty = data_type ed; v = entry_value ed in
      if ty = MMDB_DATA_TYPE_UTF8_STRING then
        bind_run (strndup_entry ok ed) (\<lambda>s.
        if s = Null then Done (MMDB_OUT_OF_MEMORY_ERROR, [], [])
        else bind_run (print_string s) (\<lambda>t.
          print_line indent ([quote_char] @ t @ [quote_char] @ c_bytes '' <utf8_string>'') next_nodes))
      else if ty = MMDB_DATA_TYPE_BYTES then
        bind_run (union_bytes v) (\<lambda>p.
        bind_run (size_of_entry ed) (\<lambda>sz.
        bind_run (bytes_to_hex ok p sz) (\<lambda>hex.
        if hex = Null then Done (MMDB_OUT_OF_MEMORY_ERROR, [], [])
        else bind_run (print_string hex) (\<lambda>t. print_line indent (t @ c_bytes '' <bytes>'') next_nodes))))
      else if ty = MMDB_DATA_TYPE_DOUBLE then
        bind_run (union_low 8 v) (\<lambda>n. print_line indent (print_double (word_of_nat n) @ c_bytes '' <double>'') next_nodes)
      else if ty = MMDB_DATA_TYPE_FLOAT then
        bind_run (union_low 4 v) (\<lambda>n. print_line indent (print_float (word_of_nat n) @ c_bytes '' <float>'') next_nodes)
      else if ty = MMDB_DATA_TYPE_UINT16 then
        bind_run (union_low 2 v) (\<lambda>n. print_line indent (print_nat n @ c_bytes '' <uint16>'') next_nodes)
      else if ty = MMDB_DATA_TYPE_UINT32 then
        bind_run (union_low 4 v) (\<lambda>n. print_line indent (print_nat n @ c_bytes '' <uint32>'') next_nodes)
      else if ty = MMDB_DATA_TYPE_BOOLEAN then
        bind_run (union_low 1 v) (\<lambda>n.
          print_line indent (c_bytes (if n \<noteq> 0 then ''true'' else ''false'') @ c_bytes '' <boolean>'') next_nodes)
      else if ty = MMDB_DATA_TYPE_UINT64 then
        bind_run (union_low 8 v) (\<lambda>n. print_line indent (print_nat n @ c_bytes '' <uint64>'') next_nodes)
      else if ty = MMDB_DATA_TYPE_UINT128 then
        bind_run (union_low 16 v) (\<lambda>n.
          let high = n div 2 ^ 64; low = n mod 2 ^ 64 in
          print_line indent (c_bytes ''0x'' @ print_fixed 16 16 high @ print_fixed 16 16 low @ c_bytes '' <uint128>'')
            next_nodes)
      else if ty = MMDB_DATA_TYPE_INT32 then
        bind_run (union_low 4 v) (\<lambda>n.
          print_line indent (print_int (sint (word_of_nat n :: u32)) @ c_bytes '' <int32>'') next_nodes)
      else Done (MMDB_INVALID_DATA_ERROR, [], []))"

text \<open>The loop over the elements of an array, \<open>n\<close> left, \<open>dump\<close> the recursive call.\<close>

primrec dump_array_loop ::
  "(MMDB_entry_data_s list \<Rightarrow> dumped) \<Rightarrow> nat \<Rightarrow> MMDB_entry_data_s list \<Rightarrow> dumped" where
  "dump_array_loop dump 0 = (\<lambda>nodes. Done (MMDB_SUCCESS, [], nodes))"
| "dump_array_loop dump (Suc n) = (\<lambda>nodes.
     if nodes = [] then Done (MMDB_SUCCESS, [], nodes)
     else
       bind_run (dump nodes) (\<lambda>(st, out, nodes).
       if st \<noteq> MMDB_SUCCESS then Done (st, out, [])
       else
         bind_run (dump_array_loop dump n nodes) (\<lambda>(st, out', nodes). Done (st, out @ out', nodes))))"

text \<open>The loop over the pairs of a map; the type of the key's node is not tested.\<close>

primrec dump_map_loop ::
  "(MMDB_entry_data_s list \<Rightarrow> dumped) \<Rightarrow> (nat \<Rightarrow> bool) \<Rightarrow> int \<Rightarrow> nat \<Rightarrow> MMDB_entry_data_s list \<Rightarrow> dumped" where
  "dump_map_loop dump malloc_ok indent 0 = (\<lambda>nodes. Done (MMDB_SUCCESS, [], nodes))"
| "dump_map_loop dump malloc_ok indent (Suc n) = (\<lambda>nodes.
     case nodes of [] \<Rightarrow> Done (MMDB_SUCCESS, [], [])
     | key # nodes \<Rightarrow>
       bind_run (strndup_entry (malloc_ok (length nodes)) key) (\<lambda>s.
       if s = Null then Done (MMDB_OUT_OF_MEMORY_ERROR, [], [])
       else
         bind_run (print_indentation indent) (\<lambda>sp.
         bind_run (print_string s) (\<lambda>t.
         let line = sp @ [quote_char] @ t @ [quote_char] @ c_bytes '': '' @ [newline] in
         bind_run (dump nodes) (\<lambda>(st, out, nodes).
         if st \<noteq> MMDB_SUCCESS then Done (st, line @ out, [])
         else
           bind_run (dump_map_loop dump malloc_ok indent n nodes) (\<lambda>(st, out', nodes).
             Done (st, line @ out @ out', nodes)))))))"

text \<open>\<open>nest\<close> bounds the depth of the recursion; the null list is read as a node.\<close>

primrec dump_entry_data_list ::
  "nat \<Rightarrow> (nat \<Rightarrow> bool) \<Rightarrow> int \<Rightarrow> MMDB_entry_data_s list \<Rightarrow> dumped" where
  "dump_entry_data_list 0 malloc_ok = (\<lambda>indent nodes. OutOfFuel)"
| "dump_entry_data_list (Suc nest) malloc_ok = (\<lambda>indent nodes.
     case nodes of [] \<Rightarrow> Fault
     | ed # nodes \<Rightarrow>
       if data_type ed = MMDB_DATA_TYPE_MAP then
         bind_run (size_of_entry ed) (\<lambda>sz.
         bind_run (print_indentation indent) (\<lambda>sp.
         bind_run (int_add indent 2) (\<lambda>indent'.
         bind_run (dump_map_loop
             (\<lambda>nodes. bind_run (int_add indent' 2) (\<lambda>i. dump_entry_data_list nest malloc_ok i nodes))
             malloc_ok indent' (unat sz) nodes) (\<lambda>(st, out, nodes).
         let out = sp @ c_bytes ''{'' @ [newline] @ out in
         if st \<noteq> MMDB_SUCCESS then Done (st, out, [])
         else Done (MMDB_SUCCESS, out @ sp @ c_bytes ''}'' @ [newline], nodes)))))
       else if data_type ed = MMDB_DATA_TYPE_ARRAY then
         bind_run (size_of_entry ed) (\<lambda>sz.
         bind_run (print_indentation indent) (\<lambda>sp.
         bind_run (int_add indent 2) (\<lambda>indent'.
         bind_run (dump_array_loop (dump_entry_data_list nest malloc_ok indent') (unat sz) nodes) (\<lambda>(st, out, nodes).
         let out = sp @ c_bytes ''['' @ [newline] @ out in
         if st \<noteq> MMDB_SUCCESS then Done (st, out, [])
         else Done (MMDB_SUCCESS, out @ sp @ c_bytes '']'' @ [newline], nodes)))))
       else dump_scalar malloc_ok indent ed nodes)"

declare dump_entry_data_list.simps(2) [simp del]

definition MMDB_dump_entry_data_list ::
  "nat \<Rightarrow> (nat \<Rightarrow> bool) \<Rightarrow> MMDB_entry_data_s list \<Rightarrow> int \<Rightarrow> (status \<times> u8 list) run" where
  "MMDB_dump_entry_data_list nest malloc_ok nodes indent =
     bind_run (dump_entry_data_list nest malloc_ok indent nodes) (\<lambda>(st, out, nodes). Done (st, out))"

end
