(* ===== verification/Handle.thy ===== *)
theory Handle
  imports Metadata
begin

text \<open>
  Opening and closing a database: \<open>map_file\<close>, \<open>MMDB_open\<close>, \<open>free_mmdb_struct\<close> with its helpers and
  \<open>MMDB_close\<close> of \<^verbatim>\<open>libmaxminddb/src/maxminddb.c\<close>. The operating system's answers are an
  argument; what is given back to it and to the allocator is a result.
\<close>

section \<open>Giving back what a handle holds\<close>

datatype resource =
    R_filename
  | R_file_content
  | R_database_type
  | R_name nat
  | R_names
  | R_description_language nat
  | R_description_text nat
  | R_description nat
  | R_descriptions

text \<open>\<open>FREE_AND_SET_NULL\<close>: \<open>free\<close> of a null pointer does nothing.\<close>

definition freed :: "resource \<Rightarrow> cptr \<Rightarrow> resource list" where
  "freed r p = (if p = Null then [] else [r])"

text \<open>The loop over the names, \<open>n\<close> left; reading behind the array is a fault.\<close>

fun free_names_loop :: "nat \<Rightarrow> nat \<Rightarrow> cptr list \<Rightarrow> resource list run" where
  "free_names_loop i 0 names = Done []"
| "free_names_loop i (Suc n) names =
     (if i < length names then
        bind_run (free_names_loop (i + 1) n (names[i := Null])) (\<lambda>rs.
          Done (freed (R_name i) (names ! i) @ rs))
      else Fault)"

definition free_languages_metadata :: "MMDB_s \<Rightarrow> (resource list \<times> MMDB_s) run" where
  "free_languages_metadata mmdb =
     (if languages_count (metadata mmdb) = 0 then Done ([], mmdb)
      else (case languages_names (metadata mmdb) of
              None \<Rightarrow> Fault
            | Some names \<Rightarrow>
                bind_run (free_names_loop 0 (languages_count (metadata mmdb)) names) (\<lambda>rs.
                  Done (rs @ [R_names], mmdb\<lparr>metadata := (metadata mmdb)\<lparr>languages_names := None\<rparr>\<rparr>))))"

fun free_descriptions_loop :: "nat \<Rightarrow> nat \<Rightarrow> MMDB_description_s option list \<Rightarrow> resource list run" where
  "free_descriptions_loop i 0 ds = Done []"
| "free_descriptions_loop i (Suc n) ds =
     (if i < length ds then
        bind_run (free_descriptions_loop (i + 1) n (ds[i := None])) (\<lambda>rs.
          Done ((case ds ! i of None \<Rightarrow> []
                 | Some d \<Rightarrow> freed (R_description_language i) (language d)
                     @ freed (R_description_text i) (description_text d) @ [R_description i]) @ rs))
      else Fault)"

definition free_descriptions_metadata :: "MMDB_s \<Rightarrow> (resource list \<times> MMDB_s) run" where
  "free_descriptions_metadata mmdb =
     (if description_count (metadata mmdb) = 0 then Done ([], mmdb)
      else (case descriptions (metadata mmdb) of
              None \<Rightarrow> Fault
            | Some ds \<Rightarrow>
                bind_run (free_descriptions_loop 0 (description_count (metadata mmdb)) ds) (\<lambda>rs.
                  Done (rs @ [R_descriptions], mmdb\<lparr>metadata := (metadata mmdb)\<lparr>descriptions := None\<rparr>\<rparr>))))"

text \<open>\<open>munmap\<close> does not change \<open>file_content\<close>.\<close>

definition free_mmdb_struct :: "MMDB_s \<Rightarrow> (resource list \<times> MMDB_s) run" where
  "free_mmdb_struct mmdb =
     (let rs = freed R_filename (filename mmdb) @ freed R_file_content (file_content mmdb)
                 @ freed R_database_type (database_type (metadata mmdb));
          mmdb = mmdb\<lparr>filename := Null, metadata := (metadata mmdb)\<lparr>database_type := Null\<rparr>\<rparr> in
      bind_run (free_languages_metadata mmdb) (\<lambda>(ls, mmdb).
      bind_run (free_descriptions_metadata mmdb) (\<lambda>(ds, mmdb).
        Done (rs @ ls @ ds, mmdb))))"

definition MMDB_close :: "MMDB_s \<Rightarrow> (resource list \<times> MMDB_s) run" where
  "MMDB_close mmdb = free_mmdb_struct mmdb"

section \<open>Opening\<close>

text \<open>
  What \<open>open\<close> and \<open>fstat\<close> say, the bytes of the file, and the failure of \<open>mmap\<close>, if any, with
  whether \<open>errno\<close> is \<open>ENOMEM\<close>.
\<close>

record file_system =
  open_ok :: bool
  file_bytes :: "u8 list"
  mmap_failed :: "bool option"

definition map_file :: "file_system \<Rightarrow> MMDB_s \<Rightarrow> status \<times> MMDB_s" where
  "map_file fs mmdb =
     (if \<not> open_ok fs then (MMDB_FILE_OPEN_ERROR, mmdb)
      else case mmap_failed fs of
        Some enomem \<Rightarrow> (if enomem then MMDB_OUT_OF_MEMORY_ERROR else MMDB_IO_ERROR, mmdb)
      | None \<Rightarrow> (MMDB_SUCCESS,
          mmdb\<lparr>file_size := int (length (file_bytes fs)), file_content := Ptr (file_bytes fs) 0\<rparr>))"

abbreviation (input) MMDB_MODE_MMAP :: u32 where "MMDB_MODE_MMAP \<equiv> 1"
abbreviation (input) MMDB_MODE_MASK :: u32 where "MMDB_MODE_MASK \<equiv> 7"

text \<open>The members that are set before anything can fail.\<close>

definition open_init :: "MMDB_s \<Rightarrow> MMDB_s" where
  "open_init mmdb =
     mmdb\<lparr>file_content := Null, data_section := Null,
          metadata := (metadata mmdb)\<lparr>database_type := Null, languages_count := 0, description_count := 0\<rparr>\<rparr>"

text \<open>
  The part between \<open>map_file\<close> and \<open>cleanup\<close>, with the nodes of a list that is lost. A negative \<open>file_size\<close>, which
  only a \<open>ssize_t\<close> of 32 bits can bring about, is the size of the search area as well; \<open>mmdb_memmem\<close> takes it for
  a \<open>size_t\<close> of 64 bits, so that the last place it computes to look at is no place in the mapping: a fault.
\<close>

definition open_mapped ::
  "(alloc_site \<Rightarrow> bool) \<Rightarrow> nat \<Rightarrow> MMDB_s \<Rightarrow> (MMDB_entry_data_s list \<times> MMDB_s) outcome" where
  "open_mapped malloc_ok nest mmdb =
     (if file_size mmdb < 0 then Fault else
     bind_run (find_metadata (file_content mmdb) (nat (file_size mmdb))) (\<lambda>(md_start, md_size).
     if md_start = Null then Done (MMDB_INVALID_METADATA_ERROR, [], mmdb)
     else
       let mmdb = mmdb\<lparr>metadata_section := md_start, metadata_section_size := md_size\<rparr> in
       bind_run (read_metadata malloc_ok nest mmdb) (\<lambda>(st, lost, mmdb).
       if st \<noteq> MMDB_SUCCESS then Done (st, lost, mmdb)
       else if binary_format_major_version (metadata mmdb) \<noteq> 2 then
         Done (MMDB_UNKNOWN_DATABASE_FORMAT_ERROR, lost, mmdb)
       else
         let search_tree_size = node_count (metadata mmdb) * ucast (full_record_byte_size mmdb) in
         Done (MMDB_SUCCESS, lost,
           mmdb\<lparr>data_section := ptr_add (file_content mmdb) (unat search_tree_size),
                data_section_size := word_of_int (file_size mmdb) - search_tree_size,
                metadata_section := md_start,
                ipv4_start_node := \<lparr>start_netmask = 0, node_value = 0\<rparr>\<rparr>))))"

text \<open>
  \<open>MMDB_open\<close> up to \<open>cleanup\<close>. \<open>mmdb\<close> is the caller's object as it is before the call; the result has the status, the
  nodes of a list that is lost, and the object.
\<close>

definition open_attempt ::
  "(alloc_site \<Rightarrow> bool) \<Rightarrow> file_system \<Rightarrow> nat \<Rightarrow> u8 list \<Rightarrow> u32 \<Rightarrow> MMDB_s \<Rightarrow>
     (MMDB_entry_data_s list \<times> MMDB_s) outcome" where
  "open_attempt malloc_ok fs nest name fl mmdb =
     (let mmdb = open_init mmdb;
          mmdb = mmdb\<lparr>filename := mmdb_strdup (malloc_ok A_filename) name\<rparr> in
      if filename mmdb = Null then Done (MMDB_OUT_OF_MEMORY_ERROR, [], mmdb)
      else
        let fl = (if fl AND MMDB_MODE_MASK = 0 then fl OR MMDB_MODE_MMAP else fl);
            mmdb = mmdb\<lparr>flags := fl\<rparr> in
        case map_file fs mmdb of (st, mmdb) \<Rightarrow>
          if st \<noteq> MMDB_SUCCESS then Done (st, [], mmdb)
          else open_mapped malloc_ok nest mmdb)"

text \<open>The whole function; the result has the status, what was given back on the way out, and the object.\<close>

definition MMDB_open ::
  "(alloc_site \<Rightarrow> bool) \<Rightarrow> file_system \<Rightarrow> nat \<Rightarrow> u8 list \<Rightarrow> u32 \<Rightarrow> MMDB_s \<Rightarrow>
     (status \<times> resource list \<times> MMDB_s) run" where
  "MMDB_open malloc_ok fs nest name fl mmdb =
     bind_run (open_attempt malloc_ok fs nest name fl mmdb) (\<lambda>(st, lost, mmdb).
       if st \<noteq> MMDB_SUCCESS then
         bind_run (free_mmdb_struct mmdb) (\<lambda>(rs, mmdb). Done (st, rs, mmdb))
       else Done (st, [], mmdb))"

end
