(* ===== verification/MetadataSpec.thy ===== *)
theory MetadataSpec
  imports Handle ListSpec DataSafety
begin

text \<open>
  Searching for the metadata marker, and what \<open>read_metadata\<close> and \<open>MMDB_open\<close> of
  \<^verbatim>\<open>libmaxminddb/src/maxminddb.c\<close> leave in the handle.
\<close>

section \<open>First occurrences\<close>

definition occurs :: "'a list \<Rightarrow> 'a list \<Rightarrow> nat \<Rightarrow> bool" where
  "occurs pat xs i \<longleftrightarrow> take (length pat) (drop i xs) = pat"

definition first_occurrence :: "'a list \<Rightarrow> 'a list \<Rightarrow> nat option" where
  "first_occurrence pat xs = List.find (occurs pat xs) [0..<Suc (length xs - length pat)]"

definition result_at :: "cptr \<Rightarrow> nat option \<Rightarrow> cptr" where
  "result_at l r = (case r of None \<Rightarrow> Null | Some i \<Rightarrow> ptr_add l i)"

lemma memmem_loop_finds:
  assumes r: "readable l m" and s: "stored cs pat" and ne: "pat \<noteq> []"
  shows "k + n + length pat \<le> Suc m \<Longrightarrow>
    memmem_loop (ptr_add l k) n cs (length pat)
      = Done (result_at l (List.find (occurs pat (bytes_at l m)) [k..<k + n]))"
proof (induction n arbitrary: k)
  case 0
  then show ?case by (simp add: result_at_def)
next
  case (Suc n)
  let ?A = "bytes_at l m"
  have k: "k < m" "k + length pat \<le> m" using Suc.prems ne by (cases pat; simp)+
  have a: "deref l k = Done (?A ! k)" by (rule deref_readable[OF r k(1)])
  have b: "deref cs 0 = Done (pat ! 0)" using s ne by (simp add: stored_def)
  have rc: "readable (ptr_add l k) (length pat)" by (rule readable_from[OF r k(2)])
  have ba: "bytes_at (ptr_add l k) (length pat) = take (length pat) (drop k ?A)"
    using k(2) by (cases l) (simp_all add: take_drop add.commute min_def)
  have c: "memcmp_eq (ptr_add l k) cs (length pat) = Done (occurs pat ?A k)"
  proof -
    have "length (take (length pat) (drop k ?A)) = length pat" using r k(2) by simp
    from memcmp_eq_stored[OF stored_bytes_at[OF rc, unfolded ba] s this]
    show ?thesis by (simp add: occurs_def)
  qed
  have first: "?A ! k = pat ! 0" if "occurs pat ?A k"
  proof -
    have "take (length pat) (drop k ?A) ! 0 = pat ! 0" using that by (simp add: occurs_def)
    then show ?thesis using ne k r by simp
  qed
  have l: "[k..<k + Suc n] = k # [Suc k..<Suc k + n]" by (simp add: upt_conv_Cons)
  show ?case
    unfolding l using Suc.IH[of "Suc k"] Suc.prems a b c first
    by (auto simp: result_at_def simp del: upt_Suc)
qed

lemma memchr_finds:
  assumes r: "readable l m"
  shows "k + n \<le> m \<Longrightarrow> memchr (ptr_add l k) c n
    = Done (result_at l (List.find (occurs [c] (bytes_at l m)) [k..<k + n]))"
proof (induction n arbitrary: k)
  case 0
  then show ?case by (simp add: result_at_def)
next
  case (Suc n)
  have k: "k < m" using Suc.prems by simp
  have a: "deref l k = Done (bytes_at l m ! k)" by (rule deref_readable[OF r k])
  have o: "occurs [c] (bytes_at l m) k \<longleftrightarrow> bytes_at l m ! k = c"
    using k r by (simp add: occurs_def take_Suc hd_drop_conv_nth)
  have l: "[k..<k + Suc n] = k # [Suc k..<Suc k + n]" by (simp add: upt_conv_Cons)
  show ?case
    unfolding l using Suc.IH[of "Suc k"] Suc.prems a o
    by (auto simp: result_at_def simp del: upt_Suc)
qed

lemma mmdb_memmem_finds:
  assumes r: "readable l m" and s: "stored s pat" and ne: "pat \<noteq> []"
  shows "mmdb_memmem l m s (length pat) = Done (result_at l
    (if m < length pat then None else first_occurrence pat (bytes_at l m)))"
proof -
  consider "m < length pat" | "length pat = 1" "1 \<le> m" | "1 < length pat" "length pat \<le> m"
    using ne by (cases pat) fastforce+
  then show ?thesis
  proof cases
    case 1
    then show ?thesis using ne by (simp add: mmdb_memmem_def result_at_def)
  next
    case 2
    then obtain c where c: "pat = [c]" by (auto simp: length_Suc_conv)
    have d: "deref s 0 = Done c" using s by (simp add: c stored_Cons)
    show ?thesis
      using 2 d memchr_finds[OF r, of 0 m c] r
      by (simp add: mmdb_memmem_def c first_occurrence_def Suc_diff_le del: upt_Suc)
  next
    case 3
    then show ?thesis
      using memmem_loop_finds[OF r s ne, of 0 "Suc m - length pat"] r ne
      by (simp add: mmdb_memmem_def first_occurrence_def Suc_diff_le del: upt_Suc)
  qed
qed

lemma first_occurrence_behind:
  assumes "x \<notin> set pre"
  shows "first_occurrence (x # pat) (pre @ (x # pat) @ rest) = Some (length pre)"
proof -
  have "occurs (x # pat) (pre @ (x # pat) @ rest) (length pre)" by (simp add: occurs_def)
  moreover have "\<not> occurs (x # pat) (pre @ (x # pat) @ rest) j" if "j < length pre" for j
    using assms that by (auto simp: occurs_def take_Cons' hd_drop_conv_nth Cons_nth_drop_Suc[symmetric] nth_append)
  ultimately show ?thesis
    by (auto simp: first_occurrence_def find_Some_iff nth_append intro!: exI[of _ "length pre"] simp del: upt_Suc)
qed

section \<open>find_metadata\<close>

text \<open>The last 128 KiB of the file, and the marker in it.\<close>

definition last_block :: "u8 list \<Rightarrow> u8 list" where
  "last_block content = drop (length content - METADATA_BLOCK_MAX_SIZE) content"

lemma result_at_neq: "result_at l r = Null \<longleftrightarrow> r = None \<or> l = Null"
  by (auto simp: result_at_def split: option.splits)

lemma find_metadata_result:
  fixes content :: "u8 list"
  defines "start \<equiv> length content - METADATA_BLOCK_MAX_SIZE"
    and "at \<equiv> (case first_occurrence METADATA_MARKER (last_block content) of None \<Rightarrow> 0 | Some i \<Rightarrow> i)"
  assumes big: "length METADATA_MARKER \<le> length content"
  shows "find_metadata (Ptr content 0) (length content)
    = Done (Ptr content (start + at + length METADATA_MARKER), word_of_nat (length content - (start + at)))"
proof -
  define m where "m = (if length content > METADATA_BLOCK_MAX_SIZE then METADATA_BLOCK_MAX_SIZE else length content)"
  have m: "length content - m = start" "start + m = length content" "length METADATA_MARKER \<le> m"
    using big by (auto simp: m_def start_def METADATA_BLOCK_MAX_SIZE_def METADATA_MARKER_def)
  have block: "bytes_at (Ptr content start) m = last_block content"
    using m(2) by (simp add: last_block_def start_def)
  have r: "readable (Ptr content start) m" using m(2) by simp
  have st: "stored (Ptr METADATA_MARKER 0) METADATA_MARKER" by (rule stored_block)
  have ne: "METADATA_MARKER \<noteq> []" by (simp add: METADATA_MARKER_def)
  have f: "mmdb_memmem (Ptr content start) m (Ptr METADATA_MARKER 0) (length METADATA_MARKER)
      = Done (result_at (Ptr content start) (first_occurrence METADATA_MARKER (last_block content)))"
    using mmdb_memmem_finds[OF r st ne] m(3) block by simp
  have "find_metadata_loop 2 (Ptr content start) m = Done (Ptr content (start + at))"
    using f by (simp add: numeral_2_eq_2 at_def result_at_def split: option.split)
  then show ?thesis
    by (simp add: find_metadata_def m(1) flip: m_def)
qed

end
