(* ===== verification/SearchTree.thy ===== *)
theory SearchTree
  imports ByteGetters MMDB_Types
begin

text \<open>
  The search tree of a database: reading nodes and looking addresses up, as in
  \<^verbatim>\<open>libmaxminddb/src/maxminddb.c\<close> from \<open>MMDB_lookup_string\<close> to \<open>MMDB_read_node\<close>.
  The operations that change the handle (they cache the IPv4 start node) return it.
\<close>

section \<open>Record layouts\<close>

record record_info_s =
  record_length :: u16
  left_record_getter :: "cptr \<Rightarrow> u32 run"
  right_record_getter :: "cptr \<Rightarrow> u32 run"
  right_record_offset :: u8

text \<open>The getters of an unknown layout are null function pointers: calling one is a fault.\<close>

definition record_info_for_database :: "MMDB_s \<Rightarrow> record_info_s" where
  "record_info_for_database mmdb =
     (let record_info = \<lparr>record_length = full_record_byte_size mmdb,
                         left_record_getter = (\<lambda>_. Fault), right_record_getter = (\<lambda>_. Fault),
                         right_record_offset = 0\<rparr>
      in if record_length record_info = 6 then
           record_info\<lparr>left_record_getter := get_uint24, right_record_getter := get_uint24,
                       right_record_offset := 3\<rparr>
         else if record_length record_info = 7 then
           record_info\<lparr>left_record_getter := get_left_28_bit_record,
                       right_record_getter := get_right_28_bit_record,
                       right_record_offset := 3\<rparr>
         else if record_length record_info = 8 then
           record_info\<lparr>left_record_getter := get_uint32, right_record_getter := get_uint32,
                       right_record_offset := 4\<rparr>
         else record_info)"

text \<open>\<open>&search_tree[value * record_info.record_length]\<close>, the product taken in \<open>uint32_t\<close>.\<close>

definition record_pointer :: "record_info_s \<Rightarrow> cptr \<Rightarrow> u32 \<Rightarrow> cptr" where
  "record_pointer record_info search_tree value =
     ptr_add search_tree (unat (value * ucast (record_length record_info)))"

definition MMDB_read_node ::
  "MMDB_s \<Rightarrow> u32 \<Rightarrow> MMDB_search_node_s \<Rightarrow> MMDB_search_node_s outcome" where
  "MMDB_read_node mmdb node_number node =
     (let record_info = record_info_for_database mmdb in
      if right_record_offset record_info = 0 then
        Done (MMDB_UNKNOWN_DATABASE_FORMAT_ERROR, node)
      else if node_number > node_count (metadata mmdb) then
        Done (MMDB_INVALID_NODE_NUMBER_ERROR, node)
      else
        let search_tree = file_content mmdb;
            pointer = record_pointer record_info search_tree node_number
        in bind_run (left_record_getter record_info pointer) (\<lambda>l.
           bind_run (right_record_getter record_info
                       (ptr_add pointer (unat (right_record_offset record_info)))) (\<lambda>r.
             Done (MMDB_SUCCESS, node\<lparr>left_record := ucast l, right_record := ucast r\<rparr>))))"

section \<open>The IPv4 start node\<close>

text \<open>
  \<open>ipv4_start_loop\<close> is the loop of \<open>find_ipv4_start_node\<close> with \<open>96 - netmask\<close> rounds left;
  it ends with \<open>node_value\<close> and \<open>netmask\<close>.
\<close>

fun ipv4_start_loop ::
  "record_info_s \<Rightarrow> cptr \<Rightarrow> u32 \<Rightarrow> nat \<Rightarrow> u32 \<Rightarrow> u32 \<Rightarrow> (u32 \<times> u32) run" where
  "ipv4_start_loop record_info search_tree nodes 0 value nm = Done (value, nm)"
| "ipv4_start_loop record_info search_tree nodes (Suc rounds) value nm =
     bind_run (left_record_getter record_info (record_pointer record_info search_tree value))
       (\<lambda>value. if value \<ge> nodes then Done (value, nm)
                else ipv4_start_loop record_info search_tree nodes rounds value (nm + 1))"

definition find_ipv4_start_node :: "MMDB_s \<Rightarrow> (MMDB_ipv4_start_node_s \<times> MMDB_s) run" where
  "find_ipv4_start_node mmdb =
     (if node_value (ipv4_start_node mmdb) \<noteq> 0 then Done (ipv4_start_node mmdb, mmdb)
      else
        bind_run
          (ipv4_start_loop (record_info_for_database mmdb) (file_content mmdb)
             (node_count (metadata mmdb)) 96 0 0)
          (\<lambda>(value, nm).
            let start = \<lparr>start_netmask = ucast nm, node_value = value\<rparr>
            in Done (start, mmdb\<lparr>ipv4_start_node := start\<rparr>)))"

section \<open>Looking an address up\<close>

definition populate_result ::
  "MMDB_s \<Rightarrow> u32 \<Rightarrow> u32 \<Rightarrow> u16 \<Rightarrow> MMDB_lookup_result_s \<Rightarrow> status \<times> MMDB_lookup_result_s" where
  "populate_result mmdb nodes value nm result =
     (let off = value - nodes in
      if off > data_section_size mmdb then (MMDB_CORRUPT_SEARCH_TREE_ERROR, result)
      else (MMDB_SUCCESS,
            result\<lparr>netmask := depth mmdb - nm, entry := \<lparr>entry_offset = off\<rparr>,
                   found_entry := off > 0\<rparr>))"

text \<open>
  The test of one address bit: \<open>i\<close> is \<open>max_depth0 - current_bit\<close>. A negative index would
  read before the address.
\<close>

definition bit_is_true :: "cptr \<Rightarrow> int \<Rightarrow> bool run" where
  "bit_is_true address i =
     (if i < 0 then Fault
      else bind_run (deref address (nat (drop_bit 3 i))) (\<lambda>byte.
        Done (ucast byte AND push_bit (nat (NOT i AND 7)) 1 \<noteq> (0 :: u32))))"

text \<open>
  The loop of \<open>find_address_in_search_tree\<close>: the argument \<open>Suc current_bit\<close> is the number of
  rounds left; at 0 the loop has ended without leaving the tree.
\<close>

fun search_loop ::
  "MMDB_s \<Rightarrow> record_info_s \<Rightarrow> cptr \<Rightarrow> u16 \<Rightarrow> nat \<Rightarrow> u32 \<Rightarrow> MMDB_lookup_result_s \<Rightarrow>
     MMDB_lookup_result_s outcome" where
  "search_loop mmdb record_info address max_depth0 0 value result =
     Done (MMDB_CORRUPT_SEARCH_TREE_ERROR, result)"
| "search_loop mmdb record_info address max_depth0 (Suc current_bit) value result =
     bind_run (bit_is_true address (uint max_depth0 - int current_bit)) (\<lambda>right.
     let pointer = record_pointer record_info (file_content mmdb) value in
     bind_run
       (if right then
          right_record_getter record_info (ptr_add pointer (unat (right_record_offset record_info)))
        else left_record_getter record_info pointer) (\<lambda>value.
     if value = 0 then Done (MMDB_CORRUPT_SEARCH_TREE_ERROR, result)
     else if value \<ge> node_count (metadata mmdb) then
       Done (populate_result mmdb (node_count (metadata mmdb)) value (of_nat current_bit) result)
     else search_loop mmdb record_info address max_depth0 current_bit value result))"

datatype sa_family = AF_INET | AF_INET6 | AF_OTHER

definition find_address_in_search_tree ::
  "MMDB_s \<Rightarrow> cptr \<Rightarrow> sa_family \<Rightarrow> MMDB_lookup_result_s \<Rightarrow>
     (status \<times> MMDB_lookup_result_s \<times> MMDB_s) run" where
  "find_address_in_search_tree mmdb address address_family result =
     (let record_info = record_info_for_database mmdb in
      if right_record_offset record_info = 0 then
        Done (MMDB_UNKNOWN_DATABASE_FORMAT_ERROR, result, mmdb)
      else
        let nodes = node_count (metadata mmdb); max_depth0 = depth mmdb - 1 in
        if ip_version (metadata mmdb) = 6 \<and> address_family = AF_INET then
          bind_run (find_ipv4_start_node mmdb) (\<lambda>(start, mmdb).
            if node_value start \<ge> nodes then
              (case populate_result mmdb nodes (node_value start) (start_netmask start) result of
                 (st, result) \<Rightarrow> Done (st, result, mmdb))
            else
              bind_run (search_loop mmdb record_info address max_depth0
                          (Suc (unat (max_depth0 - start_netmask start))) (node_value start) result)
                (\<lambda>(st, result). Done (st, result, mmdb)))
        else
          bind_run (search_loop mmdb record_info address max_depth0 (Suc (unat max_depth0)) 0 result)
            (\<lambda>(st, result). Done (st, result, mmdb)))"

text \<open>
  A socket address: its family, and the bytes of \<open>sin_addr.s_addr\<close> and \<open>sin6_addr.s6_addr\<close>
  in network order.
\<close>

record sockaddr =
  family :: sa_family
  s_addr :: "u8 list"
  s6_addr :: "u8 list"

definition no_result :: MMDB_lookup_result_s where
  "no_result = \<lparr>found_entry = False, entry = \<lparr>entry_offset = 0\<rparr>, netmask = 0\<rparr>"

text \<open>
  \<open>*mmdb_error\<close> is a variable of the caller: \<open>None\<close> is a variable not assigned yet, and the
  functions that do not write it leave it as it is.
\<close>

definition MMDB_lookup_sockaddr ::
  "MMDB_s \<Rightarrow> sockaddr \<Rightarrow> status option \<Rightarrow> (MMDB_lookup_result_s \<times> status option \<times> MMDB_s) run" where
  "MMDB_lookup_sockaddr mmdb sockaddr mmdb_error =
     (if ip_version (metadata mmdb) = 4 \<and> family sockaddr = AF_INET6 then
        Done (no_result, mmdb_error, mmdb)
      else
        bind_run
          (if ip_version (metadata mmdb) = 4 then Done (Ptr (s_addr sockaddr) 0)
           else if family sockaddr = AF_INET6 then Done (Ptr (s6_addr sockaddr) 0)
           else bind_run (copy_bytes (Ptr (s_addr sockaddr) 0) 4) (\<lambda>four.
                  Done (Ptr (replicate 12 0 @ four) 0))) (\<lambda>address.
        bind_run (find_address_in_search_tree mmdb address (family sockaddr) no_result)
          (\<lambda>(st, result, mmdb). Done (result, Some st, mmdb))))"

record addrinfo_hints =
  ai_numerichost :: bool
  ai_v4mapped :: bool
  ai_family :: sa_family

text \<open>
  \<open>getaddrinfo\<close> belongs to the system: it is the argument \<open>gai\<close>, which gives a status and the
  first address of the list it returns.
\<close>

type_synonym getaddrinfo = "string \<Rightarrow> addrinfo_hints \<Rightarrow> int \<times> sockaddr option"

definition resolve_any_address :: "getaddrinfo \<Rightarrow> string \<Rightarrow> int \<times> sockaddr option" where
  "resolve_any_address gai ipstr =
     (let hints =
        (if CHR '':'' \<in> set ipstr
         then \<lparr>ai_numerichost = True, ai_v4mapped = True, ai_family = AF_INET6\<rparr>
         else \<lparr>ai_numerichost = True, ai_v4mapped = False, ai_family = AF_INET\<rparr>)
      in case gai ipstr hints of
           (gai_status, addresses) \<Rightarrow>
             if gai_status \<noteq> 0 then (gai_status, addresses) else (0, addresses))"

definition MMDB_lookup_string ::
  "getaddrinfo \<Rightarrow> MMDB_s \<Rightarrow> string \<Rightarrow> status option \<Rightarrow>
     (MMDB_lookup_result_s \<times> int \<times> status option \<times> MMDB_s) run" where
  "MMDB_lookup_string gai mmdb ipstr mmdb_error =
     (case resolve_any_address gai ipstr of (gai_error, addresses) \<Rightarrow>
        if gai_error \<noteq> 0 then Done (no_result, gai_error, mmdb_error, mmdb)
        else (case addresses of
                None \<Rightarrow> Fault
              | Some ai_addr \<Rightarrow>
                  if ip_version (metadata mmdb) = 4 \<and> family ai_addr = AF_INET6 then
                    Done (no_result, gai_error, Some MMDB_IPV6_LOOKUP_IN_IPV4_DATABASE_ERROR, mmdb)
                  else
                    bind_run (MMDB_lookup_sockaddr mmdb ai_addr mmdb_error)
                      (\<lambda>(result, mmdb_error, mmdb). Done (result, gai_error, mmdb_error, mmdb))))"

end
