(* ===== verification/TreeSpec.thy ===== *)
theory TreeSpec
  imports SearchTree
begin

text \<open>
  The search tree as the file format describes it
  (\<^verbatim>\<open>libmaxminddb/t/maxmind-db/MaxMind-DB-spec.md\<close>, Binary Search Tree Section): the two
  record values of a node, the walk of a bit string through the tree, and the bits of an
  address. A locale states what the lookup code needs of a record layout; the three layouts of
  the code are its interpretations.
\<close>

section \<open>Record values\<close>

text \<open>The left (\<open>False\<close>) and right (\<open>True\<close>) record of a node of 6, 7 or 8 bytes.\<close>

definition record_value :: "nat \<Rightarrow> u8 list \<Rightarrow> bool \<Rightarrow> nat" where
  "record_value sz node right =
     (if sz = 6 then be_val (if right then drop 3 node else take 3 node)
      else if sz = 7 then
        (if right then unat (node ! 3) mod 16 * 2 ^ 24 + be_val (drop 4 node)
         else unat (node ! 3) div 16 * 2 ^ 24 + be_val (take 3 node))
      else be_val (if right then drop 4 node else take 4 node))"

text \<open>The bytes a database writer stores for a node with the records \<open>l\<close> and \<open>r\<close>.\<close>

definition node_bytes :: "nat \<Rightarrow> nat \<Rightarrow> nat \<Rightarrow> u8 list" where
  "node_bytes sz l r =
     (if sz = 6 then be_bytes 3 l @ be_bytes 3 r
      else if sz = 7 then
        be_bytes 3 (l mod 2 ^ 24) @ [word_of_nat (l div 2 ^ 24 * 16 + r div 2 ^ 24)]
          @ be_bytes 3 (r mod 2 ^ 24)
      else be_bytes 4 l @ be_bytes 4 r)"

lemma record_value_bound:
  assumes "length node = sz" "sz \<in> {6, 7, 8}"
  shows "record_value sz node b < 2 ^ (4 * sz)"
proof -
  have three: "be_val bs < 16777216" if "length bs = 3" for bs
    using be_val_less[of bs] that by simp
  have four: "be_val bs < 4294967296" if "length bs = 4" for bs
    using be_val_less[of bs] that by simp
  have nibbles: "unat (node ! 3) div 16 \<le> 15" "unat (node ! 3) mod 16 \<le> 15"
    using unat_u8_less[of "node ! 3"] by linarith+
  consider "sz = 6" | "sz = 7" | "sz = 8" using assms(2) by auto
  then show ?thesis
  proof cases
    case 2
    then show ?thesis
      using nibbles three[of "take 3 node"] three[of "drop 4 node"] assms(1)
      by (auto simp: record_value_def)
  qed (use assms(1) three four in \<open>simp_all add: record_value_def\<close>)
qed

lemma record_value_less: "length node = sz \<Longrightarrow> sz \<in> {6, 7, 8} \<Longrightarrow> record_value sz node b < 2 ^ 32"
  using record_value_bound[of node sz b] power_increasing[of "4 * sz" 32 "2::nat"] by auto

lemma record_value_node_bytes:
  assumes "sz \<in> {6, 7, 8}" "l < 2 ^ (4 * sz)" "r < 2 ^ (4 * sz)"
  shows "record_value sz (node_bytes sz l r) b = (if b then r else l)"
proof -
  consider "sz = 6" | "sz = 7" | "sz = 8" using assms(1) by auto
  then show ?thesis
  proof cases
    case 2
    with assms have lr: "l < 268435456" "r < 268435456" by auto
    then have d: "l div 16777216 < 16" "r div 16777216 < 16" by auto
    then have "l div 16777216 * 16 + r div 16777216 < 256" by linarith
    then have "unat (word_of_nat (l div 16777216 * 16 + r div 16777216) :: u8)
        = l div 16777216 * 16 + r div 16777216"
      by (intro unat_word_of_nat) simp
    then show ?thesis
      using d 2 by (simp add: record_value_def node_bytes_def nth_append be_val_be_bytes)
  qed (use assms in \<open>simp_all add: record_value_def node_bytes_def be_val_be_bytes\<close>)
qed

lemma length_node_bytes: "sz \<in> {6, 7, 8} \<Longrightarrow> length (node_bytes sz l r) = sz"
  by (auto simp: node_bytes_def)

section \<open>What a record layout promises\<close>

locale record_layout =
  fixes sz right_offset :: nat and get_left get_right :: "cptr \<Rightarrow> u32 run"
  assumes layout_size: "sz \<in> {6, 7, 8}"
    and get_left_stored: "stored p node \<Longrightarrow> length node = sz \<Longrightarrow>
      get_left p = Done (word_of_nat (record_value sz node False))"
    and get_right_stored: "stored p node \<Longrightarrow> length node = sz \<Longrightarrow>
      get_right (ptr_add p right_offset) = Done (word_of_nat (record_value sz node True))"
begin

lemma node_readable:
  assumes "readable tree (n * sz)" "v < n"
  shows "readable (ptr_add tree (v * sz)) sz"
proof -
  have "v * sz + sz \<le> n * sz"
    using assms(2) by (metis add.commute mult_Suc mult_le_mono1 Suc_leI)
  then show ?thesis
    using assms(1) readable_mono readable_ptr_add by blast
qed

lemma get_left_node:
  assumes "readable tree (n * sz)" "v < n"
  shows "get_left (ptr_add tree (v * sz))
    = Done (word_of_nat (record_value sz (bytes_at (ptr_add tree (v * sz)) sz) False))"
  using node_readable[OF assms] by (intro get_left_stored stored_bytes_at) auto

lemma get_right_node:
  assumes "readable tree (n * sz)" "v < n"
  shows "get_right (ptr_add (ptr_add tree (v * sz)) right_offset)
    = Done (word_of_nat (record_value sz (bytes_at (ptr_add tree (v * sz)) sz) True))"
  using node_readable[OF assms] by (intro get_right_stored stored_bytes_at) auto

lemma node_value_bound:
  assumes "readable tree (n * sz)" "v < n"
  shows "record_value sz (bytes_at (ptr_add tree (v * sz)) sz) b < 2 ^ 32"
  using node_readable[OF assms] layout_size by (intro record_value_less) auto

end

lemma stored_take: "stored p bs \<Longrightarrow> stored p (take n bs)"
  by (simp add: stored_def)

lemma stored_drop: "stored p bs \<Longrightarrow> stored (ptr_add p n) (drop n bs)"
  by (simp add: stored_def)

interpretation layout24: record_layout 6 3 get_uint24 get_uint24
  by unfold_locales
     (auto simp: record_value_def intro!: get_uint24_stored stored_take stored_drop)

interpretation layout28: record_layout 7 3 get_left_28_bit_record get_right_28_bit_record
proof unfold_locales
  fix p node assume s: "stored p node" "length node = (7::nat)"
  show "get_left_28_bit_record p = Done (word_of_nat (record_value 7 node False))"
    using get_left_28_stored[OF stored_take[OF s(1), of 4]] s(2)
    by (simp add: record_value_def min_def)
  show "get_right_28_bit_record (ptr_add p 3) = Done (word_of_nat (record_value 7 node True))"
    using get_right_28_stored[OF stored_drop[OF s(1), of 3]] s(2)
    by (simp add: record_value_def)
qed simp

interpretation layout32: record_layout 8 4 get_uint32 get_uint32
  by unfold_locales
     (auto simp: record_value_def intro!: get_uint32_stored stored_take stored_drop)

section \<open>Walking a bit string\<close>

text \<open>
  A walk goes on inside the tree, meets a record that is zero, or leaves the tree with a record
  value after a number of bits.
\<close>

datatype walk_end = Inside nat | Zero_record | Leaves nat nat

fun walk :: "(nat \<Rightarrow> bool \<Rightarrow> nat) \<Rightarrow> nat \<Rightarrow> nat \<Rightarrow> nat \<Rightarrow> bool list \<Rightarrow> walk_end" where
  "walk child n d v [] = Inside v"
| "walk child n d v (b # bs) =
     (let r = child v b in
      if r = 0 then Zero_record
      else if n \<le> r then Leaves r (Suc d)
      else walk child n (Suc d) r bs)"

lemma walk_append:
  "walk child n d v (xs @ ys) =
     (case walk child n d v xs of Inside w \<Rightarrow> walk child n (d + length xs) w ys | e \<Rightarrow> e)"
  by (induction xs arbitrary: d v) (auto simp: Let_def split: walk_end.split)

lemma walk_Leaves:
  "walk child n d v bs = Leaves r k \<Longrightarrow> d < k \<and> k \<le> d + length bs \<and> n \<le> r \<and> 0 < r"
proof (induction bs arbitrary: d v)
  case (Cons b bs)
  then show ?case by (fastforce simp: Let_def split: if_splits)
qed simp

lemma walk_Inside: "walk child n d v bs = Inside w \<Longrightarrow> v < n \<Longrightarrow> w < n"
  by (induction bs arbitrary: d v) (auto simp: Let_def split: if_splits)

text \<open>
  A walk that leaves the tree after \<open>k\<close> bits has read those bits only: every bit string with
  the same first bits ends the same way.
\<close>

lemma walk_prefix:
  "walk child n d v bs = Leaves r k \<Longrightarrow> take (k - d) bs' = take (k - d) bs \<Longrightarrow>
   walk child n d v bs' = Leaves r k"
proof (induction bs arbitrary: bs' d v)
  case (Cons b bs)
  have "k - d = Suc (k - Suc d)"
    using walk_Leaves[OF Cons.prems(1)] by arith
  then obtain cs where bs': "bs' = b # cs" and cs: "take (k - Suc d) cs = take (k - Suc d) bs"
    using Cons.prems(2) by (cases bs') auto
  show ?case
    using Cons.prems(1) Cons.IH[OF _ cs] bs'
    by (auto simp: Let_def split: if_splits)
qed simp

text \<open>The bits of an address, most significant first.\<close>

definition byte_bits :: "u8 \<Rightarrow> bool list" where
  "byte_bits b = map (\<lambda>k. bit b (7 - k)) [0..<8]"

definition addr_bits :: "u8 list \<Rightarrow> bool list" where
  "addr_bits bs = concat (map byte_bits bs)"

lemma length_byte_bits [simp]: "length (byte_bits b) = 8"
  by (simp add: byte_bits_def)

lemma length_addr_bits [simp]: "length (addr_bits bs) = 8 * length bs"
  by (induction bs) (auto simp: addr_bits_def)

lemma addr_bits_append: "addr_bits (xs @ ys) = addr_bits xs @ addr_bits ys"
  by (simp add: addr_bits_def)

lemma nth_addr_bits:
  "i < 8 * length bs \<Longrightarrow> addr_bits bs ! i = bit (bs ! (i div 8)) (7 - i mod 8)"
proof (induction bs arbitrary: i)
  case (Cons b bs)
  show ?case
  proof (cases "i < 8")
    case True
    then show ?thesis by (simp add: addr_bits_def nth_append byte_bits_def)
  next
    case False
    then have "i div 8 = Suc ((i - 8) div 8)" "i mod 8 = (i - 8) mod 8"
      by (simp_all add: le_div_geq le_mod_geq)
    then show ?thesis
      using False Cons.IH[of "i - 8"] Cons.prems by (simp add: addr_bits_def nth_append)
  qed
qed simp

lemma addr_bits_zeros: "addr_bits (replicate n 0) = replicate (8 * n) False"
  by (rule nth_equalityI) (simp_all add: nth_addr_bits)

end
