(* ===== verification/TreeLookup.thy ===== *)
theory TreeLookup
  imports TreeSpec
begin

text \<open>
  Lookup in the search tree: the loops of the code refine the walk of the file format, never
  read outside the tree, and the cached IPv4 start node changes no result.
\<close>

section \<open>Handles whose tree lies inside the file\<close>

abbreviation nodes_of :: "MMDB_s \<Rightarrow> nat" where
  "nodes_of mmdb \<equiv> unat (node_count (metadata mmdb))"

abbreviation node_size :: "MMDB_s \<Rightarrow> nat" where
  "node_size mmdb \<equiv> unat (full_record_byte_size mmdb)"

definition tree_wf :: "MMDB_s \<Rightarrow> bool" where
  "tree_wf mmdb \<longleftrightarrow>
     full_record_byte_size mmdb \<in> {6, 7, 8} \<and> 0 < nodes_of mmdb \<and>
     nodes_of mmdb * node_size mmdb < 2 ^ 32 \<and>
     readable (file_content mmdb) (nodes_of mmdb * node_size mmdb) \<and>
     (ip_version (metadata mmdb) = 4 \<and> depth mmdb = 32 \<or>
      ip_version (metadata mmdb) = 6 \<and> depth mmdb = 128)"

text \<open>The record of node \<open>v\<close> for one bit, from the bytes of the file.\<close>

definition tree_child :: "MMDB_s \<Rightarrow> nat \<Rightarrow> bool \<Rightarrow> nat" where
  "tree_child mmdb v b =
     record_value (node_size mmdb)
       (bytes_at (ptr_add (file_content mmdb) (v * node_size mmdb)) (node_size mmdb)) b"

lemma record_pointer_node:
  assumes "tree_wf mmdb" "v < nodes_of mmdb"
  shows "record_pointer (record_info_for_database mmdb) p (word_of_nat v)
    = ptr_add p (v * node_size mmdb)"
proof -
  have "record_length (record_info_for_database mmdb) = full_record_byte_size mmdb"
    by (simp add: record_info_for_database_def Let_def)
  moreover have "v * node_size mmdb < 2 ^ 32"
  proof -
    have "v * node_size mmdb \<le> nodes_of mmdb * node_size mmdb"
      using assms(2) by (intro mult_le_mono1) simp
    also have "\<dots> < 2 ^ 32" using assms(1) by (simp add: tree_wf_def)
    finally show ?thesis .
  qed
  moreover have "word_of_nat v * ucast (full_record_byte_size mmdb)
      = (word_of_nat (v * node_size mmdb) :: u32)"
    by simp
  ultimately show ?thesis
    by (simp only: record_pointer_def unat_u32)
qed

lemma tree_wf_cases:
  assumes "tree_wf mmdb"
  obtains "full_record_byte_size mmdb = 6" | "full_record_byte_size mmdb = 7"
    | "full_record_byte_size mmdb = 8"
  using assms by (auto simp: tree_wf_def)

lemma right_offset_nonzero: "tree_wf mmdb \<Longrightarrow> right_record_offset (record_info_for_database mmdb) \<noteq> 0"
  by (elim tree_wf_cases) (simp_all add: record_info_for_database_def)

lemma read_record:
  assumes "tree_wf mmdb" "v < nodes_of mmdb"
  shows read_left: "left_record_getter (record_info_for_database mmdb)
      (record_pointer (record_info_for_database mmdb) (file_content mmdb) (word_of_nat v))
      = Done (word_of_nat (tree_child mmdb v False))"
    and read_right: "right_record_getter (record_info_for_database mmdb)
      (ptr_add (record_pointer (record_info_for_database mmdb) (file_content mmdb) (word_of_nat v))
        (unat (right_record_offset (record_info_for_database mmdb))))
      = Done (word_of_nat (tree_child mmdb v True))"
    and tree_child_bound: "tree_child mmdb v b < 2 ^ 32"
proof -
  let ?node = "ptr_add (file_content mmdb) (v * node_size mmdb)"
  let ?ri = "record_info_for_database mmdb"
  have r: "readable (file_content mmdb) (nodes_of mmdb * node_size mmdb)"
    using assms(1) by (simp add: tree_wf_def)
  have "left_record_getter ?ri ?node = Done (word_of_nat (tree_child mmdb v False)) \<and>
    right_record_getter ?ri (ptr_add ?node (unat (right_record_offset ?ri)))
      = Done (word_of_nat (tree_child mmdb v True)) \<and> tree_child mmdb v b < 2 ^ 32"
    using assms(1)
  proof (cases rule: tree_wf_cases)
    case 1
    with r have "readable (file_content mmdb) (nodes_of mmdb * 6)" by simp
    note layout24.get_left_node[OF this assms(2)] layout24.get_right_node[OF this assms(2)]
      layout24.node_value_bound[OF this assms(2), of b]
    with 1 show ?thesis by (simp add: tree_child_def record_info_for_database_def del: ptr_add_add)
  next
    case 2
    with r have "readable (file_content mmdb) (nodes_of mmdb * 7)" by simp
    note layout28.get_left_node[OF this assms(2)] layout28.get_right_node[OF this assms(2)]
      layout28.node_value_bound[OF this assms(2), of b]
    with 2 show ?thesis by (simp add: tree_child_def record_info_for_database_def del: ptr_add_add)
  next
    case 3
    with r have "readable (file_content mmdb) (nodes_of mmdb * 8)" by simp
    note layout32.get_left_node[OF this assms(2)] layout32.get_right_node[OF this assms(2)]
      layout32.node_value_bound[OF this assms(2), of b]
    with 3 show ?thesis by (simp add: tree_child_def record_info_for_database_def del: ptr_add_add)
  qed
  then show "left_record_getter ?ri (record_pointer ?ri (file_content mmdb) (word_of_nat v))
      = Done (word_of_nat (tree_child mmdb v False))"
    and "right_record_getter ?ri (ptr_add (record_pointer ?ri (file_content mmdb) (word_of_nat v))
        (unat (right_record_offset ?ri))) = Done (word_of_nat (tree_child mmdb v True))"
    and "tree_child mmdb v b < 2 ^ 32"
    by (simp_all only: record_pointer_node[OF assms])
qed

section \<open>One address bit\<close>

lemma bit_is_true_nth:
  assumes "i < 8 * length as"
  shows "bit_is_true (Ptr as 0) (int i) = Done (addr_bits as ! i)"
proof -
  have "NOT (int i) AND 7 = take_bit 3 (NOT (int i))"
    by (simp only: take_bit_eq_mask) (simp add: mask_eq_exp_minus_1)
  also have "\<dots> = (- int i - 1) mod 8"
    by (simp add: take_bit_eq_mod not_eq_complement)
  also have "\<dots> = int (7 - i mod 8)"
    by presburger
  finally have k: "nat (NOT (int i) AND 7) = 7 - i mod 8" by simp
  have "nat (drop_bit 3 (int i)) = i div 8"
    by (simp add: drop_bit_eq_div nat_div_distrib)
  moreover have "ucast b AND push_bit (7 - i mod 8) 1 \<noteq> (0 :: u32) \<longleftrightarrow> bit b (7 - i mod 8)" for b :: u8
  proof -
    have "bit (ucast b :: u32) (7 - i mod 8) \<longleftrightarrow> bit b (7 - i mod 8)"
      by (auto simp: bit_simps dest: bit_imp_le_length)
    then show ?thesis by (metis bit_iff_and_push_bit_not_eq_0)
  qed
  ultimately show ?thesis
    using assms by (simp add: bit_is_true_def k nth_addr_bits)
qed


section \<open>The loops refine the walk\<close>

text \<open>What a lookup reports for the end of a walk that used \<open>k\<close> bits.\<close>

definition report :: "MMDB_s \<Rightarrow> MMDB_lookup_result_s \<Rightarrow> nat \<Rightarrow> nat \<Rightarrow> status \<times> MMDB_lookup_result_s" where
  "report mmdb result r k =
     (if unat (data_section_size mmdb) < r - nodes_of mmdb
      then (MMDB_CORRUPT_SEARCH_TREE_ERROR, result)
      else (MMDB_SUCCESS,
            result\<lparr>found_entry := nodes_of mmdb < r,
                   entry := \<lparr>entry_offset = word_of_nat (r - nodes_of mmdb)\<rparr>,
                   netmask := word_of_nat k\<rparr>))"

definition walk_report ::
  "MMDB_s \<Rightarrow> MMDB_lookup_result_s \<Rightarrow> walk_end \<Rightarrow> status \<times> MMDB_lookup_result_s" where
  "walk_report mmdb result e =
     (case e of Leaves r k \<Rightarrow> report mmdb result r k
      | _ \<Rightarrow> (MMDB_CORRUPT_SEARCH_TREE_ERROR, result))"

lemma word_of_nat_ge_iff:
  "r < 2 ^ LENGTH('a) \<Longrightarrow> (w :: 'a::len word) \<le> word_of_nat r \<longleftrightarrow> unat w \<le> r"
  by (simp add: word_le_nat_alt unat_word_of_nat)

lemma word_of_nat_diff:
  assumes "r < 2 ^ LENGTH('a)" "unat (w :: 'a::len word) \<le> r"
  shows "word_of_nat r - w = word_of_nat (r - unat w)"
  using assms(2) by (simp add: of_nat_diff)

lemma populate_result_report:
  assumes "r < 2 ^ 32" "nodes_of mmdb \<le> r" "k \<le> unat (depth mmdb)"
  shows "populate_result mmdb (node_count (metadata mmdb)) (word_of_nat r)
           (word_of_nat (unat (depth mmdb) - k)) result = report mmdb result r k"
proof -
  have off: "(word_of_nat r - node_count (metadata mmdb) :: u32) = word_of_nat (r - nodes_of mmdb)"
    using assms(1,2) by (intro word_of_nat_diff) auto
  have u: "unat (word_of_nat (r - nodes_of mmdb) :: u32) = r - nodes_of mmdb"
    using assms(1) by (intro unat_u32) simp
  have above: "data_section_size mmdb < word_of_nat (r - nodes_of mmdb)
      \<longleftrightarrow> unat (data_section_size mmdb) < r - nodes_of mmdb"
    by (simp only: word_less_nat_alt u)
  have found: "(0 :: u32) < word_of_nat (r - nodes_of mmdb) \<longleftrightarrow> nodes_of mmdb < r"
    by (simp only: word_less_nat_alt u) simp
  have "depth mmdb - word_of_nat (unat (depth mmdb) - k) = word_of_nat k"
    using assms(3) by (simp add: of_nat_diff)
  then show ?thesis
    by (simp only: populate_result_def report_def off above found Let_def) simp
qed

lemma search_loop_step:
  fixes cb v as mmdb
  defines "i \<equiv> unat (depth mmdb) - Suc cb"
  defines "r \<equiv> tree_child mmdb v (addr_bits as ! i)"
  assumes wf: "tree_wf mmdb" and len: "8 * length as = unat (depth mmdb)"
    and cb: "Suc cb \<le> unat (depth mmdb)" and v: "v < nodes_of mmdb"
  shows "search_loop mmdb (record_info_for_database mmdb) (Ptr as 0) (depth mmdb - 1) (Suc cb) (word_of_nat v) result
    = (if r = 0 then Done (MMDB_CORRUPT_SEARCH_TREE_ERROR, result)
       else if nodes_of mmdb \<le> r then Done (report mmdb result r (Suc i))
       else search_loop mmdb (record_info_for_database mmdb) (Ptr as 0) (depth mmdb - 1) cb (word_of_nat r) result)"
proof -
  have i: "i < 8 * length as" using cb len by (simp add: i_def)
  have "uint (depth mmdb - 1) = int (unat (depth mmdb)) - 1"
    using wf by (auto simp: tree_wf_def)
  then have "uint (depth mmdb - 1) - int cb = int i"
    using cb unfolding i_def by linarith
  then have bit: "bit_is_true (Ptr as 0) (uint (depth mmdb - 1) - int cb) = Done (addr_bits as ! i)"
    by (simp only: bit_is_true_nth[OF i])
  have r32: "r < 2 ^ 32" unfolding r_def by (rule tree_child_bound[OF wf v])
  have read: "(if addr_bits as ! i then
      right_record_getter (record_info_for_database mmdb) (ptr_add
        (record_pointer (record_info_for_database mmdb) (file_content mmdb) (word_of_nat v))
        (unat (right_record_offset (record_info_for_database mmdb))))
      else left_record_getter (record_info_for_database mmdb)
        (record_pointer (record_info_for_database mmdb) (file_content mmdb) (word_of_nat v)))
      = Done (word_of_nat r)"
    unfolding r_def
    by (cases "addr_bits as ! i") (simp_all only: read_left[OF wf v] read_right[OF wf v] if_True if_False)
  have zero: "(word_of_nat r :: u32) = 0 \<longleftrightarrow> r = 0"
    by (rule u32_eq_0[OF r32])
  have ge: "node_count (metadata mmdb) \<le> word_of_nat r \<longleftrightarrow> nodes_of mmdb \<le> r"
    using r32 by (intro word_of_nat_ge_iff) simp
  have pop: "populate_result mmdb (node_count (metadata mmdb)) (word_of_nat r) (word_of_nat cb) result
      = report mmdb result r (Suc i)" if "nodes_of mmdb \<le> r"
    using populate_result_report[OF r32 that, of "Suc i" result] cb by (simp add: i_def Suc_diff_Suc)
  show ?thesis
    by (simp only: search_loop.simps bit bind_run.simps Let_def read zero ge pop cong: if_cong)
qed

lemma search_loop_walk:
  assumes wf: "tree_wf mmdb" and len: "8 * length as = unat (depth mmdb)"
    and cb: "cb \<le> unat (depth mmdb)" and v: "v < nodes_of mmdb"
  shows "search_loop mmdb (record_info_for_database mmdb) (Ptr as 0) (depth mmdb - 1) cb
           (word_of_nat v) result
    = Done (walk_report mmdb result
        (walk (tree_child mmdb) (nodes_of mmdb) (unat (depth mmdb) - cb) v
           (drop (unat (depth mmdb) - cb) (addr_bits as))))"
  using cb v
proof (induction cb arbitrary: v)
  case 0
  then show ?case using len by (simp add: walk_report_def)
next
  case (Suc cb)
  let ?d = "unat (depth mmdb)" and ?i = "unat (depth mmdb) - Suc cb"
  let ?r = "tree_child mmdb v (addr_bits as ! ?i)"
  have "?i < 8 * length as" using Suc.prems(1) len by simp
  then have drop: "drop ?i (addr_bits as) = addr_bits as ! ?i # drop (?d - cb) (addr_bits as)"
    using Suc.prems(1) by (simp add: Cons_nth_drop_Suc[symmetric] Suc_diff_Suc)
  show ?case
    unfolding search_loop_step[OF wf len Suc.prems] drop
    using Suc.IH[of ?r] Suc.prems(1)
    by (auto simp: walk_report_def Suc_diff_Suc not_le)
qed

declare search_loop.simps [simp del]

section \<open>The IPv4 start node\<close>

text \<open>Going left \<open>k\<close> times from \<open>v\<close>: the value reached and the counter of the loop.\<close>

fun left_walk :: "(nat \<Rightarrow> bool \<Rightarrow> nat) \<Rightarrow> nat \<Rightarrow> nat \<Rightarrow> nat \<Rightarrow> nat \<Rightarrow> nat \<times> nat" where
  "left_walk child n 0 v m = (v, m)"
| "left_walk child n (Suc k) v m =
     (let r = child v False in if n \<le> r then (r, m) else left_walk child n k r (Suc m))"

lemma left_walk_range:
  "left_walk child n k v m = (r, m') \<Longrightarrow> m \<le> m' \<and> m' \<le> m + k \<and> (r < n \<longrightarrow> m' = m + k)"
  by (induction k arbitrary: v m) (force simp: Let_def split: if_splits)+

lemma left_walk_Inside:
  "walk child n m v (replicate k False) = Inside w \<Longrightarrow> left_walk child n k v m = (w, m + k)"
  by (induction k arbitrary: v m) (auto simp: Let_def split: if_splits)

lemma left_walk_Leaves:
  "walk child n m v (replicate k False) = Leaves r j \<Longrightarrow> left_walk child n k v m = (r, j - 1)"
  by (induction k arbitrary: v m) (auto simp: Let_def split: if_splits)

lemma ipv4_start_loop_left_walk:
  assumes wf: "tree_wf mmdb" and v: "v < nodes_of mmdb"
  shows "ipv4_start_loop (record_info_for_database mmdb) (file_content mmdb)
      (node_count (metadata mmdb)) k (word_of_nat v) (word_of_nat m)
    = Done (map_prod word_of_nat word_of_nat (left_walk (tree_child mmdb) (nodes_of mmdb) k v m))"
  using v
proof (induction k arbitrary: v m)
  case (Suc k)
  let ?r = "tree_child mmdb v False"
  have "node_count (metadata mmdb) \<le> word_of_nat ?r \<longleftrightarrow> nodes_of mmdb \<le> ?r"
    using tree_child_bound[OF wf Suc.prems, of False] by (intro word_of_nat_ge_iff) simp
  then show ?case
    using Suc.IH[of ?r "Suc m"]
    by (simp add: read_left[OF wf Suc.prems] Let_def not_le add.commute)
qed simp

declare ipv4_start_loop.simps [simp del]

lemma left_walk_bound:
  "tree_wf mmdb \<Longrightarrow> v < nodes_of mmdb \<Longrightarrow>
   left_walk (tree_child mmdb) (nodes_of mmdb) k v m = (r, m') \<Longrightarrow> r < 2 ^ 32"
proof (induction k arbitrary: v m)
  case 0
  then show ?case using unat_u32_less[of "node_count (metadata mmdb)"] by simp
next
  case (Suc k)
  then show ?case
    using tree_child_bound[OF Suc.prems(1,2), of False] by (auto simp: Let_def not_le split: if_splits)
qed

text \<open>The start node as it is computed from the tree, and a handle whose cache agrees with it.\<close>

definition start_walk :: "MMDB_s \<Rightarrow> nat \<times> nat" where
  "start_walk mmdb = left_walk (tree_child mmdb) (nodes_of mmdb) 96 0 0"

definition computed_start :: "MMDB_s \<Rightarrow> MMDB_ipv4_start_node_s" where
  "computed_start mmdb = (case start_walk mmdb of (r, m) \<Rightarrow>
     \<lparr>start_netmask = word_of_nat m, node_value = word_of_nat r\<rparr>)"

definition cache_ok :: "MMDB_s \<Rightarrow> bool" where
  "cache_ok mmdb \<longleftrightarrow>
     node_value (ipv4_start_node mmdb) \<noteq> 0 \<longrightarrow> ipv4_start_node mmdb = computed_start mmdb"

lemma cache_irrelevant [simp]:
  "tree_child (mmdb\<lparr>ipv4_start_node := s\<rparr>) = tree_child mmdb"
  "tree_wf (mmdb\<lparr>ipv4_start_node := s\<rparr>) = tree_wf mmdb"
  "start_walk (mmdb\<lparr>ipv4_start_node := s\<rparr>) = start_walk mmdb"
  "computed_start (mmdb\<lparr>ipv4_start_node := s\<rparr>) = computed_start mmdb"
  "record_info_for_database (mmdb\<lparr>ipv4_start_node := s\<rparr>) = record_info_for_database mmdb"
  "report (mmdb\<lparr>ipv4_start_node := s\<rparr>) = report mmdb"
  "walk_report (mmdb\<lparr>ipv4_start_node := s\<rparr>) = walk_report mmdb"
proof -
  show c: "tree_child (mmdb\<lparr>ipv4_start_node := s\<rparr>) = tree_child mmdb"
    by (intro ext) (simp add: tree_child_def)
  show w: "start_walk (mmdb\<lparr>ipv4_start_node := s\<rparr>) = start_walk mmdb"
    by (simp add: start_walk_def c)
  show "computed_start (mmdb\<lparr>ipv4_start_node := s\<rparr>) = computed_start mmdb"
    by (simp add: computed_start_def w)
  show r: "report (mmdb\<lparr>ipv4_start_node := s\<rparr>) = report mmdb"
    by (intro ext) (simp add: report_def)
  show "walk_report (mmdb\<lparr>ipv4_start_node := s\<rparr>) = walk_report mmdb"
    by (intro ext) (simp add: walk_report_def r split: walk_end.split)
qed (simp_all add: tree_wf_def record_info_for_database_def)

lemma computed_start_cached [simp]: "cache_ok (mmdb\<lparr>ipv4_start_node := computed_start mmdb\<rparr>)"
  by (simp add: cache_ok_def)

lemma find_ipv4_start_node_computed:
  assumes "tree_wf mmdb" "cache_ok mmdb"
  shows "find_ipv4_start_node mmdb
    = Done (computed_start mmdb, mmdb\<lparr>ipv4_start_node := computed_start mmdb\<rparr>)"
proof (cases "node_value (ipv4_start_node mmdb) = 0")
  case True
  have "0 < nodes_of mmdb" using assms(1) by (simp add: tree_wf_def)
  from ipv4_start_loop_left_walk[OF assms(1) this, of 96 0]
  have loop: "ipv4_start_loop (record_info_for_database mmdb) (file_content mmdb)
      (node_count (metadata mmdb)) 96 0 0 = Done (map_prod word_of_nat word_of_nat (start_walk mmdb))"
    by (simp add: start_walk_def)
  obtain r m where rm: "start_walk mmdb = (r, m)" by force
  have "m \<le> 96" using left_walk_range[OF rm[unfolded start_walk_def]] by simp
  then have "take_bit 32 m = m" by (simp add: take_bit_nat_eq_self_iff)
  then have "(ucast (word_of_nat m :: u32) :: u16) = word_of_nat m"
    by (simp add: unsigned_of_nat)
  then show ?thesis
    using True loop rm by (simp add: find_ipv4_start_node_def computed_start_def Let_def)
next
  case False
  then show ?thesis
    using assms(2) by (simp add: find_ipv4_start_node_def cache_ok_def)
qed


section \<open>Looking a socket address up\<close>

text \<open>The bits of an address of the database's own family.\<close>

definition native_bits :: "MMDB_s \<Rightarrow> sockaddr \<Rightarrow> bool list option" where
  "native_bits mmdb sa =
     (if ip_version (metadata mmdb) = 4 \<and> family sa = AF_INET \<and> length (s_addr sa) = 4
      then Some (addr_bits (s_addr sa))
      else if ip_version (metadata mmdb) = 6 \<and> family sa = AF_INET6 \<and> length (s6_addr sa) = 16
      then Some (addr_bits (s6_addr sa))
      else None)"

lemma search_from_root:
  assumes wf: "tree_wf mmdb" and len: "8 * length as = unat (depth mmdb)"
  shows "search_loop mmdb (record_info_for_database mmdb) (Ptr as 0) (depth mmdb - 1)
           (Suc (unat (depth mmdb - 1))) 0 result
    = Done (walk_report mmdb result (walk (tree_child mmdb) (nodes_of mmdb) 0 0 (addr_bits as)))"
proof -
  have "Suc (unat (depth mmdb - 1)) = unat (depth mmdb)" and "0 < nodes_of mmdb"
    using wf by (auto simp: tree_wf_def)
  with search_loop_walk[OF wf len order_refl, of 0 result] show ?thesis
    by simp
qed

lemma lookup_native:
  assumes wf: "tree_wf mmdb" and bits: "native_bits mmdb sa = Some bits"
  shows "MMDB_lookup_sockaddr mmdb sa err
    = Done (case walk_report mmdb no_result (walk (tree_child mmdb) (nodes_of mmdb) 0 0 bits) of
              (st, res) \<Rightarrow> (res, Some st, mmdb))"
proof -
  have off: "right_record_offset (record_info_for_database mmdb) \<noteq> 0"
    by (rule right_offset_nonzero[OF wf])
  consider (four) "ip_version (metadata mmdb) = 4" "family sa = AF_INET" "length (s_addr sa) = 4"
      "bits = addr_bits (s_addr sa)" "depth mmdb = 32"
    | (six) "ip_version (metadata mmdb) = 6" "family sa = AF_INET6" "length (s6_addr sa) = 16"
      "bits = addr_bits (s6_addr sa)" "depth mmdb = 128"
    using wf bits by (auto simp: native_bits_def tree_wf_def split: if_splits)
  then show ?thesis
  proof cases
    case four
    then show ?thesis
      using off search_from_root[OF wf, of "s_addr sa" no_result]
      by (simp add: MMDB_lookup_sockaddr_def find_address_in_search_tree_def Let_def split: prod.split)
  next
    case six
    then show ?thesis
      using off search_from_root[OF wf, of "s6_addr sa" no_result]
      by (simp add: MMDB_lookup_sockaddr_def find_address_in_search_tree_def Let_def split: prod.split)
  qed
qed

text \<open>
  An IPv4 address in an IPv6 tree: the walk starts at the computed start node. Where the 96
  zero bits already leave the tree, the reported prefix length is \<open>128\<close> minus the loop counter.
\<close>

lemma find_ipv4_in_ipv6:
  fixes as
  defines "zeros \<equiv> replicate 12 (0 :: u8) @ as"
  assumes wf: "tree_wf mmdb" and cache: "cache_ok mmdb" and six: "ip_version (metadata mmdb) = 6"
    and len: "length as = 4" and start: "start_walk mmdb = (r, m)"
  shows "find_address_in_search_tree mmdb (Ptr zeros 0) AF_INET no_result
    = Done (case (if nodes_of mmdb \<le> r then report mmdb no_result r (128 - m)
                  else walk_report mmdb no_result
                         (walk (tree_child mmdb) (nodes_of mmdb) 96 r (addr_bits as))) of
              (st, res) \<Rightarrow> (st, res, mmdb\<lparr>ipv4_start_node := computed_start mmdb\<rparr>))"
proof -
  let ?db = "mmdb\<lparr>ipv4_start_node := computed_start mmdb\<rparr>"
  have off: "right_record_offset (record_info_for_database mmdb) \<noteq> 0"
    by (rule right_offset_nonzero[OF wf])
  have d: "depth mmdb = 128" using wf six by (auto simp: tree_wf_def)
  have "0 < nodes_of mmdb" using wf by (simp add: tree_wf_def)
  from left_walk_bound[OF wf this] have r32: "r < 2 ^ 32"
    using start by (auto simp: start_walk_def)
  have m: "m \<le> 96" "r < nodes_of mmdb \<longrightarrow> m = 96"
    using left_walk_range[OF start[unfolded start_walk_def]] by auto
  have cs: "computed_start mmdb = \<lparr>start_netmask = word_of_nat m, node_value = word_of_nat r\<rparr>"
    by (simp add: computed_start_def start)
  have ge: "node_count (metadata mmdb) \<le> word_of_nat r \<longleftrightarrow> nodes_of mmdb \<le> r"
    using r32 by (intro word_of_nat_ge_iff) simp
  note find = find_address_in_search_tree_def find_ipv4_start_node_computed[OF wf cache] cs ge Let_def
  show ?thesis
  proof (cases "nodes_of mmdb \<le> r")
    case True
    have "populate_result ?db (node_count (metadata mmdb)) (word_of_nat r) (word_of_nat m) no_result
        = report mmdb no_result r (128 - m)"
      using populate_result_report[of r ?db "128 - m" no_result] r32 True d m by simp
    then show ?thesis using off six True by (simp add: find split: prod.split)
  next
    case False
    then have "m = 96" and r: "r < nodes_of mmdb" using m by auto
    have "drop 96 (addr_bits zeros) = addr_bits as"
      by (simp add: addr_bits_append zeros_def)
    then have "search_loop ?db (record_info_for_database mmdb) (Ptr zeros 0) 127 32 (word_of_nat r) no_result
      = Done (walk_report mmdb no_result (walk (tree_child mmdb) (nodes_of mmdb) 96 r (addr_bits as)))"
      using search_loop_walk[of ?db zeros 32 r no_result] wf d len r by (simp add: zeros_def)
    then show ?thesis using off six False \<open>m = 96\<close> d by (simp add: find split: prod.split)
  qed
qed

lemma lookup_ipv4_in_ipv6:
  assumes wf: "tree_wf mmdb" and cache: "cache_ok mmdb"
    and six: "ip_version (metadata mmdb) = 6"
    and fam: "family sa = AF_INET" and len: "length (s_addr sa) = 4"
    and start: "start_walk mmdb = (r, m)"
  shows "MMDB_lookup_sockaddr mmdb sa err
    = Done (case (if nodes_of mmdb \<le> r then report mmdb no_result r (128 - m)
                  else walk_report mmdb no_result
                         (walk (tree_child mmdb) (nodes_of mmdb) 96 r (addr_bits (s_addr sa)))) of
              (st, res) \<Rightarrow> (res, Some st, mmdb\<lparr>ipv4_start_node := computed_start mmdb\<rparr>))"
proof -
  have copy: "copy_bytes (Ptr (s_addr sa) 0) 4 = Done (s_addr sa)"
    using copy_bytes_readable[of "Ptr (s_addr sa) 0" 4] len by simp
  show ?thesis
    using find_ipv4_in_ipv6[OF wf cache six len start] six fam
    by (simp add: MMDB_lookup_sockaddr_def copy split: prod.split)
qed

end
