(* ===== verification/HandleSpec.thy ===== *)
theory HandleSpec
  imports MetadataSpec TreeLookup
begin

text \<open>
  The invariants of a handle: the arrays of languages and descriptions agree with their counts
  however far opening got, so that giving them back never reads outside them, and a handle that
  was opened has the record layout, depth and format version the other components rely on.
\<close>

section \<open>Arrays and counts\<close>

text \<open>
  The members up to the count are stored, those behind it, if any, are null.
\<close>

definition languages_ok :: "MMDB_metadata_s \<Rightarrow> bool" where
  "languages_ok md \<longleftrightarrow> languages_count md = 0 \<or>
     (\<exists>ns. languages_names md = Some ns \<and> languages_count md \<le> length ns
        \<and> (\<forall>j < languages_count md. ns ! j \<noteq> Null))"

definition descriptions_ok :: "MMDB_metadata_s \<Rightarrow> bool" where
  "descriptions_ok md \<longleftrightarrow> description_count md = 0 \<or>
     (\<exists>ds. descriptions md = Some ds \<and> description_count md \<le> length ds
        \<and> (\<forall>j < description_count md. ds ! j \<noteq> None))"

text \<open>
  No string or description is stored behind the count. The array that the caller's object has before it is opened may
  be anything, so this is stated under a condition.
\<close>

definition languages_covered :: "bool \<Rightarrow> MMDB_metadata_s \<Rightarrow> bool" where
  "languages_covered c md \<longleftrightarrow> (c \<longrightarrow> (\<forall>ns. languages_names md = Some ns \<longrightarrow>
     (\<forall>j < length ns. languages_count md \<le> j \<longrightarrow> ns ! j = Null)))"

definition descriptions_covered :: "bool \<Rightarrow> MMDB_metadata_s \<Rightarrow> bool" where
  "descriptions_covered c md \<longleftrightarrow> (c \<longrightarrow> (\<forall>ds. descriptions md = Some ds \<longrightarrow>
     (\<forall>j < length ds. description_count md \<le> j \<longrightarrow> ds ! j = None)))"

text \<open>The nodes of a list that are lost, by the status.\<close>

definition lost_ok :: "status \<Rightarrow> 'a list \<Rightarrow> bool" where
  "lost_ok st lost \<longleftrightarrow> (st = MMDB_SUCCESS \<longrightarrow> lost = []) \<and> (st = MMDB_OUT_OF_MEMORY_ERROR \<longrightarrow> lost \<noteq> [])
     \<and> (lost \<noteq> [] \<longrightarrow> st = MMDB_OUT_OF_MEMORY_ERROR \<or> st = MMDB_INVALID_METADATA_ERROR)"

text \<open>What the loops change.\<close>

definition same_but_languages :: "MMDB_metadata_s \<Rightarrow> MMDB_metadata_s \<Rightarrow> bool" where
  "same_but_languages md md' \<longleftrightarrow>
     (\<exists>c ns. md' = md\<lparr>languages_count := c, languages_names := ns\<rparr>)"

definition same_but_descriptions :: "MMDB_metadata_s \<Rightarrow> MMDB_metadata_s \<Rightarrow> bool" where
  "same_but_descriptions md md' \<longleftrightarrow>
     (\<exists>c ds. md' = md\<lparr>description_count := c, descriptions := ds\<rparr>)"

lemma same_but_languagesI:
  "same_but_languages md md"
  "same_but_languages md (md\<lparr>languages_count := c\<rparr>)"
  "same_but_languages md (md\<lparr>languages_names := ns\<rparr>)"
  "same_but_languages md (md\<lparr>languages_count := c, languages_names := ns\<rparr>)"
  "same_but_languages md (md\<lparr>languages_names := ns, languages_count := c\<rparr>)"
  "same_but_languages (md\<lparr>languages_names := ns, languages_count := c\<rparr>) md' = same_but_languages md md'"
  "same_but_languages (md\<lparr>languages_count := c, languages_names := ns\<rparr>) md' = same_but_languages md md'"
proof -
  have upd: "\<exists>c' ns'. md = md\<lparr>languages_count := c', languages_names := ns'\<rparr>" for md :: MMDB_metadata_s
    by (rule exI[of _ "languages_count md"], rule exI[of _ "languages_names md"]) simp
  show "same_but_languages md md" unfolding same_but_languages_def by (rule upd)
  have "md\<lparr>languages_count := c\<rparr> = md\<lparr>languages_count := c, languages_names := languages_names md\<rparr>" by simp
  then show "same_but_languages md (md\<lparr>languages_count := c\<rparr>)" unfolding same_but_languages_def by blast
  have "md\<lparr>languages_names := ns\<rparr> = md\<lparr>languages_count := languages_count md, languages_names := ns\<rparr>" by simp
  then show "same_but_languages md (md\<lparr>languages_names := ns\<rparr>)" unfolding same_but_languages_def by blast
  have swap: "md\<lparr>languages_names := ns, languages_count := c\<rparr> = md\<lparr>languages_count := c, languages_names := ns\<rparr>"
    for md :: MMDB_metadata_s and c ns by simp
  show "same_but_languages md (md\<lparr>languages_names := ns, languages_count := c\<rparr>)"
    unfolding same_but_languages_def swap by blast
qed (simp_all add: same_but_languages_def, blast)

lemma languages_loop_keeps:
  "languages_loop malloc_ok i n nodes names md = Done (st, md') \<Longrightarrow>
    length names = i \<Longrightarrow> Null \<notin> set names \<Longrightarrow> languages_names md = Some names \<Longrightarrow> languages_count md = i \<Longrightarrow>
    same_but_languages md md' \<and> languages_ok md' \<and> languages_covered c md'
    \<and> st \<in> {MMDB_SUCCESS, MMDB_INVALID_METADATA_ERROR, MMDB_OUT_OF_MEMORY_ERROR}
    \<and> (st = MMDB_SUCCESS \<longrightarrow> (\<exists>ns. languages_names md' = Some ns \<and> Null \<notin> set ns
          \<and> length ns = i + n \<and> languages_count md' = i + n))"
proof (induction n arbitrary: i nodes names md)
  case 0
  then show ?case
    by (auto simp: same_but_languagesI languages_ok_def languages_covered_def in_set_conv_nth)
next
  case (Suc n)
  show ?case
  proof (cases nodes)
    case (Cons member rest)
    show ?thesis
    proof (cases "data_type member = MMDB_DATA_TYPE_UTF8_STRING")
      case False
      then show ?thesis
        using Suc.prems Cons by (auto simp: same_but_languagesI languages_ok_def languages_covered_def in_set_conv_nth)
    next
      case True
      from Suc.prems(1) obtain s where s: "strndup_entry (malloc_ok (A_name i)) member = Done s"
        unfolding Cons by (auto simp: True bind_run_eq_Done)
      show ?thesis
      proof (cases "s = Null")
        case null: True
        then show ?thesis
          using Suc.prems Cons True s
          by (auto simp: same_but_languagesI languages_ok_def languages_covered_def nth_append in_set_conv_nth)
      next
        case False
        let ?md = "md\<lparr>languages_names := Some (names @ [s]), languages_count := Suc i\<rparr>"
        have "languages_loop malloc_ok (Suc i) n rest (names @ [s]) ?md = Done (st, md')"
          using Suc.prems(1) Cons True s False by (simp add: Let_def)
        from Suc.IH[OF this] Suc.prems False show ?thesis
          by (auto simp: same_but_languagesI)
      qed
    qed
  qed (use Suc.prems in simp)
qed

lemma populate_languages_keeps:
  assumes p: "populate_languages_metadata malloc_ok nest db start md = Done (st, lost, md')"
    and c: "languages_count md = 0"
  shows "same_but_languages md md' \<and> languages_ok md' \<and> lost_ok st lost
    \<and> (languages_covered g md \<longrightarrow> languages_covered g md')
    \<and> (st = MMDB_SUCCESS \<longrightarrow> (\<exists>ns. languages_names md' = Some ns \<and> Null \<notin> set ns
          \<and> languages_count md' = length ns))"
proof -
  from p obtain st1 ed where a: "MMDB_aget_value nest db start [''languages''] = Done (st1, ed)"
    by (auto simp: populate_languages_metadata_def bind_run_eq_Done)
  show ?thesis
  proof (cases "data_type ed = MMDB_DATA_TYPE_ARRAY")
    case False
    then show ?thesis
      using p a c by (auto simp: populate_languages_metadata_def same_but_languagesI languages_ok_def lost_ok_def)
  next
    case True
    from p a True obtain st2 nodes where
      "MMDB_get_entry_data_list nest (\<lambda>k. malloc_ok (A_language_node k)) db \<lparr>entry_offset = data_offset ed\<rparr>
        = Done (st2, nodes)"
      by (auto simp: populate_languages_metadata_def bind_run_eq_Done)
    with p a True obtain member rest sz where l: "nodes = member # rest" "size_of_entry member = Done sz"
      "if \<not> malloc_ok A_names then (st, lost, md')
          = (MMDB_OUT_OF_MEMORY_ERROR, nodes, md\<lparr>languages_count := 0, languages_names := None\<rparr>)
        else languages_loop malloc_ok 0 (unat sz) rest [] (md\<lparr>languages_count := 0, languages_names := Some []\<rparr>)
            = Done (st, md') \<and> lost = (if st = MMDB_SUCCESS then [] else nodes)"
      by (cases nodes)
        (auto simp: populate_languages_metadata_def bind_run_eq_Done Let_def simp del: size_of_entry.simps split: if_splits)
    show ?thesis
    proof (cases "malloc_ok A_names")
      case False
      then show ?thesis
        using l c by (auto simp: same_but_languagesI languages_ok_def languages_covered_def lost_ok_def)
    next
      case True
      with l(3) have "languages_loop malloc_ok 0 (unat sz) rest []
          (md\<lparr>languages_count := 0, languages_names := Some []\<rparr>) = Done (st, md')" by simp
      from languages_loop_keeps[OF this, of g] show ?thesis
        using c l True by (auto simp: same_but_languagesI lost_ok_def)
    qed
  qed
qed

lemma same_but_descriptionsI:
  "same_but_descriptions md md"
  "same_but_descriptions md (md\<lparr>description_count := c\<rparr>)"
  "same_but_descriptions md (md\<lparr>descriptions := ds\<rparr>)"
  "same_but_descriptions md (md\<lparr>description_count := c, descriptions := ds\<rparr>)"
  "same_but_descriptions (md\<lparr>description_count := c, descriptions := ds\<rparr>) md' = same_but_descriptions md md'"
proof -
  have "md = md\<lparr>description_count := description_count md, descriptions := descriptions md\<rparr>" by simp
  then show "same_but_descriptions md md" unfolding same_but_descriptions_def by blast
  have "md\<lparr>description_count := c\<rparr> = md\<lparr>description_count := c, descriptions := descriptions md\<rparr>" by simp
  then show "same_but_descriptions md (md\<lparr>description_count := c\<rparr>)" unfolding same_but_descriptions_def by blast
  have "md\<lparr>descriptions := ds\<rparr> = md\<lparr>description_count := description_count md, descriptions := ds\<rparr>" by simp
  then show "same_but_descriptions md (md\<lparr>descriptions := ds\<rparr>)" unfolding same_but_descriptions_def by blast
qed (simp_all add: same_but_descriptions_def, blast)

definition full_description :: "MMDB_description_s option \<Rightarrow> bool" where
  "full_description d \<longleftrightarrow> (case d of None \<Rightarrow> False | Some d \<Rightarrow> language d \<noteq> Null \<and> description_text d \<noteq> Null)"

text \<open>Storing one more description, whether its members are filled in or not.\<close>

lemma descriptions_ok_store:
  "None \<notin> set ds \<Longrightarrow> length ds = i \<Longrightarrow>
    descriptions_ok (md\<lparr>description_count := Suc i, descriptions := Some (ds @ [Some d])\<rparr>)
    \<and> descriptions_covered c (md\<lparr>description_count := Suc i, descriptions := Some (ds @ [Some d])\<rparr>)"
  by (auto simp: descriptions_ok_def descriptions_covered_def nth_append in_set_conv_nth)

text \<open>One round of the loop: the description is stored or not, and the loop stops or goes on.\<close>

lemma descriptions_loop_round:
  fixes md i ds
  defines "store \<equiv> \<lambda>l t. md\<lparr>description_count := Suc i,
    descriptions := Some (ds @ [Some \<lparr>language = l, description_text = t\<rparr>])\<rparr>"
  assumes "descriptions_loop malloc_ok i (Suc n) nodes ds md = Done (st, md')"
  obtains (not_stored) "st = MMDB_OUT_OF_MEMORY_ERROR" "md' = md\<lparr>descriptions := Some (ds @ [None])\<rparr>"
    | (stops) l t where "st \<in> {MMDB_INVALID_METADATA_ERROR, MMDB_OUT_OF_MEMORY_ERROR}" "md' = store l t"
    | (goes_on) l t rest where "l \<noteq> Null" "t \<noteq> Null"
        "descriptions_loop malloc_ok (Suc i) n rest (ds @ [Some \<lparr>language = l, description_text = t\<rparr>]) (store l t)
          = Done (st, md')"
  using assms(2) unfolding store_def
  by (auto simp: Let_def bind_run_eq_Done split: if_splits list.splits)

lemma descriptions_loop_keeps:
  "descriptions_loop malloc_ok i n nodes ds md = Done (st, md') \<Longrightarrow>
    length ds = i \<Longrightarrow> list_all full_description ds \<Longrightarrow> descriptions md = Some ds \<Longrightarrow> description_count md = i \<Longrightarrow>
    same_but_descriptions md md' \<and> descriptions_ok md' \<and> descriptions_covered c md'
    \<and> st \<in> {MMDB_SUCCESS, MMDB_INVALID_METADATA_ERROR, MMDB_OUT_OF_MEMORY_ERROR}
    \<and> (st = MMDB_SUCCESS \<longrightarrow> (\<exists>ds'. descriptions md' = Some ds' \<and> list_all full_description ds'
          \<and> length ds' = i + n \<and> description_count md' = i + n))"
proof (induction n arbitrary: i nodes ds md)
  case 0
  then show ?case
    by (force simp: same_but_descriptionsI descriptions_ok_def descriptions_covered_def list_all_length full_description_def
        split: option.splits)
next
  case (Suc n)
  have none: "None \<notin> set ds"
    using Suc.prems(3) by (auto simp: list_all_iff full_description_def)
  from Suc.prems(1) show ?case
  proof (cases rule: descriptions_loop_round)
    case not_stored
    with Suc.prems none show ?thesis
      by (auto simp: same_but_descriptionsI descriptions_ok_def descriptions_covered_def nth_append in_set_conv_nth)
  next
    case (stops l t)
    then show ?thesis
      using descriptions_ok_store[OF none Suc.prems(2)] by (auto simp: same_but_descriptionsI)
  next
    case (goes_on l t rest)
    from Suc.IH[OF goes_on(3)] Suc.prems goes_on(1,2) show ?thesis
      by (auto simp: same_but_descriptionsI full_description_def)
  qed
qed

lemma populate_descriptions_keeps:
  assumes p: "populate_description_metadata malloc_ok nest db start md = Done (st, lost, md')"
    and c: "description_count md = 0"
  shows "same_but_descriptions md md' \<and> descriptions_ok md' \<and> lost_ok st lost
    \<and> (descriptions_covered g md \<longrightarrow> descriptions_covered g md')
    \<and> (st = MMDB_SUCCESS \<longrightarrow> (\<exists>ds. descriptions md' = Some ds \<and> list_all full_description ds
          \<and> description_count md' = length ds))"
proof -
  from p obtain st1 ed where a: "MMDB_aget_value nest db start [''description''] = Done (st1, ed)"
    by (auto simp: populate_description_metadata_def bind_run_eq_Done)
  show ?thesis
  proof (cases "data_type ed = MMDB_DATA_TYPE_MAP")
    case False
    then show ?thesis
      using p a c
      by (auto simp: populate_description_metadata_def same_but_descriptionsI descriptions_ok_def lost_ok_def)
  next
    case True
    from p a True obtain st2 nodes where
      "MMDB_get_entry_data_list nest (\<lambda>k. malloc_ok (A_description_node k)) db \<lparr>entry_offset = data_offset ed\<rparr>
        = Done (st2, nodes)"
      by (auto simp: populate_description_metadata_def bind_run_eq_Done)
    with p a True obtain member rest sz where l: "nodes = member # rest" "size_of_entry member = Done sz"
      "if \<not> malloc_ok A_descriptions then (st, lost, md')
          = (MMDB_OUT_OF_MEMORY_ERROR, nodes, md\<lparr>description_count := 0, descriptions := None\<rparr>)
        else descriptions_loop malloc_ok 0 (unat sz) rest [] (md\<lparr>description_count := 0, descriptions := Some []\<rparr>)
            = Done (st, md') \<and> lost = (if st = MMDB_SUCCESS then [] else nodes)"
      by (cases nodes)
        (auto simp: populate_description_metadata_def bind_run_eq_Done Let_def simp del: size_of_entry.simps split: if_splits)
    show ?thesis
    proof (cases "malloc_ok A_descriptions")
      case False
      then show ?thesis
        using l c by (auto simp: same_but_descriptionsI descriptions_ok_def descriptions_covered_def lost_ok_def)
    next
      case True
      with l(3) have "descriptions_loop malloc_ok 0 (unat sz) rest []
          (md\<lparr>description_count := 0, descriptions := Some []\<rparr>) = Done (st, md')" by simp
      from descriptions_loop_keeps[OF this, of g] show ?thesis
        using c l True by (auto simp: same_but_descriptionsI lost_ok_def)
    qed
  qed
qed

end
