(* ===== verification/HandleInv.thy ===== *)
theory HandleInv
  imports HandleSpec
begin

text \<open>
  What opening leaves in a handle on every path, and what closing gives back.
\<close>

section \<open>read_metadata\<close>

definition arrays_ok :: "MMDB_s \<Rightarrow> bool" where
  "arrays_ok mmdb \<longleftrightarrow> languages_ok (metadata mmdb) \<and> descriptions_ok (metadata mmdb)"

text \<open>The metadata of a handle that was opened.\<close>

definition metadata_ok :: "MMDB_s \<Rightarrow> bool" where
  "metadata_ok mmdb \<longleftrightarrow>
     (let md = metadata mmdb in
      node_count md \<noteq> 0
      \<and> (record_size md = 24 \<and> full_record_byte_size mmdb = 6
         \<or> record_size md = 28 \<and> full_record_byte_size mmdb = 7
         \<or> record_size md = 32 \<and> full_record_byte_size mmdb = 8)
      \<and> (ip_version md = 4 \<and> depth mmdb = 32 \<or> ip_version md = 6 \<and> depth mmdb = 128)
      \<and> database_type md \<noteq> Null
      \<and> (\<exists>ns. languages_names md = Some ns \<and> Null \<notin> set ns \<and> languages_count md = length ns)
      \<and> binary_format_major_version md \<noteq> 0 \<and> build_epoch md \<noteq> 0
      \<and> (\<exists>ds. descriptions md = Some ds \<and> list_all full_description ds \<and> description_count md = length ds))"

text \<open>\<open>g\<close> says whether no string was stored behind the counts before.\<close>

definition read_post :: "bool \<Rightarrow> MMDB_s \<Rightarrow> status \<times> MMDB_entry_data_s list \<times> MMDB_s \<Rightarrow> bool" where
  "read_post g mmdb r \<longleftrightarrow>
     (case r of (st, lost, mmdb') \<Rightarrow>
        (\<exists>md frs d. mmdb' = mmdb\<lparr>metadata := md, full_record_byte_size := frs, depth := d\<rparr>)
        \<and> arrays_ok mmdb' \<and> languages_covered g (metadata mmdb') \<and> descriptions_covered g (metadata mmdb')
        \<and> lost_ok st lost \<and> (st = MMDB_SUCCESS \<longrightarrow> metadata_ok mmdb'))"

lemma read_post_failed:
  assumes "st \<noteq> MMDB_SUCCESS" "languages_ok md" "descriptions_ok md" "languages_covered g md"
    "descriptions_covered g md" "lost_ok st lost"
  shows "read_post g mmdb (st, lost, mmdb\<lparr>metadata := md\<rparr>)"
proof -
  have "mmdb\<lparr>metadata := md\<rparr>
    = mmdb\<lparr>metadata := md, full_record_byte_size := full_record_byte_size mmdb, depth := depth mmdb\<rparr>"
    by simp
  then have "\<exists>md' frs d. mmdb\<lparr>metadata := md\<rparr> = mmdb\<lparr>metadata := md', full_record_byte_size := frs, depth := d\<rparr>"
    by blast
  then show ?thesis using assms by (simp add: read_post_def arrays_ok_def)
qed

lemma counts_0_ok:
  "languages_count md = 0 \<Longrightarrow> languages_ok md" "description_count md = 0 \<Longrightarrow> descriptions_ok md"
  by (simp_all add: languages_ok_def descriptions_ok_def)

lemma post_languages:
  assumes "languages_count md = 0" "languages_covered g md"
    and "\<And>st lost n ns. languages_ok (md\<lparr>languages_count := n, languages_names := ns\<rparr>) \<Longrightarrow>
      languages_covered g (md\<lparr>languages_count := n, languages_names := ns\<rparr>) \<Longrightarrow> lost_ok st lost \<Longrightarrow>
      (st = MMDB_SUCCESS \<longrightarrow> (\<exists>names. ns = Some names \<and> Null \<notin> set names \<and> n = length names)) \<Longrightarrow>
      post (f st lost (md\<lparr>languages_count := n, languages_names := ns\<rparr>)) P"
  shows "post (bind_run (populate_languages_metadata malloc_ok nest db start md) (\<lambda>(st, lost, md'). f st lost md')) P"
proof (intro post_bind post_prod)
  fix x st y lost md'
  assume "populate_languages_metadata malloc_ok nest db start md = Done x" "x = (st, y)" "y = (lost, md')"
  then have k: "same_but_languages md md'" "languages_ok md'" "lost_ok st lost" "languages_covered g md'"
    "st = MMDB_SUCCESS \<longrightarrow> (\<exists>ns. languages_names md' = Some ns \<and> Null \<notin> set ns \<and> languages_count md' = length ns)"
    using populate_languages_keeps[OF _ assms(1)] assms(2) by blast+
  from k(1) obtain n ns where "md' = md\<lparr>languages_count := n, languages_names := ns\<rparr>"
    by (auto simp: same_but_languages_def)
  with k assms(3)[where n = n and ns = ns and st = st and lost = lost] show "post (f st lost md') P" by simp
qed

lemma post_descriptions:
  assumes "description_count md = 0" "descriptions_covered g md"
    and "\<And>st lost n ds. descriptions_ok (md\<lparr>description_count := n, descriptions := ds\<rparr>) \<Longrightarrow>
      descriptions_covered g (md\<lparr>description_count := n, descriptions := ds\<rparr>) \<Longrightarrow> lost_ok st lost \<Longrightarrow>
      (st = MMDB_SUCCESS \<longrightarrow> (\<exists>ds'. ds = Some ds' \<and> list_all full_description ds' \<and> n = length ds')) \<Longrightarrow>
      post (f st lost (md\<lparr>description_count := n, descriptions := ds\<rparr>)) P"
  shows "post (bind_run (populate_description_metadata malloc_ok nest db start md) (\<lambda>(st, lost, md'). f st lost md')) P"
proof (intro post_bind post_prod)
  fix x st y lost md'
  assume "populate_description_metadata malloc_ok nest db start md = Done x" "x = (st, y)" "y = (lost, md')"
  then have k: "same_but_descriptions md md'" "descriptions_ok md'" "lost_ok st lost" "descriptions_covered g md'"
    "st = MMDB_SUCCESS \<longrightarrow> (\<exists>ds. descriptions md' = Some ds \<and> list_all full_description ds
      \<and> description_count md' = length ds)"
    using populate_descriptions_keeps[OF _ assms(1)] assms(2) by blast+
  from k(1) obtain n ds where "md' = md\<lparr>description_count := n, descriptions := ds\<rparr>"
    by (auto simp: same_but_descriptions_def)
  with k assms(3)[where n = n and ds = ds and st = st and lost = lost] show "post (f st lost md') P" by simp
qed

lemma read_post_read:
  assumes "languages_ok md" "descriptions_ok md" "languages_covered g md" "descriptions_covered g md"
    "metadata_ok (mmdb\<lparr>metadata := md, full_record_byte_size := frs, depth := d\<rparr>)"
  shows "read_post g mmdb (MMDB_SUCCESS, [], mmdb\<lparr>metadata := md, full_record_byte_size := frs, depth := d\<rparr>)"
proof -
  have "\<exists>md' frs' d'. mmdb\<lparr>metadata := md, full_record_byte_size := frs, depth := d\<rparr>
      = mmdb\<lparr>metadata := md', full_record_byte_size := frs', depth := d'\<rparr>"
    by blast
  with assms show ?thesis by (simp add: read_post_def arrays_ok_def lost_ok_def)
qed

lemma read_metadata_post:
  assumes c: "languages_count (metadata mmdb) = 0" "description_count (metadata mmdb) = 0"
    and g: "languages_covered g (metadata mmdb)" "descriptions_covered g (metadata mmdb)"
  shows "post (read_metadata malloc_ok nest mmdb) (read_post g mmdb)"
  unfolding read_metadata_def Let_def
  by (rule post_languages[where g = g] post_descriptions[where g = g] post_bind post_if post_prod post_Done
      read_post_failed read_post_read
    | (simp add: c languages_ok_def descriptions_ok_def lost_ok_def; fail)
    | (use g in \<open>simp add: languages_covered_def descriptions_covered_def\<close>; fail)
    | (auto simp: metadata_ok_def Let_def; fail))+

section \<open>What closing gives back\<close>

lemma free_names_loop_all:
  "i + n \<le> length ns \<Longrightarrow>
    free_names_loop i n ns = Done (concat (map (\<lambda>j. freed (R_name j) (ns ! j)) [i..<i + n]))"
proof (induction n arbitrary: i ns)
  case (Suc n)
  have l: "[i..<i + Suc n] = i # [Suc i..<Suc i + n]" by (simp add: upt_conv_Cons)
  have m: "map (\<lambda>j. freed (R_name j) (ns[i := Null] ! j)) [Suc i..<Suc i + n]
      = map (\<lambda>j. freed (R_name j) (ns ! j)) [Suc i..<Suc i + n]"
    by (rule map_cong) auto
  have "free_names_loop (Suc i) n (ns[i := Null])
      = Done (concat (map (\<lambda>j. freed (R_name j) (ns ! j)) [Suc i..<Suc i + n]))"
    using Suc.IH[of "Suc i" "ns[i := Null]"] Suc.prems unfolding m by simp
  with Suc.prems show ?case unfolding l by (simp del: upt_Suc)
qed simp

definition freed_description :: "nat \<Rightarrow> MMDB_description_s option \<Rightarrow> resource list" where
  "freed_description i d =
     (case d of None \<Rightarrow> []
      | Some d \<Rightarrow> freed (R_description_language i) (language d)
          @ freed (R_description_text i) (description_text d) @ [R_description i])"

lemma free_descriptions_loop_all:
  "i + n \<le> length ds \<Longrightarrow>
    free_descriptions_loop i n ds = Done (concat (map (\<lambda>j. freed_description j (ds ! j)) [i..<i + n]))"
proof (induction n arbitrary: i ds)
  case (Suc n)
  have l: "[i..<i + Suc n] = i # [Suc i..<Suc i + n]" by (simp add: upt_conv_Cons)
  have m: "map (\<lambda>j. freed_description j (ds[i := None] ! j)) [Suc i..<Suc i + n]
      = map (\<lambda>j. freed_description j (ds ! j)) [Suc i..<Suc i + n]"
    by (rule map_cong) auto
  have "free_descriptions_loop (Suc i) n (ds[i := None])
      = Done (concat (map (\<lambda>j. freed_description j (ds ! j)) [Suc i..<Suc i + n]))"
    using Suc.IH[of "Suc i" "ds[i := None]"] Suc.prems unfolding m by simp
  with Suc.prems show ?case unfolding l by (simp add: freed_description_def del: upt_Suc)
qed simp

definition held_languages :: "MMDB_metadata_s \<Rightarrow> resource list" where
  "held_languages md =
     (if languages_count md = 0 then []
      else concat (map (\<lambda>j. freed (R_name j) (the (languages_names md) ! j)) [0..<languages_count md]) @ [R_names])"

definition held_descriptions :: "MMDB_metadata_s \<Rightarrow> resource list" where
  "held_descriptions md =
     (if description_count md = 0 then []
      else concat (map (\<lambda>j. freed_description j (the (descriptions md) ! j)) [0..<description_count md])
        @ [R_descriptions])"

definition held :: "MMDB_s \<Rightarrow> resource list" where
  "held mmdb = freed R_filename (filename mmdb) @ freed R_file_content (file_content mmdb)
     @ freed R_database_type (database_type (metadata mmdb))
     @ held_languages (metadata mmdb) @ held_descriptions (metadata mmdb)"

definition closed_handle :: "MMDB_s \<Rightarrow> MMDB_s" where
  "closed_handle mmdb =
     mmdb\<lparr>filename := Null, metadata := (metadata mmdb)\<lparr>database_type := Null,
       languages_names := (if languages_count (metadata mmdb) = 0 then languages_names (metadata mmdb) else None),
       descriptions := (if description_count (metadata mmdb) = 0 then descriptions (metadata mmdb) else None)\<rparr>\<rparr>"

lemma free_languages_held:
  assumes "languages_ok (metadata mmdb)"
  shows "free_languages_metadata mmdb = Done (held_languages (metadata mmdb),
    mmdb\<lparr>metadata := (metadata mmdb)\<lparr>languages_names :=
      (if languages_count (metadata mmdb) = 0 then languages_names (metadata mmdb) else None)\<rparr>\<rparr>)"
  using assms free_names_loop_all[of 0 "languages_count (metadata mmdb)"]
  by (auto simp: free_languages_metadata_def held_languages_def languages_ok_def)

lemma free_descriptions_held:
  assumes "descriptions_ok (metadata mmdb)"
  shows "free_descriptions_metadata mmdb = Done (held_descriptions (metadata mmdb),
    mmdb\<lparr>metadata := (metadata mmdb)\<lparr>descriptions :=
      (if description_count (metadata mmdb) = 0 then descriptions (metadata mmdb) else None)\<rparr>\<rparr>)"
  using assms free_descriptions_loop_all[of 0 "description_count (metadata mmdb)"]
  by (auto simp: free_descriptions_metadata_def held_descriptions_def descriptions_ok_def)

lemma free_mmdb_struct_held:
  assumes "arrays_ok mmdb"
  shows "free_mmdb_struct mmdb = Done (held mmdb, closed_handle mmdb)"
proof -
  let ?db = "mmdb\<lparr>filename := Null, metadata := (metadata mmdb)\<lparr>database_type := Null\<rparr>\<rparr>"
  have l: "languages_ok (metadata ?db)" using assms by (simp add: arrays_ok_def languages_ok_def)
  have d: "descriptions_ok (metadata ?db)" using assms by (simp add: arrays_ok_def descriptions_ok_def)
  have d': "descriptions_ok (metadata (?db\<lparr>metadata := (metadata ?db)\<lparr>languages_names := ns\<rparr>\<rparr>))" for ns
    using d by (simp add: descriptions_ok_def)
  show ?thesis
    using free_languages_held[OF l] free_descriptions_held[OF d']
    by (simp add: free_mmdb_struct_def held_def closed_handle_def held_languages_def held_descriptions_def)
qed

lemma set_freed [simp]: "set (freed r p) = (if p = Null then {} else {r})"
  by (simp add: freed_def)

lemma distinct_freed [simp]: "distinct (freed r p)"
  by (simp add: freed_def)

lemma set_freed_description:
  "set (freed_description i d) \<subseteq> {R_description_language i, R_description_text i, R_description i}"
  by (auto simp: freed_description_def split: option.splits)

lemma distinct_freed_description: "distinct (freed_description i d)"
  by (auto simp: freed_description_def split: option.splits)

lemma set_held_languages: "set (held_languages md) \<subseteq> insert R_names (range R_name)"
  by (auto simp: held_languages_def)

lemma set_held_descriptions:
  "set (held_descriptions md)
    \<subseteq> insert R_descriptions (range R_description_language \<union> range R_description_text \<union> range R_description)"
  by (auto simp: held_descriptions_def dest!: subsetD[OF set_freed_description])

lemma distinct_concat_indexed:
  assumes "\<And>j. distinct (f j)" "\<And>i j x. x \<in> set (f i) \<Longrightarrow> x \<in> set (f j) \<Longrightarrow> i = j"
  shows "distinct (concat (map f [i..<n]))"
proof (induction n)
  case (Suc n)
  then show ?case using assms by (auto dest: assms(2))
qed simp

lemma distinct_held_languages: "distinct (held_languages md)"
  by (auto simp: held_languages_def intro!: distinct_concat_indexed split: if_splits)

lemma distinct_held_descriptions: "distinct (held_descriptions md)"
  by (auto simp: held_descriptions_def intro!: distinct_concat_indexed distinct_freed_description
      dest!: subsetD[OF set_freed_description])

lemma distinct_held: "distinct (held mmdb)"
  using set_held_languages[of "metadata mmdb"] set_held_descriptions[of "metadata mmdb"]
    distinct_held_languages[of "metadata mmdb"] distinct_held_descriptions[of "metadata mmdb"]
  by (auto simp: held_def)

lemma held_fixed:
  "R_filename \<in> set (held mmdb) \<longleftrightarrow> filename mmdb \<noteq> Null"
  "R_file_content \<in> set (held mmdb) \<longleftrightarrow> file_content mmdb \<noteq> Null"
  "R_database_type \<in> set (held mmdb) \<longleftrightarrow> database_type (metadata mmdb) \<noteq> Null"
  using set_held_languages[of "metadata mmdb"] set_held_descriptions[of "metadata mmdb"]
  by (auto simp: held_def)

section \<open>MMDB_open\<close>

text \<open>A handle as \<open>MMDB_open\<close> leaves it after success.\<close>

definition opened :: "file_system \<Rightarrow> MMDB_s \<Rightarrow> bool" where
  "opened fs mmdb \<longleftrightarrow>
     (let tree_size = node_count (metadata mmdb) * ucast (full_record_byte_size mmdb) in
      metadata_ok mmdb \<and> binary_format_major_version (metadata mmdb) = 2
      \<and> filename mmdb \<noteq> Null \<and> file_size mmdb = int (length (file_bytes fs))
      \<and> file_content mmdb = Ptr (file_bytes fs) 0
      \<and> data_section mmdb = Ptr (file_bytes fs) (unat tree_size)
      \<and> data_section_size mmdb = word_of_nat (length (file_bytes fs)) - tree_size
      \<and> ipv4_start_node mmdb = \<lparr>start_netmask = 0, node_value = 0\<rparr>)"

lemma full_description_not_None: "list_all full_description ds \<Longrightarrow> j < length ds \<Longrightarrow> ds ! j \<noteq> None"
  by (auto simp: list_all_length full_description_def split: option.splits)

lemma metadata_ok_arrays: "metadata_ok mmdb \<Longrightarrow> arrays_ok mmdb"
proof -
  assume m: "metadata_ok mmdb"
  from m obtain ns where "languages_names (metadata mmdb) = Some ns" "Null \<notin> set ns"
      "languages_count (metadata mmdb) = length ns"
    by (auto simp: metadata_ok_def Let_def)
  moreover from this(2) have "\<forall>j < length ns. ns ! j \<noteq> Null" by (metis nth_mem)
  ultimately have l: "languages_ok (metadata mmdb)" by (simp add: languages_ok_def)
  from m obtain ds where "descriptions (metadata mmdb) = Some ds" "list_all full_description ds"
      "description_count (metadata mmdb) = length ds"
    by (auto simp: metadata_ok_def Let_def)
  then have "descriptions_ok (metadata mmdb)"
    using full_description_not_None[of ds] by (simp add: descriptions_ok_def)
  with l show ?thesis by (simp add: arrays_ok_def)
qed

lemma read_postD:
  "read_post g mmdb (st, lost, mmdb') \<Longrightarrow>
    (\<exists>md frs d. mmdb' = mmdb\<lparr>metadata := md, full_record_byte_size := frs, depth := d\<rparr>)
    \<and> arrays_ok mmdb' \<and> languages_covered g (metadata mmdb') \<and> descriptions_covered g (metadata mmdb')
    \<and> lost_ok st lost \<and> (st = MMDB_SUCCESS \<longrightarrow> metadata_ok mmdb')"
  by (simp add: read_post_def)

text \<open>The handle when \<open>cleanup\<close> is reached: \<open>name_ok\<close> if the file name was copied, and mapped or not.\<close>

definition open_post ::
  "bool \<Rightarrow> bool \<Rightarrow> bool \<Rightarrow> file_system \<Rightarrow> status \<times> MMDB_entry_data_s list \<times> MMDB_s \<Rightarrow> bool" where
  "open_post g name_ok mapped fs r \<longleftrightarrow>
     (case r of (st, lost, mmdb) \<Rightarrow>
        arrays_ok mmdb \<and> languages_covered g (metadata mmdb) \<and> descriptions_covered g (metadata mmdb)
        \<and> (if mapped then lost_ok st lost else lost = [])
        \<and> (filename mmdb \<noteq> Null \<longleftrightarrow> name_ok)
        \<and> file_content mmdb = (if mapped then Ptr (file_bytes fs) 0 else Null)
        \<and> (st = MMDB_SUCCESS \<longrightarrow> opened fs mmdb))"

definition gets_mapped :: "file_system \<Rightarrow> bool" where
  "gets_mapped fs \<longleftrightarrow> open_ok fs \<and> mmap_failed fs = None"

lemma arrays_ok_metadata: "arrays_ok db \<Longrightarrow> metadata db' = metadata db \<Longrightarrow> arrays_ok db'"
  by (simp add: arrays_ok_def)

lemma covered_metadata:
  "languages_covered g md \<Longrightarrow> md' = md \<Longrightarrow> languages_covered g md'"
  "descriptions_covered g md \<Longrightarrow> md' = md \<Longrightarrow> descriptions_covered g md'"
  by simp_all

lemma open_mapped_post:
  assumes c: "languages_count (metadata mmdb) = 0" "description_count (metadata mmdb) = 0"
    and g: "languages_covered g (metadata mmdb)" "descriptions_covered g (metadata mmdb)"
    and f: "file_content mmdb = Ptr (file_bytes fs) 0" "file_size mmdb = int (length (file_bytes fs))"
      "filename mmdb \<noteq> Null"
  shows "post (open_mapped malloc_ok nest mmdb) (open_post g True True fs)"
  unfolding open_mapped_def Let_def
proof (intro post_if post_bind post_prod post_Done)
  show "post Fault (open_post g True True fs)" by (simp add: post_def)
  fix x md_start md_size
  show "open_post g True True fs (MMDB_INVALID_METADATA_ERROR, [], mmdb)"
    using c f g by (simp add: open_post_def arrays_ok_def counts_0_ok lost_ok_def)
next
  fix x md_start md_size r st y lost db
  assume "read_metadata malloc_ok nest (mmdb\<lparr>metadata_section := md_start, metadata_section_size := md_size\<rparr>) = Done r"
    and r: "r = (st, y)" "y = (lost, db)"
  then have "read_post g (mmdb\<lparr>metadata_section := md_start, metadata_section_size := md_size\<rparr>) (st, lost, db)"
    using postD[OF read_metadata_post] c g by simp
  note k = read_postD[OF this]
  show "open_post g True True fs (st, lost, db)" if "st \<noteq> MMDB_SUCCESS"
    using k that f by (auto simp: open_post_def)
  show "open_post g True True fs (MMDB_UNKNOWN_DATABASE_FORMAT_ERROR, lost, db)" if "\<not> st \<noteq> MMDB_SUCCESS"
    using k f that by (auto simp: open_post_def lost_ok_def)
  show "open_post g True True fs (MMDB_SUCCESS, lost,
      db\<lparr>data_section := ptr_add (file_content db)
             (unat (node_count (metadata db) * ucast (full_record_byte_size db))),
         data_section_size := word_of_int (file_size db)
             - node_count (metadata db) * ucast (full_record_byte_size db),
         metadata_section := md_start, ipv4_start_node := \<lparr>start_netmask = 0, node_value = 0\<rparr>\<rparr>)"
    if "\<not> st \<noteq> MMDB_SUCCESS" "\<not> binary_format_major_version (metadata db) \<noteq> 2"
    using k that f
    by (auto simp: open_post_def opened_def metadata_ok_def Let_def elim: arrays_ok_metadata)
qed

text \<open>
  The result of \<open>MMDB_open\<close>: an opened handle, or a status, everything the handle held given back
  and a handle without those pointers.
\<close>

definition open_result_ok :: "bool \<Rightarrow> file_system \<Rightarrow> status \<times> resource list \<times> MMDB_s \<Rightarrow> bool" where
  "open_result_ok name_ok fs r \<longleftrightarrow>
     (case r of (st, rs, mmdb) \<Rightarrow>
        if st = MMDB_SUCCESS then rs = [] \<and> opened fs mmdb
        else \<exists>lost db. open_post False name_ok (name_ok \<and> gets_mapped fs) fs (st, lost, db)
          \<and> rs = held db \<and> mmdb = closed_handle db)"

lemma open_init_counts:
  "languages_count (metadata (open_init mmdb)) = 0" "description_count (metadata (open_init mmdb)) = 0"
  by (simp_all add: open_init_def)

lemma map_file_post:
  "map_file fs mmdb = (st, db) \<Longrightarrow> metadata db = metadata mmdb \<and> filename db = filename mmdb
    \<and> (if gets_mapped fs then st = MMDB_SUCCESS \<and> file_content db = Ptr (file_bytes fs) 0
         \<and> file_size db = int (length (file_bytes fs))
       else st \<noteq> MMDB_SUCCESS \<and> file_content db = file_content mmdb)"
  by (auto simp: map_file_def gets_mapped_def split: if_splits option.splits)

lemma open_attempt_post:
  assumes g: "languages_covered g ((metadata mmdb)\<lparr>languages_count := 0\<rparr>)"
    "descriptions_covered g ((metadata mmdb)\<lparr>description_count := 0\<rparr>)"
  shows "post (open_attempt malloc_ok fs nest name fl mmdb)
    (open_post g (malloc_ok A_filename) (malloc_ok A_filename \<and> gets_mapped fs) fs)"
proof -
  let ?ok = "malloc_ok A_filename"
  let ?db = "(open_init mmdb)\<lparr>filename := mmdb_strdup ?ok name\<rparr>"
  let ?post = "open_post g ?ok (?ok \<and> gets_mapped fs) fs"
  have c: "languages_count (metadata ?db) = 0" "description_count (metadata ?db) = 0"
    using open_init_counts[of mmdb] by simp_all
  have v: "languages_covered g (metadata ?db)" "descriptions_covered g (metadata ?db)"
    using g by (simp_all add: open_init_def languages_covered_def descriptions_covered_def)
  have nm: "filename ?db \<noteq> Null \<longleftrightarrow> ?ok" by (simp add: mmdb_strdup_def)
  have fc: "file_content ?db = Null" by (simp add: open_init_def)
  show ?thesis
    unfolding open_attempt_def Let_def
  proof (intro post_if post_Done post_prod)
    show "?post (MMDB_OUT_OF_MEMORY_ERROR, [], ?db)" if "filename ?db = Null"
      using that c v nm fc by (simp add: open_post_def arrays_ok_def counts_0_ok)
  next
    fix st db
    assume m: "map_file fs (?db\<lparr>flags := if fl AND 7 = 0 then fl OR 1 else fl\<rparr>) = (st, db)"
      and ne: "filename ?db \<noteq> Null"
    note k = map_file_post[OF m]
    show "?post (st, [], db)" if "st \<noteq> MMDB_SUCCESS"
      using that k c v nm ne fc by (auto simp: open_post_def arrays_ok_def counts_0_ok split: if_splits)
    show "post (open_mapped malloc_ok nest db) ?post" if s: "\<not> st \<noteq> MMDB_SUCCESS"
    proof -
      have g: "gets_mapped fs" "?ok" using k s nm ne by (auto split: if_splits)
      have "post (open_mapped malloc_ok nest db) (open_post g True True fs)"
        by (rule open_mapped_post) (use k c v ne g in simp_all)
      with g show ?thesis by simp
    qed
  qed
qed

lemma uncovered [simp]: "languages_covered False md" "descriptions_covered False md"
  by (simp_all add: languages_covered_def descriptions_covered_def)

lemma open_cleanup:
  assumes "open_attempt malloc_ok fs nest name fl mmdb = Done (st, lost, db)"
  shows "MMDB_open malloc_ok fs nest name fl mmdb
    = Done (if st = MMDB_SUCCESS then (st, [], db) else (st, held db, closed_handle db))"
proof -
  have "arrays_ok db" using postD[OF open_attempt_post[of False] assms] by (simp add: open_post_def)
  then show ?thesis using assms by (simp add: MMDB_open_def free_mmdb_struct_held)
qed

lemma MMDB_open_DoneE:
  assumes "MMDB_open malloc_ok fs nest name fl mmdb = Done (st, rs, mmdb')"
  obtains lost db where "open_attempt malloc_ok fs nest name fl mmdb = Done (st, lost, db)"
    "(rs, mmdb') = (if st = MMDB_SUCCESS then ([], db) else (held db, closed_handle db))"
proof -
  obtain st' lost db where a: "open_attempt malloc_ok fs nest name fl mmdb = Done (st', lost, db)"
    using assms by (cases "open_attempt malloc_ok fs nest name fl mmdb") (auto simp: MMDB_open_def)
  with open_cleanup[OF a] assms that show ?thesis by (auto split: if_splits)
qed

lemma MMDB_open_post:
  "post (MMDB_open malloc_ok fs nest name fl mmdb) (open_result_ok (malloc_ok A_filename) fs)"
  unfolding post_def
proof (intro allI impI)
  fix r assume "MMDB_open malloc_ok fs nest name fl mmdb = Done r"
  moreover obtain st rs mmdb' where r: "r = (st, rs, mmdb')" by (metis prod.exhaust)
  ultimately have o: "MMDB_open malloc_ok fs nest name fl mmdb = Done (st, rs, mmdb')" by simp
  from MMDB_open_DoneE[OF o] obtain lost db where a: "open_attempt malloc_ok fs nest name fl mmdb = Done (st, lost, db)"
    and e: "(rs, mmdb') = (if st = MMDB_SUCCESS then ([], db) else (held db, closed_handle db))"
    by blast
  have "open_post False (malloc_ok A_filename) (malloc_ok A_filename \<and> gets_mapped fs) fs (st, lost, db)"
    by (rule postD[OF open_attempt_post a]) simp_all
  with e show "open_result_ok (malloc_ok A_filename) fs r"
    unfolding r by (auto simp: open_result_ok_def open_post_def split: if_splits)
qed

text \<open>What the other components need of a handle, when the tree lies inside the file.\<close>

lemma opened_tree_wf:
  assumes o: "opened fs mmdb"
    and inside: "nodes_of mmdb * node_size mmdb \<le> length (file_bytes fs)" "length (file_bytes fs) < 2 ^ 32"
  shows "tree_wf mmdb" "cache_ok mmdb" "data_ok mmdb"
    "data_section mmdb = Ptr (file_bytes fs) (nodes_of mmdb * node_size mmdb)"
    "unat (data_section_size mmdb) = length (file_bytes fs) - nodes_of mmdb * node_size mmdb"
proof -
  have "unat (word_of_nat (nodes_of mmdb * node_size mmdb) :: u32) = nodes_of mmdb * node_size mmdb"
    using inside by (intro unat_u32) simp
  then have p: "unat (node_count (metadata mmdb) * ucast (full_record_byte_size mmdb)) = nodes_of mmdb * node_size mmdb"
    by simp
  have n: "0 < nodes_of mmdb" using o by (simp add: opened_def metadata_ok_def Let_def unat_gt_0)
  show "tree_wf mmdb"
    using o inside n by (auto simp: opened_def metadata_ok_def tree_wf_def Let_def)
  show "cache_ok mmdb"
    using o by (simp add: opened_def cache_ok_def Let_def)
  show ds: "data_section mmdb = Ptr (file_bytes fs) (nodes_of mmdb * node_size mmdb)"
    using o p by (simp add: opened_def Let_def)
  have "data_section_size mmdb = word_of_nat (length (file_bytes fs)) - word_of_nat (nodes_of mmdb * node_size mmdb)"
    using o by (simp add: opened_def Let_def)
  also have "\<dots> = word_of_nat (length (file_bytes fs) - nodes_of mmdb * node_size mmdb)"
    using inside(1) by (simp add: of_nat_diff)
  finally show sz: "unat (data_section_size mmdb) = length (file_bytes fs) - nodes_of mmdb * node_size mmdb"
    using inside(2) unat_u32[of "length (file_bytes fs) - nodes_of mmdb * node_size mmdb"] by simp
  show "data_ok mmdb" using ds sz inside(1) by (simp add: data_ok_def)
qed

end
