(* ===== verification/OpenSpec.thy ===== *)
theory OpenSpec
  imports HandleInv
begin

text \<open>
  Opening a file that holds metadata in the format: every member of the handle is what the
  metadata map says, read through path lookup and entry lists.
\<close>

section \<open>Values by key\<close>

text \<open>A C string with the bytes before the first zero.\<close>

definition c_string :: "u8 list \<Rightarrow> cptr" where
  "c_string s = Ptr (takeWhile (\<lambda>c. c \<noteq> 0) s @ [0]) 0"

lemma c_string_not_Null [simp]: "c_string s \<noteq> Null"
  by (simp add: c_string_def)

lemma strndup_entry_string:
  assumes "entry_shows ed (F_string s)"
  shows "strndup_entry True ed = Done (c_string s)"
proof -
  obtain p where p: "entry_value ed = U_utf8_string p" "stored p s"
    using assms by (auto split: entry_union.splits)
  have sz: "data_size ed = Some (word_of_nat (length s))" "length s \<le> max_size" using assms by auto
  show ?thesis
    using p sz mmdb_strndup_readable[OF stored_readable[OF p(2)]] stored_bytes_at_eq[OF p(2)]
    by (simp add: strndup_entry_def size_word c_string_def)
qed

text \<open>
  A metadata section that holds the map \<open>kvs\<close>: what \<open>MMDB_aget_value\<close> gives for one key.
\<close>

definition section_map :: "MMDB_s \<Rightarrow> (u8 list \<times> field) list \<Rightarrow> bool" where
  "section_map db kvs \<longleftrightarrow> data_ok db \<and> (\<exists>e. encoded (data_section db) 0 (F_map kvs) e)"

lemma aget_key:
  assumes db: "section_map db kvs" and n: "fdepth (F_map kvs) \<le> nest"
    and k: "map_of kvs (c_bytes key) = Some v"
  shows "\<exists>ed e. MMDB_aget_value nest db \<lparr>entry_offset = 0\<rparr> [key] = Done (MMDB_SUCCESS, ed)
    \<and> entry_shows ed v \<and> field_at (data_section db) (unat (data_offset ed)) v e"
proof -
  from db obtain e where ok: "data_ok db" and at: "encoded (data_section db) 0 (F_map kvs) e"
    by (auto simp: section_map_def)
  have "field_at (data_section db) (unat (entry_offset \<lparr>entry_offset = 0\<rparr>)) (F_map kvs) e"
    using at_direct[OF at] by simp
  from aget_value_gives[OF ok this n, of "[key]"] show ?thesis
    using k by (auto simp: gives_Inr entry_at_def intro: at_direct)
qed

lemma aget_no_key:
  assumes db: "section_map db kvs" and n: "fdepth (F_map kvs) \<le> nest"
    and k: "map_of kvs (c_bytes key) = None"
  shows "MMDB_aget_value nest db \<lparr>entry_offset = 0\<rparr> [key]
    = Done (MMDB_LOOKUP_PATH_DOES_NOT_MATCH_DATA_ERROR, zero_entry_data)"
proof -
  from db obtain e where ok: "data_ok db" and at: "encoded (data_section db) 0 (F_map kvs) e"
    by (auto simp: section_map_def)
  have "field_at (data_section db) (unat (entry_offset \<lparr>entry_offset = 0\<rparr>)) (F_map kvs) e"
    using at_direct[OF at] by simp
  from aget_value_gives[OF ok this n, of "[key]"] show ?thesis using k by simp
qed

lemma value_for_key:
  assumes db: "section_map db kvs" and n: "fdepth (F_map kvs) \<le> nest"
  shows value_uint16: "map_of kvs (c_bytes key) = Some (F_uint16 w16) \<Longrightarrow>
      value_for_key_as_uint16 nest db \<lparr>entry_offset = 0\<rparr> key = Done w16"
    and value_uint32: "map_of kvs (c_bytes key) = Some (F_uint32 w32) \<Longrightarrow>
      value_for_key_as_uint32 nest db \<lparr>entry_offset = 0\<rparr> key = Done w32"
    and value_uint64: "map_of kvs (c_bytes key) = Some (F_uint64 w64) \<Longrightarrow>
      value_for_key_as_uint64 nest db \<lparr>entry_offset = 0\<rparr> key = Done w64"
    and value_string: "map_of kvs (c_bytes key) = Some (F_string s) \<Longrightarrow>
      value_for_key_as_string True nest db \<lparr>entry_offset = 0\<rparr> key = Done (c_string s)"
    and value_no_string: "map_of kvs (c_bytes key) = None \<Longrightarrow>
      value_for_key_as_string True nest db \<lparr>entry_offset = 0\<rparr> key = Done (c_string [])"
proof -
  note get = aget_key[OF db n, of key]
  show "value_for_key_as_uint16 nest db \<lparr>entry_offset = 0\<rparr> key = Done w16"
    if "map_of kvs (c_bytes key) = Some (F_uint16 w16)"
    using get[OF that] by (auto simp: value_for_key_as_uint16_def)
  show "value_for_key_as_uint32 nest db \<lparr>entry_offset = 0\<rparr> key = Done w32"
    if "map_of kvs (c_bytes key) = Some (F_uint32 w32)"
    using get[OF that] by (auto simp: value_for_key_as_uint32_def)
  show "value_for_key_as_uint64 nest db \<lparr>entry_offset = 0\<rparr> key = Done w64"
    if "map_of kvs (c_bytes key) = Some (F_uint64 w64)"
    using get[OF that] by (auto simp: value_for_key_as_uint64_def)
  show "value_for_key_as_string True nest db \<lparr>entry_offset = 0\<rparr> key = Done (c_string s)"
    if k: "map_of kvs (c_bytes key) = Some (F_string s)"
  proof -
    obtain ed where "MMDB_aget_value nest db \<lparr>entry_offset = 0\<rparr> [key] = Done (MMDB_SUCCESS, ed)"
      "entry_shows ed (F_string s)" using get[OF k] by blast
    then show ?thesis using strndup_entry_string by (simp add: value_for_key_as_string_def del: entry_shows.simps)
  qed
  show "value_for_key_as_string True nest db \<lparr>entry_offset = 0\<rparr> key = Done (c_string [])"
    if "map_of kvs (c_bytes key) = None"
    using aget_no_key[OF db n that]
    by (simp add: value_for_key_as_string_def strndup_entry_def zero_entry_data_def mmdb_strndup_def
        mmdb_strnlen_def c_string_def)
qed

section \<open>Languages and descriptions\<close>

lemma languages_loop_strings:
  "list_all2 entry_shows nodes (map F_string ls) \<Longrightarrow>
    languages_names md = Some names \<Longrightarrow> languages_count md = i \<Longrightarrow>
    languages_loop (\<lambda>_. True) i (length ls) nodes names md
      = Done (MMDB_SUCCESS, md\<lparr>languages_names := Some (names @ map c_string ls), languages_count := i + length ls\<rparr>)"
proof (induction ls arbitrary: i nodes names md)
  case (Cons l ls)
  then obtain m rest where n: "nodes = m # rest" "entry_shows m (F_string l)"
      "list_all2 entry_shows rest (map F_string ls)"
    by (auto simp: list_all2_Cons2)
  have t: "data_type m = MMDB_DATA_TYPE_UTF8_STRING" using n(2) by simp
  show ?case
    using Cons.IH[OF n(3), of "md\<lparr>languages_names := Some (names @ [c_string l]), languages_count := Suc i\<rparr>"]
      strndup_entry_string[OF n(2)] Cons.prems n(1) t
    by (simp add: Let_def)
qed simp

lemma descriptions_loop_strings:
  "list_all2 entry_shows nodes (concat (map (\<lambda>(l, t). [F_string l, F_string t]) dl)) \<Longrightarrow>
    descriptions md = Some ds \<Longrightarrow> description_count md = i \<Longrightarrow>
    descriptions_loop (\<lambda>_. True) i (length dl) nodes ds md
      = Done (MMDB_SUCCESS, md\<lparr>description_count := i + length dl,
          descriptions := Some (ds @ map (\<lambda>(l, t). Some \<lparr>language = c_string l, description_text = c_string t\<rparr>) dl)\<rparr>)"
proof (induction dl arbitrary: i nodes ds md)
  case (Cons d dl)
  obtain l t where d: "d = (l, t)" by force
  with Cons.prems(1) obtain m1 m2 rest where n: "nodes = m1 # m2 # rest" "entry_shows m1 (F_string l)"
      "entry_shows m2 (F_string t)" "list_all2 entry_shows rest (concat (map (\<lambda>(l, t). [F_string l, F_string t]) dl))"
    by (auto simp: list_all2_Cons2)
  have t: "data_type m1 = MMDB_DATA_TYPE_UTF8_STRING" "data_type m2 = MMDB_DATA_TYPE_UTF8_STRING"
    using n(2,3) by simp_all
  show ?case
    using Cons.IH[OF n(4), of "md\<lparr>description_count := Suc i,
        descriptions := Some (ds @ [Some \<lparr>language = c_string l, description_text = c_string t\<rparr>])\<rparr>"]
      strndup_entry_string[OF n(2)] strndup_entry_string[OF n(3)] Cons.prems n(1) t d
    by (simp add: Let_def)
qed simp

lemma listed_at:
  assumes ok: "data_ok db" and at: "field_at (data_section db) (unat off) v e"
    and n: "2 * fdepth v + 1 < nest" and m: "\<forall>k. calloc_ok k"
  shows "\<exists>member rest. MMDB_get_entry_data_list nest calloc_ok db \<lparr>entry_offset = off\<rparr>
      = Done (MMDB_SUCCESS, member # rest)
    \<and> entry_shows member v \<and> list_all2 entry_shows rest (inner v)"
proof -
  have "field_at (data_section db) (unat (entry_offset \<lparr>entry_offset = off\<rparr>)) v e" using at by simp
  from get_entry_data_list_field[OF ok this n, of calloc_ok] m show ?thesis
    by (auto simp: all_ok_from flat_Cons list_all2_Cons2)
qed

lemma flat_strings: "concat (map flat (map F_string ls)) = map F_string ls"
  by (induction ls) simp_all

lemma fdepth_strings: "fdepth (F_array (map F_string ls)) < 2" "fdepth (F_map (map (\<lambda>(l, t). (l, F_string t)) dl)) < 2"
proof -
  have "fdepth (F_array (map F_string ls)) < Suc 1" "fdepth (F_map (map (\<lambda>(l, t). (l, F_string t)) dl)) < Suc 1"
    unfolding fdepth_array_less fdepth_map_less by auto
  then show "fdepth (F_array (map F_string ls)) < 2" "fdepth (F_map (map (\<lambda>(l, t). (l, F_string t)) dl)) < 2"
    by simp_all
qed

lemma populate_languages_strings:
  assumes db: "section_map db kvs" and n: "fdepth (F_map kvs) \<le> nest" "4 \<le> nest"
    and k: "map_of kvs (c_bytes ''languages'') = Some (F_array (map F_string ls))"
  shows "populate_languages_metadata (\<lambda>_. True) nest db \<lparr>entry_offset = 0\<rparr> md
    = Done (MMDB_SUCCESS, [], md\<lparr>languages_count := length ls, languages_names := Some (map c_string ls)\<rparr>)"
proof -
  obtain ed e where get: "MMDB_aget_value nest db \<lparr>entry_offset = 0\<rparr> [''languages''] = Done (MMDB_SUCCESS, ed)"
    and sh: "entry_shows ed (F_array (map F_string ls))"
    and at: "field_at (data_section db) (unat (data_offset ed)) (F_array (map F_string ls)) e"
    using aget_key[OF db n(1) k] by blast
  have ok: "data_ok db" using db by (simp add: section_map_def)
  have d: "2 * fdepth (F_array (map F_string ls)) + 1 < nest" using fdepth_strings(1)[of ls] n(2) by linarith
  obtain member rest where l: "MMDB_get_entry_data_list nest (\<lambda>_. True) db
        \<lparr>entry_offset = data_offset ed\<rparr> = Done (MMDB_SUCCESS, member # rest)"
      "entry_shows member (F_array (map F_string ls))" "list_all2 entry_shows rest (map F_string ls)"
    using listed_at[OF ok at d, of "\<lambda>_. True"]
    unfolding inner_simps flat_strings by blast
  have sz: "data_size member = Some (word_of_nat (length ls))" "length ls \<le> max_size" using l(2) by auto
  have t: "data_type ed = MMDB_DATA_TYPE_ARRAY" using sh by simp
  show ?thesis
    using get t l(1) sz languages_loop_strings[OF l(3), of "md\<lparr>languages_count := 0, languages_names := Some []\<rparr>" "[]" 0]
    by (simp add: populate_languages_metadata_def size_word Let_def)
qed

lemma populate_descriptions_strings:
  assumes db: "section_map db kvs" and n: "fdepth (F_map kvs) \<le> nest" "4 \<le> nest"
    and k: "map_of kvs (c_bytes ''description'') = Some (F_map (map (\<lambda>(l, t). (l, F_string t)) dl))"
  shows "populate_description_metadata (\<lambda>_. True) nest db \<lparr>entry_offset = 0\<rparr> md
    = Done (MMDB_SUCCESS, [], md\<lparr>description_count := length dl,
        descriptions := Some (map (\<lambda>(l, t). Some \<lparr>language = c_string l, description_text = c_string t\<rparr>) dl)\<rparr>)"
proof -
  let ?v = "F_map (map (\<lambda>(l, t). (l, F_string t)) dl)"
  obtain ed e where get: "MMDB_aget_value nest db \<lparr>entry_offset = 0\<rparr> [''description''] = Done (MMDB_SUCCESS, ed)"
    and sh: "entry_shows ed ?v" and at: "field_at (data_section db) (unat (data_offset ed)) ?v e"
    using aget_key[OF db n(1) k] by blast
  have ok: "data_ok db" using db by (simp add: section_map_def)
  have d: "2 * fdepth ?v + 1 < nest" using fdepth_strings(2)[of dl] n(2) by linarith
  have i: "inner ?v = concat (map (\<lambda>(l, t). [F_string l, F_string t]) dl)"
    by (induction dl) auto
  obtain member rest where l: "MMDB_get_entry_data_list nest (\<lambda>_. True) db
        \<lparr>entry_offset = data_offset ed\<rparr> = Done (MMDB_SUCCESS, member # rest)"
      "entry_shows member ?v" "list_all2 entry_shows rest (concat (map (\<lambda>(l, t). [F_string l, F_string t]) dl))"
    using listed_at[OF ok at d, of "\<lambda>_. True"]
    unfolding i by blast
  have sz: "data_size member = Some (word_of_nat (length dl))" "length dl \<le> max_size" using l(2) by auto
  have t: "data_type ed = MMDB_DATA_TYPE_MAP" using sh by simp
  show ?thesis
    using get t l(1) sz descriptions_loop_strings[OF l(3), of "md\<lparr>description_count := 0, descriptions := Some []\<rparr>" "[]" 0]
    by (simp add: populate_description_metadata_def size_word Let_def)
qed

section \<open>Opening\<close>

text \<open>
  The metadata of a file, by its keys in the metadata map. The code takes a missing database type
  for an empty one.
\<close>

record file_metadata =
  fm_node_count :: u32
  fm_record_size :: u16
  fm_ip_version :: u16
  fm_database_type :: "u8 list"
  fm_languages :: "u8 list list"
  fm_major_version :: u16
  fm_minor_version :: u16
  fm_build_epoch :: u64
  fm_description :: "(u8 list \<times> u8 list) list"

definition metadata_says :: "(u8 list \<times> field) list \<Rightarrow> file_metadata \<Rightarrow> bool" where
  "metadata_says kvs fm \<longleftrightarrow>
     map_of kvs (c_bytes ''node_count'') = Some (F_uint32 (fm_node_count fm))
     \<and> map_of kvs (c_bytes ''record_size'') = Some (F_uint16 (fm_record_size fm))
     \<and> map_of kvs (c_bytes ''ip_version'') = Some (F_uint16 (fm_ip_version fm))
     \<and> map_of kvs (c_bytes ''database_type'')
         \<in> {Some (F_string (fm_database_type fm))} \<union> (if fm_database_type fm = [] then {None} else {})
     \<and> map_of kvs (c_bytes ''languages'') = Some (F_array (map F_string (fm_languages fm)))
     \<and> map_of kvs (c_bytes ''binary_format_major_version'') = Some (F_uint16 (fm_major_version fm))
     \<and> map_of kvs (c_bytes ''binary_format_minor_version'') = Some (F_uint16 (fm_minor_version fm))
     \<and> map_of kvs (c_bytes ''build_epoch'') = Some (F_uint64 (fm_build_epoch fm))
     \<and> map_of kvs (c_bytes ''description'')
         = Some (F_map (map (\<lambda>(l, t). (l, F_string t)) (fm_description fm)))"

text \<open>What the format asks of these values.\<close>

definition metadata_valid :: "file_metadata \<Rightarrow> bool" where
  "metadata_valid fm \<longleftrightarrow> fm_node_count fm \<noteq> 0 \<and> fm_record_size fm \<in> {24, 28, 32}
     \<and> fm_ip_version fm \<in> {4, 6} \<and> fm_major_version fm = 2 \<and> fm_build_epoch fm \<noteq> 0"

definition filled_metadata :: "file_metadata \<Rightarrow> MMDB_metadata_s" where
  "filled_metadata fm =
     \<lparr>node_count = fm_node_count fm, record_size = fm_record_size fm, ip_version = fm_ip_version fm,
      database_type = c_string (fm_database_type fm),
      languages_count = length (fm_languages fm), languages_names = Some (map c_string (fm_languages fm)),
      binary_format_major_version = fm_major_version fm, binary_format_minor_version = fm_minor_version fm,
      build_epoch = fm_build_epoch fm, description_count = length (fm_description fm),
      descriptions = Some (map (\<lambda>(l, t). Some \<lparr>language = c_string l, description_text = c_string t\<rparr>)
        (fm_description fm))\<rparr>"

lemma read_metadata_says:
  assumes db: "section_map (make_fake_metadata_db mmdb) kvs" and n: "fdepth (F_map kvs) \<le> nest" "4 \<le> nest"
    and says: "metadata_says kvs fm" and valid: "metadata_valid fm"
  shows "read_metadata (\<lambda>_. True) nest mmdb = Done (MMDB_SUCCESS, [],
    mmdb\<lparr>metadata := filled_metadata fm,
         full_record_byte_size := (if fm_record_size fm = 24 then 6 else if fm_record_size fm = 28 then 7 else 8),
         depth := (if fm_ip_version fm = 4 then 32 else 128)\<rparr>)"
proof -
  note keys = says[unfolded metadata_says_def]
  have dt: "value_for_key_as_string True nest (make_fake_metadata_db mmdb) \<lparr>entry_offset = 0\<rparr> ''database_type''
      = Done (c_string (fm_database_type fm))"
    using keys value_string[OF db n(1), of "''database_type''" "fm_database_type fm"]
      value_no_string[OF db n(1), of "''database_type''"] by (auto split: if_splits)
  note v = value_uint32[OF db n(1), of "''node_count''" "fm_node_count fm"]
    value_uint16[OF db n(1), of "''record_size''" "fm_record_size fm"]
    value_uint16[OF db n(1), of "''ip_version''" "fm_ip_version fm"]
    value_uint16[OF db n(1), of "''binary_format_major_version''" "fm_major_version fm"]
    value_uint16[OF db n(1), of "''binary_format_minor_version''" "fm_minor_version fm"]
    value_uint64[OF db n(1), of "''build_epoch''" "fm_build_epoch fm"]
    populate_languages_strings[OF db n, of "fm_languages fm"]
    populate_descriptions_strings[OF db n, of "fm_description fm"]
  have rs: "(ucast ((ucast (fm_record_size fm) :: u32) * 2 div 8) :: u16)
      = (if fm_record_size fm = 24 then 6 else if fm_record_size fm = 28 then 7 else 8)"
    using valid by (auto simp: metadata_valid_def)
  have ne: "fm_record_size fm \<noteq> 0" "\<not> (fm_record_size fm \<noteq> 24 \<and> fm_record_size fm \<noteq> 28 \<and> fm_record_size fm \<noteq> 32)"
    "fm_ip_version fm \<noteq> 0" "fm_ip_version fm = 4 \<or> fm_ip_version fm = 6" "fm_node_count fm \<noteq> 0"
    "fm_major_version fm \<noteq> 0" "fm_build_epoch fm \<noteq> 0"
    using valid by (auto simp: metadata_valid_def)
  show ?thesis
    unfolding read_metadata_def Let_def
    using v dt keys ne rs by (simp add: filled_metadata_def)
qed

lemma fake_section_map:
  assumes md: "metadata_section mmdb = Ptr b i" "length b - i \<le> unat (metadata_section_size mmdb)"
    and enc: "encoded (Ptr b i) 0 (F_map kvs) e"
  shows "section_map (make_fake_metadata_db mmdb) kvs"
  using assms by (auto simp: section_map_def make_fake_metadata_db_def data_ok_def)

text \<open>Where the metadata of a file starts, if the marker occurs in its last 128 KiB.\<close>

definition metadata_start :: "u8 list \<Rightarrow> nat option" where
  "metadata_start content =
     map_option (\<lambda>i. length content - METADATA_BLOCK_MAX_SIZE + i + length METADATA_MARKER)
       (first_occurrence METADATA_MARKER (last_block content))"

definition opened_handle :: "file_system \<Rightarrow> u8 list \<Rightarrow> u32 \<Rightarrow> file_metadata \<Rightarrow> nat \<Rightarrow> MMDB_s" where
  "opened_handle fs name fl fm start =
     (let content = file_bytes fs;
          frs = (if fm_record_size fm = 24 then 6 else if fm_record_size fm = 28 then 7 else 8);
          tree_size = fm_node_count fm * ucast frs in
      \<lparr>flags = (if fl AND 7 = 0 then fl OR 1 else fl), filename = Ptr (name @ [0]) 0,
       file_size = int (length content), file_content = Ptr content 0,
       data_section = Ptr content (unat tree_size),
       data_section_size = word_of_nat (length content) - tree_size,
       metadata_section = Ptr content start,
       metadata_section_size = word_of_nat (length content + length METADATA_MARKER - start),
       full_record_byte_size = frs, depth = (if fm_ip_version fm = 4 then 32 else 128),
       ipv4_start_node = \<lparr>start_netmask = 0, node_value = 0\<rparr>, metadata = filled_metadata fm\<rparr>)"

lemma first_occurrence_bound: "first_occurrence pat xs = Some i \<Longrightarrow> i \<le> length xs - length pat \<and> occurs pat xs i"
  by (auto simp: first_occurrence_def find_Some_iff simp del: upt_Suc)

lemma metadata_start_find:
  assumes start: "metadata_start c = Some start"
  shows "find_metadata (Ptr c 0) (length c) = Done (Ptr c start, word_of_nat (length c + length METADATA_MARKER - start))"
    and "unat (word_of_nat (length c + length METADATA_MARKER - start) :: u32) = length c + length METADATA_MARKER - start"
proof -
  obtain i where i: "first_occurrence METADATA_MARKER (last_block c) = Some i"
    and s: "start = length c - METADATA_BLOCK_MAX_SIZE + i + length METADATA_MARKER"
    using start by (auto simp: metadata_start_def)
  have oc: "occurs METADATA_MARKER (last_block c) i" using first_occurrence_bound[OF i] by blast
  have "length (take (length METADATA_MARKER) (drop i (last_block c))) = length METADATA_MARKER"
    using oc unfolding occurs_def by (rule arg_cong)
  then have "length METADATA_MARKER \<le> length (last_block c) - i"
    unfolding length_take length_drop min_def by (simp split: if_splits)
  then have big: "length METADATA_MARKER \<le> length c" by (simp add: last_block_def)
  have rest: "length c + length METADATA_MARKER - start = length c - (length c - METADATA_BLOCK_MAX_SIZE + i)"
    using s by simp
  show "find_metadata (Ptr c 0) (length c)
      = Done (Ptr c start, word_of_nat (length c + length METADATA_MARKER - start))"
    using find_metadata_result[OF big] i unfolding rest by (simp add: s)
  have "length c + length METADATA_MARKER - start \<le> METADATA_BLOCK_MAX_SIZE"
    using rest by (simp add: METADATA_BLOCK_MAX_SIZE_def)
  then show "unat (word_of_nat (length c + length METADATA_MARKER - start) :: u32)
      = length c + length METADATA_MARKER - start"
    by (intro unat_u32) (simp add: METADATA_BLOCK_MAX_SIZE_def)
qed

lemma opened_handle_section:
  assumes "metadata_start (file_bytes fs) = Some start" "encoded (Ptr (file_bytes fs) start) 0 (F_map kvs) e"
  shows "section_map (make_fake_metadata_db (opened_handle fs name fl fm start)) kvs"
  by (rule fake_section_map[of _ "file_bytes fs" start, OF _ _ assms(2)])
    (simp_all add: opened_handle_def Let_def metadata_start_find(2)[OF assms(1)])

lemma MMDB_open_says:
  assumes fs: "open_ok fs" "mmap_failed fs = None" and start: "metadata_start (file_bytes fs) = Some start"
    and enc: "encoded (Ptr (file_bytes fs) start) 0 (F_map kvs) e"
    and n: "fdepth (F_map kvs) \<le> nest" "4 \<le> nest"
    and says: "metadata_says kvs fm" and valid: "metadata_valid fm"
  shows "MMDB_open (\<lambda>_. True) fs nest name fl mmdb = Done (MMDB_SUCCESS, [], opened_handle fs name fl fm start)"
proof -
  let ?c = "file_bytes fs"
  note find = metadata_start_find(1)[OF start] and u = metadata_start_find(2)[OF start]
  define db where "db = (open_init mmdb)\<lparr>filename := Ptr (name @ [0]) 0,
    flags := (if fl AND 7 = 0 then fl OR 1 else fl), file_size := int (length ?c), file_content := Ptr ?c 0,
    metadata_section := Ptr ?c start,
    metadata_section_size := word_of_nat (length ?c + length METADATA_MARKER - start)\<rparr>"
  have sec: "section_map (make_fake_metadata_db db) kvs"
    by (rule fake_section_map[of _ ?c start, OF _ _ enc]) (simp_all add: db_def u)
  note read = read_metadata_says[OF sec n says valid]
  have mj: "binary_format_major_version (filled_metadata fm) = 2" "node_count (filled_metadata fm) = fm_node_count fm"
    using valid by (simp_all add: filled_metadata_def metadata_valid_def)
  have dup: "mmdb_strdup True name = Ptr (name @ [0]) 0" by (simp add: mmdb_strdup_def)
  show ?thesis
    using fs find read mj
    by (simp add: MMDB_open_def open_attempt_def open_mapped_def map_file_def dup Let_def db_def opened_handle_def open_init_def)
qed

end
