(* ===== verification/DumpSpec.thy ===== *)
theory DumpSpec
  imports Dump OpenSpec
begin

text \<open>
  Printing the list of a value prints a text that is a function of the value alone: one line for a
  scalar, nested blocks for maps and arrays.
\<close>

section \<open>The text of a value\<close>

definition spaces :: "int \<Rightarrow> u8 list" where
  "spaces i = replicate (min 1023 (nat i)) 32"

text \<open>A string is shown up to its first zero byte.\<close>

definition shown :: "u8 list \<Rightarrow> u8 list" where
  "shown s = takeWhile (\<lambda>c. c \<noteq> 0) s"

definition hex :: "u8 list \<Rightarrow> u8 list" where
  "hex bs = concat (map (\<lambda>b. print_fixed 16 2 (unat b)) bs)"

fun scalar_text :: "field \<Rightarrow> u8 list" where
  "scalar_text (F_string s) = [quote_char] @ shown s @ [quote_char] @ c_bytes '' <utf8_string>''"
| "scalar_text (F_double w) = print_double w @ c_bytes '' <double>''"
| "scalar_text (F_bytes bs) = hex bs @ c_bytes '' <bytes>''"
| "scalar_text (F_uint16 w) = print_nat (unat w) @ c_bytes '' <uint16>''"
| "scalar_text (F_uint32 w) = print_nat (unat w) @ c_bytes '' <uint32>''"
| "scalar_text (F_int32 w) = print_int (sint w) @ c_bytes '' <int32>''"
| "scalar_text (F_uint64 w) = print_nat (unat w) @ c_bytes '' <uint64>''"
| "scalar_text (F_uint128 w) = c_bytes ''0x'' @ print_fixed 16 32 (unat w) @ c_bytes '' <uint128>''"
| "scalar_text (F_boolean b) = c_bytes (if b then ''true'' else ''false'') @ c_bytes '' <boolean>''"
| "scalar_text (F_float w) = print_float w @ c_bytes '' <float>''"
| "scalar_text _ = []"

fun render :: "int \<Rightarrow> field \<Rightarrow> u8 list" where
  "render i (F_map kvs) = spaces i @ c_bytes ''{'' @ [newline]
     @ concat (map (\<lambda>kv. spaces (i + 2) @ [quote_char] @ shown (fst kv) @ [quote_char] @ c_bytes '': '' @ [newline]
         @ render (i + 4) (snd kv)) kvs)
     @ spaces i @ c_bytes ''}'' @ [newline]"
| "render i (F_array vs) = spaces i @ c_bytes ''['' @ [newline]
     @ concat (map (render (i + 2)) vs) @ spaces i @ c_bytes '']'' @ [newline]"
| "render i v = spaces i @ scalar_text v @ [newline]"

text \<open>The values that can be printed: no byte sequence in them is empty.\<close>

fun printable :: "field \<Rightarrow> bool" where
  "printable (F_map kvs) \<longleftrightarrow> (\<forall>kv \<in> set kvs. printable (snd kv))"
| "printable (F_array vs) \<longleftrightarrow> (\<forall>v \<in> set vs. printable v)"
| "printable (F_bytes bs) \<longleftrightarrow> bs \<noteq> []"
| "printable _ \<longleftrightarrow> True"

section \<open>Hexadecimal text\<close>

lemma hex_loop_bytes:
  "readable p (i + n) \<Longrightarrow> hex_loop p i n out = Done (out @ hex (take n (drop i (bytes_at p (i + n)))))"
proof (induction n arbitrary: i out)
  case 0
  then show ?case by (simp add: hex_def)
next
  case (Suc n)
  let ?A = "bytes_at p (i + Suc n)"
  have d: "deref p i = Done (?A ! i)" by (rule deref_readable[OF Suc.prems]) simp
  have l: "length ?A = Suc (i + n)" using Suc.prems by simp
  have "drop i ?A = ?A ! i # drop (Suc i) ?A" using l by (intro Cons_nth_drop_Suc[symmetric]) linarith
  then show ?case using Suc.IH[of "Suc i"] Suc.prems d by (simp add: hex_def)
qed

lemma digit_char_not_0: "d < 16 \<Longrightarrow> digit_char d \<noteq> 0"
proof
  assume d: "d < 16" "digit_char d = 0"
  have "unat (word_of_nat (48 + d) :: u8) = 48 + d" "unat (word_of_nat (55 + d) :: u8) = 55 + d"
    by (rule unat_word_of_nat, use d in simp)+
  then show False using d by (auto simp: digit_char_def simp del: of_nat_add split: if_splits)
qed

lemma print_fixed_not_0: "0 < b \<Longrightarrow> b \<le> 16 \<Longrightarrow> 0 \<notin> set (print_fixed b k n)"
proof (induction k arbitrary: n)
  case (Suc k)
  have "n mod b < 16" using Suc.prems by (meson less_le_trans mod_less_divisor)
  then show ?case using Suc digit_char_not_0[of "n mod b"] by auto
qed simp

lemma hex_not_0: "0 \<notin> set (hex bs)"
  using print_fixed_not_0[of 16 2] by (auto simp: hex_def)

lemma bytes_to_hex_stored:
  assumes s: "stored p bs" and n: "0 < length bs" "length bs \<le> max_size"
  shows "bytes_to_hex True p (word_of_nat (length bs)) = Done (Ptr (hex bs @ [0]) 0)"
proof -
  have u: "unat (word_of_nat (length bs) :: u32) = length bs" using n(2) by (intro unat_u32) simp
  have "word_of_nat (length bs) * 2 + 1 = (word_of_nat (length bs * 2 + 1) :: u32)" by simp
  then have w: "unat (word_of_nat (length bs) * 2 + 1 :: u32) = length bs * 2 + 1"
    using n(2) unat_u32[of "length bs * 2 + 1"] by (simp add: add.commute)
  have z: "(word_of_nat (length bs) :: u32) \<noteq> 0" using u32_eq_0[of "length bs"] n by simp
  have "hex_loop p 0 (length bs) [] = Done (hex bs)"
    using hex_loop_bytes[of p 0 "length bs" "[]"] stored_readable[OF s] stored_bytes_at_eq[OF s] by simp
  then show ?thesis using u w z by (simp add: bytes_to_hex_def)
qed

section \<open>Lines\<close>

lemma print_indentation_spaces: "0 \<le> i \<Longrightarrow> print_indentation i = Done (spaces i)"
  by (auto simp: print_indentation_def spaces_def Let_def min_def)

lemma print_line_spaces: "0 \<le> i \<Longrightarrow> print_line i t nodes = Done (MMDB_SUCCESS, spaces i @ t @ [newline], nodes)"
  by (simp add: print_line_def print_indentation_spaces)

lemma strndup_shown: "entry_shows ed (F_string s) \<Longrightarrow> strndup_entry True ed = Done (Ptr (shown s @ [0]) 0)"
  using strndup_entry_string by (simp add: c_string_def shown_def)

lemma shown_not_0: "0 \<notin> set (shown s)"
  by (auto simp: shown_def dest: set_takeWhileD)

lemma unat_bounds:
  "unat (w16 :: u16) < 65536" "unat (w128 :: u128) < 2 ^ 128"
  using unsigned_less[of w16, where 'a = nat] unsigned_less[of w128, where 'a = nat] by simp_all

lemma print_fixed_append:
  "print_fixed b (k + l) n = print_fixed b k (n div b ^ l) @ print_fixed b l (n mod b ^ l)"
proof (induction l arbitrary: n)
  case (Suc l)
  have "n mod (b * b ^ l) div b = n div b mod b ^ l" "n mod (b * b ^ l) mod b = n mod b"
    by (cases "b = 0"; simp add: mod_mult2_eq)+
  then show ?case using Suc.IH[of "n div b"] by (simp add: div_mult2_eq)
qed simp

section \<open>Printing a list prints the value\<close>

lemma scalar_entry:
  "\<not> compound v \<Longrightarrow> entry_shows ed v \<Longrightarrow> data_type ed \<noteq> MMDB_DATA_TYPE_MAP \<and> data_type ed \<noteq> MMDB_DATA_TYPE_ARRAY"
  by (cases v) auto

lemma render_scalar: "\<not> compound v \<Longrightarrow> render i v = spaces i @ scalar_text v @ [newline]"
  by (cases v) auto

lemma dump_scalar_text:
  assumes v: "\<not> compound v" "printable v" and sh: "entry_shows ed v" and i: "0 \<le> i"
  shows "dump_scalar (\<lambda>_. True) i ed nodes = Done (MMDB_SUCCESS, spaces i @ scalar_text v @ [newline], nodes)"
proof (cases v)
  case (F_string s)
  then have "strndup_entry True ed = Done (Ptr (shown s @ [0]) 0)" "data_type ed = MMDB_DATA_TYPE_UTF8_STRING"
    using sh strndup_shown by auto
  then show ?thesis using F_string i by (simp add: dump_scalar_def print_line_spaces shown_not_0)
next
  case (F_bytes bs)
  then obtain p where p: "entry_value ed = U_bytes p" "stored p bs" "data_type ed = MMDB_DATA_TYPE_BYTES"
      "data_size ed = Some (word_of_nat (length bs))" "length bs \<le> max_size"
    using sh by (auto split: entry_union.splits)
  then have "bytes_to_hex True p (word_of_nat (length bs)) = Done (Ptr (hex bs @ [0]) 0)"
    using v F_bytes by (intro bytes_to_hex_stored) simp_all
  then show ?thesis using F_bytes p i by (simp add: dump_scalar_def print_line_spaces hex_not_0)
next
  case (F_uint128 w)
  have "print_fixed 16 32 (unat w) = print_fixed 16 16 (unat w div 2 ^ 64) @ print_fixed 16 16 (unat w mod 2 ^ 64)"
    using print_fixed_append[of 16 16 16 "unat w"] by simp
  then show ?thesis using F_uint128 sh i unfolding dump_scalar_def Let_def by (simp add: print_line_spaces)
qed (use v sh i in \<open>simp_all add: dump_scalar_def print_line_spaces\<close>)

lemma flat_ne: "list_all2 entry_shows ns (flat v) \<Longrightarrow> ns \<noteq> []"
  by (auto simp: flat_Cons)

lemma dump_array_loop_renders:
  assumes "\<And>v ns rest. v \<in> set vs \<Longrightarrow> list_all2 entry_shows ns (flat v) \<Longrightarrow>
      dump (ns @ rest) = Done (MMDB_SUCCESS, out v, rest)"
  shows "list_all2 entry_shows nodes (concat (map flat vs)) \<Longrightarrow>
      dump_array_loop dump (length vs) (nodes @ rest) = Done (MMDB_SUCCESS, concat (map out vs), rest)"
  using assms
proof (induction vs arbitrary: nodes)
  case (Cons v vs)
  then obtain ns ms where n: "nodes = ns @ ms" "list_all2 entry_shows ns (flat v)"
      "list_all2 entry_shows ms (concat (map flat vs))"
    by (auto simp: list_all2_append2)
  have d: "dump (ns @ ms @ rest) = Done (MMDB_SUCCESS, out v, ms @ rest)" using Cons.prems(2) n(2) by simp
  have "dump_array_loop dump (length vs) (ms @ rest) = Done (MMDB_SUCCESS, concat (map out vs), rest)"
    using Cons.IH[OF n(3)] Cons.prems(2) by simp
  then show ?case using d n(1) flat_ne[OF n(2)] by simp
qed simp

lemma dump_map_loop_renders:
  assumes "\<And>kv ns rest. kv \<in> set kvs \<Longrightarrow> list_all2 entry_shows ns (flat (snd kv)) \<Longrightarrow>
      dump (ns @ rest) = Done (MMDB_SUCCESS, out (snd kv), rest)"
    and i: "0 \<le> i"
  shows "list_all2 entry_shows nodes (inner (F_map kvs)) \<Longrightarrow>
      dump_map_loop dump (\<lambda>_. True) i (length kvs) (nodes @ rest) = Done (MMDB_SUCCESS,
        concat (map (\<lambda>kv. spaces i @ [quote_char] @ shown (fst kv) @ [quote_char] @ c_bytes '': '' @ [newline]
          @ out (snd kv)) kvs), rest)"
  using assms(1)
proof (induction kvs arbitrary: nodes)
  case (Cons kv kvs)
  then obtain key ns ms where n: "nodes = key # ns @ ms" "entry_shows key (F_string (fst kv))"
      "list_all2 entry_shows ns (flat (snd kv))" "list_all2 entry_shows ms (inner (F_map kvs))"
    by (auto simp: list_all2_append2 list_all2_Cons2)
  have d: "dump (ns @ ms @ rest) = Done (MMDB_SUCCESS, out (snd kv), ms @ rest)" using Cons.prems(2) n(3) by simp
  have "dump_map_loop dump (\<lambda>_. True) i (length kvs) (ms @ rest) = Done (MMDB_SUCCESS,
      concat (map (\<lambda>kv. spaces i @ [quote_char] @ shown (fst kv) @ [quote_char] @ c_bytes '': '' @ [newline]
          @ out (snd kv)) kvs), rest)"
    using Cons.IH[OF n(4)] Cons.prems(2) by simp
  then show ?case
    using d n(1) strndup_shown[OF n(2)] print_indentation_spaces[OF i]
    by (simp add: shown_not_0 Let_def)
qed simp

lemma int_add_ok: "0 \<le> a \<Longrightarrow> 0 \<le> b \<Longrightarrow> a + b \<le> 2147483647 \<Longrightarrow> int_add a b = Done (a + b)"
  by (simp add: int_add_def)

lemma dump_renders_scalar:
  assumes v: "\<not> compound v" and n: "list_all2 entry_shows nodes (flat v)" "printable v" "fdepth v < nest" "0 \<le> i"
  shows "dump_entry_data_list nest (\<lambda>_. True) i (nodes @ rest) = Done (MMDB_SUCCESS, render i v, rest)"
proof -
  obtain ed where ed: "nodes = [ed]" "entry_shows ed v"
    using n(1) by (auto simp: flat_Cons inner_scalar[OF v] list_all2_Cons2)
  obtain d where "nest = Suc d" using n(3) by (cases nest) auto
  then show ?thesis
    using ed scalar_entry[OF v ed(2)] dump_scalar_text[OF v n(2) ed(2) n(4)] render_scalar[OF v]
    by (simp add: dump_entry_data_list.simps(2))
qed

lemma dump_renders_map:
  assumes rec: "\<And>kv ms rest' i. kv \<in> set kvs \<Longrightarrow> list_all2 entry_shows ms (flat (snd kv)) \<Longrightarrow> 0 \<le> i \<Longrightarrow>
      i + 4 * int (fdepth (snd kv)) \<le> 2147483647 \<Longrightarrow>
      dump_entry_data_list d (\<lambda>_. True) i (ms @ rest') = Done (MMDB_SUCCESS, render i (snd kv), rest')"
    and listed: "list_all2 entry_shows nodes (flat (F_map kvs))"
    and i: "0 \<le> i" "i + 4 * int (fdepth (F_map kvs)) \<le> 2147483647"
  shows "dump_entry_data_list (Suc d) (\<lambda>_. True) i (nodes @ rest) = Done (MMDB_SUCCESS, render i (F_map kvs), rest)"
proof -
  obtain ed ns where n: "nodes = ed # ns" "entry_shows ed (F_map kvs)" "list_all2 entry_shows ns (inner (F_map kvs))"
    using listed unfolding flat_Cons by (auto simp: list_all2_Cons2)
  have dep: "\<forall>kv \<in> set kvs. Suc (fdepth (snd kv)) \<le> fdepth (F_map kvs)" "1 \<le> fdepth (F_map kvs)"
    using fdepth_map_less[of kvs "fdepth (F_map kvs)"] by (auto simp: Suc_le_eq)
  have a: "int_add i 2 = Done (i + 2)" using i dep(2) by (intro int_add_ok) linarith+
  have elem: "bind_run (int_add (i + 2) 2) (\<lambda>i. dump_entry_data_list d (\<lambda>_. True) i (ms @ rest'))
      = Done (MMDB_SUCCESS, render (i + 4) (snd kv), rest')"
    if kv: "kv \<in> set kvs" "list_all2 entry_shows ms (flat (snd kv))" for kv ms rest'
  proof -
    have "Suc (fdepth (snd kv)) \<le> fdepth (F_map kvs)" using dep(1) kv(1) by blast
    then have b: "i + 4 + 4 * int (fdepth (snd kv)) \<le> 2147483647" using i(2) by linarith
    then have "int_add (i + 2) 2 = Done (i + 4)" using i(1) int_add_ok[of "i + 2" 2] by simp
    then show ?thesis using rec[OF kv _ b] i(1) by simp
  qed
  have loop: "dump_map_loop (\<lambda>nodes. bind_run (int_add (i + 2) 2) (\<lambda>i. dump_entry_data_list d (\<lambda>_. True) i nodes))
      (\<lambda>_. True) (i + 2) (length kvs) (ns @ rest) = Done (MMDB_SUCCESS,
        concat (map (\<lambda>kv. spaces (i + 2) @ [quote_char] @ shown (fst kv) @ [quote_char] @ c_bytes '': '' @ [newline]
          @ render (i + 4) (snd kv)) kvs), rest)"
    by (rule dump_map_loop_renders[where out = "render (i + 4)"]) (use elem n(3) i(1) in auto)
  have "data_size ed = Some (word_of_nat (length kvs))" "length kvs \<le> max_size" "data_type ed = MMDB_DATA_TYPE_MAP"
    using n(2) by auto
  then show ?thesis
    using loop n(1) i(1) a print_indentation_spaces[of i]
    by (simp add: dump_entry_data_list.simps(2) size_word)
qed

lemma dump_renders_array:
  assumes rec: "\<And>v ms rest' i. v \<in> set vs \<Longrightarrow> list_all2 entry_shows ms (flat v) \<Longrightarrow> 0 \<le> i \<Longrightarrow>
      i + 4 * int (fdepth v) \<le> 2147483647 \<Longrightarrow>
      dump_entry_data_list d (\<lambda>_. True) i (ms @ rest') = Done (MMDB_SUCCESS, render i v, rest')"
    and listed: "list_all2 entry_shows nodes (flat (F_array vs))"
    and i: "0 \<le> i" "i + 4 * int (fdepth (F_array vs)) \<le> 2147483647"
  shows "dump_entry_data_list (Suc d) (\<lambda>_. True) i (nodes @ rest) = Done (MMDB_SUCCESS, render i (F_array vs), rest)"
proof -
  obtain ed ns where n: "nodes = ed # ns" "entry_shows ed (F_array vs)" "list_all2 entry_shows ns (concat (map flat vs))"
    using listed by (auto simp: list_all2_Cons2)
  have dep: "\<forall>v \<in> set vs. Suc (fdepth v) \<le> fdepth (F_array vs)" "1 \<le> fdepth (F_array vs)"
    using fdepth_array_less[of vs "fdepth (F_array vs)"] by (auto simp: Suc_le_eq)
  have a: "int_add i 2 = Done (i + 2)" using i dep(2) by (intro int_add_ok) linarith+
  have elem: "dump_entry_data_list d (\<lambda>_. True) (i + 2) (ms @ rest') = Done (MMDB_SUCCESS, render (i + 2) v, rest')"
    if v: "v \<in> set vs" "list_all2 entry_shows ms (flat v)" for v ms rest'
  proof -
    have "Suc (fdepth v) \<le> fdepth (F_array vs)" using dep(1) v(1) by blast
    then have b: "i + 2 + 4 * int (fdepth v) \<le> 2147483647" using i(2) by linarith
    then show ?thesis using rec[OF v _ b] i(1) by simp
  qed
  have loop: "dump_array_loop (dump_entry_data_list d (\<lambda>_. True) (i + 2)) (length vs) (ns @ rest)
      = Done (MMDB_SUCCESS, concat (map (render (i + 2)) vs), rest)"
    by (rule dump_array_loop_renders) (use elem n(3) in auto)
  have "data_size ed = Some (word_of_nat (length vs))" "length vs \<le> max_size" "data_type ed = MMDB_DATA_TYPE_ARRAY"
    using n(2) by auto
  then show ?thesis
    using loop n(1) i(1) a print_indentation_spaces[of i]
    by (simp add: dump_entry_data_list.simps(2) size_word)
qed

lemma dump_renders:
  "list_all2 entry_shows nodes (flat v) \<Longrightarrow> printable v \<Longrightarrow> fdepth v < nest \<Longrightarrow> 0 \<le> i \<Longrightarrow>
    i + 4 * int (fdepth v) \<le> 2147483647 \<Longrightarrow>
    dump_entry_data_list nest (\<lambda>_. True) i (nodes @ rest) = Done (MMDB_SUCCESS, render i v, rest)"
proof (induction v arbitrary: nodes nest i rest rule: flat.induct)
  case (1 kvs)
  obtain d where nest: "nest = Suc d" using 1(4) by (cases nest) auto
  then have dep: "\<forall>kv \<in> set kvs. fdepth (snd kv) < d" using 1(4) by (simp add: fdepth_map_less)
  show ?case
    unfolding nest by (rule dump_renders_map[OF 1(1) 1(2,5,6)]) (use 1(3) dep in auto)
next
  case (2 vs)
  obtain d where nest: "nest = Suc d" using 2(4) by (cases nest) auto
  then have dep: "\<forall>v \<in> set vs. fdepth v < d" using 2(4) by (simp add: fdepth_array_less)
  show ?case
    unfolding nest by (rule dump_renders_array[OF 2(1) 2(2,5,6)]) (use 2(3) dep in auto)
qed (rule dump_renders_scalar; simp)+

section \<open>Printing ends\<close>

text \<open>The computation returns and leaves at most \<open>L\<close> nodes.\<close>

definition leaves :: "nat \<Rightarrow> dumped \<Rightarrow> bool" where
  "leaves L m \<longleftrightarrow> terminates m \<and> post m (\<lambda>(st, out, rest). length rest \<le> L)"

lemma leaves_Done: "length rest \<le> L \<Longrightarrow> leaves L (Done (st, out, rest))"
  by (simp add: leaves_def post_Done)

lemma leaves_Fault: "leaves L Fault"
  by (simp add: leaves_def post_Fault)

lemma leaves_if: "(b \<Longrightarrow> leaves L m) \<Longrightarrow> (\<not> b \<Longrightarrow> leaves L n) \<Longrightarrow> leaves L (if b then m else n)"
  by simp

lemma leaves_bind: "terminates m \<Longrightarrow> (\<And>x. leaves L (f x)) \<Longrightarrow> leaves L (bind_run m f)"
  by (cases m) (auto simp: leaves_def post_Fault)

lemma leaves_dump:
  "leaves M m \<Longrightarrow> (\<And>st out rest. length rest \<le> M \<Longrightarrow> leaves L (f st out rest)) \<Longrightarrow>
    leaves L (bind_run m (\<lambda>(st, out, rest). f st out rest))"
  by (cases m) (auto simp: leaves_def post_def)

lemma leaves_mono: "leaves M m \<Longrightarrow> M \<le> L \<Longrightarrow> leaves L m"
  by (auto simp: leaves_def post_def)

definition bounded :: "nat \<Rightarrow> (MMDB_entry_data_s list \<Rightarrow> dumped) \<Rightarrow> bool" where
  "bounded L f \<longleftrightarrow> (\<forall>nodes. length nodes \<le> L \<longrightarrow> leaves (length nodes) (f nodes))"

lemma terminates_strnlen_loop: "terminates (strnlen_loop s k len)"
  by (induction k arbitrary: s len) (auto intro!: run_intros)

lemma terminates_copy_bytes: "terminates (copy_bytes s k)"
  by (induction k arbitrary: s) (auto intro!: run_intros)

lemma terminates_strndup_entry [run_intros]: "terminates (strndup_entry ok ed)"
proof -
  have "terminates (union_utf8_string u)" for u by (cases u) auto
  then show ?thesis
    unfolding strndup_entry_def mmdb_strndup_def mmdb_strnlen_def
    by (auto intro!: terminates_bind terminates_strnlen_loop terminates_copy_bytes split: option.splits)
qed

lemma terminates_hex_loop: "terminates (hex_loop p i n out)"
  by (induction n arbitrary: i out) (auto intro!: run_intros)

lemma terminates_parts [run_intros]:
  "terminates (bytes_to_hex ok p sz)" "terminates (print_string s)" "terminates (print_indentation i)"
  "terminates (int_add a b)" "terminates (union_low n u)" "terminates (union_bytes u)" "terminates (size_of_entry ed)"
proof -
  show "terminates (bytes_to_hex ok p sz)"
    by (auto simp: bytes_to_hex_def intro!: terminates_bind terminates_hex_loop)
  show "terminates (print_string s)" by (cases s) (auto simp: print_string.simps)
  show "terminates (print_indentation i)" by (simp add: print_indentation_def Let_def)
  show "terminates (int_add a b)" by (simp add: int_add_def)
  show "terminates (union_low n u)" "terminates (union_bytes u)" by (cases u; simp)+
  show "terminates (size_of_entry ed)" by (auto split: option.splits)
qed

lemma terminates_if [run_intros]:
  "(b \<Longrightarrow> terminates m) \<Longrightarrow> (\<not> b \<Longrightarrow> terminates n) \<Longrightarrow> terminates (if b then m else n)"
  by simp

lemma leaves_print_line: "length nodes \<le> L \<Longrightarrow> leaves L (print_line i t nodes)"
  unfolding print_line_def by (intro leaves_bind leaves_Done terminates_parts)

lemma leaves_dump_scalar: "leaves (length nodes) (dump_scalar malloc_ok i ed nodes)"
  unfolding dump_scalar_def Let_def
  by (intro leaves_if leaves_bind leaves_print_line leaves_Done terminates_strndup_entry terminates_parts) simp_all

lemma bounded_array_loop:
  assumes "bounded L dump"
  shows "bounded L (dump_array_loop dump n)"
proof (induction n)
  case (Suc n)
  have "leaves (length nodes) (dump_array_loop dump (Suc n) nodes)" if l: "length nodes \<le> L" for nodes
  proof -
    have d: "leaves (length nodes) (dump nodes)" using assms l by (simp add: bounded_def)
    have r: "leaves (length rest) (dump_array_loop dump n rest)" if "length rest \<le> length nodes" for rest
      using Suc.IH l that by (simp add: bounded_def)
    show ?thesis
      unfolding dump_array_loop.simps
      by (intro leaves_if leaves_dump[OF d] leaves_dump[OF r] leaves_Done) simp_all
  qed
  then show ?case by (simp add: bounded_def del: dump_array_loop.simps)
qed (simp add: bounded_def leaves_Done)

lemma bounded_map_loop:
  assumes "bounded L dump"
  shows "bounded (Suc L) (dump_map_loop dump malloc_ok i n)"
proof (induction n)
  case (Suc n)
  have "leaves (length nodes) (dump_map_loop dump malloc_ok i (Suc n) nodes)" if l: "length nodes \<le> Suc L" for nodes
  proof (cases nodes)
    case (Cons key ns)
    have d: "leaves (length ns) (dump ns)" using assms l Cons by (simp add: bounded_def)
    have r: "leaves (length rest) (dump_map_loop dump malloc_ok i n rest)" if "length rest \<le> length ns" for rest
      using Suc.IH l that Cons by (simp add: bounded_def)
    show ?thesis
      unfolding dump_map_loop.simps Cons list.case Let_def
      by (intro leaves_if leaves_dump[OF d] leaves_dump[OF r] leaves_bind leaves_Done terminates_strndup_entry
          terminates_parts) simp_all
  qed (simp add: leaves_Done)
  then show ?case by (simp add: bounded_def del: dump_map_loop.simps)
qed (simp add: bounded_def leaves_Done)

lemma dump_bounded: "bounded L (dump_entry_data_list (Suc L) malloc_ok i)"
proof (induction L arbitrary: i)
  case 0
  then show ?case by (simp add: bounded_def dump_entry_data_list.simps(2) leaves_Fault)
next
  case (Suc L)
  have b: "bounded L (\<lambda>nodes. bind_run (int_add j 2) (\<lambda>i. dump_entry_data_list (Suc L) malloc_ok i nodes))" for j
    using Suc.IH unfolding bounded_def by (auto intro!: leaves_bind terminates_parts)
  have "leaves (length nodes) (dump_entry_data_list (Suc (Suc L)) malloc_ok i nodes)"
    if l: "length nodes \<le> Suc L" for nodes
  proof (cases nodes)
    case (Cons ed ns)
    have m: "leaves (length ns) (dump_map_loop (\<lambda>nodes. bind_run (int_add j 2)
          (\<lambda>i. dump_entry_data_list (Suc L) malloc_ok i nodes)) malloc_ok j n ns)" for j n
      using bounded_map_loop[OF b] l Cons by (simp add: bounded_def)
    have a: "leaves (length ns) (dump_array_loop (dump_entry_data_list (Suc L) malloc_ok j) n ns)" for j n
      using bounded_array_loop[OF Suc.IH] l Cons by (simp add: bounded_def)
    have s: "leaves (length (ed # ns)) (dump_scalar malloc_ok i ed ns)"
      by (rule leaves_mono[OF leaves_dump_scalar]) simp
    show ?thesis
      unfolding dump_entry_data_list.simps(2)[of "Suc L"] Cons list.case Let_def
      by (intro leaves_if leaves_bind leaves_dump[OF m] leaves_dump[OF a] leaves_Done s terminates_parts) simp_all
  qed (simp add: dump_entry_data_list.simps(2) leaves_Fault)
  then show ?case by (simp add: bounded_def)
qed

end
