(* ===== verification/DumpTheorems.thy ===== *)
theory DumpTheorems
  imports DumpSpec DataTheorems
begin

text \<open>
  What printing a list of entries in \<^verbatim>\<open>libmaxminddb/src/maxminddb.c\<close> guarantees.
\<close>

lemma hex_reads_back:
  "length (hex bs) = 2 * length bs
    \<and> map (\<lambda>j. word_of_nat (read_digits 16 (take 2 (drop (2 * j) (hex bs))))) [0..<length bs] = bs"
proof (induction bs)
  case (Cons b bs)
  have "hex (b # bs) = print_fixed 16 2 (unat b) @ hex bs" by (simp add: hex_def)
  moreover have "read_digits 16 (print_fixed 16 2 (unat b)) = unat b"
    using unsigned_less[of b, where 'a = nat] by simp
  moreover have "length (print_fixed 16 2 (unat b)) = 2" by simp
  ultimately show ?case using Cons.IH by (simp add: map_upt_Suc del: upt_Suc print_fixed.simps)
qed (simp add: hex_def)

section \<open>Printing\<close>

text \<open>
  C9: Printing the list of a value prints exactly the text of the value: nested blocks for maps and
  arrays, indented by two more columns at each level and four in a map, at most 1023, one line with
  the type for everything else; strings up to their first zero byte. It succeeds if no allocation
  fails, no byte sequence is empty and the columns fit an \<open>int\<close>.
\<close>
theorem dump_prints_the_value:
  assumes "list_all2 entry_shows nodes (flat v)" "printable v" "fdepth v < nest"
    "0 \<le> indent" "indent + 4 * int (fdepth v) \<le> 2147483647"
  shows "MMDB_dump_entry_data_list nest (\<lambda>_. True) nodes indent = Done (MMDB_SUCCESS, render indent v)"
  using dump_renders[OF assms, of "[]"] by (simp add: MMDB_dump_entry_data_list_def)

lemma example_nodes:
  "list_all2 entry_shows
     [zero_entry_data\<lparr>data_type := 7, data_size := Some 1\<rparr>,
      zero_entry_data\<lparr>data_type := 2, data_size := Some 2, entry_value := U_utf8_string (Ptr [0x61, 0x62] 0)\<rparr>,
      zero_entry_data\<lparr>data_type := 11, data_size := Some 1\<rparr>,
      zero_entry_data\<lparr>data_type := 5, data_size := Some 2, entry_value := U_uint16 421\<rparr>]
     (flat (F_map [([0x61, 0x62], F_array [F_uint16 421])]))"
  by (simp add: stored_Cons)

lemma small_spaces: "spaces 0 = []" "spaces 2 = [32, 32]" "spaces 4 = [32, 32, 32, 32]"
    "spaces 6 = [32, 32, 32, 32, 32, 32]"
  by (simp_all add: spaces_def numeral_eq_Suc)

theorem dump_prints_the_value_witness:
  "MMDB_dump_entry_data_list 4 (\<lambda>_. True)
     [zero_entry_data\<lparr>data_type := 7, data_size := Some 1\<rparr>,
      zero_entry_data\<lparr>data_type := 2, data_size := Some 2, entry_value := U_utf8_string (Ptr [0x61, 0x62] 0)\<rparr>,
      zero_entry_data\<lparr>data_type := 11, data_size := Some 1\<rparr>,
      zero_entry_data\<lparr>data_type := 5, data_size := Some 2, entry_value := U_uint16 421\<rparr>] 0
   = Done (MMDB_SUCCESS, c_bytes ''{'' @ [newline] @ c_bytes ''  '' @ [quote_char] @ c_bytes ''ab'' @ [quote_char]
       @ c_bytes '': '' @ [newline] @ c_bytes ''    ['' @ [newline] @ c_bytes ''      421 <uint16>'' @ [newline]
       @ c_bytes ''    ]'' @ [newline] @ c_bytes ''}'' @ [newline])"
proof -
  let ?v = "F_map [([0x61, 0x62], F_array [F_uint16 421])]"
  have "fdepth ?v = 2" by (simp add: fdepth.simps)
  then have "MMDB_dump_entry_data_list 4 (\<lambda>_. True)
     [zero_entry_data\<lparr>data_type := 7, data_size := Some 1\<rparr>,
      zero_entry_data\<lparr>data_type := 2, data_size := Some 2, entry_value := U_utf8_string (Ptr [0x61, 0x62] 0)\<rparr>,
      zero_entry_data\<lparr>data_type := 11, data_size := Some 1\<rparr>,
      zero_entry_data\<lparr>data_type := 5, data_size := Some 2, entry_value := U_uint16 421\<rparr>] 0
      = Done (MMDB_SUCCESS, render 0 ?v)"
    by (intro dump_prints_the_value[OF example_nodes]) simp_all
  moreover have "print_nat 421 = c_bytes ''421''"
    by (simp add: print_nat.simps digit_char_def c_bytes_def)
  ultimately show ?thesis
    using small_spaces by (simp add: shown_def c_bytes_def)
qed

text \<open>
  C38: Printing ends on every list, whatever its nodes claim: the recursion is never deeper than the
  list is long, because every call takes a node.
\<close>
theorem dump_ends:
  assumes "length nodes < nest"
  shows "MMDB_dump_entry_data_list nest malloc_ok nodes indent \<noteq> OutOfFuel"
proof -
  obtain L where "nest = Suc L" "length nodes \<le> L" using assms by (cases nest) auto
  then show ?thesis
    using dump_bounded[of L malloc_ok indent]
    by (auto simp: MMDB_dump_entry_data_list_def bounded_def leaves_def terminates_def run_simps)
qed

theorem dump_ends_witness:
  "MMDB_dump_entry_data_list 2 (\<lambda>_. True) [zero_entry_data\<lparr>data_type := 11, data_size := Some 0xFFFFFFFF\<rparr>] 0 \<noteq> OutOfFuel"
  by (rule dump_ends) simp

text \<open>
  Two assumptions about the list are not tested. The text of an empty byte sequence is a block
  that nothing was written to, so that printing it reads indeterminate bytes; and the node of a key
  is read as a string whatever its type is.
\<close>
theorem dump_trusts_the_list:
  assumes "entry_shows ed (F_bytes [])" "entry_shows map_ed (F_map (kv # kvs))"
    and "entry_shows key v" "\<not> compound v" "\<forall>s. v \<noteq> F_string s" "0 \<le> indent" "indent \<le> 2147483645"
  shows "MMDB_dump_entry_data_list (Suc nest) (\<lambda>_. True) (ed # nodes) indent = Fault
    \<and> MMDB_dump_entry_data_list (Suc nest) (\<lambda>_. True) (map_ed # key # nodes) indent = Fault"
proof
  obtain p where p: "entry_value ed = U_bytes p" "data_type ed = 4" "data_size ed = Some 0"
    using assms(1) by (auto split: entry_union.splits)
  then show "MMDB_dump_entry_data_list (Suc nest) (\<lambda>_. True) (ed # nodes) indent = Fault"
    by (simp add: MMDB_dump_entry_data_list_def dump_entry_data_list.simps(2) dump_scalar_def bytes_to_hex_def
        print_string.simps)
  have "union_utf8_string (entry_value key) = Fault"
    using assms(3-5) by (cases v) (auto split: entry_union.splits)
  then have k: "strndup_entry True key = Fault" by (simp add: strndup_entry_def)
  have h: "data_type map_ed = 7" "data_size map_ed = Some (word_of_nat (Suc (length kvs)))" "Suc (length kvs) \<le> max_size"
    using assms(2) by auto
  then have u: "unat (word_of_nat (Suc (length kvs)) :: u32) = Suc (length kvs)" by (intro unat_u32) simp
  show "MMDB_dump_entry_data_list (Suc nest) (\<lambda>_. True) (map_ed # key # nodes) indent = Fault"
    using assms(6,7) h(1,2) u k print_indentation_spaces[OF assms(6)] int_add_ok[of indent 2]
    by (simp add: MMDB_dump_entry_data_list_def dump_entry_data_list.simps(2) del: of_nat_Suc)
qed

theorem dump_trusts_the_list_witness:
  "MMDB_dump_entry_data_list 3 (\<lambda>_. True)
     [zero_entry_data\<lparr>data_type := 7, data_size := Some 1\<rparr>, zero_entry_data\<lparr>data_type := 6, entry_value := U_uint32 5\<rparr>,
      zero_entry_data\<lparr>data_type := 6, entry_value := U_uint32 5\<rparr>] 0 = Fault"
  using dump_trusts_the_list[of "zero_entry_data\<lparr>data_type := 4, entry_value := U_bytes (Ptr [] 0)\<rparr>"
      "zero_entry_data\<lparr>data_type := 7, data_size := Some 1\<rparr>" "([], F_uint32 5)" "[]"
      "zero_entry_data\<lparr>data_type := 6, entry_value := U_uint32 5\<rparr>" "F_uint32 5" 0 2
      "[zero_entry_data\<lparr>data_type := 6, entry_value := U_uint32 5\<rparr>]"]
  by (simp add: zero_entry_data_def numeral_3_eq_3 numeral_2_eq_2)

text \<open>
  \<open>bytes_to_hex\<close> loses nothing: its text has two capital hexadecimal digits for each byte, in
  order, from which the byte is read back, and no zero before the closing one.
\<close>
theorem bytes_to_hex_reads_back:
  assumes "stored p bs" "bs \<noteq> []" "length bs \<le> max_size"
  shows "\<exists>t. bytes_to_hex True p (word_of_nat (length bs)) = Done (Ptr (t @ [0]) 0)
    \<and> length t = 2 * length bs \<and> 0 \<notin> set t
    \<and> map (\<lambda>j. word_of_nat (read_digits 16 (take 2 (drop (2 * j) t)))) [0..<length bs] = bs"
proof -
  have "bytes_to_hex True p (word_of_nat (length bs)) = Done (Ptr (hex bs @ [0]) 0)"
    using assms by (intro bytes_to_hex_stored) simp_all
  then show ?thesis using hex_not_0[of bs] hex_reads_back[of bs] by blast
qed

theorem bytes_to_hex_reads_back_witness:
  "\<exists>t. bytes_to_hex True (Ptr [0xAB, 0x01] 0) 2 = Done (Ptr (t @ [0]) 0) \<and> length t = 4"
  using bytes_to_hex_reads_back[of "Ptr [0xAB, 0x01] 0" "[0xAB, 0x01]"] by (auto simp: stored_block)

end
