(* ===== verification/LookupTheorems.thy ===== *)
theory LookupTheorems
  imports TreeLookup
begin

text \<open>
  What the search tree lookups of \<^verbatim>\<open>libmaxminddb/src/maxminddb.c\<close> guarantee: the
  properties of \<open>MMDB_lookup_sockaddr\<close>, \<open>MMDB_lookup_string\<close>, \<open>find_ipv4_start_node\<close> and
  \<open>MMDB_read_node\<close>, with a small database on which each is applied.
\<close>

section \<open>A small database\<close>

text \<open>
  Two nodes of 24-bit records: the bits 01 lead to the data at offset 10, every other address is
  absent. In \<open>deep_db\<close> the zero bits lead to the second node, and round it, to a subtree for IPv4.
\<close>

definition db_bytes :: "u8 list" where
  "db_bytes = [0,0,1, 0,0,2, 0,0,2, 0,0,12] @ replicate 16 0 @ [0x42, 0x61, 0x62]"

definition example_db :: MMDB_s where
  "example_db = zero_mmdb\<lparr>file_size := 31, file_content := Ptr db_bytes 0, data_section := Ptr db_bytes 12,
     data_section_size := 19, full_record_byte_size := 6, depth := 32,
     metadata := zero_metadata\<lparr>node_count := 2, record_size := 24, ip_version := 4\<rparr>\<rparr>"

definition deep_db :: MMDB_s where
  "deep_db = example_db\<lparr>file_content := Ptr (db_bytes[8 := 1]) 0, data_section := Ptr (db_bytes[8 := 1]) 12,
     depth := 128, metadata := zero_metadata\<lparr>node_count := 2, record_size := 24, ip_version := 6\<rparr>\<rparr>"

text \<open>A one-node IPv6 database whose left record holds data for all of ::/1.\<close>

definition flat_db :: MMDB_s where
  "flat_db = zero_mmdb\<lparr>file_size := 25, file_content := Ptr (db_bytes[5 := 11, 2 := 11]) 0,
     data_section := Ptr (db_bytes[5 := 11, 2 := 11]) 6,
     data_section_size := 25, full_record_byte_size := 6, depth := 128,
     metadata := zero_metadata\<lparr>node_count := 1, record_size := 24, ip_version := 6\<rparr>\<rparr>"

definition ipv4 :: "u8 list \<Rightarrow> sockaddr" where
  "ipv4 as = \<lparr>family = AF_INET, s_addr = as, s6_addr = replicate 16 0\<rparr>"

definition ipv6 :: "u8 list \<Rightarrow> sockaddr" where
  "ipv6 as = \<lparr>family = AF_INET6, s_addr = replicate 4 0, s6_addr = as\<rparr>"

lemma example_db_wf: "tree_wf example_db"
  by (simp add: tree_wf_def example_db_def zero_mmdb_def zero_metadata_def db_bytes_def)

lemma deep_db_wf: "tree_wf deep_db"
  by (simp add: tree_wf_def deep_db_def example_db_def zero_mmdb_def zero_metadata_def db_bytes_def)

lemma flat_db_wf: "tree_wf flat_db"
  by (simp add: tree_wf_def flat_db_def zero_mmdb_def zero_metadata_def db_bytes_def)

lemma deep_db_zeros: "walk (tree_child deep_db) (nodes_of deep_db) 0 0 (replicate 96 False) = Inside 1"
proof -
  have c: "tree_child deep_db 0 False = 1" "tree_child deep_db 1 False = 1" "nodes_of deep_db = 2"
    by code_simp+
  then have "walk (tree_child deep_db) (nodes_of deep_db) d 1 (replicate k False) = Inside 1" for d k
    by (induction k arbitrary: d) simp_all
  from this[of 1 95] c have "walk (tree_child deep_db) (nodes_of deep_db) 0 0 (False # replicate 95 False) = Inside 1"
    by simp
  moreover have "replicate 96 False = False # replicate 95 False"
    by (simp flip: replicate_Suc)
  ultimately show ?thesis by simp
qed

section \<open>Lookups and the tree\<close>

text \<open>What a caller gets for the end of a walk.\<close>

definition walk_answer :: "MMDB_s \<Rightarrow> walk_end \<Rightarrow> MMDB_lookup_result_s \<times> status" where
  "walk_answer mmdb e =
     (case e of
        Leaves r k \<Rightarrow>
          if r - nodes_of mmdb \<le> unat (data_section_size mmdb)
          then (\<lparr>found_entry = nodes_of mmdb < r, entry = \<lparr>entry_offset = word_of_nat (r - nodes_of mmdb)\<rparr>,
                 netmask = word_of_nat k\<rparr>, MMDB_SUCCESS)
          else (no_result, MMDB_CORRUPT_SEARCH_TREE_ERROR)
      | _ \<Rightarrow> (no_result, MMDB_CORRUPT_SEARCH_TREE_ERROR))"

lemma walk_report_answer:
  "walk_report mmdb no_result e = (snd (walk_answer mmdb e), fst (walk_answer mmdb e))"
  by (simp add: walk_report_def walk_answer_def report_def no_result_def split: walk_end.split)

text \<open>
  C4: A lookup of an address of the database's own family returns exactly what the file format
  prescribes: the code's loop over the address bits ends where the walk of these bits through
  the tree ends, a record below the number of nodes goes on, a greater one is the data section
  offset plus the number of nodes, a zero record or an offset past the data section is reported
  as a corrupt tree, and the prefix length is the number of bits used.
\<close>
theorem lookup_sockaddr_walks_the_tree:
  assumes "tree_wf mmdb" "native_bits mmdb sa = Some bits"
  shows "MMDB_lookup_sockaddr mmdb sa err
    = Done (let a = walk_answer mmdb (walk (tree_child mmdb) (nodes_of mmdb) 0 0 bits)
            in (fst a, Some (snd a), mmdb))"
  using lookup_native[OF assms, of err] by (simp add: walk_report_answer Let_def)

theorem lookup_sockaddr_walks_the_tree_witness:
  "MMDB_lookup_sockaddr example_db (ipv4 [0x40, 0, 0, 0]) None
    = Done (\<lparr>found_entry = True, entry = \<lparr>entry_offset = 10\<rparr>, netmask = 2\<rparr>, Some MMDB_SUCCESS, example_db)"
proof -
  have "native_bits example_db (ipv4 [0x40, 0, 0, 0]) = Some (addr_bits [0x40, 0, 0, 0])"
    by code_simp
  note lookup_sockaddr_walks_the_tree[OF example_db_wf this, of None]
  moreover have "walk_answer example_db (walk (tree_child example_db) (nodes_of example_db) 0 0
      (addr_bits [0x40, 0, 0, 0]))
    = (\<lparr>found_entry = True, entry = \<lparr>entry_offset = 10\<rparr>, netmask = 2\<rparr>, MMDB_SUCCESS)"
    by code_simp
  ultimately show ?thesis by simp
qed

lemma native_lookup:
  assumes "tree_wf mmdb" "native_bits mmdb sa = Some bits"
  shows "MMDB_lookup_sockaddr mmdb sa err
    = Done (fst (walk_answer mmdb (walk (tree_child mmdb) (nodes_of mmdb) 0 0 bits)),
            Some (snd (walk_answer mmdb (walk (tree_child mmdb) (nodes_of mmdb) 0 0 bits))), mmdb)"
  using lookup_native[OF assms, of err] by (simp add: walk_report_answer)

section \<open>IPv4 addresses in an IPv6 database\<close>

text \<open>
  C11: In an IPv6 database, an IPv4 lookup is the lookup of the IPv6 address with twelve zero bytes
  in front, whenever the 96 zero bits end at a node of the tree: same entry, same prefix length,
  same status. Starting at the cached node is only a short cut.
\<close>
theorem ipv4_lookup_is_zero_prefixed_ipv6_lookup:
  assumes wf: "tree_wf mmdb" and cache: "cache_ok mmdb" and six: "ip_version (metadata mmdb) = 6"
    and len: "length as = 4"
    and inside: "walk (tree_child mmdb) (nodes_of mmdb) 0 0 (replicate 96 False) = Inside v"
  shows "\<exists>res st. MMDB_lookup_sockaddr mmdb (ipv4 as) err
      = Done (res, Some st, mmdb\<lparr>ipv4_start_node := computed_start mmdb\<rparr>)
    \<and> MMDB_lookup_sockaddr mmdb (ipv6 (replicate 12 0 @ as)) err = Done (res, Some st, mmdb)"
proof -
  let ?walk = "walk (tree_child mmdb) (nodes_of mmdb)"
  have start: "start_walk mmdb = (v, 96)"
    using left_walk_Inside[OF inside] by (simp add: start_walk_def)
  have "0 < nodes_of mmdb" using wf by (simp add: tree_wf_def)
  from walk_Inside[OF inside this] have v: "v < nodes_of mmdb" .
  have "?walk 0 0 (addr_bits (replicate 12 0 @ as)) = ?walk 96 v (addr_bits as)"
    using inside by (simp add: addr_bits_append addr_bits_zeros walk_append)
  moreover have "native_bits mmdb (ipv6 (replicate 12 0 @ as)) = Some (addr_bits (replicate 12 0 @ as))"
    using six len by (simp add: native_bits_def ipv6_def)
  note native_lookup[OF wf this, of err]
  moreover note lookup_ipv4_in_ipv6[OF wf cache six _ _ start, of "ipv4 as" err]
  ultimately show ?thesis
    using v len by (simp add: ipv4_def walk_report_answer)
qed

theorem ipv4_lookup_is_zero_prefixed_ipv6_lookup_witness:
  "\<exists>res st. MMDB_lookup_sockaddr deep_db (ipv4 [0x80, 0, 0, 0]) None
      = Done (res, Some st, deep_db\<lparr>ipv4_start_node := computed_start deep_db\<rparr>)
    \<and> MMDB_lookup_sockaddr deep_db (ipv6 (replicate 12 0 @ [0x80, 0, 0, 0])) None = Done (res, Some st, deep_db)"
proof -
  have "cache_ok deep_db" "ip_version (metadata deep_db) = 6"
    by (simp_all add: cache_ok_def deep_db_def example_db_def zero_mmdb_def zero_metadata_def)
  from ipv4_lookup_is_zero_prefixed_ipv6_lookup[OF deep_db_wf this _ deep_db_zeros]
  show ?thesis by simp
qed

text \<open>
  Where the zero bits leave the tree after \<open>k\<close> of them (no IPv4 subtree), an IPv4 lookup
  finds the same entry as the IPv6 lookup but reports the prefix length \<open>129 - k\<close> for \<open>k\<close>:
  \<open>find_ipv4_start_node\<close> counts the bits used, and \<open>populate_result\<close> takes that count for the
  number of bits left.
\<close>
theorem ipv4_lookup_without_ipv4_subtree:
  assumes wf: "tree_wf mmdb" and cache: "cache_ok mmdb" and six: "ip_version (metadata mmdb) = 6"
    and len: "length as = 4"
    and out: "walk (tree_child mmdb) (nodes_of mmdb) 0 0 (replicate 96 False) = Leaves r k"
    and size: "r - nodes_of mmdb \<le> unat (data_section_size mmdb)"
  shows "MMDB_lookup_sockaddr mmdb (ipv4 as) err
      = Done (\<lparr>found_entry = nodes_of mmdb < r, entry = \<lparr>entry_offset = word_of_nat (r - nodes_of mmdb)\<rparr>,
                netmask = word_of_nat (129 - k)\<rparr>, Some MMDB_SUCCESS,
              mmdb\<lparr>ipv4_start_node := computed_start mmdb\<rparr>)
    \<and> MMDB_lookup_sockaddr mmdb (ipv6 (replicate 12 0 @ as)) err
      = Done (\<lparr>found_entry = nodes_of mmdb < r, entry = \<lparr>entry_offset = word_of_nat (r - nodes_of mmdb)\<rparr>,
                netmask = word_of_nat k\<rparr>, Some MMDB_SUCCESS, mmdb)"
proof -
  let ?walk = "walk (tree_child mmdb) (nodes_of mmdb)"
  have start: "start_walk mmdb = (r, k - 1)"
    using left_walk_Leaves[OF out] by (simp add: start_walk_def)
  have k: "0 < k" "nodes_of mmdb \<le> r" using walk_Leaves[OF out] by auto
  then have "128 - (k - 1) = 129 - k" by arith
  moreover have "?walk 0 0 (addr_bits (replicate 12 0 @ as)) = Leaves r k"
    using out by (simp add: addr_bits_append addr_bits_zeros walk_append)
  moreover have "native_bits mmdb (ipv6 (replicate 12 0 @ as)) = Some (addr_bits (replicate 12 0 @ as))"
    using six len by (simp add: native_bits_def ipv6_def)
  note native_lookup[OF wf this, of err]
  moreover note lookup_ipv4_in_ipv6[OF wf cache six _ _ start, of "ipv4 as" err]
  ultimately show ?thesis
    using k len size by (simp add: ipv4_def walk_answer_def report_def no_result_def)
qed

theorem ipv4_lookup_without_ipv4_subtree_witness:
  "MMDB_lookup_sockaddr flat_db (ipv4 [1, 2, 3, 4]) None
      = Done (\<lparr>found_entry = True, entry = \<lparr>entry_offset = 10\<rparr>, netmask = 128\<rparr>, Some MMDB_SUCCESS,
              flat_db\<lparr>ipv4_start_node := computed_start flat_db\<rparr>)
    \<and> MMDB_lookup_sockaddr flat_db (ipv6 (replicate 12 0 @ [1, 2, 3, 4])) None
      = Done (\<lparr>found_entry = True, entry = \<lparr>entry_offset = 10\<rparr>, netmask = 1\<rparr>, Some MMDB_SUCCESS, flat_db)"
proof -
  have "walk (tree_child flat_db) (nodes_of flat_db) 0 0 (replicate 96 False) = Leaves 11 1"
    by code_simp
  moreover have "cache_ok flat_db" "ip_version (metadata flat_db) = 6" "nodes_of flat_db = 1"
    "unat (data_section_size flat_db) = 25"
    by code_simp+
  ultimately show ?thesis
    using ipv4_lookup_without_ipv4_subtree[OF flat_db_wf, of "[1, 2, 3, 4]" 11 1 None] by simp
qed

section \<open>The reported network\<close>

text \<open>The bits that are looked up for an address: an IPv4 address is zero-prefixed in an IPv6 database.\<close>

definition lookup_bits :: "MMDB_s \<Rightarrow> sockaddr \<Rightarrow> bool list option" where
  "lookup_bits h sa =
     (if ip_version (metadata h) = 6 \<and> family sa = AF_INET \<and> length (s_addr sa) = 4
      then Some (addr_bits (replicate 12 0 @ s_addr sa)) else native_bits h sa)"

text \<open>The 96 zero bits in front of every IPv4 address lead to a node of the tree.\<close>

definition has_ipv4_subtree :: "MMDB_s \<Rightarrow> bool" where
  "has_ipv4_subtree h =
     (case walk (tree_child h) (nodes_of h) 0 0 (replicate 96 False) of Inside _ \<Rightarrow> True | _ \<Rightarrow> False)"

lemma lookup_bits_cached [simp]:
  "lookup_bits (h\<lparr>ipv4_start_node := start\<rparr>) sa = lookup_bits h sa"
  "native_bits (h\<lparr>ipv4_start_node := start\<rparr>) sa = native_bits h sa"
  "has_ipv4_subtree (h\<lparr>ipv4_start_node := start\<rparr>) = has_ipv4_subtree h"
  "walk_answer (h\<lparr>ipv4_start_node := start\<rparr>) = walk_answer h"
  by (simp_all add: lookup_bits_def native_bits_def has_ipv4_subtree_def walk_answer_def fun_eq_iff split: walk_end.split)

lemma length_lookup_bits:
  assumes "tree_wf h" "lookup_bits h sa = Some bits"
  shows "length bits = unat (depth h)"
  using assms by (auto simp: lookup_bits_def native_bits_def tree_wf_def split: if_splits)

text \<open>
  The answer is that of the walk of the whole address, for the addresses of the database's own
  family and, where the tree has a subtree for them, for IPv4 addresses.
\<close>

lemma exact_lookup:
  assumes wf: "tree_wf h" and cache: "cache_ok h" and b: "lookup_bits h sa = Some bits"
    and exact: "has_ipv4_subtree h \<or> native_bits h sa = Some bits"
  shows "\<exists>start. cache_ok (h\<lparr>ipv4_start_node := start\<rparr>)
    \<and> MMDB_lookup_sockaddr h sa err
      = Done (fst (walk_answer h (walk (tree_child h) (nodes_of h) 0 0 bits)),
              Some (snd (walk_answer h (walk (tree_child h) (nodes_of h) 0 0 bits))),
              h\<lparr>ipv4_start_node := start\<rparr>)"
proof (cases "native_bits h sa = Some bits")
  case True
  then show ?thesis
    using native_lookup[OF wf True, of err] cache by (intro exI[of _ "ipv4_start_node h"]) simp
next
  case False
  with b have v4: "ip_version (metadata h) = 6" "family sa = AF_INET" "length (s_addr sa) = 4"
    and bits: "bits = addr_bits (replicate 12 0 @ s_addr sa)"
    by (auto simp: lookup_bits_def split: if_splits)
  obtain v where inside: "walk (tree_child h) (nodes_of h) 0 0 (replicate 96 False) = Inside v"
    using exact False by (auto simp: has_ipv4_subtree_def split: walk_end.splits)
  have start: "start_walk h = (v, 96)"
    using left_walk_Inside[OF inside] by (simp add: start_walk_def)
  have "0 < nodes_of h" using wf by (simp add: tree_wf_def)
  from walk_Inside[OF inside this] have "v < nodes_of h" .
  moreover have "walk (tree_child h) (nodes_of h) 0 0 bits
      = walk (tree_child h) (nodes_of h) 96 v (addr_bits (s_addr sa))"
    using inside by (simp add: bits addr_bits_append addr_bits_zeros walk_append)
  ultimately show ?thesis
    using lookup_ipv4_in_ipv6[OF wf cache v4 start, of err]
    by (intro exI[of _ "computed_start h"]) (simp add: walk_report_answer)
qed

text \<open>
  C14: The reported network is right: when a lookup ends with success and the prefix length \<open>k\<close>,
  a lookup of any other address with the same first \<open>k\<close> bits, in any order with the same handle,
  returns the same entry (or the same absence), prefix length and status. This covers all
  addresses of the database's own family; and the IPv4 addresses of an IPv6 database, whose 96
  zero bits are counted by the prefix length, where these zero bits lead to a node of the tree.
  It does not cover the IPv4 addresses of an IPv6 database without such a subtree: there the code
  reports \<open>129 - k\<close> for \<open>k\<close>, which \<open>ipv4_lookup_without_ipv4_subtree\<close> states.
\<close>
theorem netmask_covers_the_network:
  assumes wf: "tree_wf mmdb" and cache: "cache_ok mmdb"
    and bits: "lookup_bits mmdb sa = Some bits" "lookup_bits mmdb sb = Some bits'"
    and exact: "has_ipv4_subtree mmdb \<or> native_bits mmdb sa = Some bits \<and> native_bits mmdb sb = Some bits'"
    and found: "MMDB_lookup_sockaddr mmdb sa err = Done (res, Some MMDB_SUCCESS, mmdb1)"
    and same: "take (unat (netmask res)) bits' = take (unat (netmask res)) bits"
    and h: "h = mmdb \<or> h = mmdb1"
  shows "\<exists>mmdb2. MMDB_lookup_sockaddr h sb err = Done (res, Some MMDB_SUCCESS, mmdb2)"
proof -
  let ?walk = "walk (tree_child mmdb) (nodes_of mmdb) 0 0"
  have "has_ipv4_subtree mmdb \<or> native_bits mmdb sa = Some bits" using exact by blast
  from exact_lookup[OF wf cache bits(1) this, of err] found
  have a: "walk_answer mmdb (?walk bits) = (res, MMDB_SUCCESS)"
    and m1: "\<exists>start. mmdb1 = mmdb\<lparr>ipv4_start_node := start\<rparr> \<and> cache_ok mmdb1"
    by (auto simp: prod_eq_iff)
  obtain r k where leaves: "?walk bits = Leaves r k"
    using a by (auto simp: walk_answer_def split: walk_end.splits if_splits)
  have "length bits \<le> 128"
    using length_lookup_bits[OF wf bits(1)] wf by (auto simp: tree_wf_def)
  then have "k \<le> 128" using walk_Leaves[OF leaves] by simp
  moreover have "netmask res = word_of_nat k"
    using a leaves by (auto simp: walk_answer_def split: if_splits)
  ultimately have "unat (netmask res) = k"
    using unat_word_of_nat[of k, where 'a = 16] by simp
  with same have w: "?walk bits' = Leaves r k"
    by (intro walk_prefix[OF leaves]) simp
  have "mmdb = mmdb\<lparr>ipv4_start_node := ipv4_start_node mmdb\<rparr>" by simp
  then obtain start where hs: "h = mmdb\<lparr>ipv4_start_node := start\<rparr>" "cache_ok h"
    using h m1 cache by (elim disjE exE conjE) (simp_all only:)
  have "has_ipv4_subtree h \<or> native_bits h sb = Some bits'" using exact hs(1) by auto
  from exact_lookup[OF _ hs(2) _ this, of err] show ?thesis
    using wf bits(2) hs(1) w a leaves by auto
qed

theorem netmask_covers_the_network_witness:
  "(\<exists>mmdb2. MMDB_lookup_sockaddr example_db (ipv4 [0x7F, 1, 2, 3]) None
    = Done (\<lparr>found_entry = True, entry = \<lparr>entry_offset = 10\<rparr>, netmask = 2\<rparr>, Some MMDB_SUCCESS, mmdb2))
  \<and> (\<exists>mmdb2. MMDB_lookup_sockaddr deep_db (ipv6 (replicate 12 0 @ [0x91, 0, 0, 7])) None
    = Done (\<lparr>found_entry = True, entry = \<lparr>entry_offset = 10\<rparr>, netmask = 97\<rparr>, Some MMDB_SUCCESS, mmdb2))"
proof
  have b: "lookup_bits example_db (ipv4 [0x40, 0, 0, 0]) = Some (addr_bits [0x40, 0, 0, 0])"
    "lookup_bits example_db (ipv4 [0x7F, 1, 2, 3]) = Some (addr_bits [0x7F, 1, 2, 3])"
    and n: "native_bits example_db (ipv4 [0x40, 0, 0, 0]) = Some (addr_bits [0x40, 0, 0, 0])
      \<and> native_bits example_db (ipv4 [0x7F, 1, 2, 3]) = Some (addr_bits [0x7F, 1, 2, 3])"
    by code_simp+
  have c: "cache_ok example_db" "cache_ok deep_db"
    by (simp_all add: cache_ok_def deep_db_def example_db_def zero_mmdb_def)
  have f: "MMDB_lookup_sockaddr example_db (ipv4 [0x40, 0, 0, 0]) None
    = Done (\<lparr>found_entry = True, entry = \<lparr>entry_offset = 10\<rparr>, netmask = 2\<rparr>, Some MMDB_SUCCESS, example_db)"
    by code_simp
  show "\<exists>mmdb2. MMDB_lookup_sockaddr example_db (ipv4 [0x7F, 1, 2, 3]) None
    = Done (\<lparr>found_entry = True, entry = \<lparr>entry_offset = 10\<rparr>, netmask = 2\<rparr>, Some MMDB_SUCCESS, mmdb2)"
    by (rule netmask_covers_the_network[OF example_db_wf c(1) b disjI2[OF n] f _ disjI1[OF refl]]) code_simp
  have b6: "lookup_bits deep_db (ipv4 [0x80, 0, 0, 0]) = Some (addr_bits (replicate 12 0 @ [0x80, 0, 0, 0]))"
    "lookup_bits deep_db (ipv6 (replicate 12 0 @ [0x91, 0, 0, 7])) = Some (addr_bits (replicate 12 0 @ [0x91, 0, 0, 7]))"
    by code_simp+
  have inside: "has_ipv4_subtree deep_db" using deep_db_zeros by (simp add: has_ipv4_subtree_def)
  have f6: "MMDB_lookup_sockaddr deep_db (ipv4 [0x80, 0, 0, 0]) None
    = Done (\<lparr>found_entry = True, entry = \<lparr>entry_offset = 10\<rparr>, netmask = 97\<rparr>, Some MMDB_SUCCESS,
            deep_db\<lparr>ipv4_start_node := \<lparr>start_netmask = 96, node_value = 1\<rparr>\<rparr>)"
    by code_simp
  show "\<exists>mmdb2. MMDB_lookup_sockaddr deep_db (ipv6 (replicate 12 0 @ [0x91, 0, 0, 7])) None
    = Done (\<lparr>found_entry = True, entry = \<lparr>entry_offset = 10\<rparr>, netmask = 97\<rparr>, Some MMDB_SUCCESS, mmdb2)"
    by (rule netmask_covers_the_network[OF deep_db_wf c(2) b6 disjI1[OF inside] f6 _ disjI1[OF refl]]) code_simp
qed

section \<open>Every lookup returns\<close>

definition sockaddr_wf :: "sockaddr \<Rightarrow> bool" where
  "sockaddr_wf sa \<longleftrightarrow> length (s_addr sa) = 4 \<and> length (s6_addr sa) = 16"

definition fresh :: "MMDB_s \<Rightarrow> MMDB_s" where
  "fresh mmdb = mmdb\<lparr>ipv4_start_node := \<lparr>start_netmask = 0, node_value = 0\<rparr>\<rparr>"

lemma fresh_cache [simp]: "cache_ok (fresh mmdb)"
  by (simp add: cache_ok_def fresh_def)

lemma fresh_simps [simp]:
  "tree_wf (fresh mmdb) = tree_wf mmdb" "metadata (fresh mmdb) = metadata mmdb"
  "fresh (mmdb\<lparr>ipv4_start_node := s\<rparr>) = fresh mmdb" "fresh (fresh mmdb) = fresh mmdb"
  "computed_start (fresh mmdb) = computed_start mmdb"
  "data_section_size (fresh mmdb) = data_section_size mmdb" "depth (fresh mmdb) = depth mmdb"
  "tree_child (fresh mmdb) = tree_child mmdb" "start_walk (fresh mmdb) = start_walk mmdb"
  "report (fresh mmdb) = report mmdb" "walk_report (fresh mmdb) = walk_report mmdb"
  by (simp_all add: fresh_def)

text \<open>What a lookup answers, and whether it went through the IPv4 start node.\<close>

definition answer_ok :: "MMDB_s \<Rightarrow> MMDB_lookup_result_s \<times> status \<Rightarrow> bool" where
  "answer_ok mmdb a \<longleftrightarrow>
     (case a of (res, st) \<Rightarrow>
        st = MMDB_CORRUPT_SEARCH_TREE_ERROR \<and> res = no_result
        \<or> st = MMDB_SUCCESS \<and> netmask res \<le> depth mmdb
          \<and> entry_offset (entry res) \<le> data_section_size mmdb
          \<and> found_entry res = (0 < entry_offset (entry res)))"

lemma report_ok:
  assumes "k \<le> unat (depth mmdb)" "r < 2 ^ 32"
  shows "\<exists>res st. report mmdb no_result r k = (st, res) \<and> answer_ok mmdb (res, st)"
proof -
  have "k < 2 ^ 16" using assms(1) unsigned_less[of "depth mmdb", where 'a = nat] by simp
  then have "unat (word_of_nat k :: u16) = k" using unat_word_of_nat[of k, where 'a = 16] by simp
  moreover have "unat (word_of_nat (r - nodes_of mmdb) :: u32) = r - nodes_of mmdb"
    using assms(2) by (intro unat_u32) simp
  ultimately show ?thesis
    using assms(1)
    by (auto simp: report_def answer_ok_def word_le_nat_alt word_less_nat_alt)
qed

lemma walk_Leaves_bound:
  assumes "\<And>v b. v < n \<Longrightarrow> child v b < m"
  shows "walk child n d v bs = Leaves r k \<Longrightarrow> v < n \<Longrightarrow> r < m"
  using assms by (induction bs arbitrary: d v) (auto simp: Let_def split: if_splits)

lemma walk_report_ok:
  assumes "tree_wf mmdb" "v < nodes_of mmdb" "d + length bits \<le> unat (depth mmdb)"
  shows "\<exists>res st. walk_report mmdb no_result (walk (tree_child mmdb) (nodes_of mmdb) d v bits) = (st, res)
    \<and> answer_ok mmdb (res, st)"
proof (cases "walk (tree_child mmdb) (nodes_of mmdb) d v bits")
  case (Leaves r k)
  have "k \<le> unat (depth mmdb)" using walk_Leaves[OF Leaves] assms(3) by simp
  moreover have "r < 2 ^ 32"
    using walk_Leaves_bound[OF tree_child_bound[OF assms(1)] Leaves assms(2)] by simp
  ultimately show ?thesis using report_ok Leaves by (simp add: walk_report_def)
qed (auto simp: walk_report_def answer_ok_def)

text \<open>An address of no known family is looked up like an IPv4 address, from the root.\<close>

lemma lookup_other:
  assumes wf: "tree_wf mmdb" and fam: "family sa = AF_OTHER" and len: "length (s_addr sa) = 4"
  shows "MMDB_lookup_sockaddr mmdb sa err
    = Done (case walk_report mmdb no_result (walk (tree_child mmdb) (nodes_of mmdb) 0 0
        (addr_bits (if ip_version (metadata mmdb) = 4 then s_addr sa else replicate 12 0 @ s_addr sa))) of
              (st, res) \<Rightarrow> (res, Some st, mmdb))"
proof -
  have off: "right_record_offset (record_info_for_database mmdb) \<noteq> 0"
    by (rule right_offset_nonzero[OF wf])
  have copy: "copy_bytes (Ptr (s_addr sa) 0) 4 = Done (s_addr sa)"
    using copy_bytes_readable[of "Ptr (s_addr sa) 0" 4] len by simp
  consider (four) "ip_version (metadata mmdb) = 4" "depth mmdb = 32"
    | (six) "ip_version (metadata mmdb) = 6" "depth mmdb = 128"
    using wf by (auto simp: tree_wf_def)
  then show ?thesis
  proof cases
    case four
    then show ?thesis
      using off fam len search_from_root[OF wf, of "s_addr sa" no_result]
      by (simp add: MMDB_lookup_sockaddr_def find_address_in_search_tree_def Let_def split: prod.split)
  next
    case six
    then show ?thesis
      using off fam len copy search_from_root[OF wf, of "replicate 12 0 @ s_addr sa" no_result]
      by (simp add: MMDB_lookup_sockaddr_def find_address_in_search_tree_def Let_def split: prod.split)
  qed
qed

lemma lookup_cases_mapped:
  assumes wf: "tree_wf mmdb" and cache: "cache_ok mmdb" and sa: "sockaddr_wf sa"
    and mapped: "ip_version (metadata mmdb) = 6" "family sa = AF_INET"
  obtains res st where "answer_ok mmdb (res, st)"
    "MMDB_lookup_sockaddr mmdb sa err = Done (res, Some st, mmdb\<lparr>ipv4_start_node := computed_start mmdb\<rparr>)"
    "MMDB_lookup_sockaddr (fresh mmdb) sa err
      = Done (res, Some st, (fresh mmdb)\<lparr>ipv4_start_node := computed_start mmdb\<rparr>)"
proof -
  have wf': "tree_wf (fresh mmdb)" using wf by simp
  have n0: "0 < nodes_of mmdb" and depth: "depth mmdb = 128" using wf mapped by (auto simp: tree_wf_def)
  obtain r m where start: "start_walk mmdb = (r, m)" by force
  have start': "start_walk (fresh mmdb) = (r, m)" using start by simp
  have len: "length (s_addr sa) = 4" using sa by (simp add: sockaddr_wf_def)
  have six': "ip_version (metadata (fresh mmdb)) = 6" using mapped by simp
  note l = lookup_ipv4_in_ipv6[OF wf cache mapped len start, of err]
    lookup_ipv4_in_ipv6[OF wf' fresh_cache six' mapped(2) len start', of err]
  have r32: "r < 2 ^ 32"
    using left_walk_bound[OF wf n0] start by (auto simp: start_walk_def)
  have "128 - m \<le> unat (depth mmdb)" using depth by simp
  note direct = report_ok[OF this r32]
  let ?fin = "if nodes_of mmdb \<le> r then report mmdb no_result r (128 - m)
    else walk_report mmdb no_result
           (walk (tree_child mmdb) (nodes_of mmdb) 96 r (addr_bits (s_addr sa)))"
  have "\<exists>res st. ?fin = (st, res) \<and> answer_ok mmdb (res, st)"
    using direct walk_report_ok[OF wf, of r 96 "addr_bits (s_addr sa)"] depth len
    by (simp add: not_le)
  then obtain res st where e: "?fin = (st, res)" "answer_ok mmdb (res, st)" by blast
  show ?thesis by (rule that[OF e(2)]) (unfold l fresh_simps e(1), simp_all)
qed

text \<open>
  All cases of a lookup together: the answer \<open>(res, st)\<close> does not depend on the cache, which is
  either left alone or set to the computed start node.
\<close>

lemma lookup_cases:
  assumes wf: "tree_wf mmdb" and cache: "cache_ok mmdb" and sa: "sockaddr_wf sa"
  shows "(ip_version (metadata mmdb) = 4 \<and> family sa = AF_INET6)
    \<or> (\<exists>res st. answer_ok mmdb (res, st)
        \<and> (MMDB_lookup_sockaddr mmdb sa err = Done (res, Some st, mmdb)
            \<and> MMDB_lookup_sockaddr (fresh mmdb) sa err = Done (res, Some st, fresh mmdb)
          \<or> MMDB_lookup_sockaddr mmdb sa err = Done (res, Some st, mmdb\<lparr>ipv4_start_node := computed_start mmdb\<rparr>)
            \<and> MMDB_lookup_sockaddr (fresh mmdb) sa err
                = Done (res, Some st, (fresh mmdb)\<lparr>ipv4_start_node := computed_start mmdb\<rparr>)))"
proof -
  have wf': "tree_wf (fresh mmdb)" using wf by simp
  have n0: "0 < nodes_of mmdb" using wf by (simp add: tree_wf_def)
  consider (refused) "ip_version (metadata mmdb) = 4" "family sa = AF_INET6"
    | (native) bits where "native_bits mmdb sa = Some bits" "length bits = unat (depth mmdb)"
    | (other) "family sa = AF_OTHER"
    | (mapped) "ip_version (metadata mmdb) = 6" "family sa = AF_INET"
    using wf sa by (cases "family sa") (auto simp: tree_wf_def sockaddr_wf_def native_bits_def)
  then show ?thesis
  proof cases
    case refused
    then show ?thesis by simp
  next
    case (native bits)
    have "native_bits (fresh mmdb) sa = native_bits mmdb sa" by (simp add: native_bits_def)
    with native show ?thesis
      using lookup_native[OF wf native(1), of err] lookup_native[OF wf', of sa bits err]
        walk_report_ok[OF wf n0, of 0 bits]
      by (auto split: prod.splits)
  next
    case other
    have "length (s_addr sa) = 4" using sa by (simp add: sockaddr_wf_def)
    note l = lookup_other[OF wf other this, of err] lookup_other[OF wf' other this, of err]
    let ?bits = "addr_bits (if ip_version (metadata mmdb) = 4 then s_addr sa else replicate 12 0 @ s_addr sa)"
    have "0 + length ?bits \<le> unat (depth mmdb)"
      using wf sa by (auto simp: tree_wf_def sockaddr_wf_def)
    from walk_report_ok[OF wf n0 this] obtain res st where
      "walk_report mmdb no_result (walk (tree_child mmdb) (nodes_of mmdb) 0 0 ?bits) = (st, res)"
      "answer_ok mmdb (res, st)" by blast
    then show ?thesis using l by (auto simp del: length_addr_bits)
  next
    case mapped
    from lookup_cases_mapped[OF wf cache sa mapped, of err] show ?thesis by blast
  qed
qed

lemma lookup_refused:
  "ip_version (metadata mmdb) = 4 \<Longrightarrow> family sa = AF_INET6 \<Longrightarrow>
    MMDB_lookup_sockaddr mmdb sa err = Done (no_result, err, mmdb)"
  by (simp add: MMDB_lookup_sockaddr_def)

text \<open>
  C15: On a handle whose tree lies inside the file, a lookup of any address returns whatever the
  records hold: it reads no byte outside the tree, it ends, and the handle keeps its invariants.
  For an IPv6 address in an IPv4 database nothing is looked up: the result says that nothing was
  found, the handle stays as it was, and the caller's status is not assigned, so that it has the
  value it had before the call. For every other address the status is assigned, and is success or
  a corrupt tree; after success the prefix length is at most the depth of the tree, the entry's
  offset at most the size of the data section, and an entry is found exactly if that offset is not
  zero.
\<close>
theorem lookup_sockaddr_returns:
  assumes "tree_wf mmdb" "cache_ok mmdb" "sockaddr_wf sa"
  shows "\<exists>res st mmdb'. MMDB_lookup_sockaddr mmdb sa err = Done (res, st, mmdb')
    \<and> (if ip_version (metadata mmdb) = 4 \<and> family sa = AF_INET6
       then res = no_result \<and> st = err \<and> mmdb' = mmdb
       else \<exists>s. st = Some s \<and> answer_ok mmdb (res, s))
    \<and> tree_wf mmdb' \<and> cache_ok mmdb'"
proof (cases "ip_version (metadata mmdb) = 4 \<and> family sa = AF_INET6")
  case True
  then show ?thesis using lookup_refused[of mmdb sa err] assms by simp
next
  case False
  then show ?thesis using lookup_cases[OF assms, of err] assms(1,2) by auto
qed

theorem lookup_sockaddr_returns_witness:
  "(\<exists>res st mmdb'. MMDB_lookup_sockaddr deep_db (ipv4 [1, 2, 3, 4]) None = Done (res, Some st, mmdb')
    \<and> answer_ok deep_db (res, st) \<and> tree_wf mmdb' \<and> cache_ok mmdb')
  \<and> MMDB_lookup_sockaddr example_db (ipv6 (replicate 16 1)) None = Done (no_result, None, example_db)"
proof
  have d: "cache_ok deep_db" "ip_version (metadata deep_db) = 6" "sockaddr_wf (ipv4 [1, 2, 3, 4])"
    and e: "cache_ok example_db" "sockaddr_wf (ipv6 (replicate 16 1))"
      "ip_version (metadata example_db) = 4" "family (ipv6 (replicate 16 1)) = AF_INET6"
    by (simp_all add: cache_ok_def deep_db_def example_db_def zero_mmdb_def sockaddr_wf_def ipv4_def ipv6_def)
  show "\<exists>res st mmdb'. MMDB_lookup_sockaddr deep_db (ipv4 [1, 2, 3, 4]) None = Done (res, Some st, mmdb')
    \<and> answer_ok deep_db (res, st) \<and> tree_wf mmdb' \<and> cache_ok mmdb'"
    using lookup_sockaddr_returns[OF deep_db_wf d(1,3), of None] d(2) by auto
  show "MMDB_lookup_sockaddr example_db (ipv6 (replicate 16 1)) None = Done (no_result, None, example_db)"
    using lookup_sockaddr_returns[OF example_db_wf e(1,2), of None] e(3,4) by auto
qed

text \<open>A caller that looks one address up after another with the same handle.\<close>

fun lookups :: "MMDB_s \<Rightarrow> sockaddr list \<Rightarrow> (MMDB_lookup_result_s \<times> status option) list run" where
  "lookups mmdb [] = Done []"
| "lookups mmdb (sa # sas) =
     bind_run (MMDB_lookup_sockaddr mmdb sa None) (\<lambda>(res, st, mmdb).
     bind_run (lookups mmdb sas) (\<lambda>answers. Done ((res, st) # answers)))"

definition answer_of :: "MMDB_s \<Rightarrow> sockaddr \<Rightarrow> MMDB_lookup_result_s \<times> status option" where
  "answer_of mmdb sa =
     (case MMDB_lookup_sockaddr mmdb sa None of Done (res, st, _) \<Rightarrow> (res, st) | _ \<Rightarrow> (no_result, None))"

lemma lookup_step:
  assumes "tree_wf mmdb" "cache_ok mmdb" "sockaddr_wf sa"
  shows "\<exists>mmdb'. MMDB_lookup_sockaddr mmdb sa None
      = Done (fst (answer_of (fresh mmdb) sa), snd (answer_of (fresh mmdb) sa), mmdb')
    \<and> tree_wf mmdb' \<and> cache_ok mmdb' \<and> fresh mmdb' = fresh mmdb"
proof (cases "ip_version (metadata mmdb) = 4 \<and> family sa = AF_INET6")
  case True
  then show ?thesis
    using assms lookup_refused[of mmdb sa None] lookup_refused[of "fresh mmdb" sa None]
    by (simp add: answer_of_def)
next
  case False
  then show ?thesis
    using lookup_cases[OF assms, of None] assms(1,2) by (auto simp: answer_of_def)
qed

text \<open>
  C28: The cached IPv4 start node never shows: in every sequence of lookups with one handle, each
  lookup answers what it would answer as the first one on a handle just opened.
\<close>
theorem cache_never_shows:
  assumes "tree_wf mmdb" "cache_ok mmdb" "list_all sockaddr_wf sas"
  shows "lookups mmdb sas = Done (map (answer_of (fresh mmdb)) sas)"
  using assms
proof (induction sas arbitrary: mmdb)
  case (Cons sa sas)
  then obtain mmdb' where "MMDB_lookup_sockaddr mmdb sa None
      = Done (fst (answer_of (fresh mmdb) sa), snd (answer_of (fresh mmdb) sa), mmdb')"
    "tree_wf mmdb'" "cache_ok mmdb'" "fresh mmdb' = fresh mmdb"
    using lookup_step[of mmdb sa] by auto
  with Cons show ?case by simp
qed simp

theorem cache_never_shows_witness:
  "lookups deep_db [ipv4 [1, 2, 3, 4], ipv4 [0x80, 0, 0, 0], ipv6 (replicate 16 0)]
    = Done (map (answer_of (fresh deep_db)) [ipv4 [1, 2, 3, 4], ipv4 [0x80, 0, 0, 0], ipv6 (replicate 16 0)])"
proof (rule cache_never_shows[OF deep_db_wf])
  show "cache_ok deep_db"
    by (simp add: cache_ok_def deep_db_def example_db_def zero_mmdb_def)
qed (simp add: sockaddr_wf_def ipv4_def ipv6_def)

section \<open>Reading nodes\<close>

definition written_tree :: "nat \<Rightarrow> (nat \<times> nat) list \<Rightarrow> u8 list" where
  "written_tree sz ns = concat (map (\<lambda>(l, r). node_bytes sz l r) ns)"

lemma written_tree_nth:
  assumes "sz \<in> {6, 7, 8}"
  shows "v < length ns \<Longrightarrow> take sz (drop (v * sz) (written_tree sz ns @ rest))
    = node_bytes sz (fst (ns ! v)) (snd (ns ! v))"
proof (induction ns arbitrary: v)
  case (Cons n ns)
  obtain l r where n: "n = (l, r)" by force
  have len: "length (node_bytes sz l r) = sz" by (rule length_node_bytes[OF assms])
  show ?case
  proof (cases v)
    case 0
    then show ?thesis using n len by (simp add: written_tree_def)
  next
    case (Suc w)
    have "drop (v * sz) (written_tree sz (n # ns) @ rest) = drop (w * sz) (written_tree sz ns @ rest)"
      using n len Suc by (simp add: written_tree_def)
    then show ?thesis using Cons Suc by simp
  qed
qed simp

text \<open>A node number that passes the test, and the bytes at its place.\<close>

lemma record_pointer_small:
  assumes "v * node_size mmdb < 2 ^ 32"
  shows "record_pointer (record_info_for_database mmdb) p (word_of_nat v) = ptr_add p (v * node_size mmdb)"
proof -
  have "record_length (record_info_for_database mmdb) = full_record_byte_size mmdb"
    by (simp add: record_info_for_database_def Let_def)
  moreover have "word_of_nat v * ucast (full_record_byte_size mmdb)
      = (word_of_nat (v * node_size mmdb) :: u32)"
    by simp
  ultimately show ?thesis
    using assms by (simp only: record_pointer_def unat_u32)
qed

lemma read_node_stored:
  assumes wf: "tree_wf mmdb" and v: "v \<le> nodes_of mmdb"
    and st: "stored (ptr_add (file_content mmdb) (v * node_size mmdb)) nd" "length nd = node_size mmdb"
  shows "MMDB_read_node mmdb (word_of_nat v) node = Done (MMDB_SUCCESS,
    node\<lparr>left_record := word_of_nat (record_value (node_size mmdb) nd False),
         right_record := word_of_nat (record_value (node_size mmdb) nd True)\<rparr>)"
proof -
  let ?p = "ptr_add (file_content mmdb) (v * node_size mmdb)"
  have "v < 2 ^ 32" using v unat_u32_less[of "node_count (metadata mmdb)"] by linarith
  then have n: "\<not> node_count (metadata mmdb) < word_of_nat v"
    using v by (simp add: word_less_nat_alt unat_u32)
  have "v * node_size mmdb \<le> nodes_of mmdb * node_size mmdb" using v by (rule mult_le_mono1)
  also have "\<dots> < 2 ^ 32" using wf by (simp add: tree_wf_def)
  finally have p: "record_pointer (record_info_for_database mmdb) (file_content mmdb) (word_of_nat v) = ?p"
    by (rule record_pointer_small)
  have u: "(ucast (word_of_nat (record_value (node_size mmdb) nd b) :: u32) :: u64)
      = word_of_nat (record_value (node_size mmdb) nd b)" for b
    using record_value_less[OF st(2), of b] wf
    by (auto simp: unsigned_of_nat take_bit_nat_eq_self tree_wf_def)
  show ?thesis
    using wf
  proof (cases rule: tree_wf_cases)
    case 1
    with st layout24.get_left_stored[of ?p nd] layout24.get_right_stored[of ?p nd] n u show ?thesis
      unfolding MMDB_read_node_def Let_def p by (simp add: record_info_for_database_def Let_def)
  next
    case 2
    with st layout28.get_left_stored[of ?p nd] layout28.get_right_stored[of ?p nd] n u show ?thesis
      unfolding MMDB_read_node_def Let_def p by (simp add: record_info_for_database_def Let_def)
  next
    case 3
    with st layout32.get_left_stored[of ?p nd] layout32.get_right_stored[of ?p nd] n u show ?thesis
      unfolding MMDB_read_node_def Let_def p by (simp add: record_info_for_database_def Let_def)
  qed
qed

text \<open>
  \<open>MMDB_read_node\<close> reads back every node of a tree written in the file format, for the record
  sizes 24, 28 (with the shared middle byte) and 32.
\<close>
theorem read_node_reads_written_tree:
  assumes wf: "tree_wf mmdb" and content: "file_content mmdb = Ptr (written_tree (node_size mmdb) ns @ rest) 0"
    and nodes: "nodes_of mmdb = length ns" and v: "v < length ns" "ns ! v = (l, r)"
    and fit: "l < 2 ^ (4 * node_size mmdb)" "r < 2 ^ (4 * node_size mmdb)"
  shows "MMDB_read_node mmdb (word_of_nat v) node
    = Done (MMDB_SUCCESS, node\<lparr>left_record := word_of_nat l, right_record := word_of_nat r\<rparr>)"
proof -
  have sz: "node_size mmdb \<in> {6, 7, 8}" using wf by (auto simp: tree_wf_def)
  let ?nd = "node_bytes (node_size mmdb) l r"
  have "stored (ptr_add (file_content mmdb) (v * node_size mmdb)) ?nd"
    using written_tree_nth[OF sz v(1), of rest] v(2) length_node_bytes[OF sz, of l r]
    by (simp add: content stored_take_drop)
  from read_node_stored[OF wf _ this length_node_bytes[OF sz]] show ?thesis
    using v(1) nodes record_value_node_bytes[OF sz fit] by simp
qed

theorem read_node_reads_written_tree_witness:
  "MMDB_read_node (example_db\<lparr>full_record_byte_size := 7,
       file_content := Ptr (written_tree 7 [(1, 2), (0xABCDEF1, 0x2345678)] @ [0, 0]) 0\<rparr>) 1 \<lparr>left_record = 0, right_record = 0\<rparr>
    = Done (MMDB_SUCCESS, \<lparr>left_record = 0xABCDEF1, right_record = 0x2345678\<rparr>)"
proof -
  let ?ns = "[(1, 2), (0xABCDEF1, 0x2345678)] :: (nat \<times> nat) list"
  let ?db = "example_db\<lparr>full_record_byte_size := 7, file_content := Ptr (written_tree 7 ?ns @ [0, 0]) 0\<rparr>"
  have len: "length (written_tree 7 ?ns) = 14"
    by (simp add: written_tree_def node_bytes_def)
  have "tree_wf ?db"
    using len by (simp add: tree_wf_def example_db_def zero_mmdb_def zero_metadata_def)
  from read_node_reads_written_tree[OF this, where ns = ?ns and rest = "[0, 0]" and v = 1
      and l = "0xABCDEF1" and r = "0x2345678" and node = "\<lparr>left_record = 0, right_record = 0\<rparr>"]
  show ?thesis by (simp add: example_db_def zero_mmdb_def zero_metadata_def)
qed

lemma layout_offset: "right_record_offset (record_info_for_database mmdb) = 0 \<longleftrightarrow> full_record_byte_size mmdb \<notin> {6, 7, 8}"
  by (auto simp: record_info_for_database_def Let_def)

text \<open>
  \<open>MMDB_read_node\<close> refuses a handle of an unknown record size, and a number above the number
  of nodes, each with its own status and the caller's node unchanged, before it reads a byte.
\<close>
theorem read_node_refuses:
  "(full_record_byte_size mmdb \<notin> {6, 7, 8} \<longrightarrow>
      MMDB_read_node mmdb v node = Done (MMDB_UNKNOWN_DATABASE_FORMAT_ERROR, node))
   \<and> (full_record_byte_size mmdb \<in> {6, 7, 8} \<and> node_count (metadata mmdb) < v \<longrightarrow>
      MMDB_read_node mmdb v node = Done (MMDB_INVALID_NODE_NUMBER_ERROR, node))"
  using layout_offset[of mmdb] by (auto simp: MMDB_read_node_def Let_def)

theorem read_node_refuses_witness:
  "MMDB_read_node (example_db\<lparr>full_record_byte_size := 5\<rparr>) 0 \<lparr>left_record = 1, right_record = 2\<rparr>
    = Done (MMDB_UNKNOWN_DATABASE_FORMAT_ERROR, \<lparr>left_record = 1, right_record = 2\<rparr>)
   \<and> MMDB_read_node example_db 3 \<lparr>left_record = 1, right_record = 2\<rparr>
    = Done (MMDB_INVALID_NODE_NUMBER_ERROR, \<lparr>left_record = 1, right_record = 2\<rparr>)"
  using read_node_refuses[of "example_db\<lparr>full_record_byte_size := 5\<rparr>" 0 "\<lparr>left_record = 1, right_record = 2\<rparr>"]
    read_node_refuses[of example_db 3 "\<lparr>left_record = 1, right_record = 2\<rparr>"]
  by (simp add: example_db_def zero_metadata_def)

text \<open>
  The number of nodes itself passes that test: on a tree followed by its separator,
  \<open>MMDB_read_node\<close> returns the zero bytes behind the last node as a node.
\<close>
theorem read_node_accepts_node_count:
  assumes wf: "tree_wf mmdb"
    and sep: "stored (ptr_add (file_content mmdb) (nodes_of mmdb * node_size mmdb)) (replicate (node_size mmdb) 0)"
  shows "MMDB_read_node mmdb (node_count (metadata mmdb)) node
    = Done (MMDB_SUCCESS, node\<lparr>left_record := 0, right_record := 0\<rparr>)"
proof -
  have "be_val (replicate k 0) = 0" for k by (induction k) simp_all
  then have "record_value (node_size mmdb) (replicate (node_size mmdb) 0) b = 0" for b
    using wf by (auto simp: tree_wf_def record_value_def)
  with read_node_stored[OF wf order_refl sep, of node] show ?thesis by simp
qed

theorem read_node_accepts_node_count_witness:
  "MMDB_read_node example_db 2 \<lparr>left_record = 1, right_record = 2\<rparr>
    = Done (MMDB_SUCCESS, \<lparr>left_record = 0, right_record = 0\<rparr>)"
proof -
  have "stored (ptr_add (file_content example_db) (nodes_of example_db * node_size example_db))
      (replicate (node_size example_db) 0)"
    by (simp add: stored_def example_db_def zero_mmdb_def zero_metadata_def db_bytes_def nth_append)
  from read_node_accepts_node_count[OF example_db_wf this, of "\<lparr>left_record = 1, right_record = 2\<rparr>"]
  show ?thesis by (simp add: example_db_def zero_metadata_def)
qed

section \<open>Looking a string up\<close>

text \<open>
  What is relied on of \<open>getaddrinfo\<close>: status 0 comes with an address of complete length.
\<close>

definition gai_ok :: "getaddrinfo \<Rightarrow> bool" where
  "gai_ok gai \<longleftrightarrow> (\<forall>s hints. fst (gai s hints) = 0 \<longrightarrow> (\<exists>sa. snd (gai s hints) = Some sa \<and> sockaddr_wf sa))"

lemma resolve_ok:
  assumes "gai_ok gai" "fst (resolve_any_address gai ipstr) = 0"
  shows "\<exists>sa. resolve_any_address gai ipstr = (0, Some sa) \<and> sockaddr_wf sa"
proof -
  obtain hints where "resolve_any_address gai ipstr
      = (case gai ipstr hints of (g, a) \<Rightarrow> if g \<noteq> 0 then (g, a) else (0, a))"
    by (auto simp: resolve_any_address_def Let_def)
  then show ?thesis
    using assms by (auto simp: gai_ok_def split: prod.splits if_splits) (metis fst_conv snd_conv)
qed

text \<open>
  C33: A lookup of a string always returns. When the resolver fails, its status is passed on,
  nothing is found and the caller's error variable is not touched. An IPv6 address in an IPv4
  database gets its own error. In every other case the result and status are those of
  \<open>MMDB_lookup_sockaddr\<close> for the first address of the resolver, and the status is assigned.
\<close>
theorem lookup_string_outcomes:
  assumes wf: "tree_wf mmdb" and cache: "cache_ok mmdb" and gai: "gai_ok gai"
  shows "case resolve_any_address gai ipstr of (g, addresses) \<Rightarrow>
    if g \<noteq> 0 then MMDB_lookup_string gai mmdb ipstr err = Done (no_result, g, err, mmdb)
    else \<exists>sa res st mmdb'. addresses = Some sa
      \<and> MMDB_lookup_string gai mmdb ipstr err = Done (res, 0, Some st, mmdb')
      \<and> (if ip_version (metadata mmdb) = 4 \<and> family sa = AF_INET6
         then st = MMDB_IPV6_LOOKUP_IN_IPV4_DATABASE_ERROR \<and> res = no_result \<and> mmdb' = mmdb
         else MMDB_lookup_sockaddr mmdb sa err = Done (res, Some st, mmdb') \<and> answer_ok mmdb (res, st))"
proof (cases "fst (resolve_any_address gai ipstr) = 0")
  case False
  then obtain g a where "resolve_any_address gai ipstr = (g, a)" "g \<noteq> 0"
    by (cases "resolve_any_address gai ipstr") auto
  then show ?thesis by (simp add: MMDB_lookup_string_def)
next
  case True
  obtain sa where sa: "resolve_any_address gai ipstr = (0, Some sa)" "sockaddr_wf sa"
    using resolve_ok[OF gai True] by blast
  show ?thesis
  proof (cases "ip_version (metadata mmdb) = 4 \<and> family sa = AF_INET6")
    case True
    then show ?thesis using sa(1) by (simp add: MMDB_lookup_string_def)
  next
    case False
    with lookup_cases[OF wf cache sa(2), of err] obtain res st mmdb' where
      "MMDB_lookup_sockaddr mmdb sa err = Done (res, Some st, mmdb')" "answer_ok mmdb (res, st)"
      by blast
    with False sa(1) show ?thesis by (auto simp: MMDB_lookup_string_def)
  qed
qed

definition example_gai :: getaddrinfo where
  "example_gai s hints =
     (if s = ''64.0.0.0'' then (0, Some (ipv4 [64, 0, 0, 0]))
      else if s = ''::1'' \<and> ai_family hints = AF_INET6 then (0, Some (ipv6 (replicate 15 0 @ [1])))
      else (- 2, None))"

theorem lookup_string_outcomes_witness:
  "MMDB_lookup_string example_gai example_db ''64.0.0.0'' None
      = Done (\<lparr>found_entry = True, entry = \<lparr>entry_offset = 10\<rparr>, netmask = 2\<rparr>, 0, Some MMDB_SUCCESS, example_db)
    \<and> MMDB_lookup_string example_gai example_db ''::1'' None
      = Done (no_result, 0, Some MMDB_IPV6_LOOKUP_IN_IPV4_DATABASE_ERROR, example_db)
    \<and> MMDB_lookup_string example_gai example_db ''x'' None = Done (no_result, - 2, None, example_db)"
proof -
  have gai: "gai_ok example_gai"
    by (simp add: gai_ok_def example_gai_def ipv4_def ipv6_def sockaddr_wf_def)
  have cache: "cache_ok example_db"
    by (simp add: cache_ok_def example_db_def zero_mmdb_def)
  have r: "resolve_any_address example_gai ''64.0.0.0'' = (0, Some (ipv4 [64, 0, 0, 0]))"
    "resolve_any_address example_gai ''::1'' = (0, Some (ipv6 (replicate 15 0 @ [1])))"
    "resolve_any_address example_gai ''x'' = (- 2, None)"
    by code_simp+
  have l: "MMDB_lookup_sockaddr example_db (ipv4 [64, 0, 0, 0]) None
    = Done (\<lparr>found_entry = True, entry = \<lparr>entry_offset = 10\<rparr>, netmask = 2\<rparr>, Some MMDB_SUCCESS, example_db)"
    by code_simp
  have v: "ip_version (metadata example_db) = 4" "family (ipv4 as) = AF_INET" "family (ipv6 as) = AF_INET6" for as
    by (simp_all add: example_db_def ipv4_def ipv6_def)
  note w = lookup_string_outcomes[OF example_db_wf cache gai, of _ None]
  show ?thesis
    using w[of "''64.0.0.0''"] w[of "''::1''"] w[of "''x''"]
    unfolding r by (simp add: l v)
qed

text \<open>
  \<open>MMDB_lookup_sockaddr\<close> called directly with an IPv6 address on an IPv4 database finds
  nothing and leaves the caller's error variable as it was, although the string lookup reports
  an error for the same address.
\<close>
theorem ipv6_sockaddr_in_ipv4_database:
  assumes "ip_version (metadata mmdb) = 4" "family sa = AF_INET6"
    "resolve_any_address gai ipstr = (0, Some sa)"
  shows "MMDB_lookup_sockaddr mmdb sa err = Done (no_result, err, mmdb)
    \<and> MMDB_lookup_string gai mmdb ipstr err
        = Done (no_result, 0, Some MMDB_IPV6_LOOKUP_IN_IPV4_DATABASE_ERROR, mmdb)"
  using assms by (simp add: lookup_refused MMDB_lookup_string_def)

theorem ipv6_sockaddr_in_ipv4_database_witness:
  "MMDB_lookup_sockaddr example_db (ipv6 (replicate 15 0 @ [1])) None = Done (no_result, None, example_db)
    \<and> MMDB_lookup_string example_gai example_db ''::1'' None
        = Done (no_result, 0, Some MMDB_IPV6_LOOKUP_IN_IPV4_DATABASE_ERROR, example_db)"
proof (rule ipv6_sockaddr_in_ipv4_database)
  show "resolve_any_address example_gai ''::1'' = (0, Some (ipv6 (replicate 15 0 @ [1])))"
    by code_simp
qed (simp_all add: example_db_def ipv6_def)

end
