(* ===== verification/Threads.thy ===== *)
theory Threads
  imports LookupTheorems
begin

text \<open>
  Lookups of IPv4 addresses by several threads on one handle for an IPv6 database. They share the
  member \<open>ipv4_start_node\<close>, which \<open>find_ipv4_start_node\<close> of \<^verbatim>\<open>libmaxminddb/src/maxminddb.c\<close> tests, fills in and
  copies without a lock. Each access to one of its two members is a step; steps of the threads
  interleave in any order, and each sees what was stored last. The language promises less
  for such a program, so what goes wrong here goes wrong under every reading of it.
\<close>

section \<open>The steps of one thread\<close>

text \<open>
  Where a thread is: before the test; before and between the two stores of a computed start
  node; before and between the two reads of the copy that is returned, in either order; after
  \<open>find_ipv4_start_node\<close>, with the copy; and after the lookup.
\<close>

datatype thread_pc =
    Enters
  | Stores_value u32 u32
  | Stores_netmask u32
  | Copies
  | Copied_value u32
  | Copied_netmask u16
  | Searches MMDB_ipv4_start_node_s
  | Returned status MMDB_lookup_result_s

record threads =
  shared :: MMDB_s
  pcs :: "nat \<Rightarrow> thread_pc"

abbreviation moves :: "threads \<Rightarrow> nat \<Rightarrow> thread_pc \<Rightarrow> threads" where
  "moves s t pc \<equiv> s\<lparr>pcs := (pcs s)(t := pc)\<rparr>"

abbreviation cached :: "threads \<Rightarrow> MMDB_ipv4_start_node_s" where
  "cached s \<equiv> ipv4_start_node (shared s)"

abbreviation stores :: "threads \<Rightarrow> MMDB_ipv4_start_node_s \<Rightarrow> threads" where
  "stores s start \<equiv> s\<lparr>shared := (shared s)\<lparr>ipv4_start_node := start\<rparr>\<rparr>"

text \<open>What \<open>find_address_in_search_tree\<close> does with the start node it was given.\<close>

definition search_from_start :: "MMDB_s \<Rightarrow> cptr \<Rightarrow> MMDB_ipv4_start_node_s \<Rightarrow> MMDB_lookup_result_s outcome" where
  "search_from_start mmdb address start =
     (let nodes = node_count (metadata mmdb); max_depth0 = depth mmdb - 1 in
      if node_value start \<ge> nodes then Done (populate_result mmdb nodes (node_value start) (start_netmask start) no_result)
      else search_loop mmdb (record_info_for_database mmdb) address max_depth0
             (Suc (unat (max_depth0 - start_netmask start))) (node_value start) no_result)"

text \<open>The address in the form in which it is looked up.\<close>

abbreviation mapped_address :: "u8 list \<Rightarrow> cptr" where
  "mapped_address as \<equiv> Ptr (replicate 12 0 @ as) 0"

text \<open>
  A step of thread \<open>t\<close>, which looks up the address with the bytes \<open>addr t\<close>. The loop that computes the start
  node reads only what no thread changes, so it is one step, and so is the search of the tree.
\<close>

inductive thread_step :: "(nat \<Rightarrow> u8 list) \<Rightarrow> nat \<Rightarrow> threads \<Rightarrow> threads \<Rightarrow> bool" for addr t s where
  is_cached: "pcs s t = Enters \<Longrightarrow> node_value (cached s) \<noteq> 0 \<Longrightarrow> thread_step addr t s (moves s t Copies)"
| computes: "pcs s t = Enters \<Longrightarrow> node_value (cached s) = 0 \<Longrightarrow>
     ipv4_start_loop (record_info_for_database (shared s)) (file_content (shared s))
       (node_count (metadata (shared s))) 96 0 0 = Done (value, nm) \<Longrightarrow>
     thread_step addr t s (moves s t (Stores_value value nm))"
| stores_value: "pcs s t = Stores_value value nm \<Longrightarrow>
     thread_step addr t s (moves (stores s ((cached s)\<lparr>node_value := value\<rparr>)) t (Stores_netmask nm))"
| stores_netmask: "pcs s t = Stores_netmask nm \<Longrightarrow>
     thread_step addr t s (moves (stores s ((cached s)\<lparr>start_netmask := ucast nm\<rparr>)) t Copies)"
| copies_value: "pcs s t = Copies \<Longrightarrow> thread_step addr t s (moves s t (Copied_value (node_value (cached s))))"
| copies_netmask: "pcs s t = Copies \<Longrightarrow> thread_step addr t s (moves s t (Copied_netmask (start_netmask (cached s))))"
| then_netmask: "pcs s t = Copied_value value \<Longrightarrow>
     thread_step addr t s (moves s t (Searches \<lparr>start_netmask = start_netmask (cached s), node_value = value\<rparr>))"
| then_value: "pcs s t = Copied_netmask nm \<Longrightarrow>
     thread_step addr t s (moves s t (Searches \<lparr>start_netmask = nm, node_value = node_value (cached s)\<rparr>))"
| searches: "pcs s t = Searches start \<Longrightarrow>
     search_from_start (shared s) (mapped_address (addr t)) start = Done (st, result) \<Longrightarrow>
     thread_step addr t s (moves s t (Returned st result))"

inductive_cases thread_stepE: "thread_step addr t s s'"

text \<open>All threads enter with the same handle.\<close>

definition threads_start :: "MMDB_s \<Rightarrow> threads" where
  "threads_start mmdb = \<lparr>shared = mmdb, pcs = (\<lambda>_. Enters)\<rparr>"

inductive threads_reachable :: "(nat \<Rightarrow> u8 list) \<Rightarrow> MMDB_s \<Rightarrow> threads \<Rightarrow> bool" for addr mmdb where
  threads_begin: "threads_reachable addr mmdb (threads_start mmdb)"
| threads_go: "threads_reachable addr mmdb s \<Longrightarrow> thread_step addr t s s' \<Longrightarrow> threads_reachable addr mmdb s'"

text \<open>How many steps of its own a thread has left at most.\<close>

fun steps_left :: "thread_pc \<Rightarrow> nat" where
  "steps_left Enters = 6"
| "steps_left (Stores_value value nm) = 5"
| "steps_left (Stores_netmask nm) = 4"
| "steps_left Copies = 3"
| "steps_left (Copied_value value) = 2"
| "steps_left (Copied_netmask nm) = 2"
| "steps_left (Searches start) = 1"
| "steps_left (Returned st result) = 0"

lemma thread_step_counts:
  "thread_step addr t s s' \<Longrightarrow> steps_left (pcs s' t) < steps_left (pcs s t)"
  "thread_step addr t s s' \<Longrightarrow> t' \<noteq> t \<Longrightarrow> pcs s' t' = pcs s t'"
  by (auto elim!: thread_stepE)

section \<open>The start node and its values\<close>

text \<open>A handle for an IPv6 database, as opening leaves it or with a start node in it.\<close>

definition shared_ok :: "MMDB_s \<Rightarrow> bool" where
  "shared_ok mmdb \<longleftrightarrow> tree_wf mmdb \<and> ip_version (metadata mmdb) = 6"

lemma shared_ok_cache [simp]: "shared_ok (mmdb\<lparr>ipv4_start_node := start\<rparr>) = shared_ok mmdb"
  by (simp add: shared_ok_def)

lemma start_loop_computed:
  assumes "shared_ok mmdb"
  shows "\<exists>value nm. ipv4_start_loop (record_info_for_database mmdb) (file_content mmdb)
      (node_count (metadata mmdb)) 96 0 0 = Done (value, nm)
    \<and> computed_start mmdb = \<lparr>start_netmask = ucast nm, node_value = value\<rparr>"
proof -
  have wf: "tree_wf mmdb" and "0 < nodes_of mmdb" using assms by (auto simp: shared_ok_def tree_wf_def)
  obtain r m where rm: "start_walk mmdb = (r, m)" by force
  have "m \<le> 96" using left_walk_range[OF rm[unfolded start_walk_def]] by simp
  then have "take_bit 32 m = m" by (simp add: take_bit_nat_eq_self_iff)
  then have "(ucast (word_of_nat m :: u32) :: u16) = word_of_nat m"
    by (simp add: unsigned_of_nat)
  with ipv4_start_loop_left_walk[OF wf \<open>0 < nodes_of mmdb\<close>, of 96 0] rm show ?thesis
    by (simp add: computed_start_def start_walk_def)
qed

text \<open>The search from a start node whose netmask was read as \<open>k\<close>.\<close>

definition answer_from :: "MMDB_s \<Rightarrow> u8 list \<Rightarrow> u16 \<Rightarrow> status \<times> MMDB_lookup_result_s" where
  "answer_from mmdb as k =
     (case start_walk mmdb of (r, m) \<Rightarrow>
        if nodes_of mmdb \<le> r then report mmdb no_result r (128 - unat k)
        else walk_report mmdb no_result
          (walk (tree_child mmdb) (nodes_of mmdb) (unat k) r (drop (unat k) (addr_bits (replicate 12 0 @ as)))))"

lemma search_from_start_answers:
  assumes ok: "shared_ok mmdb" and k: "unat k \<le> 96" and len: "length as = 4"
  shows "search_from_start mmdb (mapped_address as) \<lparr>start_netmask = k, node_value = node_value (computed_start mmdb)\<rparr>
    = Done (answer_from mmdb as k)"
proof -
  have wf: "tree_wf mmdb" and n0: "0 < nodes_of mmdb" and d: "depth mmdb = 128"
    using ok by (auto simp: shared_ok_def tree_wf_def)
  obtain r m where rm: "start_walk mmdb = (r, m)" by force
  have r32: "r < 2 ^ 32" using left_walk_bound[OF wf n0] rm by (auto simp: start_walk_def)
  have v: "node_value (computed_start mmdb) = word_of_nat r" by (simp add: computed_start_def rm)
  have ge: "node_count (metadata mmdb) \<le> word_of_nat r \<longleftrightarrow> nodes_of mmdb \<le> r"
    using r32 by (intro word_of_nat_ge_iff) simp
  have "k \<le> 127" using k by (simp add: word_le_nat_alt)
  then have "unat (127 - k) = 127 - unat k" using unat_sub[of k 127] by simp
  then have rounds: "Suc (unat (depth mmdb - 1 - k)) = 128 - unat k" using d k by simp
  show ?thesis
  proof (cases "nodes_of mmdb \<le> r")
    case True
    have "populate_result mmdb (node_count (metadata mmdb)) (word_of_nat r) k no_result
        = report mmdb no_result r (128 - unat k)"
      using populate_result_report[of r mmdb "128 - unat k" no_result] r32 True d k by simp
    then show ?thesis using True ge v rm by (simp add: search_from_start_def answer_from_def Let_def)
  next
    case False
    have "search_loop mmdb (record_info_for_database mmdb) (mapped_address as) (depth mmdb - 1) (128 - unat k)
        (word_of_nat r) no_result = Done (answer_from mmdb as k)"
      using search_loop_walk[of mmdb "replicate 12 0 @ as" "128 - unat k" r no_result] wf d len False k rm
      by (simp add: answer_from_def)
    then show ?thesis using False ge v rounds by (simp add: search_from_start_def Let_def)
  qed
qed

text \<open>With the netmask that was computed, this is the answer of a lookup without other threads.\<close>

lemma lookup_alone:
  assumes ok: "shared_ok mmdb" and cache: "cache_ok mmdb" and len: "length as = 4"
  shows "MMDB_lookup_sockaddr mmdb (ipv4 as) err
    = Done (case answer_from mmdb as (start_netmask (computed_start mmdb)) of
        (st, res) \<Rightarrow> (res, Some st, mmdb\<lparr>ipv4_start_node := computed_start mmdb\<rparr>))"
proof -
  have wf: "tree_wf mmdb" and six: "ip_version (metadata mmdb) = 6" using ok by (auto simp: shared_ok_def)
  obtain r m where rm: "start_walk mmdb = (r, m)" by force
  have m: "m \<le> 96" "r < nodes_of mmdb \<Longrightarrow> m = 96"
    using left_walk_range[OF rm[unfolded start_walk_def]] by auto
  have k: "unat (start_netmask (computed_start mmdb)) = m"
    using m(1) by (simp add: computed_start_def rm unat_of_nat)
  have "drop 96 (addr_bits (replicate 12 0 @ as)) = addr_bits as" by (simp add: addr_bits_append)
  then have "answer_from mmdb as (start_netmask (computed_start mmdb))
    = (if nodes_of mmdb \<le> r then report mmdb no_result r (128 - m)
       else walk_report mmdb no_result (walk (tree_child mmdb) (nodes_of mmdb) 96 r (addr_bits as)))"
    using m(2) by (auto simp: answer_from_def rm k not_le)
  then show ?thesis
    using lookup_ipv4_in_ipv6[OF wf cache six, of "ipv4 as" r m err] len rm by (simp add: ipv4_def)
qed

end
