(* ===== verification/ThreadTheorems.thy ===== *)
theory ThreadTheorems
  imports Threads
begin

text \<open>
  What threads that share a handle get: an invariant of all interleavings, the state in which a thread
  reads a start node that is half stored, and the use of a handle that is safe.
\<close>

section \<open>The invariant\<close>

text \<open>
  \<open>values\<close> and \<open>netmasks\<close> are what the two members of the start node may hold. A thread that is past the
  test, or past its own first store, knows that the value is the computed one.
\<close>

fun pc_ok :: "MMDB_s \<Rightarrow> u16 set \<Rightarrow> u8 list \<Rightarrow> u32 \<Rightarrow> thread_pc \<Rightarrow> bool" where
  "pc_ok mmdb netmasks as cur Enters \<longleftrightarrow> True"
| "pc_ok mmdb netmasks as cur (Stores_value value nm) \<longleftrightarrow>
     computed_start mmdb = \<lparr>start_netmask = ucast nm, node_value = value\<rparr>"
| "pc_ok mmdb netmasks as cur (Stores_netmask nm) \<longleftrightarrow>
     start_netmask (computed_start mmdb) = ucast nm \<and> cur = node_value (computed_start mmdb)"
| "pc_ok mmdb netmasks as cur Copies \<longleftrightarrow> cur = node_value (computed_start mmdb)"
| "pc_ok mmdb netmasks as cur (Copied_value value) \<longleftrightarrow> value = node_value (computed_start mmdb)"
| "pc_ok mmdb netmasks as cur (Copied_netmask nm) \<longleftrightarrow> nm \<in> netmasks \<and> cur = node_value (computed_start mmdb)"
| "pc_ok mmdb netmasks as cur (Searches start) \<longleftrightarrow>
     start_netmask start \<in> netmasks \<and> node_value start = node_value (computed_start mmdb)"
| "pc_ok mmdb netmasks as cur (Returned st result) \<longleftrightarrow> (\<exists>k \<in> netmasks. (st, result) = answer_from mmdb as k)"

definition threads_ok :: "(nat \<Rightarrow> u8 list) \<Rightarrow> MMDB_s \<Rightarrow> u32 set \<Rightarrow> u16 set \<Rightarrow> threads \<Rightarrow> bool" where
  "threads_ok addr mmdb values netmasks s \<longleftrightarrow>
     shared s = mmdb\<lparr>ipv4_start_node := cached s\<rparr>
     \<and> node_value (cached s) \<in> values \<and> start_netmask (cached s) \<in> netmasks
     \<and> (\<forall>t. pc_ok mmdb netmasks (addr t) (node_value (cached s)) (pcs s t))"

text \<open>The value never changes back, so a store of one thread keeps what the others know.\<close>

lemma pc_ok_value:
  "pc_ok mmdb netmasks as cur pc \<Longrightarrow> pc_ok mmdb netmasks as (node_value (computed_start mmdb)) pc"
  by (cases pc) auto

text \<open>The netmasks that occur are small, and the computed start node may be stored.\<close>

definition may_hold :: "MMDB_s \<Rightarrow> u32 set \<Rightarrow> u16 set \<Rightarrow> bool" where
  "may_hold mmdb values netmasks \<longleftrightarrow> shared_ok mmdb \<and> values \<subseteq> {0, node_value (computed_start mmdb)}
     \<and> node_value (computed_start mmdb) \<in> values
     \<and> start_netmask (computed_start mmdb) \<in> netmasks \<and> (\<forall>k \<in> netmasks. unat k \<le> 96)"

lemma answer_from_cache [simp]: "answer_from (mmdb\<lparr>ipv4_start_node := start\<rparr>) = answer_from mmdb"
  by (intro ext) (simp add: answer_from_def split: prod.split)

lemma same_start:
  "shared s = mmdb\<lparr>ipv4_start_node := cached s\<rparr> \<Longrightarrow> computed_start (shared s) = computed_start mmdb"
  by (metis cache_irrelevant(4))

lemma search_answers:
  assumes h: "may_hold mmdb values netmasks" and s: "shared s = mmdb\<lparr>ipv4_start_node := cached s\<rparr>"
    and len: "length as = 4"
    and start: "start_netmask start \<in> netmasks" "node_value start = node_value (computed_start mmdb)"
  shows "search_from_start (shared s) (mapped_address as) start = Done (answer_from mmdb as (start_netmask start))"
proof -
  have "shared_ok (shared s)" using h s by (metis may_hold_def shared_ok_cache)
  moreover have "unat (start_netmask start) \<le> 96" using h start(1) by (simp add: may_hold_def)
  moreover have "start = \<lparr>start_netmask = start_netmask start, node_value = node_value (computed_start (shared s))\<rparr>"
    using start(2) same_start[OF s] by simp
  moreover have "answer_from (shared s) = answer_from mmdb" using s by (metis answer_from_cache)
  ultimately show ?thesis using search_from_start_answers[of "shared s" "start_netmask start" as] len by metis
qed

lemma thread_step_ok:
  assumes h: "may_hold mmdb values netmasks" and len: "\<forall>t. length (addr t) = 4"
    and ok: "threads_ok addr mmdb values netmasks s" and step: "thread_step addr t s s'"
  shows "threads_ok addr mmdb values netmasks s'"
proof -
  have sh: "shared s = mmdb\<lparr>ipv4_start_node := cached s\<rparr>"
    and val: "node_value (cached s) \<in> values" and nm: "start_netmask (cached s) \<in> netmasks"
    and pcs: "\<And>t. pc_ok mmdb netmasks (addr t) (node_value (cached s)) (pcs s t)"
    using ok by (auto simp: threads_ok_def)
  have upd: "(shared s)\<lparr>ipv4_start_node := start\<rparr> = mmdb\<lparr>ipv4_start_node := start\<rparr>" for start
    using arg_cong[OF sh, of "\<lambda>m. m\<lparr>ipv4_start_node := start\<rparr>"] by simp
  have stay: "threads_ok addr mmdb values netmasks (moves s t pc)"
    if "pc_ok mmdb netmasks (addr t) (node_value (cached s)) pc" for pc
    using ok that by (simp add: threads_ok_def)
  from step show ?thesis
  proof (cases rule: thread_step.cases)
    case is_cached
    then have "node_value (cached s) = node_value (computed_start mmdb)"
      using h val by (auto simp: may_hold_def)
    then show ?thesis using stay is_cached(1) by simp
  next
    case (computes v nm)
    have "shared_ok (shared s)" using h sh by (metis may_hold_def shared_ok_cache)
    from start_loop_computed[OF this] computes(4) have "pc_ok mmdb netmasks (addr t) (node_value (cached s)) (Stores_value v nm)"
      using same_start[OF sh] by simp
    then show ?thesis using stay computes(1) by simp
  next
    case (stores_value v nm)
    then have c: "computed_start mmdb = \<lparr>start_netmask = ucast nm, node_value = v\<rparr>" using pcs[of t] by simp
    then show ?thesis
      unfolding stores_value(1) threads_ok_def using nm h pc_ok_value[OF pcs]
      by (auto simp: may_hold_def upd)
  next
    case (stores_netmask nm)
    then show ?thesis
      unfolding stores_netmask(1) threads_ok_def using val h pcs pcs[of t]
      by (auto simp: may_hold_def upd)
  next
    case (searches start st result)
    then have "start_netmask start \<in> netmasks" "node_value start = node_value (computed_start mmdb)"
      using pcs[of t] by simp_all
    with search_answers[OF h sh, of "addr t" start] len searches(3) stay searches(1) show ?thesis by force
  next
    case copies_value
    then show ?thesis using stay pcs[of t] by simp
  next
    case copies_netmask
    then show ?thesis using stay nm pcs[of t] by simp
  next
    case (then_netmask v)
    then show ?thesis using stay nm pcs[of t] by simp
  next
    case (then_value nm)
    then show ?thesis using stay pcs[of t] by simp
  qed
qed

lemma threads_reachable_ok:
  assumes "may_hold mmdb values netmasks" "\<forall>t. length (addr t) = 4"
    and "node_value (ipv4_start_node mmdb) \<in> values" "start_netmask (ipv4_start_node mmdb) \<in> netmasks"
  shows "threads_reachable addr mmdb s \<Longrightarrow> threads_ok addr mmdb values netmasks s"
proof (induction rule: threads_reachable.induct)
  case threads_begin
  then show ?case using assms(3,4) by (simp add: threads_ok_def threads_start_def)
next
  case (threads_go s t s')
  then show ?case using thread_step_ok[OF assms(1,2)] by blast
qed


section \<open>A database with an IPv4 subtree\<close>

text \<open>
  A tree as databases have it: 96 nodes in a row for the zero bits, each with nothing on its right, and
  a node for the first bit of IPv4 addresses, with the string \<open>a\<close> for those that begin with 0 and \<open>b\<close> for the others.
\<close>

definition chain_nodes :: "(nat \<times> nat) list" where
  "chain_nodes = map (\<lambda>i. (i + 1, 97)) [0..<96] @ [(97 + 16, 97 + 18)]"

definition chain_bytes :: "u8 list" where
  "chain_bytes = written_tree 6 chain_nodes @ replicate 16 0 @ [0x41, 0x61, 0x41, 0x62]"

definition chain_db :: MMDB_s where
  "chain_db = zero_mmdb\<lparr>file_size := 602, file_content := Ptr chain_bytes 0, data_section := Ptr chain_bytes 582,
     data_section_size := 20, full_record_byte_size := 6, depth := 128,
     metadata := zero_metadata\<lparr>node_count := 97, record_size := 24, ip_version := 6\<rparr>\<rparr>"

lemma length_chain_bytes: "length chain_bytes = 602"
proof -
  have "length (written_tree 6 ns) = 6 * length ns" for ns
    by (induction ns) (auto simp: written_tree_def length_node_bytes)
  then show ?thesis by (simp add: chain_bytes_def chain_nodes_def)
qed

lemma chain_db_ok: "shared_ok chain_db" "ipv4_start_node chain_db = \<lparr>start_netmask = 0, node_value = 0\<rparr>"
  by (simp_all add: shared_ok_def tree_wf_def chain_db_def zero_mmdb_def zero_metadata_def length_chain_bytes)

lemma chain_child:
  assumes "v < 97"
  shows "tree_child chain_db v b = (if b then snd (chain_nodes ! v) else fst (chain_nodes ! v))"
proof -
  have v: "v < length chain_nodes" using assms by (simp add: chain_nodes_def)
  have "chain_nodes ! v = (if v < 96 then (v + 1, 97) else (113, 115))"
    using assms by (auto simp: chain_nodes_def nth_append)
  then have fit: "fst (chain_nodes ! v) < 2 ^ (4 * 6)" "snd (chain_nodes ! v) < 2 ^ (4 * 6)" using assms by auto
  have "bytes_at (Ptr chain_bytes (v * 6)) 6 = node_bytes 6 (fst (chain_nodes ! v)) (snd (chain_nodes ! v))"
    unfolding bytes_at.simps chain_bytes_def by (rule written_tree_nth[OF _ v]) simp
  with record_value_node_bytes[OF _ fit, of b] show ?thesis
    by (simp add: tree_child_def chain_db_def)
qed

lemma chain_zeros:
  "k \<le> 96 \<Longrightarrow> walk (tree_child chain_db) (nodes_of chain_db) d (96 - k) (replicate k False) = Inside 96"
proof (induction k arbitrary: d)
  case (Suc k)
  have "nodes_of chain_db = 97" by (simp add: chain_db_def)
  moreover have "tree_child chain_db (95 - k) False = 96 - k"
  proof -
    have "95 - k < 96" "95 - k + 1 = 96 - k" using Suc.prems by linarith+
    then show ?thesis by (simp add: chain_child chain_nodes_def nth_append)
  qed
  ultimately show ?case using Suc by (simp add: Let_def Suc_diff_Suc)
qed simp

lemma chain_start: "start_walk chain_db = (96, 96)"
  unfolding start_walk_def using left_walk_Inside[OF chain_zeros[of 96 0]] by simp

lemma chain_computed: "computed_start chain_db = \<lparr>start_netmask = 96, node_value = 96\<rparr>"
  by (simp add: computed_start_def chain_start)

lemma chain_loop: "ipv4_start_loop (record_info_for_database chain_db) (file_content chain_db)
    (node_count (metadata chain_db)) 96 0 0 = Done (96, 96)"
proof -
  have "tree_wf chain_db" using chain_db_ok(1) by (simp add: shared_ok_def)
  moreover have "0 < nodes_of chain_db" by (simp add: chain_db_def)
  ultimately show ?thesis
    using ipv4_start_loop_left_walk[of chain_db 0 96 0] chain_start by (simp add: start_walk_def)
qed

text \<open>The answers for 192.0.2.1 when the netmask is read as it was computed, and as zero.\<close>

lemma chain_answers:
  "answer_from chain_db [192, 0, 2, 1] 96
    = (MMDB_SUCCESS, \<lparr>found_entry = True, entry = \<lparr>entry_offset = 18\<rparr>, netmask = 97\<rparr>)"
  "answer_from chain_db [192, 0, 2, 1] 0
    = (MMDB_SUCCESS, \<lparr>found_entry = True, entry = \<lparr>entry_offset = 16\<rparr>, netmask = 1\<rparr>)"
proof -
  have n: "nodes_of chain_db = 97" "data_section_size chain_db = 20" by (simp_all add: chain_db_def)
  have c: "tree_child chain_db 96 False = 113" "tree_child chain_db 96 True = 115"
    by (simp_all add: chain_child chain_nodes_def nth_append)
  have b: "addr_bits [192, 0, 2, 1] = True # tl (addr_bits [192, 0, 2, 1])"
    "addr_bits (replicate 12 0 @ [192, 0, 2, 1]) = False # tl (addr_bits (replicate 12 0 @ [192, 0, 2, 1]))"
    by code_simp+
  have "drop 96 (addr_bits (replicate 12 0 @ [192, 0, 2, 1])) = addr_bits [192, 0, 2, 1]"
    by (simp add: addr_bits_append)
  then have w: "walk (tree_child chain_db) 97 96 96 (drop 96 (addr_bits (replicate 12 0 @ [192, 0, 2, 1]))) = Leaves 115 97"
    by (subst (asm) b(1)) (simp add: c)
  have w0: "walk (tree_child chain_db) 97 0 96 (addr_bits (replicate 12 0 @ [192, 0, 2, 1])) = Leaves 113 1"
    by (subst b(2)) (simp add: c)
  show "answer_from chain_db [192, 0, 2, 1] 96
      = (MMDB_SUCCESS, \<lparr>found_entry = True, entry = \<lparr>entry_offset = 18\<rparr>, netmask = 97\<rparr>)"
    "answer_from chain_db [192, 0, 2, 1] 0
      = (MMDB_SUCCESS, \<lparr>found_entry = True, entry = \<lparr>entry_offset = 16\<rparr>, netmask = 1\<rparr>)"
    using w w0 by (simp_all add: answer_from_def chain_start walk_report_def report_def no_result_def n)
qed

section \<open>Every interleaving\<close>

abbreviation empty_start :: MMDB_ipv4_start_node_s where
  "empty_start \<equiv> \<lparr>start_netmask = 0, node_value = 0\<rparr>"

lemma computed_netmask_le: "unat (start_netmask (computed_start mmdb)) \<le> 96"
proof -
  obtain r m where rm: "start_walk mmdb = (r, m)" by force
  have "m \<le> 96" using left_walk_range[OF rm[unfolded start_walk_def]] by simp
  then show ?thesis by (simp add: computed_start_def rm unat_of_nat)
qed

lemma may_hold_empty:
  "shared_ok mmdb \<Longrightarrow> may_hold mmdb {0, node_value (computed_start mmdb)} {0, start_netmask (computed_start mmdb)}"
  by (simp add: may_hold_def computed_netmask_le)

lemma may_hold_filled:
  "shared_ok mmdb \<Longrightarrow> may_hold mmdb {node_value (computed_start mmdb)} {start_netmask (computed_start mmdb)}"
  by (simp add: may_hold_def computed_netmask_le)

lemma threads_ok_empty:
  assumes "shared_ok mmdb" "ipv4_start_node mmdb = empty_start" "\<forall>t. length (addr t) = 4" "threads_reachable addr mmdb s"
  shows "threads_ok addr mmdb {0, node_value (computed_start mmdb)} {0, start_netmask (computed_start mmdb)} s"
  by (rule threads_reachable_ok[OF may_hold_empty[OF assms(1)] assms(3) _ _ assms(4)]) (simp_all add: assms(2))

text \<open>
  C12: In every interleaving of lookups on a newly opened handle, whatever the number of threads, nothing
  of the handle changes but the start node, each member of which is zero or the computed one; and
  a thread that has returned has the answer of a lookup without other threads, or the one for
  a netmask of zero, and no other.
\<close>
theorem threads_get_one_of_two_answers:
  assumes "shared_ok mmdb" "ipv4_start_node mmdb = empty_start" "\<forall>t. length (addr t) = 4"
    and "threads_reachable addr mmdb s"
  shows "(\<exists>start. shared s = mmdb\<lparr>ipv4_start_node := start\<rparr>
      \<and> node_value start \<in> {0, node_value (computed_start mmdb)}
      \<and> start_netmask start \<in> {0, start_netmask (computed_start mmdb)})
    \<and> (\<forall>t st result. pcs s t = Returned st result \<longrightarrow>
        MMDB_lookup_sockaddr mmdb (ipv4 (addr t)) None
          = Done (result, Some st, mmdb\<lparr>ipv4_start_node := computed_start mmdb\<rparr>)
        \<or> (st, result) = answer_from mmdb (addr t) 0)"
proof (intro conjI allI impI)
  note ok = threads_ok_empty[OF assms]
  show "\<exists>start. shared s = mmdb\<lparr>ipv4_start_node := start\<rparr> \<and> node_value start \<in> {0, node_value (computed_start mmdb)}
      \<and> start_netmask start \<in> {0, start_netmask (computed_start mmdb)}"
    using ok unfolding threads_ok_def by blast
  fix t st result
  assume "pcs s t = Returned st result"
  with ok have "pc_ok mmdb {0, start_netmask (computed_start mmdb)} (addr t) (node_value (cached s)) (Returned st result)"
    unfolding threads_ok_def by metis
  moreover have "cache_ok mmdb" using assms(2) by (simp add: cache_ok_def)
  ultimately show "MMDB_lookup_sockaddr mmdb (ipv4 (addr t)) None
        = Done (result, Some st, mmdb\<lparr>ipv4_start_node := computed_start mmdb\<rparr>)
      \<or> (st, result) = answer_from mmdb (addr t) 0"
    using lookup_alone[OF assms(1) _ assms(3)[rule_format], of t None] by (auto split: prod.splits)
qed

theorem threads_get_one_of_two_answers_witness:
  "\<exists>s. threads_reachable (\<lambda>_. [192, 0, 2, 1]) chain_db s \<and> pcs s 0 = Stores_value 96 96
    \<and> (\<exists>start. shared s = chain_db\<lparr>ipv4_start_node := start\<rparr> \<and> node_value start \<in> {0, 96})"
proof -
  let ?s = "moves (threads_start chain_db) 0 (Stores_value 96 96)"
  have r: "threads_reachable (\<lambda>_. [192, 0, 2, 1]) chain_db ?s"
    by (rule threads_go[OF threads_begin computes]) (simp_all add: threads_start_def chain_db_ok chain_loop)
  have "\<exists>start. shared ?s = chain_db\<lparr>ipv4_start_node := start\<rparr> \<and> node_value start \<in> {0, 96}"
    using threads_get_one_of_two_answers[OF chain_db_ok(1,2) _ r] by (auto simp: chain_computed)
  with r show ?thesis by (intro exI[of _ ?s]) simp
qed

lemma thread_can_step:
  assumes h: "may_hold mmdb values netmasks" and len: "\<forall>t. length (addr t) = 4"
    and ok: "threads_ok addr mmdb values netmasks s" and left: "steps_left (pcs s t) \<noteq> 0"
  shows "\<exists>s'. thread_step addr t s s'"
proof (cases "pcs s t")
  case Enters
  have sh: "shared s = mmdb\<lparr>ipv4_start_node := cached s\<rparr>" using ok by (simp add: threads_ok_def)
  have "shared_ok (shared s)" using h sh by (metis may_hold_def shared_ok_cache)
  from start_loop_computed[OF this] show ?thesis
    using is_cached[OF Enters] computes[OF Enters] by blast
next
  case (Searches start)
  then have "start_netmask start \<in> netmasks" "node_value start = node_value (computed_start mmdb)"
    using ok unfolding threads_ok_def by (metis pc_ok.simps(7))+
  moreover have "shared s = mmdb\<lparr>ipv4_start_node := cached s\<rparr>" using ok by (simp add: threads_ok_def)
  ultimately have "search_from_start (shared s) (mapped_address (addr t)) start
      = Done (answer_from mmdb (addr t) (start_netmask start))"
    using search_answers[OF h _ len[rule_format, of t]] by blast
  then show ?thesis using searches[OF Searches] by (metis prod.exhaust)
qed (use left in \<open>auto intro: thread_step.intros\<close>)

lemma thread_runs:
  assumes h: "may_hold mmdb values netmasks" and len: "\<forall>t. length (addr t) = 4"
  shows "threads_ok addr mmdb values netmasks s \<Longrightarrow>
    \<exists>s'. (thread_step addr t)\<^sup>*\<^sup>* s s' \<and> steps_left (pcs s' t) = 0 \<and> (\<forall>t'. t' \<noteq> t \<longrightarrow> pcs s' t' = pcs s t')"
proof (induction "steps_left (pcs s t)" arbitrary: s rule: less_induct)
  case less
  show ?case
  proof (cases "steps_left (pcs s t) = 0")
    case False
    then obtain s1 where s1: "thread_step addr t s s1" using thread_can_step[OF h len less.prems] by blast
    note c = thread_step_counts(1)[OF s1] thread_step_counts(2)[OF s1]
    from less.hyps[OF c(1) thread_step_ok[OF h len less.prems s1]] c(2) s1 show ?thesis
      by (metis converse_rtranclp_into_rtranclp)
  qed auto
qed

text \<open>
  C34: No thread waits for another: in every reachable state every thread that has not returned can
  do so by steps of its own, at most six of them in any interleaving, whatever the others have left undone.
\<close>
theorem threads_do_not_wait:
  assumes "shared_ok mmdb" "ipv4_start_node mmdb = empty_start" "\<forall>t. length (addr t) = 4"
    and "threads_reachable addr mmdb s"
  shows "(\<exists>s'. (thread_step addr t)\<^sup>*\<^sup>* s s' \<and> (\<exists>st result. pcs s' t = Returned st result)
      \<and> (\<forall>t'. t' \<noteq> t \<longrightarrow> pcs s' t' = pcs s t'))
    \<and> steps_left (pcs s t) \<le> 6
    \<and> (\<forall>t' s'. thread_step addr t' s s' \<longrightarrow> (if t' = t then steps_left (pcs s' t) < steps_left (pcs s t) else pcs s' t = pcs s t))"
proof (intro conjI allI impI)
  have "(\<exists>st result. pc = Returned st result) \<longleftrightarrow> steps_left pc = 0" for pc by (cases pc) auto
  with thread_runs[OF may_hold_empty[OF assms(1)] assms(3) threads_ok_empty[OF assms], of t]
  show "\<exists>s'. (thread_step addr t)\<^sup>*\<^sup>* s s' \<and> (\<exists>st result. pcs s' t = Returned st result)
      \<and> (\<forall>t'. t' \<noteq> t \<longrightarrow> pcs s' t' = pcs s t')" by simp
  show "steps_left (pcs s t) \<le> 6" by (cases "pcs s t") simp_all
  fix t' s'
  assume "thread_step addr t' s s'"
  then show "if t' = t then steps_left (pcs s' t) < steps_left (pcs s t) else pcs s' t = pcs s t"
    using thread_step_counts[of addr t' s s'] by auto
qed

theorem threads_do_not_wait_witness:
  "\<exists>s st result. (thread_step (\<lambda>_. [192, 0, 2, 1]) 3)\<^sup>*\<^sup>* (threads_start chain_db) s \<and> pcs s 3 = Returned st result"
  using threads_do_not_wait[OF chain_db_ok(1,2) _ threads_begin, of "\<lambda>_. [192, 0, 2, 1]" 3] by auto

section \<open>A handle whose start node is stored\<close>

lemma threads_reachable_star:
  assumes "threads_reachable addr mmdb s"
  shows "(thread_step addr t)\<^sup>*\<^sup>* s s' \<Longrightarrow> threads_reachable addr mmdb s'"
  by (induction rule: rtranclp_induct) (auto intro: assms threads_go)

lemma threads_after_lookup:
  assumes "shared_ok mmdb" "ipv4_start_node mmdb = computed_start mmdb" "\<forall>t. length (addr t) = 4"
    and "threads_reachable addr mmdb s"
  shows "shared s = mmdb \<and> (\<forall>t st result. pcs s t = Returned st result \<longrightarrow>
    (st, result) = answer_from mmdb (addr t) (start_netmask (computed_start mmdb)))"
proof (intro conjI allI impI)
  have ok: "threads_ok addr mmdb {node_value (computed_start mmdb)} {start_netmask (computed_start mmdb)} s"
    by (rule threads_reachable_ok[OF may_hold_filled[OF assms(1)] assms(3) _ _ assms(4)]) (simp_all add: assms(2))
  then have "cached s = computed_start mmdb" by (simp add: threads_ok_def)
  moreover have sh: "shared s = mmdb\<lparr>ipv4_start_node := cached s\<rparr>" using ok by (simp add: threads_ok_def)
  ultimately show "shared s = mmdb" using assms(2) by simp
  fix t st result
  assume "pcs s t = Returned st result"
  with ok have "pc_ok mmdb {start_netmask (computed_start mmdb)} (addr t) (node_value (cached s)) (Returned st result)"
    unfolding threads_ok_def by metis
  then show "(st, result) = answer_from mmdb (addr t) (start_netmask (computed_start mmdb))" by simp
qed

text \<open>
  C24: One lookup of an IPv4 address before the threads begin makes the handle safe to share: whatever
  address that lookup is for and whatever it finds, in every interleaving of threads that start with the
  handle it leaves behind, the handle stays as it is, and a thread that has returned has the answer that a
  lookup of its address gives without other threads, on the handle shared and on the handle before that
  first lookup alike.
\<close>
theorem threads_are_safe_after_one_lookup:
  assumes "shared_ok mmdb0" "cache_ok mmdb0" "length as = 4"
    and "MMDB_lookup_sockaddr mmdb0 (ipv4 as) err = Done (res, status_out, mmdb)"
    and "\<forall>t. length (addr t) = 4" "threads_reachable addr mmdb s"
  shows "shared s = mmdb \<and> (\<forall>t st result. pcs s t = Returned st result \<longrightarrow>
    MMDB_lookup_sockaddr mmdb (ipv4 (addr t)) None = Done (result, Some st, mmdb)
    \<and> MMDB_lookup_sockaddr mmdb0 (ipv4 (addr t)) None = Done (result, Some st, mmdb))"
proof -
  have m: "mmdb = mmdb0\<lparr>ipv4_start_node := computed_start mmdb0\<rparr>"
    using lookup_alone[OF assms(1-3), of err] assms(4) by (auto split: prod.splits)
  then have ok: "shared_ok mmdb" "ipv4_start_node mmdb = computed_start mmdb" "cache_ok mmdb"
    using assms(1) by (simp_all add: computed_start_cached)
  note t = threads_after_lookup[OF ok(1,2) assms(5,6)]
  have "MMDB_lookup_sockaddr mmdb (ipv4 (addr t)) None = Done (result, Some st, mmdb)
    \<and> MMDB_lookup_sockaddr mmdb0 (ipv4 (addr t)) None = Done (result, Some st, mmdb)"
    if "(st, result) = answer_from mmdb (addr t) (start_netmask (computed_start mmdb))" for t st result
    using lookup_alone[OF ok(1,3) assms(5)[rule_format], of t None] ok(2)
      lookup_alone[OF assms(1,2) assms(5)[rule_format], of t None] that[symmetric]
    by (simp add: m)
  with t show ?thesis by blast
qed

text \<open>After a lookup of 198.51.100.1, thread 7 asks for 192.0.2.1 and has returned.\<close>

theorem threads_are_safe_after_one_lookup_witness:
  "\<exists>s res0 st0 mmdb. MMDB_lookup_sockaddr chain_db (ipv4 [198, 51, 100, 1]) None = Done (res0, st0, mmdb)
    \<and> threads_reachable (\<lambda>_. [192, 0, 2, 1]) mmdb s \<and> shared s = mmdb
    \<and> pcs s 7 = Returned MMDB_SUCCESS \<lparr>found_entry = True, entry = \<lparr>entry_offset = 18\<rparr>, netmask = 97\<rparr>
    \<and> MMDB_lookup_sockaddr chain_db (ipv4 [192, 0, 2, 1]) None
        = Done (\<lparr>found_entry = True, entry = \<lparr>entry_offset = 18\<rparr>, netmask = 97\<rparr>, Some MMDB_SUCCESS, mmdb)"
proof -
  let ?db = "chain_db\<lparr>ipv4_start_node := computed_start chain_db\<rparr>" and ?addr = "\<lambda>_. [192, 0, 2, 1] :: u8 list"
  have ok: "shared_ok ?db" "ipv4_start_node ?db = computed_start ?db" by (simp_all add: chain_db_ok)
  have cache: "cache_ok chain_db" by (simp add: cache_ok_def chain_db_ok)
  have len: "\<forall>t. length (?addr t) = 4" by simp
  have start: "threads_ok ?addr ?db {node_value (computed_start ?db)} {start_netmask (computed_start ?db)} (threads_start ?db)"
    by (rule threads_reachable_ok[OF may_hold_filled[OF ok(1)] len _ _ threads_begin]) simp_all
  obtain s where run: "(thread_step ?addr 7)\<^sup>*\<^sup>* (threads_start ?db) s" and "steps_left (pcs s 7) = 0"
    using thread_runs[OF may_hold_filled[OF ok(1)] len start, of 7] by blast
  then obtain st result where p: "pcs s 7 = Returned st result" by (cases "pcs s 7") auto
  have r: "threads_reachable ?addr ?db s" by (rule threads_reachable_star[OF threads_begin run])
  obtain res0 st0 where first: "MMDB_lookup_sockaddr chain_db (ipv4 [198, 51, 100, 1]) None = Done (res0, st0, ?db)"
    using lookup_alone[OF chain_db_ok(1) cache, of "[198, 51, 100, 1]" None] by (auto split: prod.splits)
  note safe = threads_are_safe_after_one_lookup[OF chain_db_ok(1) cache _ first len r]
  have "MMDB_lookup_sockaddr chain_db (ipv4 [192, 0, 2, 1]) None = Done (result, Some st, ?db)" "shared s = ?db"
    using safe p by simp_all
  moreover have "st = MMDB_SUCCESS" "result = \<lparr>found_entry = True, entry = \<lparr>entry_offset = 18\<rparr>, netmask = 97\<rparr>"
    using calculation(1) lookup_alone[OF chain_db_ok(1) cache, of "[192, 0, 2, 1]" None]
    by (simp_all add: chain_computed chain_answers)
  ultimately show ?thesis using first r p by blast
qed

section \<open>A start node that is half stored\<close>

text \<open>
  C23: The start node is stored in two steps, and another thread may copy it in between: on every newly
  opened handle with a start node other than zero, thread 1 can return what a search from
  that node with a netmask of zero gives, the bits of the address read from the first of the 96 zero
  bits again, while thread 0 is about to store the netmask.
\<close>
theorem start_node_is_read_half_stored:
  assumes "shared_ok mmdb" "ipv4_start_node mmdb = empty_start" "\<forall>t. length (addr t) = 4"
    and "node_value (computed_start mmdb) \<noteq> 0"
  shows "\<exists>s nm. threads_reachable addr mmdb s \<and> pcs s 0 = Stores_netmask nm
    \<and> pcs s 1 = Returned (fst (answer_from mmdb (addr 1) 0)) (snd (answer_from mmdb (addr 1) 0))"
proof -
  obtain v nm where loop: "ipv4_start_loop (record_info_for_database mmdb) (file_content mmdb)
      (node_count (metadata mmdb)) 96 0 0 = Done (v, nm)"
    and c: "computed_start mmdb = \<lparr>start_netmask = ucast nm, node_value = v\<rparr>"
    using start_loop_computed[OF assms(1)] by blast
  define s1 where "s1 = moves (threads_start mmdb) 0 (Stores_value v nm)"
  define s2 where "s2 = moves (stores s1 ((cached s1)\<lparr>node_value := v\<rparr>)) 0 (Stores_netmask nm)"
  define s3 where "s3 = moves s2 1 Copies"
  define s4 where "s4 = moves s3 1 (Copied_value v)"
  define s5 where "s5 = moves s4 1 (Searches \<lparr>start_netmask = 0, node_value = v\<rparr>)"
  note s = s1_def s2_def s3_def s4_def s5_def threads_start_def
  have "thread_step addr 0 (threads_start mmdb) s1"
    unfolding s1_def by (rule computes) (simp_all add: threads_start_def assms(2) loop)
  moreover have "thread_step addr 0 s1 s2" unfolding s2_def by (rule stores_value) (simp add: s1_def)
  moreover have "thread_step addr 1 s2 s3"
    unfolding s3_def by (rule is_cached) (use assms(4) c in \<open>simp_all add: s\<close>)
  moreover have "thread_step addr 1 s3 s4" using copies_value[of s3 1 addr] by (simp add: s)
  moreover have "thread_step addr 1 s4 s5" using then_netmask[of s4 1 v addr] by (simp add: s assms(2))
  ultimately have r: "threads_reachable addr mmdb s5" by (meson threads_begin threads_go)
  obtain st result where a: "answer_from mmdb (addr 1) 0 = (st, result)" by force
  have "search_from_start (shared s5) (mapped_address (addr 1)) \<lparr>start_netmask = 0, node_value = v\<rparr> = Done (st, result)"
    using search_from_start_answers[of "shared s5" 0 "addr 1"] assms(1,3) c a by (simp add: s)
  then have "thread_step addr 1 s5 (moves s5 1 (Returned st result))"
    by (intro searches) (simp_all add: s5_def)
  with r have "threads_reachable addr mmdb (moves s5 1 (Returned st result))" by (rule threads_go)
  then show ?thesis
    by (intro exI[of _ "moves s5 1 (Returned st result)"] exI[of _ nm]) (simp add: a[unfolded One_nat_def] s)
qed

text \<open>Thread 1 gets the string \<open>a\<close> for 192.0.2.1, and a netmask of 1, where the database has \<open>b\<close>.\<close>

theorem start_node_is_read_half_stored_witness:
  "\<exists>s. threads_reachable (\<lambda>_. [192, 0, 2, 1]) chain_db s
    \<and> pcs s 1 = Returned MMDB_SUCCESS \<lparr>found_entry = True, entry = \<lparr>entry_offset = 16\<rparr>, netmask = 1\<rparr>
    \<and> MMDB_lookup_sockaddr chain_db (ipv4 [192, 0, 2, 1]) None
      = Done (\<lparr>found_entry = True, entry = \<lparr>entry_offset = 18\<rparr>, netmask = 97\<rparr>, Some MMDB_SUCCESS,
          chain_db\<lparr>ipv4_start_node := computed_start chain_db\<rparr>)"
proof -
  have "cache_ok chain_db" by (simp add: cache_ok_def chain_db_ok)
  from lookup_alone[OF chain_db_ok(1) this, of "[192, 0, 2, 1]" None]
  show ?thesis
    using start_node_is_read_half_stored[OF chain_db_ok(1,2), of "\<lambda>_. [192, 0, 2, 1]"]
    by (auto simp: chain_computed chain_answers)
qed

section \<open>One thread\<close>

fun alone_ok :: "MMDB_s \<Rightarrow> u8 list \<Rightarrow> MMDB_ipv4_start_node_s \<Rightarrow> thread_pc \<Rightarrow> bool" where
  "alone_ok mmdb as cur Enters \<longleftrightarrow> cur = ipv4_start_node mmdb"
| "alone_ok mmdb as cur (Stores_value v nm) \<longleftrightarrow> computed_start mmdb = \<lparr>start_netmask = ucast nm, node_value = v\<rparr>"
| "alone_ok mmdb as cur (Stores_netmask nm) \<longleftrightarrow>
     computed_start mmdb = \<lparr>start_netmask = ucast nm, node_value = node_value cur\<rparr>"
| "alone_ok mmdb as cur Copies \<longleftrightarrow> cur = computed_start mmdb"
| "alone_ok mmdb as cur (Copied_value v) \<longleftrightarrow> cur = computed_start mmdb \<and> v = node_value cur"
| "alone_ok mmdb as cur (Copied_netmask nm) \<longleftrightarrow> cur = computed_start mmdb \<and> nm = start_netmask cur"
| "alone_ok mmdb as cur (Searches start) \<longleftrightarrow> cur = computed_start mmdb \<and> start = cur"
| "alone_ok mmdb as cur (Returned st result) \<longleftrightarrow>
     cur = computed_start mmdb \<and> (st, result) = answer_from mmdb as (start_netmask cur)"

lemma alone_step:
  assumes ok: "shared_ok mmdb" "cache_ok mmdb" "length (addr t) = 4"
    and inv: "shared s = mmdb\<lparr>ipv4_start_node := cached s\<rparr>" "alone_ok mmdb (addr t) (cached s) (pcs s t)"
    and step: "thread_step addr t s s'"
  shows "shared s' = mmdb\<lparr>ipv4_start_node := cached s'\<rparr> \<and> alone_ok mmdb (addr t) (cached s') (pcs s' t)"
proof -
  have upd: "(shared s)\<lparr>ipv4_start_node := start\<rparr> = mmdb\<lparr>ipv4_start_node := start\<rparr>" for start
    using arg_cong[OF inv(1), of "\<lambda>m. m\<lparr>ipv4_start_node := start\<rparr>"] by simp
  from step show ?thesis
  proof (cases rule: thread_step.cases)
    case is_cached
    then show ?thesis using inv ok(2) by (simp add: cache_ok_def)
  next
    case (computes v nm)
    have "shared_ok (shared s)" using ok(1) inv(1) by (metis shared_ok_cache)
    from start_loop_computed[OF this] computes(4) show ?thesis
      using same_start[OF inv(1)] computes(1) inv(1) by simp
  next
    case (searches start st result)
    have "search_from_start (shared s) (mapped_address (addr t)) (computed_start (shared s))
        = Done (answer_from mmdb (addr t) (start_netmask (computed_start mmdb)))"
      using search_answers[OF may_hold_filled[OF ok(1)] inv(1) ok(3), of "computed_start mmdb"] same_start[OF inv(1)]
      by simp
    then show ?thesis using searches inv same_start[OF inv(1)] by simp
  qed (use inv upd in auto)
qed

text \<open>
  C29: The steps are those of the code: when one thread makes all of them, what it returns and the handle it
  leaves behind are what \<open>MMDB_lookup_sockaddr\<close> gives.
\<close>
theorem one_thread_is_a_lookup:
  assumes "shared_ok mmdb" "cache_ok mmdb" "length (addr t) = 4"
    and "(thread_step addr t)\<^sup>*\<^sup>* (threads_start mmdb) s" "pcs s t = Returned st result"
  shows "MMDB_lookup_sockaddr mmdb (ipv4 (addr t)) None = Done (result, Some st, shared s)"
proof -
  from assms(4) have inv: "shared s = mmdb\<lparr>ipv4_start_node := cached s\<rparr> \<and> alone_ok mmdb (addr t) (cached s) (pcs s t)"
  proof (induction rule: rtranclp_induct)
    case base
    then show ?case by (simp add: threads_start_def)
  next
    case (step s s')
    then show ?case using alone_step[where addr = addr and t = t, OF assms(1-3)] by blast
  qed
  then have "cached s = computed_start mmdb" "(st, result) = answer_from mmdb (addr t) (start_netmask (cached s))"
    using assms(5) by simp_all
  with inv lookup_alone[OF assms(1-3), of None] show ?thesis by (auto split: prod.splits)
qed

theorem one_thread_is_a_lookup_witness:
  "\<exists>s st result. (thread_step (\<lambda>_. [192, 0, 2, 1]) 2)\<^sup>*\<^sup>* (threads_start chain_db) s
    \<and> pcs s 2 = Returned st result
    \<and> MMDB_lookup_sockaddr chain_db (ipv4 [192, 0, 2, 1]) None = Done (result, Some st, shared s)"
proof -
  have "threads_ok (\<lambda>_. [192, 0, 2, 1]) chain_db {0, 96} {0, 96} (threads_start chain_db)"
    using threads_ok_empty[OF chain_db_ok(1,2) _ threads_begin] by (simp add: chain_computed)
  moreover have "may_hold chain_db {0, 96} {0, 96}"
    using may_hold_empty[OF chain_db_ok(1)] by (simp add: chain_computed)
  ultimately obtain s where s: "(thread_step (\<lambda>_. [192, 0, 2, 1]) 2)\<^sup>*\<^sup>* (threads_start chain_db) s"
    and "steps_left (pcs s 2) = 0"
    using thread_runs[of chain_db "{0, 96}" "{0, 96}" "\<lambda>_. [192, 0, 2, 1]" "threads_start chain_db" 2] by auto
  then obtain st result where "pcs s 2 = Returned st result" by (cases "pcs s 2") auto
  moreover have "cache_ok chain_db" by (simp add: cache_ok_def chain_db_ok)
  ultimately show ?thesis
    using one_thread_is_a_lookup[OF chain_db_ok(1) _ _ s] s by auto
qed

end
