(* ===== verification/HostCalls.thy ===== *)
theory HostCalls
  imports Handle
begin

text \<open>
  Opening and closing as calls of the operating system: both variants of \<open>map_file\<close>, what \<open>free_mmdb_struct\<close>
  and \<open>MMDB_open\<close> of \<^verbatim>\<open>libmaxminddb/src/maxminddb.c\<close> do on POSIX hosts and on Windows, and
  \<open>errno\<close>. The theory \<open>Handle\<close> has the same functions above the system calls.
\<close>

section \<open>Calls and errno\<close>

text \<open>The calls, with what identifies the objects they acquire or release.\<close>

datatype host_call =
    Open_call int
  | Fstat_call int
  | Mmap_call int int bool
  | Close_call int
  | Munmap_call int
  | CreateFileA_call "nat option"
  | GetFileSize_call nat
  | CreateFileMappingA_call nat u32 "nat option"
  | MapViewOfFile_call nat bool
  | CloseHandle_call nat
  | UnmapViewOfFile_call
  | WSAStartup_call
  | WSACleanup_call

record kernel =
  errno :: int
  calls :: "host_call list"

text \<open>A call is made, and sets \<open>errno\<close> or leaves it alone.\<close>

definition called :: "host_call \<Rightarrow> int option \<Rightarrow> kernel \<Rightarrow> kernel" where
  "called c e k = k\<lparr>errno := (case e of None \<Rightarrow> errno k | Some e \<Rightarrow> e), calls := calls k @ [c]\<rparr>"

abbreviation (input) ENOMEM :: int where "ENOMEM \<equiv> 12"

section \<open>map_file\<close>

text \<open>
  The answers of a POSIX system. Each comes with what the call stores in \<open>errno\<close>, if anything; \<open>mmap\<close> gives
  the bytes at the address it returns, or \<open>MAP_FAILED\<close>. \<open>free\<close> may change \<open>errno\<close> as well: \<open>free_errno\<close> is what it
  makes of the value, for each thing that is given back.
\<close>

record posix =
  open_answer :: "int \<times> int option"
  fstat_answer :: "int \<Rightarrow> (int \<times> int) \<times> int option"
  mmap_answer :: "int \<Rightarrow> int \<Rightarrow> u8 list option \<times> int option"
  close_errno :: "int option"
  munmap_errno :: "int option"
  free_errno :: "resource \<Rightarrow> int \<Rightarrow> int"

text \<open>The variant for POSIX, to the label \<open>cleanup\<close>.\<close>

definition posix_map_body :: "posix \<Rightarrow> MMDB_s \<Rightarrow> kernel \<Rightarrow> int \<times> status \<times> MMDB_s \<times> kernel" where
  "posix_map_body h mmdb k =
     (case open_answer h of (fd, e) \<Rightarrow>
        let k = called (Open_call fd) e k in
        if fd < 0 then (fd, MMDB_FILE_OPEN_ERROR, mmdb, k)
        else case fstat_answer h fd of ((r, st_size), e) \<Rightarrow>
          let k = called (Fstat_call fd) e k in
          if r \<noteq> 0 then (fd, MMDB_FILE_OPEN_ERROR, mmdb, k)
          else case mmap_answer h fd st_size of (mem, e) \<Rightarrow>
            let k = called (Mmap_call fd st_size (mem \<noteq> None)) e k in
            (case mem of
               None \<Rightarrow> (fd, if errno k = ENOMEM then MMDB_OUT_OF_MEMORY_ERROR else MMDB_IO_ERROR, mmdb, k)
             | Some bs \<Rightarrow> (fd, MMDB_SUCCESS, mmdb\<lparr>file_size := st_size, file_content := Ptr bs 0\<rparr>, k)))"

definition posix_map_file :: "posix \<Rightarrow> MMDB_s \<Rightarrow> kernel \<Rightarrow> status \<times> MMDB_s \<times> kernel" where
  "posix_map_file h mmdb k =
     (case posix_map_body h mmdb k of (fd, status, mmdb, k) \<Rightarrow>
        let saved_errno = errno k;
            k = (if fd \<ge> 0 then called (Close_call fd) (close_errno h) k else k) in
        (status, mmdb, k\<lparr>errno := saved_errno\<rparr>))"

text \<open>
  The answers of Windows: a handle or none, and the low 32 bits of the file's size. \<open>ssize_is_int\<close> says how the
  library was compiled: \<^verbatim>\<open>maxminddb.h\<close> makes \<open>ssize_t\<close> an \<open>int\<close> for the Microsoft compiler, other compilers for 64 bits
  have one of 64 bits.
\<close>

record windows =
  CreateFileA_answer :: "nat option"
  GetFileSize_answer :: "nat \<Rightarrow> u32"
  CreateFileMappingA_answer :: "nat \<Rightarrow> u32 \<Rightarrow> nat option"
  MapViewOfFile_answer :: "nat \<Rightarrow> u8 list option"
  CloseHandle_errno :: "int option"
  windows_free_errno :: "resource \<Rightarrow> int \<Rightarrow> int"
  ssize_is_int :: bool

abbreviation (input) INVALID_FILE_SIZE :: u32 where "INVALID_FILE_SIZE \<equiv> 0xFFFFFFFF"

text \<open>The value that \<open>size\<close> has: an \<open>int\<close> of 2 GiB or more is negative.\<close>

definition stored_size :: "windows \<Rightarrow> u32 \<Rightarrow> int" where
  "stored_size w sz = (if ssize_is_int w then sint sz else uint sz)"

text \<open>
  The variant for Windows, to the label \<open>cleanup\<close>, with \<open>fd\<close> and \<open>mmh\<close>. For the comparison with \<open>INVALID_FILE_SIZE\<close> and
  for \<open>CreateFileMappingA\<close> the size is converted back to its 32 bits.
\<close>

definition windows_map_body ::
  "windows \<Rightarrow> MMDB_s \<Rightarrow> kernel \<Rightarrow> nat option \<times> nat option \<times> status \<times> MMDB_s \<times> kernel" where
  "windows_map_body w mmdb k =
     (let k = called (CreateFileA_call (CreateFileA_answer w)) None k in
      case CreateFileA_answer w of
        None \<Rightarrow> (None, None, MMDB_FILE_OPEN_ERROR, mmdb, k)
      | Some fd \<Rightarrow>
          let size = GetFileSize_answer w fd; k = called (GetFileSize_call fd) None k in
          if size = INVALID_FILE_SIZE then (Some fd, None, MMDB_FILE_OPEN_ERROR, mmdb, k)
          else
            let k = called (CreateFileMappingA_call fd size (CreateFileMappingA_answer w fd size)) None k in
            (case CreateFileMappingA_answer w fd size of
               None \<Rightarrow> (Some fd, None, MMDB_IO_ERROR, mmdb, k)
             | Some mmh \<Rightarrow>
                 let k = called (MapViewOfFile_call mmh (MapViewOfFile_answer w mmh \<noteq> None)) None k in
                 (case MapViewOfFile_answer w mmh of
                    None \<Rightarrow> (Some fd, Some mmh, MMDB_IO_ERROR, mmdb, k)
                  | Some bs \<Rightarrow>
                      (Some fd, Some mmh, MMDB_SUCCESS,
                       mmdb\<lparr>file_size := stored_size w size, file_content := Ptr bs 0\<rparr>, k))))"

definition windows_map_file :: "windows \<Rightarrow> MMDB_s \<Rightarrow> kernel \<Rightarrow> status \<times> MMDB_s \<times> kernel" where
  "windows_map_file w mmdb k =
     (case windows_map_body w mmdb k of (fd, mmh, status, mmdb, k) \<Rightarrow>
        let saved_errno = errno k;
            k = (case fd of None \<Rightarrow> k | Some fd \<Rightarrow> called (CloseHandle_call fd) (CloseHandle_errno w) k);
            k = (case mmh of None \<Rightarrow> k | Some mmh \<Rightarrow> called (CloseHandle_call mmh) (CloseHandle_errno w) k) in
        (status, mmdb, k\<lparr>errno := saved_errno\<rparr>))"

section \<open>Opening and closing\<close>

text \<open>
  What differs between the hosts: \<open>map_file\<close>, what is done once the file is mapped, how it is unmapped and what \<open>free\<close>
  does to \<open>errno\<close>.
\<close>

record platform =
  maps :: "MMDB_s \<Rightarrow> kernel \<Rightarrow> status \<times> MMDB_s \<times> kernel"
  starts :: "kernel \<Rightarrow> kernel"
  unmaps :: "MMDB_s \<Rightarrow> kernel \<Rightarrow> kernel"
  frees :: "resource \<Rightarrow> int \<Rightarrow> int"

definition posix_platform :: "posix \<Rightarrow> platform" where
  "posix_platform h =
     \<lparr>maps = posix_map_file h, starts = (\<lambda>k. k),
      unmaps = (\<lambda>mmdb. called (Munmap_call (file_size mmdb)) (munmap_errno h)), frees = free_errno h\<rparr>"

definition windows_platform :: "windows \<Rightarrow> platform" where
  "windows_platform w =
     \<lparr>maps = windows_map_file w, starts = called WSAStartup_call None,
      unmaps = (\<lambda>mmdb k. called WSACleanup_call None (called UnmapViewOfFile_call None k)),
      frees = windows_free_errno w\<rparr>"

text \<open>
  The things a handle holds are given back in the order of \<open>free_mmdb_struct\<close>: the mapping by the calls of the system,
  everything else by \<open>free\<close>.
\<close>

definition gives_back :: "platform \<Rightarrow> MMDB_s \<Rightarrow> resource \<Rightarrow> kernel \<Rightarrow> kernel" where
  "gives_back P mmdb r k =
     (if r = R_file_content then unmaps P mmdb k else k\<lparr>errno := frees P r (errno k)\<rparr>)"

definition host_free :: "platform \<Rightarrow> MMDB_s \<Rightarrow> kernel \<Rightarrow> (resource list \<times> MMDB_s \<times> kernel) run" where
  "host_free P mmdb k =
     bind_run (free_mmdb_struct mmdb) (\<lambda>(rs, mmdb'). Done (rs, mmdb', fold (gives_back P mmdb) rs k))"

text \<open>
  \<open>work\<close> is what the calls of the C library while the metadata are read make of \<open>errno\<close>, and \<open>malloc\<close> sets it to
  \<open>ENOMEM\<close> when the name of the file cannot be copied.
\<close>

definition host_open ::
  "platform \<Rightarrow> (int \<Rightarrow> int) \<Rightarrow> (alloc_site \<Rightarrow> bool) \<Rightarrow> nat \<Rightarrow> u8 list \<Rightarrow> u32 \<Rightarrow> MMDB_s \<Rightarrow> kernel \<Rightarrow>
     (status \<times> resource list \<times> MMDB_s \<times> kernel) run" where
  "host_open P work malloc_ok nest name fl mmdb k =
     (let mmdb = open_init mmdb;
          mmdb = mmdb\<lparr>filename := mmdb_strdup (malloc_ok A_filename) name\<rparr> in
      bind_run
        (if filename mmdb = Null then Done (MMDB_OUT_OF_MEMORY_ERROR, mmdb, k\<lparr>errno := ENOMEM\<rparr>)
         else
           let fl = (if fl AND MMDB_MODE_MASK = 0 then fl OR MMDB_MODE_MMAP else fl);
               mmdb = mmdb\<lparr>flags := fl\<rparr> in
           case maps P mmdb k of (st, mmdb, k) \<Rightarrow>
             if st \<noteq> MMDB_SUCCESS then Done (st, mmdb, k)
             else
               let k = starts P k in
               bind_run (open_mapped malloc_ok nest mmdb) (\<lambda>(st, lost, mmdb).
                 Done (st, mmdb, k\<lparr>errno := work (errno k)\<rparr>))) (\<lambda>(st, mmdb, k).
      if st \<noteq> MMDB_SUCCESS then
        let saved_errno = errno k in
        bind_run (host_free P mmdb k) (\<lambda>(rs, mmdb, k). Done (st, rs, mmdb, k\<lparr>errno := saved_errno\<rparr>))
      else Done (st, [], mmdb, k)))"

definition host_close :: "platform \<Rightarrow> MMDB_s \<Rightarrow> kernel \<Rightarrow> (resource list \<times> MMDB_s \<times> kernel) run" where
  "host_close P mmdb k = host_free P mmdb k"

end
