(* ===== verification/HostSpec.thy ===== *)
theory HostSpec
  imports HostCalls HandleInv
begin

text \<open>
  What the calls acquire and release, the contract of \<open>map_file\<close> as a locale with what follows for opening and closing,
  and the proof that the variants for POSIX and for Windows meet it.
\<close>

section \<open>What calls acquire and release\<close>

datatype host_object = Descriptor int | Handle_object nat | Mapping | Winsock

fun acquires :: "host_call \<Rightarrow> host_object option" where
  "acquires (Open_call fd) = (if fd < 0 then None else Some (Descriptor fd))"
| "acquires (Mmap_call fd sz ok) = (if ok then Some Mapping else None)"
| "acquires (CreateFileA_call h) = map_option Handle_object h"
| "acquires (CreateFileMappingA_call h sz h') = map_option Handle_object h'"
| "acquires (MapViewOfFile_call h ok) = (if ok then Some Mapping else None)"
| "acquires WSAStartup_call = Some Winsock"
| "acquires _ = None"

fun releases :: "host_call \<Rightarrow> host_object option" where
  "releases (Close_call fd) = Some (Descriptor fd)"
| "releases (CloseHandle_call h) = Some (Handle_object h)"
| "releases (Munmap_call sz) = Some Mapping"
| "releases UnmapViewOfFile_call = Some Mapping"
| "releases WSACleanup_call = Some Winsock"
| "releases _ = None"

text \<open>
  The objects that are held after some calls, each as often as it was acquired, or \<open>None\<close> if one was released
  that was not held.
\<close>

fun objects :: "host_call list \<Rightarrow> host_object list \<Rightarrow> host_object list option" where
  "objects [] os = Some os"
| "objects (c # cs) os =
     (case releases c of
        Some x \<Rightarrow> if x \<in> set os then objects cs (remove1 x os) else None
      | None \<Rightarrow> (case acquires c of Some x \<Rightarrow> objects cs (x # os) | None \<Rightarrow> objects cs os))"

lemma objects_append: "objects (cs @ ds) os = Option.bind (objects cs os) (objects ds)"
  by (induction cs arbitrary: os) (auto split: option.splits)

lemma called_simps [simp]:
  "calls (called c e k) = calls k @ [c]" "errno (called c None k) = errno k" "errno (called c (Some i) k) = i"
  by (simp_all add: called_def)

section \<open>The contract\<close>

text \<open>
  A platform, for hosts that behave as documented (\<open>ok\<close>), with the files whose size is stored as it is (\<open>sized\<close>), the
  file the host shows (\<open>files\<close>), what the calls that failed left in \<open>errno\<close> (\<open>failure\<close>) and what is held for a mapped
  handle (\<open>kept\<close>). A size that is not stored as it is becomes negative.
\<close>

locale file_mapper =
  fixes P :: "'h \<Rightarrow> platform" and ok :: "'h \<Rightarrow> bool" and sized :: "'h \<Rightarrow> bool" and files :: "'h \<Rightarrow> file_system"
    and failure :: "'h \<Rightarrow> int option" and kept :: "host_object list"
  assumes maps_refines: "ok h \<Longrightarrow> maps (P h) mmdb k = (st, mmdb', k') \<Longrightarrow>
      (st, mmdb') = map_file (files h) mmdb \<or> st = MMDB_SUCCESS \<and> file_size mmdb' < 0"
    and maps_sized: "ok h \<Longrightarrow> sized h \<Longrightarrow> maps (P h) mmdb k = (MMDB_SUCCESS, mmdb', k') \<Longrightarrow> 0 \<le> file_size mmdb'"
    and maps_calls: "maps (P h) mmdb k = (st, mmdb', k') \<Longrightarrow>
      \<exists>cs. calls k' = calls k @ cs \<and> objects cs [] = Some (if st = MMDB_SUCCESS then [Mapping] else [])"
    and maps_errno: "maps (P h) mmdb k = (st, mmdb', k') \<Longrightarrow> failure h = Some e \<Longrightarrow> errno k' = e"
    and starts_calls: "\<exists>cs. calls (starts (P h) k) = calls k @ cs \<and> objects cs [Mapping] = Some kept"
    and unmaps_calls: "\<exists>cs. calls (unmaps (P h) mmdb k) = calls k @ cs \<and> objects cs kept = Some []"
begin

text \<open>Without the calls and \<open>errno\<close>, the functions are those of the theory \<open>Handle\<close>.\<close>

lemma free_refines:
  "bind_run (host_free (P h) db k) (\<lambda>(rs, db, k). Done (f rs db))
    = bind_run (free_mmdb_struct db) (\<lambda>(rs, db). Done (f rs db))"
  by (cases "free_mmdb_struct db") (auto simp: host_free_def split: prod.split)

lemma end_refines:
  "bind_run (bind_run (host_free (P h) db k) (\<lambda>(rs, mmdb, k). Done (st, rs, mmdb, k\<lparr>errno := e\<rparr>)))
      (\<lambda>(st, rs, mmdb', k'). Done (st, rs, mmdb'))
    = bind_run (free_mmdb_struct db) (\<lambda>(rs, mmdb). Done (st, rs, mmdb))"
  using free_refines[of h db k "\<lambda>rs mmdb. (st, rs, mmdb)"] by (simp add: bind_run_assoc case_prod_unfold)

lemma open_refines_or_faults:
  assumes "ok h"
  shows "bind_run (host_open (P h) work malloc_ok nest name fl mmdb k) (\<lambda>(st, rs, mmdb', k'). Done (st, rs, mmdb'))
      = MMDB_open malloc_ok (files h) nest name fl mmdb
    \<or> \<not> sized h \<and> host_open (P h) work malloc_ok nest name fl mmdb k = Fault"
proof -
  let ?db = "(open_init mmdb)\<lparr>filename := mmdb_strdup (malloc_ok A_filename) name\<rparr>"
  let ?fl = "if fl AND MMDB_MODE_MASK = 0 then fl OR MMDB_MODE_MMAP else fl"
  obtain st db k' where m: "maps (P h) (?db\<lparr>flags := ?fl\<rparr>) k = (st, db, k')" by (metis prod_cases3)
  from maps_refines[OF assms m] show ?thesis
  proof (elim disjE conjE)
    assume f: "(st, db) = map_file (files h) (?db\<lparr>flags := ?fl\<rparr>)"
    have "bind_run (host_open (P h) work malloc_ok nest name fl mmdb k) (\<lambda>(st, rs, mmdb', k'). Done (st, rs, mmdb'))
      = MMDB_open malloc_ok (files h) nest name fl mmdb"
      unfolding host_open_def MMDB_open_def open_attempt_def Let_def m f[symmetric]
      by (cases "open_mapped malloc_ok nest db") (auto simp: m f[symmetric] end_refines)
    then show ?thesis by blast
  next
    assume n: "st = MMDB_SUCCESS" "file_size db < 0"
    have "\<not> sized h" using maps_sized[OF assms, of _ k db k'] m n by fastforce
    show ?thesis
    proof (cases "filename ?db = Null")
      case True
      then have "bind_run (host_open (P h) work malloc_ok nest name fl mmdb k) (\<lambda>(st, rs, mmdb', k'). Done (st, rs, mmdb'))
          = MMDB_open malloc_ok (files h) nest name fl mmdb"
        unfolding host_open_def MMDB_open_def open_attempt_def Let_def by (auto simp: end_refines)
      then show ?thesis by blast
    next
      case False
      then have "host_open (P h) work malloc_ok nest name fl mmdb k = Fault"
        unfolding host_open_def Let_def m using n by (simp add: m open_mapped_def)
      with \<open>\<not> sized h\<close> show ?thesis by blast
    qed
  qed
qed

lemma open_refines:
  assumes "ok h" "sized h"
  shows "bind_run (host_open (P h) work malloc_ok nest name fl mmdb k) (\<lambda>(st, rs, mmdb', k'). Done (st, rs, mmdb'))
    = MMDB_open malloc_ok (files h) nest name fl mmdb"
  using open_refines_or_faults[OF assms(1)] assms(2) by blast

lemma open_returned:
  assumes "ok h" "host_open (P h) work malloc_ok nest name fl mmdb k = Done (st, rs, mmdb', k')"
  shows "MMDB_open malloc_ok (files h) nest name fl mmdb = Done (st, rs, mmdb')"
  using open_refines_or_faults[OF assms(1), of work malloc_ok nest name fl mmdb k] assms(2) by simp

text \<open>What a call of \<open>free_mmdb_struct\<close> releases: of the things given back, the mapping is the only one that makes calls.\<close>

lemma gives_back_calls:
  "R_file_content \<notin> set rs \<Longrightarrow> calls (fold (gives_back P' db) rs k) = calls k"
  by (induction rs arbitrary: k) (auto simp: gives_back_def)

lemma fold_gives_back_calls:
  assumes "distinct rs"
  shows "\<exists>cs. calls (fold (gives_back (P h) db) rs k) = calls k @ cs
    \<and> (if R_file_content \<in> set rs then objects cs kept = Some [] else cs = [])"
proof (cases "R_file_content \<in> set rs")
  case True
  then obtain as bs where r: "rs = as @ R_file_content # bs" by (meson split_list)
  with assms have n: "R_file_content \<notin> set as" "R_file_content \<notin> set bs" by auto
  let ?k = "fold (gives_back (P h) db) as k"
  have "calls (fold (gives_back (P h) db) rs k) = calls (unmaps (P h) db ?k)"
    using gives_back_calls[OF n(2)] by (simp add: r gives_back_def)
  moreover have "calls ?k = calls k" by (rule gives_back_calls[OF n(1)])
  ultimately show ?thesis using unmaps_calls[of h db ?k] True by auto
qed (use gives_back_calls in simp)

lemma free_calls:
  assumes a: "arrays_ok db" and r: "host_free (P h) db k = Done (rs, db', k')"
  shows "\<exists>cs. calls k' = calls k @ cs \<and> (if file_content db = Null then cs = [] else objects cs kept = Some [])"
proof -
  have "k' = fold (gives_back (P h) db) (held db) k"
    using r free_mmdb_struct_held[OF a] by (auto simp: host_free_def)
  then show ?thesis
    using fold_gives_back_calls[OF distinct_held, of h db db k] held_fixed(2)[of db] by (auto split: if_splits)
qed

text \<open>The part of \<open>MMDB_open\<close> behind \<open>map_file\<close>.\<close>

lemma mapped_end_calls:
  assumes k: "calls k = calls k0 @ cs" "objects cs [] = Some kept" and f: "file_content db \<noteq> Null" "arrays_ok db"
    and r: "(if st \<noteq> MMDB_SUCCESS then
        bind_run (host_free (P h) db k) (\<lambda>(rs, mmdb, k). Done (st, rs, mmdb, k\<lparr>errno := e\<rparr>))
      else Done (st, [], db, k)) = Done (st', rs, db', k')"
  shows "\<exists>cs. calls k' = calls k0 @ cs \<and> objects cs [] = Some (if st' = MMDB_SUCCESS then kept else [])"
proof (cases "st = MMDB_SUCCESS")
  case True
  with r k show ?thesis by auto
next
  case False
  with r obtain k2 where h: "host_free (P h) db k = Done (rs, db', k2)" and k': "k' = k2\<lparr>errno := e\<rparr>" "st' = st"
    by (auto simp: run_simps)
  from free_calls[OF f(2) h] f(1) obtain ds where "calls k2 = calls k @ ds" "objects ds kept = Some []" by auto
  with k k' False show ?thesis by (intro exI[of _ "cs @ ds"]) (simp add: objects_append)
qed

lemma open_calls:
  assumes ok: "ok h" and r: "host_open (P h) work malloc_ok nest name fl mmdb k = Done (st', rs, mmdb', k')"
  shows "\<exists>cs. calls k' = calls k @ cs \<and> objects cs [] = Some (if st' = MMDB_SUCCESS then kept else [])"
proof -
  let ?db = "(open_init mmdb)\<lparr>filename := mmdb_strdup (malloc_ok A_filename) name\<rparr>"
  let ?fl = "if fl AND MMDB_MODE_MASK = 0 then fl OR MMDB_MODE_MMAP else fl"
  let ?db' = "?db\<lparr>flags := ?fl\<rparr>"
  have i: "file_content ?db = Null" "file_content ?db' = Null" "arrays_ok ?db" "arrays_ok ?db'"
    using open_init_counts[of mmdb] by (simp_all add: open_init_def arrays_ok_def counts_0_ok)
  obtain st db k1 where m: "maps (P h) ?db' k = (st, db, k1)" by (metis prod_cases3)
  obtain cs where cs: "calls k1 = calls k @ cs" "objects cs [] = Some (if st = MMDB_SUCCESS then [Mapping] else [])"
    using maps_calls[OF m] by auto
  consider (no_name) "filename ?db = Null" | (no_map) "filename ?db \<noteq> Null" "st \<noteq> MMDB_SUCCESS"
    | (mapped) "filename ?db \<noteq> Null" "st = MMDB_SUCCESS" by blast
  then show ?thesis
  proof cases
    case no_name
    with r obtain k2 where "host_free (P h) ?db (k\<lparr>errno := ENOMEM\<rparr>) = Done (rs, mmdb', k2)" "k' = k2\<lparr>errno := ENOMEM\<rparr>"
      "st' = MMDB_OUT_OF_MEMORY_ERROR"
      by (auto simp: host_open_def Let_def run_simps)
    then show ?thesis using free_calls[OF i(3)] i(1) by fastforce
  next
    case no_map
    then have f: "(st, db) = map_file (files h) ?db'" using maps_refines[OF ok m] by blast
    then have "file_content db = Null" "arrays_ok db"
      using map_file_post[OF f[symmetric]] no_map i by (auto elim: arrays_ok_metadata split: if_splits)
    moreover obtain k2 where "host_free (P h) db k1 = Done (rs, mmdb', k2)" "k' = k2\<lparr>errno := errno k1\<rparr>" "st' = st"
      using r no_map m by (auto simp: host_open_def Let_def run_simps)
    ultimately show ?thesis using free_calls[of db h k1] cs no_map by fastforce
  next
    case mapped
    obtain ds where ds: "calls (starts (P h) k1) = calls k1 @ ds" "objects ds [Mapping] = Some kept"
      using starts_calls by blast
    from mapped r m obtain st2 lost db2 where o: "open_mapped malloc_ok nest db = Done (st2, lost, db2)"
      by (auto simp: host_open_def Let_def run_simps)
    then have "\<not> file_size db < 0" by (auto simp: open_mapped_def)
    then have f: "(st, db) = map_file (files h) ?db'" using maps_refines[OF ok m] by blast
    then have g: "file_content db = Ptr (file_bytes (files h)) 0" "file_size db = int (length (file_bytes (files h)))"
        "metadata db = metadata ?db'" "filename db = filename ?db'"
      using map_file_post[OF f[symmetric]] mapped by (auto split: if_splits)
    have "open_post False True True (files h) (st2, lost, db2)"
      by (rule postD[OF open_mapped_post o]) (use g mapped open_init_counts[of mmdb] in simp_all)
    then have db2: "file_content db2 \<noteq> Null" "arrays_ok db2" by (simp_all add: open_post_def)
    show ?thesis
    proof (rule mapped_end_calls)
      show "calls ((starts (P h) k1)\<lparr>errno := work (errno (starts (P h) k1))\<rparr>) = calls k @ (cs @ ds)"
        using cs ds by simp
      show "objects (cs @ ds) [] = Some kept" using cs ds mapped by (simp add: objects_append)
      show "file_content db2 \<noteq> Null" "arrays_ok db2" by fact+
      show "(if st2 \<noteq> MMDB_SUCCESS then
          bind_run (host_free (P h) db2 ((starts (P h) k1)\<lparr>errno := work (errno (starts (P h) k1))\<rparr>))
            (\<lambda>(rs, mmdb, k). Done (st2, rs, mmdb, k\<lparr>errno := work (errno (starts (P h) k1))\<rparr>))
        else Done (st2, [], db2, (starts (P h) k1)\<lparr>errno := work (errno (starts (P h) k1))\<rparr>))
        = Done (st', rs, mmdb', k')"
        using r m mapped o by (cases "st2 = MMDB_SUCCESS") (simp_all add: host_open_def Let_def)
    qed
  qed
qed

text \<open>A file that cannot be mapped leaves the failing call's \<open>errno\<close>.\<close>

lemma open_errno:
  assumes ok: "ok h" "sized h" and r: "host_open (P h) work malloc_ok nest name fl mmdb k = Done (st', rs, mmdb', k')"
    and f: "\<not> gets_mapped (files h)" "malloc_ok A_filename" "failure h = Some e"
  shows "errno k' = e"
proof -
  let ?db = "(open_init mmdb)\<lparr>filename := mmdb_strdup (malloc_ok A_filename) name,
    flags := if fl AND MMDB_MODE_MASK = 0 then fl OR MMDB_MODE_MMAP else fl\<rparr>"
  obtain st db k1 where m: "maps (P h) ?db k = (st, db, k1)" by (metis prod_cases3)
  have "(st, db) = map_file (files h) ?db"
    using maps_refines[OF ok(1) m] maps_sized[OF ok, of ?db k db k1] m by fastforce
  with map_file_post[OF this[symmetric]] f have "st \<noteq> MMDB_SUCCESS" by simp
  with r m f maps_errno[OF m] show ?thesis by (auto simp: host_open_def Let_def run_simps mmdb_strdup_def)
qed

text \<open>A handle that was opened and is closed holds nothing.\<close>

lemma close_calls:
  assumes ok: "ok h" and r: "host_open (P h) work malloc_ok nest name fl mmdb k = Done (MMDB_SUCCESS, rs, mmdb', k')"
    and c: "host_close (P h) mmdb' k' = Done (gs, mmdb2, k2)"
  shows "\<exists>cs. calls k2 = calls k @ cs \<and> objects cs [] = Some []"
proof -
  from postD[OF MMDB_open_post open_returned[OF ok r]] have o: "opened (files h) mmdb'"
    by (simp add: open_result_ok_def)
  then have "file_content mmdb' \<noteq> Null" "arrays_ok mmdb'"
    using metadata_ok_arrays[of mmdb'] by (simp_all add: opened_def Let_def)
  then obtain ds where "calls k2 = calls k' @ ds" "objects ds kept = Some []"
    using free_calls[OF _ c[unfolded host_close_def]] by auto
  moreover obtain cs where "calls k' = calls k @ cs" "objects cs [] = Some kept" using open_calls[OF ok r] by auto
  ultimately show ?thesis by (intro exI[of _ "cs @ ds"]) (simp add: objects_append)
qed

end

section \<open>POSIX\<close>

text \<open>
  What the documentation of POSIX promises: \<open>mmap\<close> maps as many bytes as it is asked for, and a call that fails
  sets \<open>errno\<close>.
\<close>

definition posix_ok :: "posix \<Rightarrow> bool" where
  "posix_ok h \<longleftrightarrow> (\<forall>fd sz. case mmap_answer h fd sz of (Some bs, e) \<Rightarrow> int (length bs) = sz | (None, e) \<Rightarrow> e \<noteq> None)"

definition posix_files :: "posix \<Rightarrow> file_system" where
  "posix_files h =
     (let fd = fst (open_answer h); (r, sz) = fst (fstat_answer h fd); (mem, e) = mmap_answer h fd sz in
      \<lparr>open_ok = 0 \<le> fd \<and> r = 0, file_bytes = (case mem of None \<Rightarrow> [] | Some bs \<Rightarrow> bs),
       mmap_failed = (case mem of None \<Rightarrow> Some (e = Some ENOMEM) | Some bs \<Rightarrow> None)\<rparr>)"

definition posix_failure :: "posix \<Rightarrow> int option" where
  "posix_failure h =
     (let (fd, e1) = open_answer h; ((r, sz), e2) = fstat_answer h fd; (mem, e3) = mmap_answer h fd sz in
      if fd < 0 then e1 else if r \<noteq> 0 then e2 else if mem = None then e3 else None)"

lemma posix_refines:
  assumes "posix_ok h"
  shows "(case posix_map_file h mmdb k of (st, mmdb', k') \<Rightarrow> (st, mmdb')) = map_file (posix_files h) mmdb"
proof -
  obtain fd e1 where 1: "open_answer h = (fd, e1)" by force
  obtain r sz e2 where 2: "fstat_answer h fd = ((r, sz), e2)" by (metis prod.exhaust)
  obtain mem e3 where 3: "mmap_answer h fd sz = (mem, e3)" by force
  have "case mem of Some bs \<Rightarrow> int (length bs) = sz | None \<Rightarrow> e3 \<noteq> None"
    using assms 3 unfolding posix_ok_def by (metis (no_types, lifting) case_prod_conv option.case_eq_if)
  with 1 2 3 show ?thesis
    by (auto simp: posix_map_file_def posix_map_body_def posix_files_def map_file_def called_def Let_def
        split: option.splits)
qed

lemma posix_calls:
  "posix_map_file h mmdb k = (st, mmdb', k') \<Longrightarrow>
    \<exists>cs. calls k' = calls k @ cs \<and> objects cs [] = Some (if st = MMDB_SUCCESS then [Mapping] else [])"
  by (auto simp: posix_map_file_def posix_map_body_def Let_def split: prod.splits if_splits option.splits)

lemma posix_errno:
  "posix_map_file h mmdb k = (st, mmdb', k') \<Longrightarrow> posix_failure h = Some e \<Longrightarrow> errno k' = e"
  by (auto simp: posix_map_file_def posix_map_body_def posix_failure_def Let_def split: prod.splits if_splits option.splits)

lemma posix_sized:
  assumes "posix_ok h" "posix_map_file h mmdb k = (MMDB_SUCCESS, mmdb', k')"
  shows "0 \<le> file_size mmdb'"
proof -
  have "map_file (posix_files h) mmdb = (MMDB_SUCCESS, mmdb')" using posix_refines[OF assms(1), of mmdb k] assms(2) by simp
  from map_file_post[OF this] show ?thesis by (auto split: if_splits)
qed

interpretation posix: file_mapper posix_platform posix_ok "\<lambda>h. True" posix_files posix_failure "[Mapping]"
proof
  show "(st, mmdb') = map_file (posix_files h) mmdb \<or> st = MMDB_SUCCESS \<and> file_size mmdb' < 0"
    if "posix_ok h" "maps (posix_platform h) mmdb k = (st, mmdb', k')" for h mmdb k st mmdb' k'
    using posix_refines[OF that(1), of mmdb k] that(2) by (simp add: posix_platform_def)
  show "\<exists>cs. calls (starts (posix_platform h) k) = calls k @ cs \<and> objects cs [Mapping] = Some [Mapping]" for h k
    by (simp add: posix_platform_def)
  show "\<exists>cs. calls (unmaps (posix_platform h) mmdb k) = calls k @ cs \<and> objects cs [Mapping] = Some []" for h mmdb k
    by (simp add: posix_platform_def)
qed (simp_all add: posix_platform_def posix_sized posix_calls posix_errno)

section \<open>Windows\<close>

text \<open>
  A file of fewer than 4 GiB is mapped with all its bytes: what the view shows is as long as \<open>GetFileSize\<close> says.
\<close>

definition windows_ok :: "windows \<Rightarrow> bool" where
  "windows_ok w \<longleftrightarrow> (\<forall>fd mmh bs. CreateFileMappingA_answer w fd (GetFileSize_answer w fd) = Some mmh
     \<longrightarrow> MapViewOfFile_answer w mmh = Some bs \<longrightarrow> length bs = unat (GetFileSize_answer w fd))"

definition windows_files :: "windows \<Rightarrow> file_system" where
  "windows_files w =
     (case CreateFileA_answer w of
        None \<Rightarrow> \<lparr>open_ok = False, file_bytes = [], mmap_failed = None\<rparr>
      | Some fd \<Rightarrow>
          let view = Option.bind (CreateFileMappingA_answer w fd (GetFileSize_answer w fd)) (MapViewOfFile_answer w) in
          \<lparr>open_ok = GetFileSize_answer w fd \<noteq> INVALID_FILE_SIZE,
           file_bytes = (case view of None \<Rightarrow> [] | Some bs \<Rightarrow> bs),
           mmap_failed = (case view of None \<Rightarrow> Some False | Some bs \<Rightarrow> None)\<rparr>)"

text \<open>The size of the file is one that \<open>size\<close> can hold: with an \<open>int\<close> it is less than 2 GiB.\<close>

definition windows_sized :: "windows \<Rightarrow> bool" where
  "windows_sized w \<longleftrightarrow>
     (case CreateFileA_answer w of
        None \<Rightarrow> True
      | Some fd \<Rightarrow> ssize_is_int w \<longrightarrow> GetFileSize_answer w fd < 0x80000000)"

lemma stored_size_nonneg:
  assumes "0 \<le> stored_size w sz"
  shows "stored_size w sz = int (unat sz)"
proof -
  have "sint sz = uint sz" if "0 \<le> sint sz"
  proof -
    have "sint sz < 2 ^ 32" using sint_lt[of sz] by simp
    with that have "take_bit 32 (sint sz) = sint sz" by (simp add: take_bit_int_eq_self)
    then show ?thesis using uint_sint[of sz] by simp
  qed
  then show ?thesis using assms by (auto simp: stored_size_def)
qed

lemma stored_size_small:
  assumes "ssize_is_int w \<longrightarrow> sz < 0x80000000"
  shows "0 \<le> stored_size w sz"
proof (cases "ssize_is_int w")
  case True
  then have "uint sz < 2 ^ 31" using assms by (simp add: word_less_def)
  then have "signed_take_bit 31 (uint sz) = uint sz" 
    by (intro signed_take_bit_int_eq_self) (use uint_nonnegative[of sz] in linarith, simp)
  then show ?thesis by (simp add: stored_size_def sint_uint)
qed (simp add: stored_size_def)

lemma windows_refines:
  assumes "windows_ok w" "windows_map_file w mmdb k = (st, mmdb', k')"
  shows "(st, mmdb') = map_file (windows_files w) mmdb \<or> st = MMDB_SUCCESS \<and> file_size mmdb' < 0"
proof (rule disjCI)
  assume n: "\<not> (st = MMDB_SUCCESS \<and> file_size mmdb' < 0)"
  show "(st, mmdb') = map_file (windows_files w) mmdb"
    using assms n stored_size_nonneg[of w]
    by (auto simp: windows_map_file_def windows_map_body_def windows_files_def windows_ok_def map_file_def Let_def not_less
        split: option.splits bind_splits if_splits)
qed

lemma windows_size:
  assumes "windows_sized w" "windows_map_file w mmdb k = (MMDB_SUCCESS, mmdb', k')"
  shows "0 \<le> file_size mmdb'"
  using assms stored_size_small[of w]
  by (auto simp: windows_map_file_def windows_map_body_def windows_sized_def Let_def split: option.splits if_splits)

lemma windows_calls:
  "windows_map_file w mmdb k = (st, mmdb', k') \<Longrightarrow>
    \<exists>cs. calls k' = calls k @ cs \<and> objects cs [] = Some (if st = MMDB_SUCCESS then [Mapping] else [])"
  by (auto simp: windows_map_file_def windows_map_body_def Let_def split: prod.splits if_splits option.splits)

interpretation windows: file_mapper windows_platform windows_ok windows_sized windows_files "\<lambda>w. None" "[Winsock, Mapping]"
proof
  show "\<exists>cs. calls (starts (windows_platform w) k) = calls k @ cs \<and> objects cs [Mapping] = Some [Winsock, Mapping]" for w k
    by (simp add: windows_platform_def)
  show "\<exists>cs. calls (unmaps (windows_platform w) mmdb k) = calls k @ cs \<and> objects cs [Winsock, Mapping] = Some []" for w mmdb k
    by (simp add: windows_platform_def)
qed (simp_all add: windows_platform_def windows_refines windows_size windows_calls)

end
