(* ===== verification/OpenTheorems.thy ===== *)
theory OpenTheorems
  imports OpenSpec
begin

text \<open>
  What opening and closing a database in \<^verbatim>\<open>libmaxminddb/src/maxminddb.c\<close> guarantee,
  each property with an application to a small file.
\<close>

section \<open>A small file\<close>

text \<open>
  One node with 24-bit records whose left record leads to a string, the 16 separator bytes and that
  string; then the marker and the metadata.
\<close>

definition tree_and_data :: "u8 list" where
  "tree_and_data = [0, 0, 17, 0, 0, 1] @ replicate 16 0 @ [0x42, 0x61, 0x62]"

definition metadata_bytes :: "u8 list" where
  "metadata_bytes = [0xE9] @
     [0x4A] @ c_bytes ''node_count'' @ [0xC1, 0x01] @
     [0x4B] @ c_bytes ''record_size'' @ [0xA1, 0x18] @
     [0x4A] @ c_bytes ''ip_version'' @ [0xA1, 0x04] @
     [0x4D] @ c_bytes ''database_type'' @ [0x41, 0x54] @
     [0x49] @ c_bytes ''languages'' @ [0x01, 0x04, 0x42, 0x65, 0x6E] @
     [0x5B] @ c_bytes ''binary_format_major_version'' @ [0xA1, 0x02] @
     [0x5B] @ c_bytes ''binary_format_minor_version'' @ [0xA0] @
     [0x4B] @ c_bytes ''build_epoch'' @ [0x01, 0x02, 0x07] @
     [0x4B] @ c_bytes ''description'' @ [0xE1, 0x42, 0x65, 0x6E, 0x41, 0x78]"

definition small_file :: file_system where
  "small_file = \<lparr>open_ok = True, file_bytes = tree_and_data @ METADATA_MARKER @ metadata_bytes, mmap_failed = None\<rparr>"

definition small_metadata :: file_metadata where
  "small_metadata =
     \<lparr>fm_node_count = 1, fm_record_size = 24, fm_ip_version = 4, fm_database_type = [0x54],
      fm_languages = [[0x65, 0x6E]], fm_major_version = 2, fm_minor_version = 0, fm_build_epoch = 7,
      fm_description = [([0x65, 0x6E], [0x78])]\<rparr>"

definition small_map :: "(u8 list \<times> field) list" where
  "small_map =
     [(c_bytes ''node_count'', F_uint32 1), (c_bytes ''record_size'', F_uint16 24),
      (c_bytes ''ip_version'', F_uint16 4), (c_bytes ''database_type'', F_string [0x54]),
      (c_bytes ''languages'', F_array [F_string [0x65, 0x6E]]),
      (c_bytes ''binary_format_major_version'', F_uint16 2),
      (c_bytes ''binary_format_minor_version'', F_uint16 0), (c_bytes ''build_epoch'', F_uint64 7),
      (c_bytes ''description'', F_map [([0x65, 0x6E], F_string [0x78])])]"

lemma small_sizes: "length tree_and_data = 25" "length METADATA_MARKER = 14" "length metadata_bytes = 164"
  by (simp_all add: tree_and_data_def METADATA_MARKER_def metadata_bytes_def c_bytes_def)

lemma small_start: "metadata_start (file_bytes small_file) = Some 39"
proof -
  have l: "length (file_bytes small_file) = 203" by (simp add: small_file_def small_sizes)
  have "last_block (file_bytes small_file) = tree_and_data @ METADATA_MARKER @ metadata_bytes"
    using l by (simp add: last_block_def METADATA_BLOCK_MAX_SIZE_def small_file_def)
  moreover have "first_occurrence METADATA_MARKER (tree_and_data @ METADATA_MARKER @ metadata_bytes) = Some 25"
  proof -
    have m: "0xAB # tl METADATA_MARKER = METADATA_MARKER" by (simp add: METADATA_MARKER_def)
    have "0xAB \<notin> set tree_and_data" by (simp add: tree_and_data_def)
    from first_occurrence_behind[OF this, of "tl METADATA_MARKER" metadata_bytes] show ?thesis
      unfolding m small_sizes .
  qed
  ultimately show ?thesis using l by (simp add: metadata_start_def METADATA_BLOCK_MAX_SIZE_def small_sizes)
qed

lemma small_stored:
  assumes "off + length bs \<le> 164" "take (length bs) (drop off metadata_bytes) = bs"
  shows "stored (ptr_add (Ptr (file_bytes small_file) 39) off) bs"
proof -
  have "drop (39 + off) (file_bytes small_file) = drop off metadata_bytes"
    by (simp add: small_file_def small_sizes)
  then show ?thesis using assms(2) stored_take_drop[of bs "39 + off"] by simp
qed

text \<open>The metadata of the small file, value by value.\<close>

lemma small_scalar:
  assumes "scalar v ty bs" "length bs \<le> 27" "off + length (ctrl_bytes ty (length bs) @ bs) \<le> 164"
    "take (length (ctrl_bytes ty (length bs) @ bs)) (drop off metadata_bytes) = ctrl_bytes ty (length bs) @ bs"
    "e = off + length (ctrl_bytes ty (length bs) @ bs)"
  shows "encoded (Ptr (file_bytes small_file) 39) off v e"
  using assms by (intro enc_scalar[of v ty bs] small_stored) simp_all

lemma small_map_encoded: "encoded (Ptr (file_bytes small_file) 39) 0 (F_map small_map) 164"
proof -
  let ?m = "Ptr (file_bytes small_file) 39"
  note b = metadata_bytes_def c_bytes_def ctrl_bytes_def
  have k: "encoded ?m 1 (F_string (c_bytes ''node_count'')) 12"
      "encoded ?m 14 (F_string (c_bytes ''record_size'')) 26"
      "encoded ?m 28 (F_string (c_bytes ''ip_version'')) 39"
      "encoded ?m 41 (F_string (c_bytes ''database_type'')) 55"
      "encoded ?m 57 (F_string (c_bytes ''languages'')) 67"
      "encoded ?m 72 (F_string (c_bytes ''binary_format_major_version'')) 100"
      "encoded ?m 102 (F_string (c_bytes ''binary_format_minor_version'')) 130"
      "encoded ?m 131 (F_string (c_bytes ''build_epoch'')) 143"
      "encoded ?m 146 (F_string (c_bytes ''description'')) 158"
      "encoded ?m 55 (F_string [0x54]) 57" "encoded ?m 69 (F_string [0x65, 0x6E]) 72"
      "encoded ?m 159 (F_string [0x65, 0x6E]) 162" "encoded ?m 162 (F_string [0x78]) 164"
    by (rule small_scalar[of _ 2], simp, simp_all add: b)+
  have n: "encoded ?m 12 (F_uint32 1) 14" "encoded ?m 26 (F_uint16 24) 28" "encoded ?m 39 (F_uint16 4) 41"
      "encoded ?m 100 (F_uint16 2) 102" "encoded ?m 130 (F_uint16 0) 131" "encoded ?m 143 (F_uint64 7) 146"
    by (rule small_scalar[of _ 6 "[1]"] small_scalar[of _ 5 "[24]"] small_scalar[of _ 5 "[4]"]
      small_scalar[of _ 5 "[2]"] small_scalar[of _ 5 "[]"] small_scalar[of _ 9 "[7]"], simp_all add: b; fail)+
  have "fields_at ?m 69 [F_string [0x65, 0x6E]] 72"
    by (intro fields_cons[OF at_direct[OF k(11)]] fields_nil)
  then have a: "encoded ?m 67 (F_array [F_string [0x65, 0x6E]]) 72"
    by (intro enc_array small_stored) (simp_all add: b)
  have "pairs_at ?m 159 [([0x65, 0x6E], F_string [0x78])] 164"
    by (intro pairs_cons[OF at_direct[OF k(12)] at_direct[OF k(13)]] pairs_nil)
  then have d: "encoded ?m 158 (F_map [([0x65, 0x6E], F_string [0x78])]) 164"
    by (intro enc_map small_stored) (simp_all add: b)
  have "pairs_at ?m 1 small_map 164"
    unfolding small_map_def
    by (intro pairs_cons[OF at_direct[OF k(1)] at_direct[OF n(1)]] pairs_cons[OF at_direct[OF k(2)] at_direct[OF n(2)]]
        pairs_cons[OF at_direct[OF k(3)] at_direct[OF n(3)]] pairs_cons[OF at_direct[OF k(4)] at_direct[OF k(10)]]
        pairs_cons[OF at_direct[OF k(5)] at_direct[OF a]] pairs_cons[OF at_direct[OF k(6)] at_direct[OF n(4)]]
        pairs_cons[OF at_direct[OF k(7)] at_direct[OF n(5)]] pairs_cons[OF at_direct[OF k(8)] at_direct[OF n(6)]]
        pairs_cons[OF at_direct[OF k(9)] at_direct[OF d]] pairs_nil)
  then show ?thesis
    by (intro enc_map small_stored) (simp_all add: b small_map_def)
qed

section \<open>Opening\<close>

text \<open>
  C6: \<open>MMDB_open\<close> gives the handle the file describes. If a map of metadata follows the first
  marker in the last 128 KiB of the file and its values are valid, every member of the handle is
  filled in as the map says, whatever else the map holds, in whatever order and encoding; the data
  section begins behind the nodes and the cached start node is empty. A database type that is
  missing is taken for an empty one.
\<close>
theorem open_gives_the_described_handle:
  assumes "open_ok fs" "mmap_failed fs = None" "metadata_start (file_bytes fs) = Some start"
    and "encoded (Ptr (file_bytes fs) start) 0 (F_map kvs) e"
    and "fdepth (F_map kvs) \<le> nest" "4 \<le> nest" "metadata_says kvs fm" "metadata_valid fm"
  shows "MMDB_open (\<lambda>_. True) fs nest name fl mmdb = Done (MMDB_SUCCESS, [], opened_handle fs name fl fm start)"
  using assms by (rule MMDB_open_says)

lemma small_says: "metadata_says small_map small_metadata" "metadata_valid small_metadata"
  by (simp_all add: metadata_says_def metadata_valid_def small_map_def small_metadata_def c_bytes_def)

lemma small_depth: "fdepth (F_map small_map) \<le> 4"
proof -
  have "fdepth (F_map small_map) < Suc 4"
    unfolding fdepth_map_less small_map_def by (simp add: fdepth.simps)
  then show ?thesis by simp
qed

theorem open_gives_the_described_handle_witness:
  "MMDB_open (\<lambda>_. True) small_file 4 [0x66] 0 zero_mmdb
    = Done (MMDB_SUCCESS, [], opened_handle small_file [0x66] 0 small_metadata 39)"
  by (rule open_gives_the_described_handle[OF _ _ small_start small_map_encoded small_depth _ small_says])
    (simp_all add: small_file_def)

lemma small_open:
  "MMDB_open (\<lambda>_. True) small_file 4 [0x66] 0 zero_mmdb
    = Done (MMDB_SUCCESS, [], opened_handle small_file [0x66] 0 small_metadata 39)"
  by (rule MMDB_open_says[OF _ _ small_start small_map_encoded small_depth _ small_says])
    (simp_all add: small_file_def)

lemma small_opened: "opened small_file (opened_handle small_file [0x66] 0 small_metadata 39)"
  using postD[OF MMDB_open_post small_open] by (simp add: open_result_ok_def)

text \<open>
  C10: Whatever the file holds, a handle that \<open>MMDB_open\<close> returns with success has a known record
  size, IP version and depth, a version of the format the library reads, complete arrays of
  languages and descriptions and an empty cache.
  If the nodes lie inside the file, which \<open>MMDB_open\<close> does not test, and the file is smaller than 4 GiB, the handle also meets what
  lookups and the decoding of the data section rely on.
\<close>
theorem open_establishes_the_handle_invariants:
  assumes "MMDB_open malloc_ok fs nest name fl mmdb = Done (MMDB_SUCCESS, rs, mmdb')"
  shows "metadata_ok mmdb' \<and> binary_format_major_version (metadata mmdb') = 2 \<and> cache_ok mmdb'
    \<and> (nodes_of mmdb' * node_size mmdb' \<le> length (file_bytes fs) \<and> length (file_bytes fs) < 2 ^ 32
        \<longrightarrow> tree_wf mmdb' \<and> data_ok mmdb')"
proof -
  have o: "opened fs mmdb'" using postD[OF MMDB_open_post assms] by (simp add: open_result_ok_def)
  then have "cache_ok mmdb'" by (simp add: opened_def cache_ok_def Let_def)
  with o opened_tree_wf[OF o] show ?thesis by (simp add: opened_def Let_def)
qed

theorem open_establishes_the_handle_invariants_witness:
  "tree_wf (opened_handle small_file [0x66] 0 small_metadata 39)"
proof -
  have "nodes_of (opened_handle small_file [0x66] 0 small_metadata 39)
      * node_size (opened_handle small_file [0x66] 0 small_metadata 39) = 6"
    by (simp add: opened_handle_def small_metadata_def filled_metadata_def Let_def)
  moreover have "length (file_bytes small_file) = 203" by (simp add: small_file_def small_sizes)
  ultimately show ?thesis using open_establishes_the_handle_invariants[OF small_open] by simp
qed

section \<open>Opening that fails\<close>


















text \<open>
  The operating system's and the allocator's failures are reported: a name that cannot be copied
  and an \<open>mmap\<close> that fails with \<open>ENOMEM\<close> as lack of memory, a file that cannot be opened or examined
  as an open error, any other failure of \<open>mmap\<close> as an input or output error. The copy of the name is given
  back.
\<close>
theorem open_reports_system_failures:
  "\<exists>mmdb'. MMDB_open malloc_ok fs nest name fl mmdb =
     (if \<not> malloc_ok A_filename then Done (MMDB_OUT_OF_MEMORY_ERROR, [], mmdb')
      else if \<not> open_ok fs then Done (MMDB_FILE_OPEN_ERROR, [R_filename], mmdb')
      else case mmap_failed fs of
        Some enomem \<Rightarrow> Done (if enomem then MMDB_OUT_OF_MEMORY_ERROR else MMDB_IO_ERROR, [R_filename], mmdb')
      | None \<Rightarrow> MMDB_open malloc_ok fs nest name fl mmdb)"
  by (auto simp: MMDB_open_def open_attempt_def open_init_def map_file_def mmdb_strdup_def free_mmdb_struct_def Let_def
      free_languages_metadata_def free_descriptions_metadata_def freed_def split: option.splits)

section \<open>Closing\<close>

text \<open>What \<open>MMDB_open\<close> acquired for a handle with \<open>n\<close> languages and \<open>m\<close> descriptions.\<close>

definition acquired :: "nat \<Rightarrow> nat \<Rightarrow> resource set" where
  "acquired n m = {R_filename, R_file_content, R_database_type, R_names, R_descriptions}
     \<union> R_name ` {..<n} \<union> R_description_language ` {..<m} \<union> R_description_text ` {..<m} \<union> R_description ` {..<m}"

lemma set_held_opened:
  assumes "opened fs mmdb"
  shows "set (held mmdb) = acquired (languages_count (metadata mmdb)) (description_count (metadata mmdb))
    - (if languages_count (metadata mmdb) = 0 then {R_names} else {})
    - (if description_count (metadata mmdb) = 0 then {R_descriptions} else {})"
proof -
  have m: "metadata_ok mmdb" and f: "filename mmdb \<noteq> Null" "file_content mmdb \<noteq> Null"
    using assms by (simp_all add: opened_def Let_def)
  from m obtain ns where ns: "languages_names (metadata mmdb) = Some ns" "Null \<notin> set ns"
      "languages_count (metadata mmdb) = length ns"
    by (auto simp: metadata_ok_def Let_def)
  from m obtain ds where ds: "descriptions (metadata mmdb) = Some ds" "list_all full_description ds"
      "description_count (metadata mmdb) = length ds"
    by (auto simp: metadata_ok_def Let_def)
  have l: "set (held_languages (metadata mmdb)) = R_name ` {..<length ns} \<union> (if ns = [] then {} else {R_names})"
  proof -
    have "ns ! j \<noteq> Null" if "j < length ns" for j using ns(2) that by (metis nth_mem)
    then show ?thesis using ns by (auto simp: held_languages_def)
  qed
  have d: "set (held_descriptions (metadata mmdb)) = R_description_language ` {..<length ds}
      \<union> R_description_text ` {..<length ds} \<union> R_description ` {..<length ds} \<union> (if ds = [] then {} else {R_descriptions})"
  proof -
    have "set (freed_description j (ds ! j)) = {R_description_language j, R_description_text j, R_description j}"
      if j: "j < length ds" for j
    proof -
      have "full_description (ds ! j)" using ds(2) j by (simp add: list_all_length)
      then show ?thesis
        by (cases "ds ! j") (auto simp: full_description_def freed_description_def)
    qed
    then show ?thesis using ds by (auto simp: held_descriptions_def)
  qed
  have "database_type (metadata mmdb) \<noteq> Null" using m by (simp add: metadata_ok_def Let_def)
  then show ?thesis
    using f l d ns(3) ds(3) by (auto simp: held_def acquired_def)
qed

text \<open>
  C17: Closing an opened handle gives back everything \<open>MMDB_open\<close> acquired for it, each thing once:
  the copy of the name, the mapping, the database type, every language and every description with
  its two strings, and the two arrays, except an array of length 0, which is never freed.
\<close>
theorem close_gives_everything_back:
  assumes "MMDB_open malloc_ok fs nest name fl mmdb = Done (MMDB_SUCCESS, rs, mmdb')"
  shows "\<exists>gs. MMDB_close mmdb' = Done (gs, closed_handle mmdb') \<and> distinct gs
    \<and> set gs = acquired (languages_count (metadata mmdb')) (description_count (metadata mmdb'))
        - (if languages_count (metadata mmdb') = 0 then {R_names} else {})
        - (if description_count (metadata mmdb') = 0 then {R_descriptions} else {})"
proof -
  have o: "opened fs mmdb'" using postD[OF MMDB_open_post assms] by (simp add: open_result_ok_def)
  then have "arrays_ok mmdb'" by (intro metadata_ok_arrays) (simp add: opened_def Let_def)
  from free_mmdb_struct_held[OF this] set_held_opened[OF o] distinct_held[of mmdb'] show ?thesis
    by (simp add: MMDB_close_def)
qed

theorem close_gives_everything_back_witness:
  "\<exists>gs mmdb'. MMDB_close (opened_handle small_file [0x66] 0 small_metadata 39) = Done (gs, mmdb')
    \<and> set gs = {R_filename, R_file_content, R_database_type, R_names, R_descriptions, R_name 0,
        R_description_language 0, R_description_text 0, R_description 0}"
  using close_gives_everything_back[OF small_open]
  by (auto simp: opened_handle_def filled_metadata_def small_metadata_def acquired_def Let_def lessThan_Suc)

text \<open>
  Closing a handle twice is an error of the caller that the code does not catch: the counts of the
  arrays and the address of the mapping stay in the handle, so that the second call reads a null
  array or, with both counts 0, unmaps the file again.
\<close>
theorem closing_twice_fails:
  assumes "MMDB_open malloc_ok fs nest name fl mmdb = Done (MMDB_SUCCESS, rs, mmdb')"
    and "MMDB_close mmdb' = Done (gs, mmdb'')"
  shows "MMDB_close mmdb'' =
    (if languages_count (metadata mmdb') = 0 \<and> description_count (metadata mmdb') = 0
     then Done ([R_file_content], mmdb'') else Fault)"
proof -
  have o: "opened fs mmdb'" using postD[OF MMDB_open_post assms(1)] by (simp add: open_result_ok_def)
  then have "arrays_ok mmdb'" by (intro metadata_ok_arrays) (simp add: opened_def Let_def)
  from free_mmdb_struct_held[OF this] assms(2) have "mmdb'' = closed_handle mmdb'" by (simp add: MMDB_close_def)
  moreover have "file_content mmdb' \<noteq> Null" using o by (simp add: opened_def Let_def)
  ultimately show ?thesis
    by (auto simp: MMDB_close_def free_mmdb_struct_def closed_handle_def freed_def Let_def
        free_languages_metadata_def free_descriptions_metadata_def)
qed

theorem closing_twice_fails_witness:
  "\<exists>gs mmdb''. MMDB_close (opened_handle small_file [0x66] 0 small_metadata 39) = Done (gs, mmdb'')
    \<and> MMDB_close mmdb'' = Fault"
proof -
  let ?db = "opened_handle small_file [0x66] 0 small_metadata 39"
  have "arrays_ok ?db"
    by (rule metadata_ok_arrays) (use small_opened in \<open>simp add: opened_def Let_def\<close>)
  from free_mmdb_struct_held[OF this] have c: "MMDB_close ?db = Done (held ?db, closed_handle ?db)"
    by (simp add: MMDB_close_def)
  have "languages_count (metadata ?db) = 1"
    by (simp add: opened_handle_def filled_metadata_def small_metadata_def Let_def)
  with c closing_twice_fails[OF small_open c] show ?thesis by auto
qed

section \<open>Finding the metadata\<close>

text \<open>
  C32: \<open>find_metadata\<close> takes the first marker in the last 128 KiB of the file, not the last one, and
  gives the place behind it, with the number of bytes from the marker itself to the end of the
  file. Without a marker it gives the place 14 bytes into the searched block, never null.
\<close>
theorem find_metadata_takes_the_first_marker:
  assumes "length METADATA_MARKER \<le> length content"
  shows "find_metadata (Ptr content 0) (length content) =
    (let at = length content - METADATA_BLOCK_MAX_SIZE
           + (case first_occurrence METADATA_MARKER (last_block content) of None \<Rightarrow> 0 | Some i \<Rightarrow> i) in
     Done (Ptr content (at + length METADATA_MARKER), word_of_nat (length content - at)))"
  using find_metadata_result[OF assms] by (simp add: Let_def)

theorem find_metadata_takes_the_first_marker_witness:
  "find_metadata (Ptr (METADATA_MARKER @ METADATA_MARKER) 0) 28 = Done (Ptr (METADATA_MARKER @ METADATA_MARKER) 14, 28)"
proof -
  have m: "METADATA_MARKER = 0xAB # tl METADATA_MARKER" by (simp add: METADATA_MARKER_def)
  have l: "length (METADATA_MARKER @ METADATA_MARKER) = 28" by (simp add: small_sizes)
  have "last_block (METADATA_MARKER @ METADATA_MARKER) = METADATA_MARKER @ METADATA_MARKER"
    using l by (simp add: last_block_def METADATA_BLOCK_MAX_SIZE_def)
  moreover have "first_occurrence METADATA_MARKER (METADATA_MARKER @ METADATA_MARKER) = Some 0"
    using first_occurrence_behind[of "0xAB" "[]" "tl METADATA_MARKER" METADATA_MARKER] m by simp
  ultimately show ?thesis
    using find_metadata_takes_the_first_marker[of "METADATA_MARKER @ METADATA_MARKER"] l small_sizes(2)
    by (simp add: METADATA_BLOCK_MAX_SIZE_def)
qed

section \<open>The metadata as a list\<close>

text \<open>
  On a handle that \<open>MMDB_open\<close> filled in, \<open>MMDB_get_metadata_as_entry_data_list\<close> lists the whole
  metadata map in pre-order, keys and values, those that no member of the handle shows included.
\<close>
theorem metadata_list_is_the_metadata_map:
  assumes "metadata_start (file_bytes fs) = Some start"
    and "encoded (Ptr (file_bytes fs) start) 0 (F_map kvs) e" "2 * fdepth (F_map kvs) + 1 < nest"
  shows "\<exists>nodes. MMDB_get_metadata_as_entry_data_list nest (\<lambda>_. True) (opened_handle fs name fl fm start)
      = Done (MMDB_SUCCESS, nodes) \<and> list_all2 entry_shows nodes (flat (F_map kvs))"
proof -
  let ?db = "make_fake_metadata_db (opened_handle fs name fl fm start)"
  have sec: "section_map ?db kvs" by (rule opened_handle_section[OF assms(1,2)])
  then obtain e' where ok: "data_ok ?db" and at: "encoded (data_section ?db) 0 (F_map kvs) e'"
    by (auto simp: section_map_def)
  have "field_at (data_section ?db) (unat (0 :: u32)) (F_map kvs) e'" using at_direct[OF at] by simp
  from listed_at[OF ok this assms(3), of "\<lambda>_. True"]
  obtain member rest where "MMDB_get_entry_data_list nest (\<lambda>_. True) ?db \<lparr>entry_offset = 0\<rparr>
      = Done (MMDB_SUCCESS, member # rest)"
    "entry_shows member (F_map kvs)" "list_all2 entry_shows rest (inner (F_map kvs))"
    by blast
  then show ?thesis
    unfolding flat_Cons by (intro exI[of _ "member # rest"]) (simp add: MMDB_get_metadata_as_entry_data_list_def del: inner_simps)
qed

theorem metadata_list_is_the_metadata_map_witness:
  "\<exists>nodes. MMDB_get_metadata_as_entry_data_list 20 (\<lambda>_. True) (opened_handle small_file [0x66] 0 small_metadata 39)
      = Done (MMDB_SUCCESS, nodes) \<and> length nodes = 22"
proof -
  have l: "length (flat (F_map small_map)) = 22" by (simp add: small_map_def)
  obtain nodes where n: "MMDB_get_metadata_as_entry_data_list 20 (\<lambda>_. True) (opened_handle small_file [0x66] 0 small_metadata 39)
      = Done (MMDB_SUCCESS, nodes)" "list_all2 entry_shows nodes (flat (F_map small_map))"
    using metadata_list_is_the_metadata_map[OF small_start small_map_encoded, of 20 "[0x66]" 0 small_metadata] small_depth
    by auto
  from n(2) l have "length nodes = 22" by (simp add: list_all2_lengthD)
  with n(1) show ?thesis by blast
qed

section \<open>Copies and searches\<close>

text \<open>
  \<open>mmdb_memmem\<close> finds the first occurrence of a non-empty pattern in a readable area, and
  only reads inside the area and the pattern; it gives null if there is none.
\<close>
theorem memmem_finds_the_first_occurrence:
  assumes "readable l m" "stored s pat" "pat \<noteq> []"
  shows "mmdb_memmem l m s (length pat) =
    Done (if m < length pat then Null
          else case first_occurrence pat (bytes_at l m) of None \<Rightarrow> Null | Some i \<Rightarrow> ptr_add l i)"
  using mmdb_memmem_finds[OF assms] by (auto simp: result_at_def split: option.split)

theorem memmem_finds_the_first_occurrence_witness:
  "mmdb_memmem (Ptr [1, 2, 3, 2, 3] 0) 5 (Ptr [2, 3] 0) 2 = Done (Ptr [1, 2, 3, 2, 3] 1)"
  using memmem_finds_the_first_occurrence[of "Ptr [1, 2, 3, 2, 3] 0" 5 "Ptr [2, 3] 0" "[2, 3]"]
    first_occurrence_behind[of 2 "[1]" "[3]" "[2, 3 :: u8]"]
  by (simp add: stored_block numeral_2_eq_2)

text \<open>
  \<open>mmdb_strndup\<close> copies the bytes before the first zero, at most \<open>n\<close> of them, into a new block
  and closes it with a zero; it reads nothing behind that zero or those \<open>n\<close> bytes. It gives null
  when \<open>malloc\<close> fails.
\<close>
theorem strndup_copies_to_the_first_zero:
  assumes "readable s n"
  shows "mmdb_strndup malloc_ok s n =
    Done (if malloc_ok then Ptr (takeWhile (\<lambda>c. c \<noteq> 0) (bytes_at s n) @ [0]) 0 else Null)"
  using mmdb_strndup_readable[OF assms]
  by (cases malloc_ok) (simp_all add: mmdb_strndup_def mmdb_strnlen_def strnlen_loop_readable[OF assms])

theorem strndup_copies_to_the_first_zero_witness:
  "mmdb_strndup True (Ptr [65, 66, 0, 67] 0) 4 = Done (Ptr [65, 66, 0] 0)"
  using strndup_copies_to_the_first_zero[of "Ptr [65, 66, 0, 67] 0" 4 True] by simp

end
