(* ===== verification/HostTheorems.thy ===== *)
theory HostTheorems
  imports HostSpec OpenTheorems
begin

text \<open>
  The properties of opening and closing at the level of system calls, for POSIX and for Windows, and hosts on which
  they are tried.
\<close>

section \<open>Two hosts with a file\<close>

definition posix_small :: posix where
  "posix_small = \<lparr>open_answer = (3, None), fstat_answer = (\<lambda>fd. ((0, 203), None)),
     mmap_answer = (\<lambda>fd sz. if sz = 203 then (Some (file_bytes small_file), None) else (None, Some 22)),
     close_errno = Some 5, munmap_errno = Some 22, free_errno = (\<lambda>r e. 11)\<rparr>"

definition windows_small :: windows where
  "windows_small = \<lparr>CreateFileA_answer = Some 8, GetFileSize_answer = (\<lambda>h. 203),
     CreateFileMappingA_answer = (\<lambda>h sz. Some 12), MapViewOfFile_answer = (\<lambda>h. Some (file_bytes small_file)),
     CloseHandle_errno = None, windows_free_errno = (\<lambda>r e. 11), ssize_is_int = True\<rparr>"




lemma small_length: "length (file_bytes small_file) = 203"
  by (simp add: small_file_def small_sizes)

lemma small_hosts: "posix_ok posix_small" "windows_ok windows_small" "windows_sized windows_small"
    "posix_files posix_small = small_file" "windows_files windows_small = small_file"
  using small_length
  by (simp_all add: posix_ok_def windows_ok_def windows_sized_def posix_small_def windows_small_def posix_files_def windows_files_def
      small_file_def)

section \<open>Refinement\<close>




lemma small_host_open:
  "\<exists>k. host_open (posix_platform posix_small) id (\<lambda>_. True) 4 [0x66] 0 zero_mmdb \<lparr>errno = 0, calls = []\<rparr>
    = Done (MMDB_SUCCESS, [], opened_handle small_file [0x66] 0 small_metadata 39, k)"
  using posix.open_refines[OF small_hosts(1), of id "\<lambda>_. True" 4 "[0x66]" 0 zero_mmdb "\<lparr>errno = 0, calls = []\<rparr>"]
  by (auto simp: small_hosts small_open run_simps)


section \<open>Descriptors, handles and mappings\<close>

text \<open>
  C22: No descriptor, handle, mapping or use of Winsock is leaked or released twice: from the calls that opening makes, nothing is held
  after a failure, and after success the mapping alone (on Windows with Winsock), each acquired once; closing the handle
  releases these.
\<close>
theorem hosts_get_everything_back:
  assumes "posix_ok h \<and> P = posix_platform h \<and> kept = [Mapping] \<or> windows_ok w \<and> P = windows_platform w \<and> kept = [Winsock, Mapping]"
    and "host_open P work malloc_ok nest name fl mmdb k = Done (st, rs, mmdb', k')"
  shows "(\<exists>cs. calls k' = calls k @ cs \<and> objects cs [] = Some (if st = MMDB_SUCCESS then kept else []))
    \<and> (\<forall>gs mmdb2 k2. st = MMDB_SUCCESS \<longrightarrow> host_close P mmdb' k' = Done (gs, mmdb2, k2) \<longrightarrow>
        (\<exists>cs. calls k2 = calls k @ cs \<and> objects cs [] = Some []))"
  using assms(1)
proof (elim disjE conjE)
  assume p: "posix_ok h" "P = posix_platform h" "kept = [Mapping]"
  note r = assms(2)[unfolded p(2)]
  show ?thesis using posix.open_calls[OF p(1) r] posix.close_calls[OF p(1)] r p by blast
next
  assume w: "windows_ok w" "P = windows_platform w" "kept = [Winsock, Mapping]"
  note r = assms(2)[unfolded w(2)]
  show ?thesis using windows.open_calls[OF w(1) r] windows.close_calls[OF w(1)] r w by blast
qed

text \<open>Opened, the small file is mapped; closed, it is not.\<close>

theorem hosts_get_everything_back_witness:
  "\<exists>mmdb' k' gs mmdb2 k2. host_open (posix_platform posix_small) id (\<lambda>_. True) 4 [0x66] 0 zero_mmdb \<lparr>errno = 0, calls = []\<rparr>
      = Done (MMDB_SUCCESS, [], mmdb', k') \<and> objects (calls k') [] = Some [Mapping]
    \<and> host_close (posix_platform posix_small) mmdb' k' = Done (gs, mmdb2, k2) \<and> objects (calls k2) [] = Some []"
proof -
  let ?oh = "opened_handle small_file [0x66] 0 small_metadata 39"
  obtain k' where o: "host_open (posix_platform posix_small) id (\<lambda>_. True) 4 [0x66] 0 zero_mmdb \<lparr>errno = 0, calls = []\<rparr>
      = Done (MMDB_SUCCESS, [], ?oh, k')"
    using small_host_open by blast
  have "arrays_ok ?oh" using small_opened by (intro metadata_ok_arrays) (simp add: opened_def Let_def)
  then obtain gs mmdb2 k2 where c: "host_close (posix_platform posix_small) ?oh k' = Done (gs, mmdb2, k2)"
    by (simp add: host_close_def host_free_def free_mmdb_struct_held)
  show ?thesis
    using hosts_get_everything_back[OF disjI1[OF conjI[OF small_hosts(1) conjI[OF refl refl]]] o] o c by auto
qed

text \<open>
  C36: A file that cannot be opened, examined or mapped on a POSIX host leaves in \<open>errno\<close> what the call that failed left there,
  whatever \<open>close\<close> made of it afterwards, in \<open>map_file\<close>, and whatever \<open>free\<close> made of it when \<open>MMDB_open\<close> gave the copy of the
  name back.
\<close>
theorem errno_is_that_of_the_failure:
  assumes "posix_ok h" "posix_failure h = Some e" "\<not> gets_mapped (posix_files h)" "malloc_ok A_filename"
    and "host_open (posix_platform h) work malloc_ok nest name fl mmdb k = Done (st, rs, mmdb', k')"
  shows "st \<in> {MMDB_FILE_OPEN_ERROR, MMDB_OUT_OF_MEMORY_ERROR, MMDB_IO_ERROR} \<and> errno k' = e"
proof -
  have "MMDB_open malloc_ok (posix_files h) nest name fl mmdb = Done (st, rs, mmdb')"
    by (rule posix.open_returned[OF assms(1,5)])
  then show ?thesis
    using assms(3,4) posix.open_errno[OF assms(1) TrueI assms(5,3,4,2)]
    by (auto simp: gets_mapped_def MMDB_open_def open_attempt_def map_file_def mmdb_strdup_def Let_def run_simps split: option.splits if_splits)
qed

text \<open>\<open>mmap\<close> fails with \<open>EINVAL\<close> (22), \<open>close\<close>, after it, with \<open>EIO\<close> (5), and \<open>free\<close> leaves \<open>EAGAIN\<close> (11).\<close>

theorem errno_is_that_of_the_failure_witness:
  "\<exists>mmdb' k'. host_open (posix_platform (posix_small\<lparr>mmap_answer := \<lambda>_ _. (None, Some 22)\<rparr>)) id (\<lambda>_. True) 4 [0x66] 0
      zero_mmdb \<lparr>errno = 0, calls = []\<rparr> = Done (MMDB_IO_ERROR, [R_filename], mmdb', k')
    \<and> calls k' = [Open_call 3, Fstat_call 3, Mmap_call 3 203 False, Close_call 3] \<and> errno k' = 22"
proof -
  let ?h = "posix_small\<lparr>mmap_answer := \<lambda>_ _. (None, Some 22)\<rparr>"
  obtain mmdb' k' where r: "host_open (posix_platform ?h) id (\<lambda>_. True) 4 [0x66] 0 zero_mmdb \<lparr>errno = 0, calls = []\<rparr>
      = Done (MMDB_IO_ERROR, [R_filename], mmdb', k')"
    and c: "calls k' = [Open_call 3, Fstat_call 3, Mmap_call 3 203 False, Close_call 3]"
    by (simp add: host_open_def posix_platform_def posix_map_file_def posix_map_body_def posix_small_def called_def
        open_init_def mmdb_strdup_def host_free_def gives_back_def free_mmdb_struct_def freed_def free_languages_metadata_def
        free_descriptions_metadata_def zero_mmdb_def zero_metadata_def)
  have "errno k' = 22"
    using errno_is_that_of_the_failure[OF _ _ _ _ r]
    by (simp add: posix_ok_def posix_failure_def posix_files_def posix_small_def gets_mapped_def)
  with r c show ?thesis by blast
qed

section \<open>The size of a file on Windows\<close>

text \<open>
  \<open>GetFileSize\<close> is asked for the low 32 bits of the size only: on Windows a file of 4 GiB or more is opened with
  the remainder of its size, and its end, with the metadata, is not seen.
\<close>
theorem windows_size_is_truncated:
  assumes "windows_map_file w mmdb k = (MMDB_SUCCESS, mmdb', k')" "\<not> ssize_is_int w"
    and "\<And>fd. GetFileSize_answer w fd = word_of_nat (length bs)"
  shows "file_size mmdb' = int (length bs mod 2 ^ 32) \<and> (2 ^ 32 \<le> length bs \<longrightarrow> file_size mmdb' < int (length bs))"
proof -
  have "file_size mmdb' = uint (word_of_nat (length bs) :: u32)"
    using assms by (auto simp: windows_map_file_def windows_map_body_def stored_size_def Let_def
        split: prod.splits if_splits option.splits)
  then have f: "file_size mmdb' = int (length bs mod 2 ^ 32)" by (simp add: unsigned_of_nat take_bit_eq_mod zmod_int)
  moreover have "length bs mod 2 ^ 32 < (2 ^ 32 :: nat)" by (rule mod_less_divisor) simp
  ultimately show ?thesis by linarith
qed

text \<open>A file of 4 GiB and three bytes is opened as one of three bytes.\<close>

definition windows_huge :: windows where
  "windows_huge = windows_small\<lparr>GetFileSize_answer := (\<lambda>h. word_of_nat (length (replicate (2 ^ 32 + 3) (7 :: u8)))),
     MapViewOfFile_answer := (\<lambda>h. Some [7, 7, 7]), ssize_is_int := False\<rparr>"

theorem windows_size_is_truncated_witness:
  "\<exists>mmdb' k'. windows_map_file windows_huge zero_mmdb \<lparr>errno = 0, calls = []\<rparr> = (MMDB_SUCCESS, mmdb', k')
    \<and> file_size mmdb' = 3"
proof -
  obtain mmdb' k' where r: "windows_map_file windows_huge zero_mmdb \<lparr>errno = 0, calls = []\<rparr> = (MMDB_SUCCESS, mmdb', k')"
    by (simp add: windows_huge_def windows_small_def windows_map_file_def windows_map_body_def)
  have "file_size mmdb' = 3"
    using windows_size_is_truncated[OF r, of "replicate (2 ^ 32 + 3) 7"] by (simp add: windows_huge_def)
  with r show ?thesis by blast
qed

end
