(* ===== verification/Variants.thy ===== *)
theory Variants
  imports DumpSpec
begin

text \<open>
  The code of \<^verbatim>\<open>libmaxminddb/src/maxminddb.c\<close> that only some builds have: 128-bit integers as arrays of 16 bytes
  (\<open>MMDB_UINT128_IS_BYTE_ARRAY\<close>, for compilers without such integers) and the functions
  of debugging builds (\<open>MMDB_DEBUG\<close>), and how they agree with the other builds.
\<close>

section \<open>128-bit integers as arrays of bytes\<close>

text \<open>The branch of \<open>decode_one\<close> for \<open>uint128\<close>, with the size tested already: the member that is stored.\<close>

definition uint128_array :: "cptr \<Rightarrow> u32 \<Rightarrow> u8 list run" where
  "uint128_array at sz =
     (let buffer = replicate 16 0 in
      if sz > 0 then bind_run (copy_bytes at (unat sz)) (\<lambda>bs. Done (take (16 - unat sz) buffer @ bs))
      else Done buffer)"

text \<open>The case of \<open>dump_entry_data_list\<close> for \<open>uint128\<close>; the result of \<open>bytes_to_hex\<close> is not tested.\<close>

definition dump_uint128_array :: "bool \<Rightarrow> int \<Rightarrow> u8 list \<Rightarrow> MMDB_entry_data_s list \<Rightarrow> dumped" where
  "dump_uint128_array malloc_ok indent uint128 next_nodes =
     bind_run (bytes_to_hex malloc_ok (Ptr uint128 0) 16) (\<lambda>hex_string.
     bind_run (print_string hex_string) (\<lambda>t.
       print_line indent (c_bytes ''0x'' @ t @ c_bytes '' <uint128>'') next_nodes))"

text \<open>The loop of \<open>get_uint128\<close> reads what \<open>memcpy\<close> reads, and faults where it does.\<close>

lemma uint_loop_copy:
  "uint_loop p n v = bind_run (copy_bytes p n) (\<lambda>bs. Done (v * 256 ^ n + word_of_nat (be_val bs)))"
proof (induction n arbitrary: p v)
  case (Suc n)
  have len: "copy_bytes q n = Done bs \<Longrightarrow> length bs = n" for q bs
    by (induction n arbitrary: q bs) (auto simp: run_simps)
  show ?case
    by (cases "deref p 0"; cases "copy_bytes (ptr_add p 1) n")
      (auto simp: Suc.IH push_bit_eq_mult algebra_simps dest!: len)
qed simp

lemma length_copy_bytes: "copy_bytes p n = Done bs \<Longrightarrow> length bs = n"
  by (induction n arbitrary: p bs) (auto simp: run_simps)

lemma be_val_zeros: "be_val (replicate k 0 @ bs) = be_val bs"
  by (induction k) auto

lemma hex_print_fixed: "hex bs = print_fixed 16 (2 * length bs) (be_val bs)"
proof (induction bs rule: rev_induct)
  case (snoc b bs)
  have v: "be_val (bs @ [b]) = be_val bs * 256 + unat b" by (simp add: be_val_def)
  have "print_fixed 16 (2 * length bs + 2) (be_val (bs @ [b]))
      = print_fixed 16 (2 * length bs) (be_val bs) @ print_fixed 16 2 (unat b)"
    unfolding print_fixed_append v by simp
  with snoc show ?case by (simp add: hex_def)
qed (simp add: hex_def)

lemma dump_uint128_array_text:
  assumes "length bs = 16" "0 \<le> i"
  shows "dump_uint128_array True i bs nodes
    = Done (MMDB_SUCCESS, spaces i @ c_bytes ''0x'' @ print_fixed 16 32 (be_val bs) @ c_bytes '' <uint128>'' @ [newline], nodes)"
proof -
  have "stored (Ptr bs 0) bs" by (rule stored_take_drop) simp
  from bytes_to_hex_stored[OF this] assms
  have "bytes_to_hex True (Ptr bs 0) 16 = Done (Ptr (hex bs @ [0]) 0)" by simp
  with assms show ?thesis
    by (simp add: dump_uint128_array_def hex_not_0 print_line_spaces hex_print_fixed[of bs, symmetric]
        hex_print_fixed[of bs, unfolded assms(1), simplified, symmetric])
qed

section \<open>Debugging builds\<close>

text \<open>\<open>byte_to_binary\<close>: the loop over the bits, \<open>n\<close> left and \<open>i\<close> next.\<close>

fun binary_loop :: "u8 \<Rightarrow> nat \<Rightarrow> nat \<Rightarrow> u8 list" where
  "binary_loop byte i 0 = []"
| "binary_loop byte i (Suc n) =
     (if byte AND drop_bit i 128 \<noteq> 0 then 0x31 else 0x30) # binary_loop byte (i + 1) n"

definition byte_to_binary :: "bool \<Rightarrow> u8 \<Rightarrow> cptr" where
  "byte_to_binary malloc_ok byte = (if \<not> malloc_ok then Null else Ptr (binary_loop byte 0 8 @ [0]) 0)"

definition type_num_to_name :: "u8 \<Rightarrow> string" where
  "type_num_to_name num =
     (if num = 0 then ''extended''
      else if num = 1 then ''pointer''
      else if num = 2 then ''utf8_string''
      else if num = 3 then ''double''
      else if num = 4 then ''bytes''
      else if num = 5 then ''uint16''
      else if num = 6 then ''uint32''
      else if num = 7 then ''map''
      else if num = 8 then ''int32''
      else if num = 9 then ''uint64''
      else if num = 10 then ''uint128''
      else if num = 11 then ''array''
      else if num = 12 then ''container''
      else if num = 13 then ''end_marker''
      else if num = 14 then ''boolean''
      else if num = 15 then ''float''
      else ''unknown type'')"

text \<open>
  What \<open>decode_one\<close> prints of a string that it has decoded, at most 50 bytes of it; \<open>None\<close> if it aborts the program
  because there is no memory for the copy.
\<close>

definition debug_string :: "bool \<Rightarrow> cptr \<Rightarrow> u32 \<Rightarrow> u8 list option run" where
  "debug_string malloc_ok utf8_string sz =
     bind_run (mmdb_strndup malloc_ok utf8_string (unat (if sz > 50 then 50 else sz))) (\<lambda>string.
       if string = Null then Done None
       else bind_run (print_string string) (\<lambda>t. Done (Some (c_bytes ''string value: '' @ t @ [newline]))))"

lemma byte_AND_power: "k < 8 \<Longrightarrow> byte AND 2 ^ k \<noteq> 0 \<longleftrightarrow> odd (unat (byte :: u8) div 2 ^ k)"
proof -
  have "bit (unat byte) k = bit byte k" by (simp add: bit_unsigned_iff)
  then show ?thesis
    using bit_iff_and_push_bit_not_eq_0[of byte k] by (simp add: push_bit_eq_mult bit_iff_odd[of "unat byte"])
qed

lemma binary_print_fixed: "binary_loop byte 0 8 = print_fixed 2 8 (unat byte)"
proof -
  have d: "digit_char (n mod 2) = (if odd n then 0x31 else 0x30)" for n
    by (auto simp: digit_char_def mod2_eq_if)
  have b: "(byte AND 1 \<noteq> 0) = odd (unat byte)" "(byte AND 2 \<noteq> 0) = odd (unat byte div 2)"
    "(byte AND 4 \<noteq> 0) = odd (unat byte div 4)" "(byte AND 8 \<noteq> 0) = odd (unat byte div 8)"
    "(byte AND 16 \<noteq> 0) = odd (unat byte div 16)" "(byte AND 32 \<noteq> 0) = odd (unat byte div 32)"
    "(byte AND 64 \<noteq> 0) = odd (unat byte div 64)" "(byte AND 128 \<noteq> 0) = odd (unat byte div 128)"
    using byte_AND_power[of 0 byte] byte_AND_power[of 1 byte] byte_AND_power[of 2 byte] byte_AND_power[of 3 byte]
      byte_AND_power[of 4 byte] byte_AND_power[of 5 byte] byte_AND_power[of 6 byte] byte_AND_power[of 7 byte] by simp_all
  have eight: "(8 :: nat) = Suc (Suc (Suc (Suc (Suc (Suc (Suc (Suc 0)))))))" by simp
  have p: "print_fixed 2 8 n = map (\<lambda>m. digit_char (n div m mod 2)) [128, 64, 32, 16, 8, 4, 2, 1]" for n
    unfolding eight by (simp add: div_mult2_eq[symmetric])
  have l: "binary_loop byte 0 8 = map (\<lambda>m. if byte AND m \<noteq> 0 then 0x31 else 0x30) [128, 64, 32, 16, 8, 4, 2, 1]"
    unfolding eight by (simp add: drop_bit_Suc)
  show ?thesis unfolding p l using b by (simp add: d)
qed

section \<open>The agreement of the builds\<close>

text \<open>
  C35: The two representations of 128-bit integers agree. Of the at most 16 bytes that \<open>decode_one\<close> admits, the array
  holds the big-endian digits of the number that other builds compute, with leading zeros; one build reads outside
  the section exactly when the other does; and both print the same text.
\<close>
theorem uint128_builds_agree:
  assumes "sz \<le> 16"
  shows "case get_uint128 p (unat sz) of
      Done w \<Rightarrow> \<exists>bs. uint128_array p sz = Done bs \<and> length bs = 16 \<and> be_val bs = unat w
        \<and> (\<forall>i nodes ed. 0 \<le> i \<longrightarrow> dump_uint128_array True i bs nodes
            = dump_scalar (\<lambda>_. True) i (ed\<lparr>data_type := MMDB_DATA_TYPE_UINT128, entry_value := U_uint128 w\<rparr>) nodes)
    | _ \<Rightarrow> uint128_array p sz = Fault"
proof (cases "copy_bytes p (unat sz)")
  case (Done bs)
  let ?n = "unat sz" and ?w = "word_of_nat (be_val bs) :: u128"
  let ?arr = "replicate (16 - ?n) 0 @ bs"
  have n: "?n \<le> 16" and len: "length bs = ?n"
    using assms length_copy_bytes[OF Done] by (simp_all add: word_le_nat_alt)
  have "sz = 0 \<Longrightarrow> bs = []" using len by simp
  then have arr: "uint128_array p sz = Done ?arr" 
    using Done by (cases "sz = 0") (simp_all add: uint128_array_def Let_def word_gt_0)
  have "(256 :: nat) ^ ?n \<le> 256 ^ 16" using n by (intro power_increasing) simp_all
  then have "be_val bs < 2 ^ 128" using be_val_less[of bs] len by (simp add: power_mult[of 2 8 16, simplified])
  then have w: "unat ?w = be_val bs" by (simp add: unat_word_of_nat)
  have "dump_uint128_array True i ?arr nodes
      = dump_scalar (\<lambda>_. True) i (ed\<lparr>data_type := MMDB_DATA_TYPE_UINT128, entry_value := U_uint128 ?w\<rparr>) nodes"
    if "0 \<le> i" for i nodes and ed :: MMDB_entry_data_s
    using that len n w dump_uint128_array_text[of ?arr i nodes]
      dump_scalar_text[of "F_uint128 ?w" "ed\<lparr>data_type := MMDB_DATA_TYPE_UINT128, entry_value := U_uint128 ?w\<rparr>" i nodes]
    by (simp add: be_val_zeros)
  moreover have "get_uint128 p ?n = Done ?w" using Done by (simp add: get_uint128_def uint_loop_copy)
  ultimately show ?thesis using arr len n w by (simp add: be_val_zeros)
next
  case Fault
  then have "sz \<noteq> 0" by auto
  with Fault show ?thesis by (simp add: get_uint128_def uint_loop_copy uint128_array_def Let_def word_gt_0)
qed (simp add: terminates_copy_bytes[unfolded terminates_def])

theorem uint128_builds_agree_witness:
  "\<exists>bs. uint128_array (Ptr [1, 2, 3] 0) 3 = Done bs \<and> be_val bs = 0x10203
    \<and> dump_uint128_array True 0 bs [] = dump_scalar (\<lambda>_. True) 0
        (zero_entry_data\<lparr>data_type := MMDB_DATA_TYPE_UINT128, entry_value := U_uint128 0x10203\<rparr>) []"
proof -
  have "get_uint128 (Ptr [1, 2, 3] 0) 3 = Done 0x10203" by code_simp
  then show ?thesis using uint128_builds_agree[of 3 "Ptr [1, 2, 3] 0"] by auto
qed

text \<open>
  Every byte is printed by \<open>byte_to_binary\<close> as its eight binary digits: reading them gives the byte back, and the
  text ends with a zero in the block of nine bytes.
\<close>
theorem byte_to_binary_roundtrip:
  "\<exists>digits. byte_to_binary True byte = Ptr (digits @ [0]) 0 \<and> length digits = 8 \<and> set digits \<subseteq> {0x30, 0x31}
    \<and> read_digits 2 digits = unat byte \<and> print_string (byte_to_binary True byte) = Done digits"
proof -
  let ?ds = "binary_loop byte 0 8"
  have m: "set (binary_loop byte j n) \<subseteq> {0x30, 0x31}" for j n
    by (induction n arbitrary: j) auto
  then have "0 \<notin> set ?ds" using subsetD[OF m[of 0 8], of 0] by auto
  then show ?thesis
    using m[of 0 8] unsigned_less[of byte, where 'a = nat] binary_print_fixed[of byte]
    by (intro exI[of _ ?ds]) (simp add: byte_to_binary_def)
qed

text \<open>
  The names of the types of debugging builds are those that \<open>MMDB_dump_entry_data_list\<close> prints: whatever entry it prints on a line of its own,
  the line ends with the name of the entry's type in angle brackets; and no two of the types have the same name.
\<close>
theorem dump_prints_the_type_name:
  "(dump_scalar malloc_ok i ed nodes = Done (MMDB_SUCCESS, out, rest) \<longrightarrow>
      (\<exists>t. out = t @ c_bytes ('' <'' @ type_num_to_name (ucast (data_type ed)) @ ''>'') @ [newline]))
    \<and> inj_on type_num_to_name {0..16}"
proof (intro conjI impI)
  assume "dump_scalar malloc_ok i ed nodes = Done (MMDB_SUCCESS, out, rest)"
  then show "\<exists>t. out = t @ c_bytes ('' <'' @ type_num_to_name (ucast (data_type ed)) @ ''>'') @ [newline]"
    by (auto simp: dump_scalar_def Let_def run_simps print_line_def type_num_to_name_def split: if_splits)
next
  have "x \<in> {0..16} \<longleftrightarrow> x \<in> word_of_nat ` {0..<17}" for x :: u8
  proof
    assume "x \<in> {0..16}"
    then have "unat x \<in> {0..<17}" by (simp add: word_le_nat_alt)
    then show "x \<in> word_of_nat ` {0..<17}" by (intro image_eqI[of _ _ "unat x"]) simp_all
  next
    assume "x \<in> word_of_nat ` {0..<17}"
    then show "x \<in> {0..16}" by (auto simp: word_le_nat_alt unat_word_of_nat)
  qed
  then have "{0..16 :: u8} = set (map word_of_nat [0..<17])" by auto
  moreover have "distinct (map type_num_to_name (map word_of_nat [0..<17]))" by code_simp
  ultimately show "inj_on type_num_to_name {0..16}" by (metis distinct_map)
qed

theorem dump_prints_the_type_name_witness:
  "\<exists>t. c_bytes ''true <boolean>'' @ [newline] = t @ c_bytes ('' <'' @ type_num_to_name 14 @ ''>'') @ [newline]"
proof -
  have "dump_scalar (\<lambda>_. True) 0 (zero_entry_data\<lparr>data_type := MMDB_DATA_TYPE_BOOLEAN, entry_value := U_boolean True\<rparr>) []
      = Done (MMDB_SUCCESS, c_bytes ''true <boolean>'' @ [newline], [])"
    by code_simp
  from dump_prints_the_type_name[THEN conjunct1, rule_format, OF this] show ?thesis by simp
qed

end
