(* ===== verification/BindingConstants.thy ===== *)
theory BindingConstants
  imports Prelude
begin

text \<open>
  The constants of \<^verbatim>\<open>src/binding.cpp\<close>: the bits that select the members of a result, the names of the
  members and the names of the databases.
\<close>

named_theorems binding_constants \<open>the constants of the binding\<close>

section \<open>Bits\<close>

definition T_COUNTRY_CODE :: u32 where [binding_constants]: "T_COUNTRY_CODE = 1"
definition T_COUNTRY_CONTINENT :: u32 where [binding_constants]: "T_COUNTRY_CONTINENT = 2"
definition T_COUNTRY_NAME :: u32 where [binding_constants]: "T_COUNTRY_NAME = 4"
definition T_COUNTRY_REGISTRED :: u32 where [binding_constants]: "T_COUNTRY_REGISTRED = 8"
definition T_COUNTRY_ALL :: u32 where [binding_constants]: "T_COUNTRY_ALL = - 1"
definition T_CITY_ZIP :: u32 where [binding_constants]: "T_CITY_ZIP = 1"
definition T_CITY_NAME :: u32 where [binding_constants]: "T_CITY_NAME = 2"
definition T_CITY_TZ :: u32 where [binding_constants]: "T_CITY_TZ = 4"
definition T_CITY_REGION :: u32 where [binding_constants]: "T_CITY_REGION = 8"
definition T_CITY_METRO :: u32 where [binding_constants]: "T_CITY_METRO = 16"
definition T_CITY_LAT :: u32 where [binding_constants]: "T_CITY_LAT = 32"
definition T_CITY_LON :: u32 where [binding_constants]: "T_CITY_LON = 64"
definition T_CITY_ALL :: u32 where [binding_constants]: "T_CITY_ALL = - 1"
definition T_ISP_CODE :: u32 where [binding_constants]: "T_ISP_CODE = 1"
definition T_ISP_NAME :: u32 where [binding_constants]: "T_ISP_NAME = 2"
definition T_ISP_NORGANIZATION :: u32 where [binding_constants]: "T_ISP_NORGANIZATION = 4"
definition T_ISP_CORGANIZATION :: u32 where [binding_constants]: "T_ISP_CORGANIZATION = 8"
definition T_ISP_ALL :: u32 where [binding_constants]: "T_ISP_ALL = - 1"
definition T_ANYM_IS_ANONYMOUS :: u32 where [binding_constants]: "T_ANYM_IS_ANONYMOUS = 1"
definition T_ANYM_IS_PUBPROXY :: u32 where [binding_constants]: "T_ANYM_IS_PUBPROXY = 2"
definition T_ANYM_IS_ANONYMOUS_VPN :: u32 where [binding_constants]: "T_ANYM_IS_ANONYMOUS_VPN = 4"
definition T_ANYM_IS_HOSTING_PROVIDER :: u32 where [binding_constants]: "T_ANYM_IS_HOSTING_PROVIDER = 8"
definition T_ANYM_IS_TOR_EXIT_NODE :: u32 where [binding_constants]: "T_ANYM_IS_TOR_EXIT_NODE = 16"
definition T_ANYM_ALL :: u32 where [binding_constants]: "T_ANYM_ALL = - 1"
definition T_NETSPEED_TYPE :: u32 where [binding_constants]: "T_NETSPEED_TYPE = 1"
definition T_NETSPEED_ALL :: u32 where [binding_constants]: "T_NETSPEED_ALL = - 1"

section \<open>Names\<close>

definition LABEL_COUNTRY_CODE :: string where [binding_constants]: "LABEL_COUNTRY_CODE = ''countryCode''"
definition LABEL_COUNTRY_CONTINENT :: string where [binding_constants]: "LABEL_COUNTRY_CONTINENT = ''countryContinent''"
definition LABEL_COUNTRY_NAME :: string where [binding_constants]: "LABEL_COUNTRY_NAME = ''countryName''"
definition LABEL_COUNTRY_REGISTRED :: string where [binding_constants]: "LABEL_COUNTRY_REGISTRED = ''countryRegistred''"
definition LABEL_CITY_ZIP :: string where [binding_constants]: "LABEL_CITY_ZIP = ''cityZip''"
definition LABEL_CITY_NAME :: string where [binding_constants]: "LABEL_CITY_NAME = ''cityName''"
definition LABEL_CITY_TZ :: string where [binding_constants]: "LABEL_CITY_TZ = ''cityTimeZone''"
definition LABEL_CITY_REGION :: string where [binding_constants]: "LABEL_CITY_REGION = ''cityRegion''"
definition LABEL_CITY_METRO :: string where [binding_constants]: "LABEL_CITY_METRO = ''cityMetro''"
definition LABEL_CITY_LAT :: string where [binding_constants]: "LABEL_CITY_LAT = ''cityLatitude''"
definition LABEL_CITY_LON :: string where [binding_constants]: "LABEL_CITY_LON = ''cityLongitude''"
definition LABEL_ISP_CODE :: string where [binding_constants]: "LABEL_ISP_CODE = ''ispCode''"
definition LABEL_ISP_NAME :: string where [binding_constants]: "LABEL_ISP_NAME = ''ispName''"
definition LABEL_ISP_CORGANIZATION :: string where [binding_constants]: "LABEL_ISP_CORGANIZATION = ''ispCodeOrganization''"
definition LABEL_ISP_NORGANIZATION :: string where [binding_constants]: "LABEL_ISP_NORGANIZATION = ''ispNameOrganization''"
definition LABEL_ANYM_IS_ANONYMOUS :: string where [binding_constants]: "LABEL_ANYM_IS_ANONYMOUS = ''is_anonymous''"
definition LABEL_ANYM_IS_PUBPROXY :: string where [binding_constants]: "LABEL_ANYM_IS_PUBPROXY = ''is_public_proxy''"
definition LABEL_ANYM_IS_VPN :: string where [binding_constants]: "LABEL_ANYM_IS_VPN = ''is_anonymous_vpn''"
definition LABEL_ANYM_IS_HOSTING :: string where [binding_constants]: "LABEL_ANYM_IS_HOSTING = ''is_hosting_provider''"
definition LABEL_ANYM_IS_TOR :: string where [binding_constants]: "LABEL_ANYM_IS_TOR = ''is_tor_exit_node''"
definition LABEL_NETSPEED_TYPE :: string where [binding_constants]: "LABEL_NETSPEED_TYPE = ''connection_type''"
definition LOOKUP_KEY_COUNTRY :: string where [binding_constants]: "LOOKUP_KEY_COUNTRY = ''country''"
definition LOOKUP_KEY_CITY :: string where [binding_constants]: "LOOKUP_KEY_CITY = ''city''"
definition LOOKUP_KEY_ISP :: string where [binding_constants]: "LOOKUP_KEY_ISP = ''isp''"
definition LOOKUP_KEY_NETSPEED :: string where [binding_constants]: "LOOKUP_KEY_NETSPEED = ''netspeed''"
definition LOOKUP_KEY_ANONYMOUS :: string where [binding_constants]: "LOOKUP_KEY_ANONYMOUS = ''anonymous''"

end
