(* ===== verification/Binding.thy ===== *)
theory Binding
  imports BindingConstants Handle SearchTree
begin

text \<open>
  The Node.js binding, \<^verbatim>\<open>src/binding.cpp\<close>: \<open>loadDb\<close>, \<open>unload\<close>, \<open>lookupIp\<close> with its macros, and the table
  of exports of \<open>init\<close>. The JavaScript engine is a parameter: an object that is passed in is the
  function from its keys to the converted values, \<open>None\<close> for undefined ones; an object that is
  handed out is the map of its members.
\<close>

section \<open>Values\<close>

text \<open>A number from an integer, or from the pattern of a \<open>double\<close>.\<close>

datatype js_value = JS_string "u8 list" | JS_int nat | JS_double u64 | JS_function string

type_synonym js_object = "string \<rightharpoonup> js_value"

text \<open>A call throws an exception with a message, or goes on.\<close>

type_synonym 'a js = "(string + 'a) run"

definition bind_js :: "'a js \<Rightarrow> ('a \<Rightarrow> 'b js) \<Rightarrow> 'b js" where
  "bind_js m f = bind_run m (\<lambda>r. case r of Inl msg \<Rightarrow> Done (Inl msg) | Inr x \<Rightarrow> f x)"

lemma bind_js_Done [simp]:
  "bind_js (Done (Inr x)) f = f x" "bind_js (Done (Inl msg)) f = Done (Inl msg)"
  "bind_js Fault f = Fault" "bind_js OutOfFuel f = OutOfFuel"
  by (simp_all add: bind_js_def)

section \<open>The members of a result\<close>

text \<open>
  The macros \<open>SET_MMDB_ENTRY\<close>, \<open>SET_MMDB_ENTRY_INT16\<close>, \<open>SET_MMDB_ENTRY_BOOL\<close> and
  \<open>SET_MMDB_ENTRY_DOUBLE\<close>. Only the first one looks at the type; the others read their member of the
  union whatever was stored there. A byte other than 0 and 1 is no value of \<open>bool\<close>.
\<close>

datatype entry_kind = K_string | K_int16 | K_bool | K_double

definition default_val :: js_value where
  "default_val = JS_string (c_bytes ''NA'')"

definition set_mmdb_entry :: "entry_kind \<Rightarrow> MMDB_entry_data_s \<Rightarrow> js_object \<Rightarrow> string \<Rightarrow> js_object js" where
  "set_mmdb_entry kind mmdb_entry obj key =
     (if \<not> has_data mmdb_entry then Done (Inr (obj(key \<mapsto> default_val)))
      else case kind of
        K_string \<Rightarrow>
          if data_type mmdb_entry \<noteq> MMDB_DATA_TYPE_UTF8_STRING then
            Done (Inl ''Unexpected data type of result for country code'')
          else
            bind_run (union_utf8_string (entry_value mmdb_entry)) (\<lambda>p.
            bind_run (size_of_entry mmdb_entry) (\<lambda>sz.
            bind_run (copy_bytes p (unat sz)) (\<lambda>s. Done (Inr (obj(key \<mapsto> JS_string s))))))
      | K_int16 \<Rightarrow> bind_run (union_low 2 (entry_value mmdb_entry)) (\<lambda>n.
          Done (Inr (obj(key \<mapsto> JS_int (unat (word_of_nat n :: u16))))))
      | K_bool \<Rightarrow> bind_run (union_low 1 (entry_value mmdb_entry)) (\<lambda>n.
          let v = unat (word_of_nat n :: u8) in
          if v \<le> 1 then Done (Inr (obj(key \<mapsto> JS_int v))) else Fault)
      | K_double \<Rightarrow> bind_run (union_low 8 (entry_value mmdb_entry)) (\<lambda>n.
          Done (Inr (obj(key \<mapsto> JS_double (word_of_nat n))))))"

text \<open>
  One block \<^verbatim>\<open>if (mask & bit) { ... }\<close> after the other, as a table of the bit, the macro, the path and
  the key. \<open>new\<close> leaves the entry indeterminate, and so does \<open>MMDB_get_value\<close> when it has no memory
  for the path, so that reading \<open>has_data\<close> has no defined result then.
\<close>

type_synonym member_block = "u32 \<times> entry_kind \<times> string list \<times> string"

fun collect_members ::
  "(string option list \<Rightarrow> MMDB_entry_data_s outcome) \<Rightarrow> u32 \<Rightarrow> member_block list \<Rightarrow> js_object \<Rightarrow> js_object js" where
  "collect_members get_value m [] obj = Done (Inr obj)"
| "collect_members get_value m ((flag, kind, path, key) # blocks) obj =
     (if m AND flag = 0 then collect_members get_value m blocks obj
      else
        bind_run (get_value (map Some path @ [None])) (\<lambda>(status, mmdb_entry).
        if status = MMDB_OUT_OF_MEMORY_ERROR then Fault
        else bind_js (set_mmdb_entry kind mmdb_entry obj key) (collect_members get_value m blocks)))"

definition country_blocks :: "member_block list" where
  "country_blocks =
     [(T_COUNTRY_CODE, K_string, [''country'', ''iso_code''], LABEL_COUNTRY_CODE),
      (T_COUNTRY_NAME, K_string, [''country'', ''names'', ''en''], LABEL_COUNTRY_NAME),
      (T_COUNTRY_CONTINENT, K_string, [''continent'', ''names'', ''en''], LABEL_COUNTRY_CONTINENT),
      (T_COUNTRY_REGISTRED, K_string, [''registered_country'', ''names'', ''en''], LABEL_COUNTRY_REGISTRED)]"

definition city_blocks :: "member_block list" where
  "city_blocks =
     [(T_CITY_ZIP, K_string, [''postal'', ''code''], LABEL_CITY_ZIP),
      (T_CITY_NAME, K_string, [''city'', ''names'', ''en''], LABEL_CITY_NAME),
      (T_CITY_TZ, K_string, [''location'', ''time_zone''], LABEL_CITY_TZ),
      (T_CITY_REGION, K_string, [''subdivisions'', ''0'', ''iso_code''], LABEL_CITY_REGION),
      (T_CITY_METRO, K_int16, [''location'', ''metro_code''], LABEL_CITY_METRO),
      (T_CITY_LAT, K_double, [''location'', ''latitude''], LABEL_CITY_LAT),
      (T_CITY_LON, K_double, [''location'', ''longitude''], LABEL_CITY_LON)]"

definition isp_blocks :: "member_block list" where
  "isp_blocks =
     [(T_ISP_CODE, K_int16, [''autonomous_system_number''], LABEL_ISP_CODE),
      (T_ISP_NAME, K_string, [''isp''], LABEL_ISP_NAME),
      (T_ISP_NORGANIZATION, K_string, [''organization''], LABEL_ISP_NORGANIZATION),
      (T_ISP_CORGANIZATION, K_string, [''autonomous_system_organization''], LABEL_ISP_CORGANIZATION)]"

definition netspeed_blocks :: "member_block list" where
  "netspeed_blocks = [(T_NETSPEED_TYPE, K_string, [''connection_type''], LABEL_NETSPEED_TYPE)]"

definition anonymous_blocks :: "member_block list" where
  "anonymous_blocks =
     [(T_ANYM_IS_ANONYMOUS, K_bool, [''is_anonymous''], LABEL_ANYM_IS_ANONYMOUS),
      (T_ANYM_IS_PUBPROXY, K_bool, [''is_public_proxy''], LABEL_ANYM_IS_PUBPROXY),
      (T_ANYM_IS_ANONYMOUS_VPN, K_bool, [''is_anonymous_vpn''], LABEL_ANYM_IS_VPN),
      (T_ANYM_IS_HOSTING_PROVIDER, K_bool, [''is_hosting_provider''], LABEL_ANYM_IS_HOSTING),
      (T_ANYM_IS_TOR_EXIT_NODE, K_bool, [''is_tor_exit_node''], LABEL_ANYM_IS_TOR)]"

section \<open>The module's state\<close>

text \<open>The five global handles, zeroed when the module is loaded.\<close>

record databases =
  mmdbCountry :: MMDB_s
  mmdbCity :: MMDB_s
  mmdbIsp :: MMDB_s
  mmdbNetspeed :: MMDB_s
  mmdbAnonymous :: MMDB_s

definition no_databases :: databases where
  "no_databases = \<lparr>mmdbCountry = zero_mmdb, mmdbCity = zero_mmdb, mmdbIsp = zero_mmdb,
     mmdbNetspeed = zero_mmdb, mmdbAnonymous = zero_mmdb\<rparr>"

text \<open>
  What surrounds the module: files by name, \<open>malloc\<close> for opening and for paths, \<open>getaddrinfo\<close> and
  \<open>gai_strerror\<close>, and the bound on the recursion of the lookups.
\<close>

record surroundings =
  files :: "u8 list \<Rightarrow> file_system"
  open_malloc :: "alloc_site \<Rightarrow> bool"
  path_malloc :: "nat \<Rightarrow> bool"
  resolver :: getaddrinfo
  gai_strerror :: "int \<Rightarrow> string option"
  nesting :: nat

section \<open>Loading and unloading\<close>

text \<open>
  The messages are built with \<open>result + \<dots>\<close>, whose value is dropped, so that \<open>result\<close> stays empty.
  The result holds it, what a failing \<open>MMDB_open\<close> gave back, and the handle.
\<close>

definition loadMMDB :: "surroundings \<Rightarrow> u8 list \<Rightarrow> MMDB_s \<Rightarrow> (u8 list \<times> resource list \<times> MMDB_s) run" where
  "loadMMDB env fname db_s =
     (let result = [] in
      bind_run (MMDB_open (open_malloc env) (files env fname) (nesting env) fname MMDB_MODE_MMAP db_s)
        (\<lambda>(status, rs, db_s).
        if status \<noteq> MMDB_SUCCESS then
          (if status = MMDB_IO_ERROR then Done (result, rs, db_s) else Done (result, rs, db_s))
        else Done (result, rs, db_s)))"

text \<open>
  One of the blocks of \<open>loadDb\<close>: \<open>fname\<close> is the value under the key, \<open>db_s\<close> the handle the block opens.
  A file name ends at its first zero byte.
\<close>

definition load_key ::
  "surroundings \<Rightarrow> u8 list option \<Rightarrow> string \<Rightarrow> MMDB_s \<Rightarrow> js_object \<Rightarrow> (js_object \<times> MMDB_s) run" where
  "load_key env val key db_s db_stats =
     (case val of None \<Rightarrow> Done (db_stats, db_s)
      | Some fname \<Rightarrow>
          bind_run (loadMMDB env (takeWhile (\<lambda>c. c \<noteq> 0) fname) db_s) (\<lambda>(tmp, rs, db_s).
            Done (db_stats(key \<mapsto> JS_string tmp), db_s)))"

definition loadDb ::
  "surroundings \<Rightarrow> databases \<Rightarrow> (string \<Rightarrow> u8 list option) option \<Rightarrow> ((string + js_object) \<times> databases) run" where
  "loadDb env s args0 =
     (case args0 of None \<Rightarrow> Done (Inl ''No database filenames set'', s)
      | Some options \<Rightarrow>
          bind_run (load_key env (options LOOKUP_KEY_COUNTRY) LOOKUP_KEY_COUNTRY (mmdbCity s) Map.empty) (\<lambda>(db_stats, db).
          let s = s\<lparr>mmdbCity := db\<rparr> in
          bind_run (load_key env (options LOOKUP_KEY_CITY) LOOKUP_KEY_CITY (mmdbCity s) db_stats) (\<lambda>(db_stats, db).
          let s = s\<lparr>mmdbCity := db\<rparr> in
          bind_run (load_key env (options LOOKUP_KEY_ISP) LOOKUP_KEY_ISP (mmdbIsp s) db_stats) (\<lambda>(db_stats, db).
          let s = s\<lparr>mmdbIsp := db\<rparr> in
          bind_run (load_key env (options LOOKUP_KEY_NETSPEED) LOOKUP_KEY_NETSPEED (mmdbNetspeed s) db_stats) (\<lambda>(db_stats, db).
          let s = s\<lparr>mmdbNetspeed := db\<rparr> in
          bind_run (load_key env (options LOOKUP_KEY_ANONYMOUS) LOOKUP_KEY_ANONYMOUS (mmdbAnonymous s) db_stats) (\<lambda>(db_stats, db).
          Done (Inr db_stats, s\<lparr>mmdbAnonymous := db\<rparr>)))))))"

definition unload_handle :: "MMDB_s \<Rightarrow> (resource list \<times> MMDB_s) run" where
  "unload_handle db = (if filename db \<noteq> Null then MMDB_close db else Done ([], db))"

text \<open>What is given back of each database, in this order.\<close>

definition unload :: "databases \<Rightarrow> (resource list list \<times> databases) run" where
  "unload s =
     bind_run (unload_handle (mmdbCountry s)) (\<lambda>(r1, d1).
     bind_run (unload_handle (mmdbCity s)) (\<lambda>(r2, d2).
     bind_run (unload_handle (mmdbIsp s)) (\<lambda>(r3, d3).
     bind_run (unload_handle (mmdbNetspeed s)) (\<lambda>(r4, d4).
     bind_run (unload_handle (mmdbAnonymous s)) (\<lambda>(r5, d5).
       Done ([r1, r2, r3, r4, r5], \<lparr>mmdbCountry = d1, mmdbCity = d2, mmdbIsp = d3, mmdbNetspeed = d4, mmdbAnonymous = d5\<rparr>))))))"

section \<open>Looking up an address\<close>

definition nonNull :: "string option \<Rightarrow> string" where
  "nonNull msg = (case msg of None \<Rightarrow> ''(Unknown error)'' | Some m \<Rightarrow> m)"

text \<open>
  The call of \<open>MMDB_lookup_string\<close> with the two tests behind it, as every database is asked. The handle is
  part of the result, as a lookup stores the start node for IPv4 in it.
\<close>

definition ask :: "surroundings \<Rightarrow> string \<Rightarrow> MMDB_s \<Rightarrow> ((string + MMDB_lookup_result_s) \<times> MMDB_s) run" where
  "ask env ip db =
     bind_run (MMDB_lookup_string (resolver env) db ip None) (\<lambda>(mmdb_result, gai_error, mmdb_error, db).
     if gai_error \<noteq> 0 then
       Done (Inl (''Error from getaddrinfo for '' @ ip @ nonNull (gai_strerror env gai_error)), db)
     else case mmdb_error of None \<Rightarrow> Fault
     | Some st \<Rightarrow>
         if st \<noteq> MMDB_SUCCESS then
           Done (Inl (''Error looking up ip: '' @ nonNull (Some (MMDB_strerror (status_code st)))), db)
         else Done (Inr mmdb_result, db))"

definition members ::
  "surroundings \<Rightarrow> MMDB_s \<Rightarrow> MMDB_lookup_result_s \<Rightarrow> u32 \<Rightarrow> member_block list \<Rightarrow> js_object js" where
  "members env db mmdb_result m blocks =
     collect_members (MMDB_get_value (path_malloc env) (nesting env) db (entry mmdb_result) uninit_entry_data)
       m blocks Map.empty"

definition defaultLoockupOptions :: "string \<Rightarrow> u32 option" where
  "defaultLoockupOptions =
     [LOOKUP_KEY_COUNTRY \<mapsto> T_COUNTRY_ALL, LOOKUP_KEY_CITY \<mapsto> T_CITY_ALL, LOOKUP_KEY_ISP \<mapsto> T_ISP_ALL,
      LOOKUP_KEY_NETSPEED \<mapsto> T_NETSPEED_ALL, LOOKUP_KEY_ANONYMOUS \<mapsto> T_ANYM_ALL]"

type_synonym ip_data = "string \<rightharpoonup> js_object"

text \<open>
  The parts for the country and the city, which share one lookup; \<open>None\<close> as the result is the early
  return when the address is not found.
\<close>

definition country_and_city ::
  "surroundings \<Rightarrow> string \<Rightarrow> (string \<Rightarrow> u32 option) \<Rightarrow> MMDB_s \<Rightarrow> ((string + ip_data option) \<times> MMDB_s) run" where
  "country_and_city env ip options db =
     (let valA = options LOOKUP_KEY_COUNTRY; valB = options LOOKUP_KEY_CITY in
      if filename db = Null \<or> (valA = None \<and> valB = None) then Done (Inr (Some Map.empty), db)
      else
        bind_run (ask env ip db) (\<lambda>(r, db).
        case r of Inl msg \<Rightarrow> Done (Inl msg, db)
        | Inr mmdb_result \<Rightarrow>
          if \<not> found_entry mmdb_result then Done (Inr None, db)
          else
            bind_run (case valA of None \<Rightarrow> Done (Inr Map.empty)
              | Some t_ctry \<Rightarrow> bind_js (members env db mmdb_result t_ctry country_blocks) (\<lambda>obj.
                  Done (Inr [LOOKUP_KEY_COUNTRY \<mapsto> obj]))) (\<lambda>r.
            case r of Inl msg \<Rightarrow> Done (Inl msg, db)
            | Inr ipData \<Rightarrow>
              bind_run (case valB of None \<Rightarrow> Done (Inr ipData)
                | Some t_city \<Rightarrow> bind_js (members env db mmdb_result t_city city_blocks) (\<lambda>obj.
                    Done (Inr (ipData(LOOKUP_KEY_CITY \<mapsto> obj))))) (\<lambda>r.
              case r of Inl msg \<Rightarrow> Done (Inl msg, db) | Inr ipData \<Rightarrow> Done (Inr (Some ipData), db)))))"

text \<open>The part for one of the other databases.\<close>

definition other_part ::
  "surroundings \<Rightarrow> string \<Rightarrow> (string \<Rightarrow> u32 option) \<Rightarrow> string \<Rightarrow> member_block list \<Rightarrow> ip_data \<Rightarrow> MMDB_s \<Rightarrow>
     ((string + ip_data) \<times> MMDB_s) run" where
  "other_part env ip options keyA blocks ipData db =
     (case options keyA of None \<Rightarrow> Done (Inr ipData, db)
      | Some t \<Rightarrow>
        if filename db = Null then Done (Inr ipData, db)
        else
          bind_run (ask env ip db) (\<lambda>(r, db).
          case r of Inl msg \<Rightarrow> Done (Inl msg, db)
          | Inr mmdb_result \<Rightarrow>
            if found_entry mmdb_result then
              bind_run (members env db mmdb_result t blocks) (\<lambda>r.
              case r of Inl msg \<Rightarrow> Done (Inl msg, db) | Inr obj \<Rightarrow> Done (Inr (ipData(keyA \<mapsto> obj)), db))
            else Done (Inr ipData, db)))"

definition isp_part :: "surroundings \<Rightarrow> string \<Rightarrow> (string \<Rightarrow> u32 option) \<Rightarrow> ip_data \<Rightarrow> MMDB_s \<Rightarrow> ((string + ip_data) \<times> MMDB_s) run" where
  "isp_part env ip options = other_part env ip options LOOKUP_KEY_ISP isp_blocks"

definition netspeed_part :: "surroundings \<Rightarrow> string \<Rightarrow> (string \<Rightarrow> u32 option) \<Rightarrow> ip_data \<Rightarrow> MMDB_s \<Rightarrow> ((string + ip_data) \<times> MMDB_s) run" where
  "netspeed_part env ip options = other_part env ip options LOOKUP_KEY_NETSPEED netspeed_blocks"

definition anonymous_part :: "surroundings \<Rightarrow> string \<Rightarrow> (string \<Rightarrow> u32 option) \<Rightarrow> ip_data \<Rightarrow> MMDB_s \<Rightarrow> ((string + ip_data) \<times> MMDB_s) run" where
  "anonymous_part env ip options = other_part env ip options LOOKUP_KEY_ANONYMOUS anonymous_blocks"

text \<open>
  \<open>args0\<close> is the first argument if it is a string, \<open>args1\<close> the second one unless it is undefined. The
  text of the address ends at its first zero character.
\<close>

definition lookupIp ::
  "surroundings \<Rightarrow> databases \<Rightarrow> string option \<Rightarrow> (string \<Rightarrow> u32 option) option \<Rightarrow>
     ((string + ip_data) \<times> databases) run" where
  "lookupIp env s args0 args1 =
     (case args0 of None \<Rightarrow> Done (Inl ''No ip address specified'', s)
      | Some arg \<Rightarrow>
        let ip = takeWhile (\<lambda>c. c \<noteq> CHR 0x00) arg;
            options = (case args1 of None \<Rightarrow> defaultLoockupOptions | Some opts \<Rightarrow> opts) in
        bind_run (country_and_city env ip options (mmdbCity s)) (\<lambda>(r, db).
        let s = s\<lparr>mmdbCity := db\<rparr> in
        case r of Inl msg \<Rightarrow> Done (Inl msg, s) | Inr None \<Rightarrow> Done (Inr Map.empty, s)
        | Inr (Some ipData) \<Rightarrow>
          bind_run (isp_part env ip options ipData (mmdbIsp s)) (\<lambda>(r, db).
          let s = s\<lparr>mmdbIsp := db\<rparr> in
          case r of Inl msg \<Rightarrow> Done (Inl msg, s) | Inr ipData \<Rightarrow>
            bind_run (netspeed_part env ip options ipData (mmdbNetspeed s)) (\<lambda>(r, db).
            let s = s\<lparr>mmdbNetspeed := db\<rparr> in
            case r of Inl msg \<Rightarrow> Done (Inl msg, s) | Inr ipData \<Rightarrow>
              bind_run (anonymous_part env ip options ipData (mmdbAnonymous s)) (\<lambda>(r, db).
              let s = s\<lparr>mmdbAnonymous := db\<rparr> in
              case r of Inl msg \<Rightarrow> Done (Inl msg, s) | Inr ipData \<Rightarrow> Done (Inr ipData, s))))))"

section \<open>Exports\<close>

text \<open>The calls of \<open>exports->Set\<close> in \<open>init\<close>, in order.\<close>

definition export_calls :: "(string \<times> js_value) list" where
  "export_calls =
     [(''load'', JS_function ''loadDb''),
      (''lookupIp'', JS_function ''lookupIp''),
      (''unload'', JS_function ''unload''),
      (''LOOKUP_KEY_COUNTRY'', JS_string (c_bytes LOOKUP_KEY_COUNTRY)),
      (''LOOKUP_KEY_CITY'', JS_string (c_bytes LOOKUP_KEY_CITY)),
      (''LOOKUP_KEY_ISP'', JS_string (c_bytes LOOKUP_KEY_ISP)),
      (''LOOKUP_KEY_NETSPEED'', JS_string (c_bytes LOOKUP_KEY_NETSPEED)),
      (''LOOKUP_KEY_ANONYMOUS'', JS_string (c_bytes LOOKUP_KEY_ANONYMOUS)),
      (''LABEL_COUNTRY_NAME'', JS_string (c_bytes LABEL_COUNTRY_NAME)),
      (''LABEL_COUNTRY_CODE'', JS_string (c_bytes LABEL_COUNTRY_CODE)),
      (''LABEL_COUNTRY_CONTINENT'', JS_string (c_bytes LABEL_COUNTRY_CONTINENT)),
      (''LABEL_COUNTRY_REGISTRED'', JS_string (c_bytes LABEL_COUNTRY_REGISTRED)),
      (''LABEL_CITY_ZIP'', JS_string (c_bytes LABEL_CITY_ZIP)),
      (''LABEL_CITY_NAME'', JS_string (c_bytes LABEL_CITY_NAME)),
      (''LABEL_CITY_TZ'', JS_string (c_bytes LABEL_CITY_TZ)),
      (''LABEL_CITY_REGION'', JS_string (c_bytes LABEL_CITY_REGION)),
      (''LABEL_CITY_METRO'', JS_string (c_bytes LABEL_CITY_METRO)),
      (''LABEL_CITY_LAT'', JS_string (c_bytes LABEL_CITY_LAT)),
      (''LABEL_CITY_LON'', JS_string (c_bytes LABEL_CITY_LON)),
      (''LABEL_ISP_CODE'', JS_string (c_bytes LABEL_ISP_CODE)),
      (''LABEL_ISP_NAME'', JS_string (c_bytes LABEL_ISP_NAME)),
      (''LABEL_ISP_NORGANIZATION'', JS_string (c_bytes LABEL_ISP_NORGANIZATION)),
      (''LABEL_ISP_CORGANIZATION'', JS_string (c_bytes LABEL_ISP_CORGANIZATION)),
      (''LABEL_ANYM_IS_ANONYMOUS'', JS_string (c_bytes LABEL_ANYM_IS_ANONYMOUS)),
      (''LABEL_ANYM_IS_PUBPROXY'', JS_string (c_bytes LABEL_ANYM_IS_PUBPROXY)),
      (''LABEL_ANYM_IS_VPN'', JS_string (c_bytes LABEL_ANYM_IS_VPN)),
      (''LABEL_ANYM_IS_HOSTING'', JS_string (c_bytes LABEL_ANYM_IS_HOSTING)),
      (''LABEL_ANYM_IS_TOR'', JS_string (c_bytes LABEL_ANYM_IS_TOR)),
      (''LABEL_NETSPEED_TYPE'', JS_string (c_bytes LABEL_NETSPEED_TYPE)),
      (''T_COUNTRY_CODE'', JS_int (unat T_COUNTRY_CODE)),
      (''T_COUNTRY_CONTINENT'', JS_int (unat T_COUNTRY_CONTINENT)),
      (''T_COUNTRY_NAME'', JS_int (unat T_COUNTRY_NAME)),
      (''T_COUNTRY_REGISTRED'', JS_int (unat T_COUNTRY_REGISTRED)),
      (''T_COUNTRY_ALL'', JS_int (unat T_COUNTRY_ALL)),
      (''T_CITY_ZIP'', JS_int (unat T_CITY_ZIP)),
      (''T_CITY_NAME'', JS_int (unat T_CITY_NAME)),
      (''T_CITY_TZ'', JS_int (unat T_CITY_TZ)),
      (''T_CITY_ALL'', JS_int (unat T_CITY_ALL)),
      (''T_ISP_CODE'', JS_int (unat T_ISP_CODE)),
      (''T_ISP_NAME'', JS_int (unat T_ISP_NAME)),
      (''T_ISP_CORGANIZATION'', JS_int (unat T_ISP_CORGANIZATION)),
      (''T_ISP_NORGANIZATION'', JS_int (unat T_ISP_NORGANIZATION)),
      (''T_ISP_ALL'', JS_int (unat T_ISP_ALL)),
      (''T_NETSPEED_TYPE'', JS_int (unat T_NETSPEED_TYPE)),
      (''T_NETSPEED_ALL'', JS_int (unat T_NETSPEED_ALL)),
      (''T_ANYM_IS_ANONYMOUS'', JS_int (unat T_ANYM_IS_ANONYMOUS_VPN)),
      (''T_ANYM_IS_PUBPROXY'', JS_int (unat T_ANYM_IS_PUBPROXY)),
      (''T_ANYM_IS_PUBPROXY'', JS_int (unat T_ANYM_IS_ANONYMOUS_VPN)),
      (''T_ANYM_IS_HOSTING_PROVIDER'', JS_int (unat T_ANYM_IS_HOSTING_PROVIDER)),
      (''T_ANYM_IS_TOR_EXIT_NODE'', JS_int (unat T_ANYM_IS_TOR_EXIT_NODE)),
      (''T_ANYM_ALL'', JS_int (unat T_ANYM_ALL))]"

definition exports :: js_object where
  "exports = fold (\<lambda>(name, v) obj. obj(name \<mapsto> v)) export_calls Map.empty"

end
