(* ===== verification/BindingSpec.thy ===== *)
theory BindingSpec
  imports Binding OpenSpec TreeLookup
begin

text \<open>
  What the binding reports of a database entry, and the invariant of its global handles.
\<close>

section \<open>The members of a value\<close>

text \<open>What a macro makes of a value; integers other than those of two bytes keep their low 16 bits.\<close>

fun member_value :: "entry_kind \<Rightarrow> field \<Rightarrow> js_value option" where
  "member_value K_string (F_string s) = Some (JS_string s)"
| "member_value K_int16 (F_uint16 w) = Some (JS_int (unat w))"
| "member_value K_int16 (F_uint32 w) = Some (JS_int (unat w mod 65536))"
| "member_value K_bool (F_boolean b) = Some (JS_int (of_bool b))"
| "member_value K_double (F_double w) = Some (JS_double w)"
| "member_value _ _ = None"

definition reported :: "entry_kind \<Rightarrow> status + field \<Rightarrow> js_value option" where
  "reported kind r = (case r of Inl _ \<Rightarrow> Some default_val | Inr f \<Rightarrow> member_value kind f)"

text \<open>Every member the mask asks for, under its key.\<close>

definition member_step :: "field \<Rightarrow> u32 \<Rightarrow> member_block \<Rightarrow> js_object \<Rightarrow> js_object" where
  "member_step v m blk obj =
     (case blk of (flag, kind, path, key) \<Rightarrow>
        if m AND flag = 0 then obj else obj(key := reported kind (field_get v path)))"

lemma member_step_simps [simp]:
  "m AND flag = 0 \<Longrightarrow> member_step v m (flag, kind, path, key) obj = obj"
  "m AND flag \<noteq> 0 \<Longrightarrow> member_step v m (flag, kind, path, key) obj = obj(key := reported kind (field_get v path))"
  by (simp_all add: member_step_def)

lemma set_entry_absent: "\<not> has_data ed \<Longrightarrow> set_mmdb_entry kind ed obj key = Done (Inr (obj(key \<mapsto> default_val)))"
  by (simp add: set_mmdb_entry_def)

definition report_of :: "field \<Rightarrow> u32 \<Rightarrow> member_block list \<Rightarrow> js_object" where
  "report_of v m blocks = fold (member_step v m) blocks Map.empty"

text \<open>The members that are there are of the types the macros expect.\<close>

definition fitting :: "field \<Rightarrow> u32 \<Rightarrow> member_block list \<Rightarrow> bool" where
  "fitting v m blocks \<longleftrightarrow>
     (\<forall>(flag, kind, path, key) \<in> set blocks. m AND flag \<noteq> 0 \<longrightarrow> reported kind (field_get v path) \<noteq> None)"

lemma copy_bytes_stored: "stored p s \<Longrightarrow> copy_bytes p (length s) = Done s"
  using copy_bytes_readable[OF stored_readable] stored_bytes_at_eq by simp

lemma set_entry_value:
  assumes sh: "entry_shows ed f" "has_data ed" and v: "member_value kind f = Some j"
  shows "set_mmdb_entry kind ed obj key = Done (Inr (obj(key \<mapsto> j)))"
proof (cases f)
  case (F_string s)
  then obtain p where p: "entry_value ed = U_utf8_string p" "stored p s" "data_size ed = Some (word_of_nat (length s))"
      "length s \<le> max_size" "data_type ed = MMDB_DATA_TYPE_UTF8_STRING"
    using sh(1) by (auto split: entry_union.splits)
  moreover have "kind = K_string" "j = JS_string s" using v F_string by (cases kind; simp)+
  ultimately show ?thesis using sh(2) copy_bytes_stored[OF p(2)] by (simp add: set_mmdb_entry_def size_word)
next
  case (F_uint32 w)
  have "unat (word_of_nat (unat w) :: u16) = unat w mod 65536" by (simp add: unsigned_ucast_eq take_bit_eq_mod)
  with F_uint32 show ?thesis using sh v by (cases kind) (auto simp: set_mmdb_entry_def)
qed (use sh v in \<open>cases kind; auto simp: set_mmdb_entry_def Let_def\<close>)+

lemma collect_members_report:
  assumes get: "\<And>path. case field_get v path of
      Inl err \<Rightarrow> err \<noteq> MMDB_OUT_OF_MEMORY_ERROR \<and> get_value (map Some path @ [None]) = Done (err, zero_entry_data)
    | Inr w \<Rightarrow> \<exists>ed. get_value (map Some path @ [None]) = Done (MMDB_SUCCESS, ed) \<and> entry_shows ed w \<and> has_data ed"
  shows "fitting v m blocks \<Longrightarrow> collect_members get_value m blocks obj = Done (Inr (fold (member_step v m) blocks obj))"
proof (induction blocks arbitrary: obj)
  case (Cons blk blocks)
  obtain flag kind path key where b: "blk = (flag, kind, path, key)" by (cases blk)
  have rest: "fitting v m blocks" using Cons.prems by (simp add: fitting_def)
  show ?case
  proof (cases "m AND flag = 0")
    case True
    then show ?thesis using Cons.IH[OF rest] b by simp
  next
    case False
    then have r: "reported kind (field_get v path) \<noteq> None" using Cons.prems b by (auto simp: fitting_def)
    show ?thesis
    proof (cases "field_get v path")
      case (Inl err)
      then show ?thesis
        using get[of path] Cons.IH[OF rest] b False set_entry_absent[of zero_entry_data kind obj key]
        by (simp add: reported_def zero_entry_data_def fun_upd_def)
    next
      case (Inr w)
      then obtain ed where ed: "get_value (map Some path @ [None]) = Done (MMDB_SUCCESS, ed)" "entry_shows ed w" "has_data ed"
        using get[of path] by auto
      obtain j where j: "member_value kind w = Some j" using r Inr by (auto simp: reported_def)
      show ?thesis
        using ed(1) set_entry_value[OF ed(2,3) j] Cons.IH[OF rest] b False Inr j
        by (simp add: reported_def fun_upd_def)
    qed
  qed
qed simp

lemma field_get_error: "field_get v path = Inl err \<Longrightarrow> err \<noteq> MMDB_OUT_OF_MEMORY_ERROR"
proof (induction path arbitrary: v)
  case (Cons p path)
  have "field_step v p = Inl e \<Longrightarrow> e \<noteq> MMDB_OUT_OF_MEMORY_ERROR" for e
    by (cases v) (auto split: prod.splits if_splits option.splits)
  with Cons show ?case by (auto split: sum.splits)
qed simp

text \<open>A database entry that holds a value.\<close>

definition entry_holds :: "MMDB_s \<Rightarrow> MMDB_lookup_result_s \<Rightarrow> field \<Rightarrow> bool" where
  "entry_holds db res v \<longleftrightarrow> data_ok db \<and> (\<exists>e. field_at (data_section db) (unat (entry_offset (entry res))) v e)"

lemma members_report:
  assumes h: "entry_holds db res v" and n: "fdepth v \<le> nesting env" and m: "\<forall>k. path_malloc env k"
    and fit: "fitting v m blocks"
  shows "members env db res m blocks = Done (Inr (report_of v m blocks))"
proof -
  obtain e where ok: "data_ok db" and at: "field_at (data_section db) (unat (entry_offset (entry res))) v e"
    using h by (auto simp: entry_holds_def)
  have "case field_get v path of
      Inl err \<Rightarrow> err \<noteq> MMDB_OUT_OF_MEMORY_ERROR \<and>
        MMDB_get_value (path_malloc env) (nesting env) db (entry res) uninit_entry_data (map Some path @ [None])
          = Done (err, zero_entry_data)
    | Inr w \<Rightarrow> \<exists>ed. MMDB_get_value (path_malloc env) (nesting env) db (entry res) uninit_entry_data (map Some path @ [None])
          = Done (MMDB_SUCCESS, ed) \<and> entry_shows ed w \<and> has_data ed" for path
    using aget_value_gives[OF ok at n, of path] m field_get_error[of v path]
    by (cases "field_get v path")
      (auto simp: MMDB_get_value_def MMDB_vget_value_def path_length_list collect_path_list gives_Inr entry_at_def)
  from collect_members_report[OF this fit] show ?thesis
    by (simp add: members_def report_of_def)
qed

section \<open>The handles\<close>

text \<open>A lookup changes the cached start node of a handle and nothing else.\<close>

definition same_handle :: "MMDB_s \<Rightarrow> MMDB_s \<Rightarrow> bool" where
  "same_handle db db' \<longleftrightarrow> (\<exists>start. db' = db\<lparr>ipv4_start_node := start\<rparr>)"

lemma same_handle_refl: "same_handle db db"
proof -
  have "db = db\<lparr>ipv4_start_node := ipv4_start_node db\<rparr>" by simp
  then show ?thesis unfolding same_handle_def by blast
qed

lemma find_ipv4_start_node_same: "post (find_ipv4_start_node db) (\<lambda>(n, db'). same_handle db db')"
proof -
  have "same_handle db (db\<lparr>ipv4_start_node := n\<rparr>)" for n by (auto simp: same_handle_def)
  then show ?thesis
    unfolding find_ipv4_start_node_def Let_def
    by (intro post_if post_bind post_Done post_prod) (simp_all add: same_handle_refl)
qed

lemma find_address_same:
  "post (find_address_in_search_tree db address fam res) (\<lambda>(st, r, db'). same_handle db db')"
  unfolding find_address_in_search_tree_def Let_def
  by (intro post_if post_bind post_Done post_prod)
    (auto simp: same_handle_refl split: prod.splits dest!: postD[OF find_ipv4_start_node_same] intro!: post_intros)

lemma lookup_sockaddr_same: "post (MMDB_lookup_sockaddr db sa err) (\<lambda>(r, e, db'). same_handle db db')"
  unfolding MMDB_lookup_sockaddr_def
  by (intro post_if post_bind post_Done post_prod) (auto simp: same_handle_refl dest!: postD[OF find_address_same])

lemma lookup_string_same: "post (MMDB_lookup_string gai db ip err) (\<lambda>(r, g, e, db'). same_handle db db')"
  unfolding MMDB_lookup_string_def
  by (auto simp: same_handle_refl split: prod.splits option.splits intro!: post_intros
      dest!: postD[OF lookup_sockaddr_same])

definition closable :: "MMDB_s \<Rightarrow> bool" where
  "closable db \<longleftrightarrow> filename db = Null \<or> arrays_ok db"

lemma same_handle_closable: "same_handle db db' \<Longrightarrow> closable db \<Longrightarrow> closable db'"
  by (auto simp: same_handle_def closable_def arrays_ok_def)

lemma same_handle_trans: "same_handle a b \<Longrightarrow> same_handle b c \<Longrightarrow> same_handle a c"
  by (auto simp: same_handle_def)

lemma ask_same: "post (ask env ip db) (\<lambda>(r, db'). same_handle db db')"
  unfolding ask_def
  by (auto simp: split: option.splits intro!: post_intros dest!: postD[OF lookup_string_same])

lemma post_any: "(\<And>x. m = Done x \<Longrightarrow> P x) \<Longrightarrow> post m P"
  by (simp add: post_def)

lemma other_part_same: "post (other_part env ip options key blocks d db) (\<lambda>(r, db'). same_handle db db')"
  unfolding other_part_def
  by (auto simp: same_handle_refl split: option.splits sum.splits intro!: post_intros dest!: postD[OF ask_same])

lemma country_and_city_same: "post (country_and_city env ip options db) (\<lambda>(r, db'). same_handle db db')"
  unfolding country_and_city_def Let_def
  by (rule post_if, simp add: same_handle_refl post_Done, rule post_bind, rule post_prod, drule postD[OF ask_same])
    (auto split: sum.split intro!: post_intros)

lemmas parts_same = country_and_city_same
  other_part_same[of _ _ _ LOOKUP_KEY_ISP isp_blocks, folded isp_part_def]
  other_part_same[of _ _ _ LOOKUP_KEY_NETSPEED netspeed_blocks, folded netspeed_part_def]
  other_part_same[of _ _ _ LOOKUP_KEY_ANONYMOUS anonymous_blocks, folded anonymous_part_def]

definition same_databases :: "databases \<Rightarrow> databases \<Rightarrow> bool" where
  "same_databases s s' \<longleftrightarrow> mmdbCountry s' = mmdbCountry s \<and> same_handle (mmdbCity s) (mmdbCity s')
     \<and> same_handle (mmdbIsp s) (mmdbIsp s') \<and> same_handle (mmdbNetspeed s) (mmdbNetspeed s')
     \<and> same_handle (mmdbAnonymous s) (mmdbAnonymous s')"

lemma lookupIp_same: "post (lookupIp env s args0 args1) (\<lambda>(r, s'). same_databases s s')"
proof (cases args0)
  case (Some arg)
  note same_handle_refl [simp]
  show ?thesis
    unfolding lookupIp_def Some option.case Let_def
    by (intro post_bind post_prod;
      (drule postD[OF parts_same(1)] | drule postD[OF parts_same(2)] | drule postD[OF parts_same(3)]
        | drule postD[OF parts_same(4)]);
      auto simp: same_databases_def split: sum.splits option.splits intro!: post_intros
        dest!: postD[OF parts_same(2)] postD[OF parts_same(3)] postD[OF parts_same(4)])
qed (simp add: lookupIp_def same_databases_def same_handle_refl post_Done)

section \<open>Loading and unloading\<close>

lemma open_closable: "post (MMDB_open m fs n name fl db) (\<lambda>(st, rs, db'). closable db')"
proof -
  have "closable db'" if o: "MMDB_open m fs n name fl db = Done (st, rs, db')" for st rs db'
  proof (cases "st = MMDB_SUCCESS")
    case True
    then have "metadata_ok db'"
      using postD[OF MMDB_open_post o] by (simp add: open_result_ok_def opened_def Let_def)
    then show ?thesis by (simp add: metadata_ok_arrays closable_def)
  next
    case False
    then obtain db0 where "db' = closed_handle db0"
      using postD[OF MMDB_open_post o] by (auto simp: open_result_ok_def)
    then show ?thesis by (simp add: closable_def closed_handle_def)
  qed
  then show ?thesis by (simp add: post_def)
qed

lemma loadMMDB_open:
  "loadMMDB env fname db = bind_run (MMDB_open (open_malloc env) (files env fname) (nesting env) fname MMDB_MODE_MMAP db)
    (\<lambda>(status, rs, db). Done ([], rs, db))"
  unfolding loadMMDB_def Let_def by (rule arg_cong[where f = "bind_run _"]) (auto simp: fun_eq_iff)

lemma load_key_closable:
  assumes "closable db"
  shows "post (load_key env val key db st) (\<lambda>(_, db'). closable db')"
proof (cases val)
  case (Some fname)
  show ?thesis
    unfolding load_key_def Some option.case loadMMDB_open run_simps(4)
    by (intro post_bind post_prod) (auto dest!: postD[OF open_closable] intro: post_intros)
qed (simp add: load_key_def assms post_Done)

definition databases_closable :: "databases \<Rightarrow> bool" where
  "databases_closable s \<longleftrightarrow> closable (mmdbCountry s) \<and> closable (mmdbCity s) \<and> closable (mmdbIsp s)
     \<and> closable (mmdbNetspeed s) \<and> closable (mmdbAnonymous s)"

lemma loadDb_closable:
  assumes "databases_closable s"
  shows "post (loadDb env s args0) (\<lambda>(r, s'). databases_closable s')"
proof (cases args0)
  case None
  then show ?thesis using assms by (simp add: loadDb_def post_Done)
next
  case (Some options)
  show ?thesis
    using assms unfolding loadDb_def Some option.case Let_def databases_closable_def
    by (intro post_bind post_prod post_Done)
      (auto dest!: postD[OF load_key_closable, rotated])
qed

lemma lookupIp_closable:
  assumes "databases_closable s" "lookupIp env s args0 args1 = Done (r, s')"
  shows "databases_closable s'"
  using postD[OF lookupIp_same assms(2)] assms(1)
  by (auto simp: same_databases_def databases_closable_def intro: same_handle_closable)

lemma unload_handle_closable:
  assumes "closable db"
  shows "unload_handle db
    = Done (if filename db = Null then ([], db) else (held db, closed_handle db))"
  using assms free_mmdb_struct_held[of db] by (auto simp: unload_handle_def closable_def MMDB_close_def)

definition unloaded :: "MMDB_s \<Rightarrow> MMDB_s" where
  "unloaded db = (if filename db = Null then db else closed_handle db)"

definition given_back :: "MMDB_s \<Rightarrow> resource list" where
  "given_back db = (if filename db = Null then [] else held db)"

lemma filename_unloaded [simp]: "filename (unloaded db) = Null"
  by (simp add: unloaded_def closed_handle_def)

lemma unload_closable:
  assumes "databases_closable s"
  shows "unload s = Done (map given_back [mmdbCountry s, mmdbCity s, mmdbIsp s, mmdbNetspeed s, mmdbAnonymous s],
    \<lparr>mmdbCountry = unloaded (mmdbCountry s), mmdbCity = unloaded (mmdbCity s), mmdbIsp = unloaded (mmdbIsp s),
     mmdbNetspeed = unloaded (mmdbNetspeed s), mmdbAnonymous = unloaded (mmdbAnonymous s)\<rparr>)"
  using assms
  by (simp add: unload_def databases_closable_def unload_handle_closable given_back_def unloaded_def)

text \<open>The states that calls of the module's functions lead to, whatever the surroundings do.\<close>

inductive reachable :: "databases \<Rightarrow> bool" where
  reach_start: "reachable no_databases"
| reach_load: "reachable s \<Longrightarrow> loadDb env s args = Done (r, s') \<Longrightarrow> reachable s'"
| reach_lookup: "reachable s \<Longrightarrow> lookupIp env s ip opts = Done (r, s') \<Longrightarrow> reachable s'"
| reach_unload: "reachable s \<Longrightarrow> unload s = Done (rs, s') \<Longrightarrow> reachable s'"

lemma reachable_closable: "reachable s \<Longrightarrow> databases_closable s"
proof (induction rule: reachable.induct)
  case reach_start
  then show ?case by (simp add: no_databases_def databases_closable_def closable_def zero_mmdb_def)
next
  case (reach_load s env args r s')
  with postD[OF loadDb_closable] show ?case by blast
next
  case (reach_lookup s env ip opts r s')
  then show ?case by (simp add: lookupIp_closable)
next
  case (reach_unload s rs s')
  then show ?case by (auto simp: unload_closable databases_closable_def closable_def)
qed

end
