(* ===== verification/FormatFiles.thy ===== *)
theory FormatFiles
  imports LookupTheorems OpenSpec
begin

text \<open>
  Files in the format, from the outside: what it is that a file has a value for an address, and what opening such a
  file and looking the address up give. The properties of the whole programs start from here.
\<close>

section \<open>An address in a database\<close>

definition leads_to :: "MMDB_s \<Rightarrow> sockaddr \<Rightarrow> nat \<Rightarrow> bool" where
  "leads_to h sa offset \<longleftrightarrow> 0 < offset \<and> offset \<le> unat (data_section_size h)
     \<and> (\<exists>bits k. lookup_bits h sa = Some bits
         \<and> walk (tree_child h) (nodes_of h) 0 0 bits = Leaves (nodes_of h + offset) k)"

lemma ipv4_leads_to:
  assumes wf: "tree_wf h" and cache: "cache_ok h" and six: "ip_version (metadata h) = 6" "family sa = AF_INET"
    and len: "length (s_addr sa) = 4"
    and w: "walk (tree_child h) (nodes_of h) 0 0 (addr_bits (replicate 12 0 @ s_addr sa)) = Leaves r k"
  shows "\<exists>k'. MMDB_lookup_sockaddr h sa err
    = Done (case report h no_result r k' of (st, res) \<Rightarrow> (res, Some st, h\<lparr>ipv4_start_node := computed_start h\<rparr>))"
proof -
  let ?walk = "walk (tree_child h) (nodes_of h)"
  have a: "addr_bits (replicate 12 0 @ s_addr sa) = replicate 96 False @ addr_bits (s_addr sa)"
    by (simp add: addr_bits_append addr_bits_zeros)
  show ?thesis
  proof (cases "?walk 0 0 (replicate 96 False)")
    case (Inside v)
    then have s: "start_walk h = (v, 96)" using left_walk_Inside by (simp add: start_walk_def)
    have "0 < nodes_of h" using wf by (simp add: tree_wf_def)
    from walk_Inside[OF Inside this] have "v < nodes_of h" .
    moreover have "?walk 96 v (addr_bits (s_addr sa)) = Leaves r k" using w Inside by (simp add: a walk_append)
    ultimately show ?thesis
      using lookup_ipv4_in_ipv6[OF wf cache six len s, of err] by (auto simp: walk_report_def)
  next
    case (Leaves r' k')
    then have r: "r' = r" "nodes_of h \<le> r" using w walk_Leaves[OF Leaves] by (auto simp: a walk_append)
    have s: "start_walk h = (r, k' - 1)" using left_walk_Leaves[OF Leaves] r by (simp add: start_walk_def)
    show ?thesis using lookup_ipv4_in_ipv6[OF wf cache six len s, of err] r by auto
  qed (use w in \<open>auto simp: a walk_append\<close>)
qed

lemma leaves_lookup:
  assumes wf: "tree_wf h" and cache: "cache_ok h" and b: "lookup_bits h sa = Some bits"
    and w: "walk (tree_child h) (nodes_of h) 0 0 bits = Leaves r k"
  shows "\<exists>k' start. MMDB_lookup_sockaddr h sa err
      = Done (case report h no_result r k' of (st, res) \<Rightarrow> (res, Some st, h\<lparr>ipv4_start_node := start\<rparr>))
    \<and> cache_ok (h\<lparr>ipv4_start_node := start\<rparr>) \<and> (native_bits h sa = Some bits \<longrightarrow> k' = k)"
proof (cases "ip_version (metadata h) = 6 \<and> family sa = AF_INET \<and> length (s_addr sa) = 4")
  case True
  then have bits: "bits = addr_bits (replicate 12 0 @ s_addr sa)" using b by (simp add: lookup_bits_def)
  have "native_bits h sa \<noteq> Some bits" using True by (auto simp: native_bits_def bits)
  then show ?thesis
    using ipv4_leads_to[OF wf cache _ _ _ w[unfolded bits]] True computed_start_cached[of h] by blast
next
  case False
  then have n: "native_bits h sa = Some bits" using b by (auto simp: lookup_bits_def)
  have "MMDB_lookup_sockaddr h sa err
      = Done (case report h no_result r k of (st, res) \<Rightarrow> (res, Some st, h\<lparr>ipv4_start_node := ipv4_start_node h\<rparr>))"
    using native_lookup[OF wf n, of err] walk_report_answer[of h "Leaves r k"]
    by (simp add: w walk_report_def split: prod.split)
  moreover have "cache_ok (h\<lparr>ipv4_start_node := ipv4_start_node h\<rparr>)" using cache by simp
  ultimately show ?thesis by blast
qed

lemma leads_to_lookup:
  assumes wf: "tree_wf h" and cache: "cache_ok h" and l: "leads_to h sa offset"
  shows "\<exists>res start. MMDB_lookup_sockaddr h sa err = Done (res, Some MMDB_SUCCESS, h\<lparr>ipv4_start_node := start\<rparr>)
    \<and> found_entry res \<and> unat (entry_offset (entry res)) = offset \<and> cache_ok (h\<lparr>ipv4_start_node := start\<rparr>)"
proof -
  obtain bits k where o: "0 < offset" "offset \<le> unat (data_section_size h)" and b: "lookup_bits h sa = Some bits"
    and w: "walk (tree_child h) (nodes_of h) 0 0 bits = Leaves (nodes_of h + offset) k"
    using l by (auto simp: leads_to_def)
  have "unat (word_of_nat offset :: u32) = offset"
    using o(2) unat_u32_less[of "data_section_size h"] by (intro unat_u32) linarith
  then show ?thesis using leaves_lookup[OF wf cache b w, of err] o by (auto simp: report_def)
qed

text \<open>The tree says of an address that it is not in the database.\<close>

definition leads_nowhere :: "MMDB_s \<Rightarrow> sockaddr \<Rightarrow> bool" where
  "leads_nowhere h sa \<longleftrightarrow> (\<exists>bits k. lookup_bits h sa = Some bits
     \<and> walk (tree_child h) (nodes_of h) 0 0 bits = Leaves (nodes_of h) k)"

lemma leads_nowhere_lookup:
  assumes wf: "tree_wf h" and cache: "cache_ok h" and l: "leads_nowhere h sa"
  shows "\<exists>res start. MMDB_lookup_sockaddr h sa err = Done (res, Some MMDB_SUCCESS, h\<lparr>ipv4_start_node := start\<rparr>)
    \<and> \<not> found_entry res \<and> cache_ok (h\<lparr>ipv4_start_node := start\<rparr>)"
proof -
  obtain bits k where b: "lookup_bits h sa = Some bits"
    and w: "walk (tree_child h) (nodes_of h) 0 0 bits = Leaves (nodes_of h) k"
    using l by (auto simp: leads_nowhere_def)
  show ?thesis using leaves_lookup[OF wf cache b w, of err] by (auto simp: report_def)
qed

lemma leads_cached [simp]:
  "leads_to (h\<lparr>ipv4_start_node := start\<rparr>) sa offset = leads_to h sa offset"
  "leads_nowhere (h\<lparr>ipv4_start_node := start\<rparr>) sa = leads_nowhere h sa"
  by (simp_all add: leads_to_def leads_nowhere_def)

section \<open>A file that can be opened\<close>

text \<open>The file can be opened, has metadata in the format behind the first marker, and its nodes inside.\<close>

definition file_opens :: "nat \<Rightarrow> file_system \<Rightarrow> u8 list \<Rightarrow> MMDB_s \<Rightarrow> bool" where
  "file_opens nest fs name h \<longleftrightarrow> open_ok fs \<and> mmap_failed fs = None \<and> length (file_bytes fs) < 2 ^ 32
     \<and> (\<exists>start kvs e fm. metadata_start (file_bytes fs) = Some start
         \<and> encoded (Ptr (file_bytes fs) start) 0 (F_map kvs) e \<and> metadata_says kvs fm \<and> metadata_valid fm
         \<and> fdepth (F_map kvs) \<le> nest \<and> h = opened_handle fs name MMDB_MODE_MMAP fm start
         \<and> nodes_of h * node_size h \<le> length (file_bytes fs))"

lemma file_opens_open:
  assumes o: "file_opens nest fs name h" and nest: "4 \<le> nest"
  shows "MMDB_open (\<lambda>_. True) fs nest name MMDB_MODE_MMAP db = Done (MMDB_SUCCESS, [], h)"
proof -
  obtain start kvs e fm where "metadata_start (file_bytes fs) = Some start"
      "encoded (Ptr (file_bytes fs) start) 0 (F_map kvs) e" "metadata_says kvs fm" "metadata_valid fm"
      "fdepth (F_map kvs) \<le> nest" "h = opened_handle fs name MMDB_MODE_MMAP fm start"
    using o by (auto simp: file_opens_def)
  then show ?thesis using MMDB_open_says[OF _ _ _ _ _ nest] o by (simp add: file_opens_def)
qed

lemma file_opens_same: "file_opens nest fs name h \<Longrightarrow> file_opens nest fs name h' \<Longrightarrow> 4 \<le> nest \<Longrightarrow> h' = h"
  using file_opens_open[of nest fs name h zero_mmdb] file_opens_open[of nest fs name h' zero_mmdb] by simp

lemma file_opens_ok:
  assumes o: "file_opens nest fs name h" and nest: "4 \<le> nest"
  shows "opened fs h" "tree_wf h" "cache_ok h" "data_ok h"
    "data_section h = Ptr (file_bytes fs) (nodes_of h * node_size h)" "unat (data_section_size h) \<le> length (file_bytes fs)"
proof -
  show op: "opened fs h"
    using postD[OF MMDB_open_post file_opens_open[OF o nest, of zero_mmdb]] by (simp add: open_result_ok_def)
  show "tree_wf h" "cache_ok h" "data_ok h" "data_section h = Ptr (file_bytes fs) (nodes_of h * node_size h)"
    "unat (data_section_size h) \<le> length (file_bytes fs)"
    using opened_tree_wf[OF op] o by (auto simp: file_opens_def)
qed

text \<open>A handle of the file, with whatever start node lookups have stored in it.\<close>

definition serves :: "nat \<Rightarrow> file_system \<Rightarrow> u8 list \<Rightarrow> MMDB_s \<Rightarrow> bool" where
  "serves nest fs name h \<longleftrightarrow> (\<exists>h0 start. file_opens nest fs name h0 \<and> h = h0\<lparr>ipv4_start_node := start\<rparr> \<and> cache_ok h)"

lemma serves_opened: "file_opens nest fs name h \<Longrightarrow> 4 \<le> nest \<Longrightarrow> serves nest fs name h"
  unfolding serves_def by (rule exI[of _ h], rule exI[of _ "ipv4_start_node h"]) (simp add: file_opens_ok)

lemma data_ok_cache [simp]: "data_ok (h\<lparr>ipv4_start_node := start\<rparr>) = data_ok h"
  by (simp add: data_ok_def split: cptr.split)

lemma serves_ok:
  assumes s: "serves nest fs name h" and nest: "4 \<le> nest"
  shows "tree_wf h" "cache_ok h" "data_ok h" "arrays_ok h"
    "data_section h = Ptr (file_bytes fs) (nodes_of h * node_size h)" "unat (data_section_size h) \<le> length (file_bytes fs)"
proof -
  obtain h0 start where h: "file_opens nest fs name h0" "h = h0\<lparr>ipv4_start_node := start\<rparr>" "cache_ok h"
    using s by (auto simp: serves_def)
  note ok = file_opens_ok[OF h(1) nest]
  have "arrays_ok h0" using ok(1) by (intro metadata_ok_arrays) (simp add: opened_def Let_def)
  then show "arrays_ok h" unfolding h(2) by (rule arrays_ok_metadata) simp
  show "tree_wf h" "cache_ok h" "data_ok h" "data_section h = Ptr (file_bytes fs) (nodes_of h * node_size h)"
    "unat (data_section_size h) \<le> length (file_bytes fs)"
    using ok h by simp_all
qed

lemma serves_cached: "serves nest fs name h \<Longrightarrow> cache_ok (h\<lparr>ipv4_start_node := start\<rparr>) \<Longrightarrow> serves nest fs name (h\<lparr>ipv4_start_node := start\<rparr>)"
  unfolding serves_def by (elim exE conjE) (rule exI, rule exI[of _ start], auto)

lemma serves_open:
  "serves nest fs name h \<Longrightarrow> file_opens nest fs name h0 \<Longrightarrow> 4 \<le> nest \<Longrightarrow> \<exists>start. h = h0\<lparr>ipv4_start_node := start\<rparr>"
  by (auto simp: serves_def dest: file_opens_same)

section \<open>A file with a value for an address\<close>

text \<open>
  The file can be opened, has a separator behind its nodes, and its tree leads the address to an offset with the value;
  or its tree says that it does not have the address.
\<close>

definition file_shows :: "nat \<Rightarrow> file_system \<Rightarrow> u8 list \<Rightarrow> sockaddr \<Rightarrow> field \<Rightarrow> bool" where
  "file_shows nest fs name sa v \<longleftrightarrow> fdepth v \<le> nest
     \<and> (\<exists>h offset e. file_opens nest fs name h \<and> stored (data_section h) [0, 0]
         \<and> leads_to h sa offset \<and> field_at (data_section h) offset v e)"

definition file_lacks :: "nat \<Rightarrow> file_system \<Rightarrow> u8 list \<Rightarrow> sockaddr \<Rightarrow> bool" where
  "file_lacks nest fs name sa \<longleftrightarrow> (\<exists>h. file_opens nest fs name h \<and> leads_nowhere h sa)"

text \<open>On every handle of such a file the lookup of the address arrives at the value, or finds nothing.\<close>

lemma serves_lookup:
  assumes s: "serves nest fs name h" and f: "file_shows nest fs name sa v" and nest: "4 \<le> nest"
  shows "\<exists>res h' e. MMDB_lookup_sockaddr h sa err = Done (res, Some MMDB_SUCCESS, h') \<and> serves nest fs name h'
    \<and> found_entry res \<and> 0 < unat (entry_offset (entry res)) \<and> entry_offset (entry res) \<le> data_section_size h'
    \<and> stored (data_section h') [0, 0]
    \<and> field_at (data_section h') (unat (entry_offset (entry res))) v e \<and> metadata h' = metadata h"
    and "\<not> (ip_version (metadata h) = 4 \<and> family sa = AF_INET6)"
proof -
  obtain h0 offset e where o: "file_opens nest fs name h0" "stored (data_section h0) [0, 0]" "leads_to h0 sa offset"
    "field_at (data_section h0) offset v e"
    using f by (auto simp: file_shows_def)
  obtain start where h: "h = h0\<lparr>ipv4_start_node := start\<rparr>" using serves_open[OF s o(1) nest] by blast
  then have l: "leads_to h sa offset" using o(3) by simp
  from leads_to_lookup[OF serves_ok(1,2)[OF s nest] this, of err] obtain res start' where
    "MMDB_lookup_sockaddr h sa err = Done (res, Some MMDB_SUCCESS, h\<lparr>ipv4_start_node := start'\<rparr>)" "found_entry res"
    "unat (entry_offset (entry res)) = offset" "cache_ok (h\<lparr>ipv4_start_node := start'\<rparr>)" by blast
  moreover from this(3) have "0 < offset" "entry_offset (entry res) \<le> data_section_size h"
    using l by (simp_all add: leads_to_def word_le_nat_alt)
  ultimately show "\<exists>res h' e. MMDB_lookup_sockaddr h sa err = Done (res, Some MMDB_SUCCESS, h') \<and> serves nest fs name h'
    \<and> found_entry res \<and> 0 < unat (entry_offset (entry res)) \<and> entry_offset (entry res) \<le> data_section_size h'
    \<and> stored (data_section h') [0, 0]
    \<and> field_at (data_section h') (unat (entry_offset (entry res))) v e \<and> metadata h' = metadata h"
    using serves_cached[OF s] o(2,4) h by (intro exI[of _ res] exI[of _ "h\<lparr>ipv4_start_node := start'\<rparr>"] exI[of _ e]) simp
  show "\<not> (ip_version (metadata h) = 4 \<and> family sa = AF_INET6)"
    using l by (auto simp: leads_to_def lookup_bits_def native_bits_def)
qed

lemma serves_miss:
  assumes s: "serves nest fs name h" and f: "file_lacks nest fs name sa" and nest: "4 \<le> nest"
  shows "\<exists>res h'. MMDB_lookup_sockaddr h sa err = Done (res, Some MMDB_SUCCESS, h') \<and> serves nest fs name h'
    \<and> \<not> found_entry res \<and> metadata h' = metadata h"
    and "\<not> (ip_version (metadata h) = 4 \<and> family sa = AF_INET6)"
proof -
  obtain h0 where o: "file_opens nest fs name h0" "leads_nowhere h0 sa" using f by (auto simp: file_lacks_def)
  obtain start where "h = h0\<lparr>ipv4_start_node := start\<rparr>" using serves_open[OF s o(1) nest] by blast
  then have l: "leads_nowhere h sa" using o(2) by simp
  from leads_nowhere_lookup[OF serves_ok(1,2)[OF s nest] this, of err] obtain res start' where
    "MMDB_lookup_sockaddr h sa err = Done (res, Some MMDB_SUCCESS, h\<lparr>ipv4_start_node := start'\<rparr>)" "\<not> found_entry res"
    "cache_ok (h\<lparr>ipv4_start_node := start'\<rparr>)" by blast
  then show "\<exists>res h'. MMDB_lookup_sockaddr h sa err = Done (res, Some MMDB_SUCCESS, h') \<and> serves nest fs name h'
    \<and> \<not> found_entry res \<and> metadata h' = metadata h"
    using serves_cached[OF s] by (intro exI[of _ res] exI[of _ "h\<lparr>ipv4_start_node := start'\<rparr>"]) simp
  show "\<not> (ip_version (metadata h) = 4 \<and> family sa = AF_INET6)"
    using l by (auto simp: leads_nowhere_def lookup_bits_def native_bits_def)
qed

text \<open>Such a file is opened, and the lookup of the address arrives at the value.\<close>

lemma file_lookup:
  assumes f: "file_shows nest fs name sa v" and nest: "4 \<le> nest"
  obtains h res start e' where "\<forall>db. MMDB_open (\<lambda>_. True) fs nest name MMDB_MODE_MMAP db = Done (MMDB_SUCCESS, [], h)"
    and "MMDB_lookup_sockaddr h sa None = Done (res, Some MMDB_SUCCESS, h\<lparr>ipv4_start_node := start\<rparr>)" "found_entry res"
    and "\<not> (ip_version (metadata h) = 4 \<and> family sa = AF_INET6)" "opened fs h" "data_ok h" "stored (data_section h) [0, 0]"
    and "field_at (data_section h) (unat (entry_offset (entry res))) v e'"
proof -
  obtain h offset e where o: "file_opens nest fs name h" "stored (data_section h) [0, 0]" "leads_to h sa offset"
    "field_at (data_section h) offset v e"
    using f by (auto simp: file_shows_def)
  note ok = file_opens_ok[OF o(1) nest]
  obtain res start where "MMDB_lookup_sockaddr h sa None = Done (res, Some MMDB_SUCCESS, h\<lparr>ipv4_start_node := start\<rparr>)"
    "found_entry res" "unat (entry_offset (entry res)) = offset"
    using leads_to_lookup[OF ok(2,3) o(3), of None] by blast
  moreover have "\<not> (ip_version (metadata h) = 4 \<and> family sa = AF_INET6)"
    using o(3) by (auto simp: leads_to_def lookup_bits_def native_bits_def)
  ultimately show ?thesis
    using that[of h res start e] file_opens_open[OF o(1) nest] ok(1,4) o(2,4) by simp
qed

end
