(* ===== verification/SmallExample.thy ===== *)
theory SmallExample
  imports OpenTheorems FormatFiles
begin

text \<open>The small file after it has been opened: a lookup in its tree and the value in its data section.\<close>

abbreviation small_db :: MMDB_s where
  "small_db \<equiv> opened_handle small_file [0x66] 0 small_metadata 39"

lemma small_sizes_of_db:
  "nodes_of small_db = 1" "node_size small_db = 6" "file_content small_db = Ptr (file_bytes small_file) 0"
  "unat (data_section_size small_db) = 197" "length (file_bytes small_file) = 203"
  by (simp_all add: opened_handle_def small_metadata_def filled_metadata_def Let_def small_file_def small_sizes)

lemma small_tree_wf: "tree_wf small_db" and small_data_ok: "data_ok small_db"
  using opened_tree_wf[OF small_opened] by (simp_all add: small_sizes_of_db)

lemma small_leaves:
  "walk (tree_child small_db) (nodes_of small_db) 0 0 (False # bits) = Leaves 17 1"
  "walk (tree_child small_db) (nodes_of small_db) 0 0 (True # bits) = Leaves 1 1"
proof -
  have "take 6 (file_bytes small_file) = [0, 0, 17, 0, 0, 1]" by (simp add: small_file_def tree_and_data_def)
  then have "tree_child small_db 0 False = 17" "tree_child small_db 0 True = 1"
    unfolding tree_child_def small_sizes_of_db by (simp_all add: record_value_def)
  then show "walk (tree_child small_db) (nodes_of small_db) 0 0 (False # bits) = Leaves 17 1"
    "walk (tree_child small_db) (nodes_of small_db) 0 0 (True # bits) = Leaves 1 1"
    by (simp_all add: small_sizes_of_db)
qed

lemma small_walk:
  "walk_answer small_db (walk (tree_child small_db) (nodes_of small_db) 0 0 (False # bits))
    = (\<lparr>found_entry = True, entry = \<lparr>entry_offset = 16\<rparr>, netmask = 1\<rparr>, MMDB_SUCCESS)"
  "walk_answer small_db (walk (tree_child small_db) (nodes_of small_db) 0 0 (True # bits))
    = (\<lparr>found_entry = False, entry = \<lparr>entry_offset = 0\<rparr>, netmask = 1\<rparr>, MMDB_SUCCESS)"
  unfolding small_leaves by (simp_all add: walk_answer_def small_sizes_of_db)

lemma small_native: "native_bits small_db (ipv4 [a, b, c, d]) = Some (addr_bits [a, b, c, d])"
  by (simp add: native_bits_def ipv4_def opened_handle_def filled_metadata_def small_metadata_def Let_def)

lemma small_lookup:
  "MMDB_lookup_sockaddr small_db (ipv4 [64, 0, 0, 0]) None
    = Done (\<lparr>found_entry = True, entry = \<lparr>entry_offset = 16\<rparr>, netmask = 1\<rparr>, Some MMDB_SUCCESS, small_db)"
  "MMDB_lookup_sockaddr small_db (ipv4 [192, 0, 2, 1]) None
    = Done (\<lparr>found_entry = False, entry = \<lparr>entry_offset = 0\<rparr>, netmask = 1\<rparr>, Some MMDB_SUCCESS, small_db)"
proof -
  have b: "addr_bits [64, 0, 0, 0] = False # tl (addr_bits [64, 0, 0, 0])"
    "addr_bits [192, 0, 2, 1] = True # tl (addr_bits [192, 0, 2, 1])" by code_simp+
  show "MMDB_lookup_sockaddr small_db (ipv4 [64, 0, 0, 0]) None
      = Done (\<lparr>found_entry = True, entry = \<lparr>entry_offset = 16\<rparr>, netmask = 1\<rparr>, Some MMDB_SUCCESS, small_db)"
    unfolding native_lookup[OF small_tree_wf small_native] by (subst b(1), subst b(1)) (simp only: small_walk fst_conv snd_conv)
  show "MMDB_lookup_sockaddr small_db (ipv4 [192, 0, 2, 1]) None
      = Done (\<lparr>found_entry = False, entry = \<lparr>entry_offset = 0\<rparr>, netmask = 1\<rparr>, Some MMDB_SUCCESS, small_db)"
    unfolding native_lookup[OF small_tree_wf small_native] by (subst b(2), subst b(2)) (simp only: small_walk fst_conv snd_conv)
qed

lemma small_value: "encoded (data_section small_db) 16 (F_string [0x61, 0x62]) 19"
proof -
  have sec: "data_section small_db = Ptr (file_bytes small_file) 6"
    by (simp add: opened_handle_def small_metadata_def filled_metadata_def Let_def)
  have "take 3 (drop 22 (file_bytes small_file)) = [0x42, 0x61, 0x62]"
    by (simp add: small_file_def tree_and_data_def)
  then have "stored (ptr_add (data_section small_db) 16) (ctrl_bytes 2 2 @ [0x61, 0x62])"
    unfolding sec using stored_take_drop[of "[0x42, 0x61, 0x62]" 22 "file_bytes small_file"]
    by (simp add: ctrl_bytes_def numeral_3_eq_3)
  then show ?thesis
    by (intro enc_scalar[of _ 2 "[0x61, 0x62]"]) (simp_all add: ctrl_bytes_def)
qed

lemma small_separator: "stored (data_section small_db) [0, 0]"
proof -
  have "data_section small_db = Ptr (file_bytes small_file) 6"
    by (simp add: opened_handle_def small_metadata_def filled_metadata_def Let_def)
  moreover have "take (length [0, 0 :: u8]) (drop 6 (file_bytes small_file)) = [0, 0]"
    by (simp add: small_file_def tree_and_data_def numeral_eq_Suc)
  ultimately show ?thesis using stored_take_drop by metis
qed

text \<open>So the small file shows the string for the address.\<close>

lemma small_file_shows: "file_shows 4 small_file [0x66] (ipv4 [64, 0, 0, 0]) (F_string [0x61, 0x62])"
proof -
  have h: "opened_handle small_file [0x66] MMDB_MODE_MMAP small_metadata 39 = small_db"
    by (simp add: opened_handle_def)
  have "addr_bits [64, 0, 0, 0] = False # tl (addr_bits [64, 0, 0, 0])" by code_simp
  from small_leaves(1)[of "tl (addr_bits [64, 0, 0, 0])", folded this]
  have w: "walk (tree_child small_db) (nodes_of small_db) 0 0 (addr_bits [64, 0, 0, 0]) = Leaves 17 1" .
  have "ip_version (metadata small_db) = 4"
    by (simp add: opened_handle_def filled_metadata_def small_metadata_def Let_def)
  then have l: "leads_to small_db (ipv4 [64, 0, 0, 0]) 16"
    using w small_native[of 64 0 0 0] by (simp add: leads_to_def lookup_bits_def small_sizes_of_db)
  have f: "open_ok small_file" "mmap_failed small_file = None" "length (file_bytes small_file) < 2 ^ 32"
    "nodes_of small_db * node_size small_db \<le> length (file_bytes small_file)"
    by (simp_all add: small_sizes_of_db, simp_all add: small_file_def)
  have "file_opens 4 small_file [0x66] small_db"
    unfolding file_opens_def
    by ((rule conjI, fact f)+, rule exI[of _ 39], rule exI[of _ small_map], rule exI[of _ 164],
      rule exI[of _ small_metadata], intro conjI) (rule small_start small_map_encoded small_says small_depth h[symmetric] f)+
  moreover have "fdepth (F_string [0x61, 0x62]) \<le> 4" by simp
  ultimately show ?thesis
    unfolding file_shows_def using small_separator l at_direct[OF small_value] by blast
qed

end
