(* ===== verification/BindingTheorems.thy ===== *)
theory BindingTheorems
  imports BindingSpec SmallExample
begin

text \<open>
  What the Node.js binding \<^verbatim>\<open>src/binding.cpp\<close> guarantees to a script.
\<close>

section \<open>lookupIp\<close>

text \<open>A loaded database that has an entry for the address, which holds a value.\<close>

definition answers :: "surroundings \<Rightarrow> string \<Rightarrow> MMDB_s \<Rightarrow> MMDB_s \<Rightarrow> field \<Rightarrow> bool" where
  "answers env ip db db' v \<longleftrightarrow> filename db \<noteq> Null \<and> fdepth v \<le> nesting env
     \<and> (\<exists>res. ask env ip db = Done (Inr res, db') \<and> found_entry res \<and> entry_holds db' res v)"

lemma other_part_report:
  assumes a: "answers env ip db db' v" and m: "\<forall>k. path_malloc env k" and o: "options key = Some t"
    and fit: "fitting v t blocks"
  shows "other_part env ip options key blocks d db = Done (Inr (d(key \<mapsto> report_of v t blocks)), db')"
proof -
  obtain res where r: "ask env ip db = Done (Inr res, db')" "found_entry res" "entry_holds db' res v"
    and n: "filename db \<noteq> Null" "fdepth v \<le> nesting env"
    using a by (auto simp: answers_def)
  show ?thesis
    using o r(1,2) n(1) members_report[OF r(3) n(2) m fit] by (simp add: other_part_def)
qed

lemma country_and_city_report:
  assumes a: "answers env ip db db' v" and m: "\<forall>k. path_malloc env k"
    and o: "options LOOKUP_KEY_COUNTRY = Some t" "options LOOKUP_KEY_CITY = Some t'"
    and fit: "fitting v t country_blocks" "fitting v t' city_blocks"
  shows "country_and_city env ip options db = Done (Inr (Some
    [LOOKUP_KEY_COUNTRY \<mapsto> report_of v t country_blocks, LOOKUP_KEY_CITY \<mapsto> report_of v t' city_blocks]), db')"
proof -
  obtain res where r: "ask env ip db = Done (Inr res, db')" "found_entry res" "entry_holds db' res v"
    and n: "filename db \<noteq> Null" "fdepth v \<le> nesting env"
    using a by (auto simp: answers_def)
  show ?thesis
    using o r(1,2) n(1) members_report[OF r(3) n(2) m fit(1)] members_report[OF r(3) n(2) m fit(2)]
    by (simp add: country_and_city_def)
qed

text \<open>
  \<open>lookupIp\<close> reports what the databases hold: for every database asked for that has an entry for
  the address, the object under its key has a member for each bit of the mask, with the value at
  its path in the entry, or \<open>NA\<close> if the path leads nowhere; the country is read from the entry of
  the city database. The values that are there must have the types the binding expects.
\<close>
lemma lookupIp_report:
  assumes ip: "CHR 0x00 \<notin> set ip" and m: "\<forall>k. path_malloc env k"
    and options: "\<forall>k \<in> {LOOKUP_KEY_COUNTRY, LOOKUP_KEY_CITY, LOOKUP_KEY_ISP, LOOKUP_KEY_NETSPEED, LOOKUP_KEY_ANONYMOUS}.
      (case args1 of None \<Rightarrow> defaultLoockupOptions | Some opts \<Rightarrow> opts) k = Some (masks k)"
    and city: "answers env ip (mmdbCity s) db1 v1" "fitting v1 (masks LOOKUP_KEY_COUNTRY) country_blocks"
      "fitting v1 (masks LOOKUP_KEY_CITY) city_blocks"
    and isp: "answers env ip (mmdbIsp s) db2 v2" "fitting v2 (masks LOOKUP_KEY_ISP) isp_blocks"
    and net: "answers env ip (mmdbNetspeed s) db3 v3" "fitting v3 (masks LOOKUP_KEY_NETSPEED) netspeed_blocks"
    and anonym: "answers env ip (mmdbAnonymous s) db4 v4" "fitting v4 (masks LOOKUP_KEY_ANONYMOUS) anonymous_blocks"
  shows "lookupIp env s (Some ip) args1 = Done (Inr
    [LOOKUP_KEY_COUNTRY \<mapsto> report_of v1 (masks LOOKUP_KEY_COUNTRY) country_blocks,
     LOOKUP_KEY_CITY \<mapsto> report_of v1 (masks LOOKUP_KEY_CITY) city_blocks,
     LOOKUP_KEY_ISP \<mapsto> report_of v2 (masks LOOKUP_KEY_ISP) isp_blocks,
     LOOKUP_KEY_NETSPEED \<mapsto> report_of v3 (masks LOOKUP_KEY_NETSPEED) netspeed_blocks,
     LOOKUP_KEY_ANONYMOUS \<mapsto> report_of v4 (masks LOOKUP_KEY_ANONYMOUS) anonymous_blocks],
    s\<lparr>mmdbCity := db1, mmdbIsp := db2, mmdbNetspeed := db3, mmdbAnonymous := db4\<rparr>)"
proof -
  have c: "takeWhile (\<lambda>c. c \<noteq> CHR 0x00) ip = ip" using ip by (auto simp: takeWhile_eq_all_conv)
  let ?o = "case args1 of None \<Rightarrow> defaultLoockupOptions | Some opts \<Rightarrow> opts"
  have o: "?o LOOKUP_KEY_COUNTRY = Some (masks LOOKUP_KEY_COUNTRY)" "?o LOOKUP_KEY_CITY = Some (masks LOOKUP_KEY_CITY)"
    "?o LOOKUP_KEY_ISP = Some (masks LOOKUP_KEY_ISP)" "?o LOOKUP_KEY_NETSPEED = Some (masks LOOKUP_KEY_NETSPEED)"
    "?o LOOKUP_KEY_ANONYMOUS = Some (masks LOOKUP_KEY_ANONYMOUS)"
    using options by auto
  note parts = country_and_city_report[where options = ?o, OF city(1) m o(1,2) city(2,3)]
    other_part_report[where options = ?o, OF isp(1) m o(3) isp(2), folded isp_part_def]
    other_part_report[where options = ?o, OF net(1) m o(4) net(2), folded netspeed_part_def]
    other_part_report[where options = ?o, OF anonym(1) m o(5) anonym(2), folded anonymous_part_def]
  show ?thesis
    unfolding lookupIp_def option.case Let_def c by (simp add: parts)
qed

text \<open>The small file, opened for every database.\<close>

definition small_env :: surroundings where
  "small_env = \<lparr>files = (\<lambda>_. small_file), open_malloc = (\<lambda>_. True), path_malloc = (\<lambda>_. True),
     resolver = example_gai, gai_strerror = (\<lambda>_. None), nesting = 4\<rparr>"

definition small_dbs :: databases where
  "small_dbs = \<lparr>mmdbCountry = zero_mmdb, mmdbCity = small_db, mmdbIsp = small_db, mmdbNetspeed = small_db,
     mmdbAnonymous = small_db\<rparr>"

text \<open>The entry is a string, so that every path leads nowhere.\<close>

lemma small_fitting: "(\<forall>(flag, kind, path, key) \<in> set blocks. path \<noteq> []) \<Longrightarrow> fitting (F_string s) m blocks"
  by (auto simp: fitting_def reported_def neq_Nil_conv)

lemma blocks_paths:
  "\<forall>(flag, kind, path, key) \<in> set country_blocks. path \<noteq> []" "\<forall>(flag, kind, path, key) \<in> set city_blocks. path \<noteq> []"
  "\<forall>(flag, kind, path, key) \<in> set isp_blocks. path \<noteq> []" "\<forall>(flag, kind, path, key) \<in> set netspeed_blocks. path \<noteq> []"
  "\<forall>(flag, kind, path, key) \<in> set anonymous_blocks. path \<noteq> []"
  by (simp_all add: country_blocks_def city_blocks_def isp_blocks_def netspeed_blocks_def anonymous_blocks_def)

text \<open>
  A city database that does not know the address hides the others: when the country or the city is
  asked for too, \<open>lookupIp\<close> returns an empty object without looking into them.
\<close>
theorem city_miss_hides_the_other_databases:
  assumes "filename (mmdbCity s) \<noteq> Null" "options LOOKUP_KEY_COUNTRY \<noteq> None \<or> options LOOKUP_KEY_CITY \<noteq> None"
    and "ask env (takeWhile (\<lambda>c. c \<noteq> CHR 0x00) ip) (mmdbCity s) = Done (Inr res, db)" "\<not> found_entry res"
  shows "lookupIp env s (Some ip) (Some options) = Done (Inr Map.empty, s\<lparr>mmdbCity := db\<rparr>)"
  using assms by (auto simp: lookupIp_def country_and_city_def)

theorem city_miss_hides_the_other_databases_witness:
  "lookupIp (small_env\<lparr>resolver := (\<lambda>s hints. (0, Some (ipv4 [192, 0, 2, 1])))\<rparr>) small_dbs (Some ''192.0.2.1'')
      (Some (\<lambda>_. Some 1)) = Done (Inr Map.empty, small_dbs)"
proof -
  let ?env = "small_env\<lparr>resolver := (\<lambda>s hints. (0, Some (ipv4 [192, 0, 2, 1])))\<rparr>"
  have "ask ?env ''192.0.2.1'' (mmdbCity small_dbs)
    = Done (Inr \<lparr>found_entry = False, entry = \<lparr>entry_offset = 0\<rparr>, netmask = 1\<rparr>, small_db)"
    using small_lookup(2)
    by (simp add: ask_def MMDB_lookup_string_def resolve_any_address_def small_dbs_def ipv4_def Let_def)
  then have a: "ask ?env (takeWhile (\<lambda>c. c \<noteq> CHR 0x00) ''192.0.2.1'') (mmdbCity small_dbs)
    = Done (Inr \<lparr>found_entry = False, entry = \<lparr>entry_offset = 0\<rparr>, netmask = 1\<rparr>, small_db)"
    by simp
  have f: "filename (mmdbCity small_dbs) \<noteq> Null" by (simp add: small_dbs_def opened_handle_def Let_def)
  have "small_dbs\<lparr>mmdbCity := small_db\<rparr> = small_dbs" by (simp add: small_dbs_def)
  with city_miss_hides_the_other_databases[OF f _ a, of "\<lambda>_. Some 1"] show ?thesis by simp
qed

text \<open>
  An autonomous system number is cut to its low 16 bits: the database keeps it as a 32-bit number and
  the binding reads the 16-bit member of the union.
\<close>
theorem as_number_is_truncated:
  assumes "entry_holds db res (F_map kvs)" "fdepth (F_map kvs) \<le> nesting env" "\<forall>k. path_malloc env k"
    and "map_of kvs (c_bytes ''autonomous_system_number'') = Some (F_uint32 w)"
  shows "members env db res T_ISP_CODE isp_blocks = Done (Inr [''ispCode'' \<mapsto> JS_int (unat w mod 65536)])"
proof -
  have g: "field_get (F_map kvs) [''autonomous_system_number''] = Inr (F_uint32 w)" using assms(4) by simp
  have fit: "fitting (F_map kvs) T_ISP_CODE isp_blocks"
    using g by (simp add: fitting_def isp_blocks_def binding_constants reported_def del: field_get.simps)
  have "report_of (F_map kvs) T_ISP_CODE isp_blocks = [''ispCode'' \<mapsto> JS_int (unat w mod 65536)]"
    using g by (simp add: report_of_def isp_blocks_def binding_constants reported_def del: field_get.simps)
  with members_report[OF assms(1-3) fit] show ?thesis by simp
qed

text \<open>Behind the separator, the map with \<open>autonomous_system_number\<close> for 196610.\<close>

definition as_bytes :: "u8 list" where
  "as_bytes = replicate 16 0 @ [0xE1, 0x58] @ c_bytes ''autonomous_system_number'' @ [0xC3, 0x03, 0x00, 0x02]"

definition as_db :: MMDB_s where
  "as_db = zero_mmdb\<lparr>data_section := Ptr as_bytes 0, data_section_size := 46\<rparr>"

lemma as_entry:
  "entry_holds as_db \<lparr>found_entry = True, entry = \<lparr>entry_offset = 16\<rparr>, netmask = 1\<rparr>
     (F_map [(c_bytes ''autonomous_system_number'', F_uint32 196610)])"
proof -
  have sec: "data_section as_db = Ptr as_bytes 0" by (simp add: as_db_def)
  let ?k = "c_bytes ''autonomous_system_number''"
  have at: "stored (ptr_add (data_section as_db) off) bs" if "take (length bs) (drop off as_bytes) = bs" for off bs
    using stored_take_drop[OF that] by (simp add: sec)
  have l: "length ?k = 24" "length as_bytes = 46" by (simp_all add: c_bytes_def as_bytes_def)
  have c: "ctrl_bytes 2 24 = [0x58]" "ctrl_bytes 6 3 = [0xC3]" "ctrl_bytes 7 1 = [0xE1]"
    by (simp_all add: ctrl_bytes_def)
  have t: "take 25 (drop 17 as_bytes) = 0x58 # ?k" "take 4 (drop 42 as_bytes) = [0xC3, 0x03, 0x00, 0x02]"
    "take 1 (drop 16 as_bytes) = [0xE1]"
    by (simp_all add: as_bytes_def c_bytes_def)
  have k: "encoded (data_section as_db) 17 (F_string ?k) 42"
    using at[of "0x58 # ?k" 17] t(1) l c by (intro enc_scalar[of _ 2 ?k]) simp_all
  have v: "encoded (data_section as_db) 42 (F_uint32 196610) 46"
  proof (rule enc_scalar[of _ 6 "[0x03, 0x00, 0x02]"])
    have n: "length [0x03, 0x00, 0x02 :: u8] = 3" "length [0xC3, 0x03, 0x00, 0x02 :: u8] = 4" by simp_all
    show "stored (ptr_add (data_section as_db) 42) (ctrl_bytes 6 (length [0x03, 0x00, 0x02 :: u8]) @ [0x03, 0x00, 0x02])"
      using at[of "[0xC3, 0x03, 0x00, 0x02]" 42] t(2) unfolding n c by simp
    show "(46 :: nat) = 42 + length (ctrl_bytes 6 (length [0x03, 0x00, 0x02 :: u8]) @ [0x03, 0x00, 0x02])"
      unfolding n c by simp
  qed simp_all
  have "encoded (data_section as_db) 16 (F_map [(?k, F_uint32 196610)]) 46"
    using at[of "[0xE1]" 16] t(3) c pairs_cons[OF at_direct[OF k] at_direct[OF v] pairs_nil]
    by (intro enc_map) simp_all
  from at_direct[OF this] show ?thesis using l by (auto simp: entry_holds_def data_ok_def as_db_def)
qed

theorem as_number_is_truncated_witness:
  "members small_env as_db \<lparr>found_entry = True, entry = \<lparr>entry_offset = 16\<rparr>, netmask = 1\<rparr> T_ISP_CODE isp_blocks
    = Done (Inr [''ispCode'' \<mapsto> JS_int 2])"
proof -
  have "fdepth (F_map [(c_bytes ''autonomous_system_number'', F_uint32 196610)]) \<le> nesting small_env"
    "\<forall>k. path_malloc small_env k"
    by (simp_all add: small_env_def fdepth.simps)
  from as_number_is_truncated[OF as_entry this, of 196610] show ?thesis by simp
qed

section \<open>Loading and unloading\<close>

text \<open>
  C18: In every state that calls of \<open>load\<close>, \<open>lookupIp\<close> and \<open>unload\<close> lead to, however they end and
  whatever the files hold, \<open>unload\<close> returns: it gives back what each open handle holds, each thing
  once, and calling it again does nothing.
\<close>
theorem unload_is_always_safe:
  assumes "reachable s"
  shows "\<exists>s'. unload s = Done (map given_back [mmdbCountry s, mmdbCity s, mmdbIsp s, mmdbNetspeed s, mmdbAnonymous s], s')
    \<and> list_all distinct (map given_back [mmdbCountry s, mmdbCity s, mmdbIsp s, mmdbNetspeed s, mmdbAnonymous s])
    \<and> unload s' = Done ([[], [], [], [], []], s')"
proof -
  note u = unload_closable[OF reachable_closable[OF assms]]
  have "distinct (given_back db)" for db by (simp add: given_back_def distinct_held)
  then show ?thesis unfolding u by (simp add: unload_def unload_handle_def)
qed

lemma no_databases_members:
  "mmdbCountry no_databases = zero_mmdb" "mmdbCity no_databases = zero_mmdb" "mmdbIsp no_databases = zero_mmdb"
  "mmdbNetspeed no_databases = zero_mmdb" "mmdbAnonymous no_databases = zero_mmdb"
  by (simp_all add: no_databases_def)

lemma given_back_zero: "given_back zero_mmdb = []"
  by (simp add: given_back_def zero_mmdb_def)

theorem unload_is_always_safe_witness:
  "\<exists>s'. unload no_databases = Done ([[], [], [], [], []], s')"
  using unload_is_always_safe[OF reach_start] unfolding no_databases_members by (auto simp: given_back_zero)

text \<open>
  \<open>lookupIp\<close> changes nothing of the module's handles but the start node for IPv4 that each keeps, and
  never the handle for countries, which nothing ever opens.
\<close>
theorem lookupIp_only_touches_the_caches:
  assumes "lookupIp env s args0 args1 = Done (r, s')"
  shows "same_databases s s'"
  using postD[OF lookupIp_same assms] by simp

theorem lookupIp_only_touches_the_caches_witness:
  "same_databases small_dbs small_dbs"
  using lookupIp_only_touches_the_caches[of small_env small_dbs None None "Inl ''No ip address specified''" small_dbs]
  by (simp add: lookupIp_def)

text \<open>
  \<open>load\<close> never reports a failure: whatever happens to the files, the status under every key given is
  the empty string, which stands for success, and the country database is opened in the handle of
  the city database.
\<close>
theorem load_reports_success_always:
  assumes "loadDb env s (Some options) = Done (r, s')"
  shows "\<exists>stats. r = Inr stats \<and> mmdbCountry s' = mmdbCountry s
    \<and> (\<forall>key \<in> {LOOKUP_KEY_COUNTRY, LOOKUP_KEY_CITY, LOOKUP_KEY_ISP, LOOKUP_KEY_NETSPEED, LOOKUP_KEY_ANONYMOUS}.
        stats key = (if options key = None then None else Some (JS_string [])))"
proof -
  have key: "stats' = (if val = None then stats else stats(key \<mapsto> JS_string []))"
    if "load_key env val key db stats = Done (stats', db')" for val key db stats stats' db'
    using that by (auto simp: load_key_def loadMMDB_open run_simps split: option.splits)
  from assms show ?thesis
    by (auto simp: loadDb_def run_simps Let_def binding_constants dest!: key)
qed

theorem load_reports_success_always_witness:
  "\<exists>stats s'. loadDb (small_env\<lparr>files := (\<lambda>_. small_file\<lparr>open_ok := False\<rparr>)\<rparr>) no_databases
      (Some [''isp'' \<mapsto> [0x78]]) = Done (Inr stats, s') \<and> stats ''isp'' = Some (JS_string [])"
proof -
  let ?env = "small_env\<lparr>files := (\<lambda>_. small_file\<lparr>open_ok := False\<rparr>)\<rparr>"
  obtain db where "MMDB_open (\<lambda>_. True) (small_file\<lparr>open_ok := False\<rparr>) 4 [0x78] 1 zero_mmdb
      = Done (MMDB_FILE_OPEN_ERROR, [R_filename], db)"
    by (simp add: MMDB_open_def open_attempt_def open_init_def map_file_def small_file_def mmdb_strdup_def free_mmdb_struct_def
        free_languages_metadata_def free_descriptions_metadata_def freed_def zero_mmdb_def zero_metadata_def)
  then obtain r s' where l: "loadDb ?env no_databases (Some [''isp'' \<mapsto> [0x78]]) = Done (r, s')"
    by (simp add: loadDb_def load_key_def loadMMDB_open small_env_def no_databases_def binding_constants Let_def)
  from load_reports_success_always[OF l] l show ?thesis by (auto simp: binding_constants)
qed

section \<open>Exports\<close>

text \<open>
  The exported bits of the anonymous members are mixed up: both \<open>T_ANYM_IS_ANONYMOUS\<close> and
  \<open>T_ANYM_IS_PUBPROXY\<close> have the value of the bit for \<open>is_anonymous_vpn\<close>, which is exported under no
  name of its own, and the bits for the region, the metro code and the coordinates are not exported.
\<close>
theorem exported_bits_are_mixed_up:
  "exports ''T_ANYM_IS_ANONYMOUS'' = Some (JS_int (unat T_ANYM_IS_ANONYMOUS_VPN))
    \<and> exports ''T_ANYM_IS_PUBPROXY'' = Some (JS_int (unat T_ANYM_IS_ANONYMOUS_VPN))
    \<and> exports ''T_ANYM_IS_ANONYMOUS_VPN'' = None
    \<and> exports ''T_CITY_REGION'' = None \<and> exports ''T_CITY_METRO'' = None
    \<and> exports ''T_CITY_LAT'' = None \<and> exports ''T_CITY_LON'' = None
    \<and> exports ''T_CITY_NAME'' = Some (JS_int (unat T_CITY_NAME))"
  by (simp add: exports_def export_calls_def)

end
