(* ===== verification/FieldWriter.thy ===== *)
theory FieldWriter
  imports DataSpec
begin

text \<open>
  A writer of values: one encoding of every value, without pointers, each integer with as few bytes as it needs. What it
  writes is an encoding in the sense of \<open>DataSpec\<close>, so that the library reads it back.
\<close>

section \<open>The writer\<close>

abbreviation short_bytes :: "nat \<Rightarrow> nat \<Rightarrow> u8 list" where
  "short_bytes k n \<equiv> dropWhile (\<lambda>b. b = 0) (be_bytes k n)"

definition scalar_bytes :: "nat \<Rightarrow> u8 list \<Rightarrow> u8 list" where
  "scalar_bytes ty bs = ctrl_bytes ty (length bs) @ bs"

fun field_bytes :: "field \<Rightarrow> u8 list" where
  "field_bytes (F_string s) = scalar_bytes 2 s"
| "field_bytes (F_double w) = scalar_bytes 3 (be_bytes 8 (unat w))"
| "field_bytes (F_bytes s) = scalar_bytes 4 s"
| "field_bytes (F_uint16 w) = scalar_bytes 5 (short_bytes 2 (unat w))"
| "field_bytes (F_uint32 w) = scalar_bytes 6 (short_bytes 4 (unat w))"
| "field_bytes (F_map kvs) = ctrl_bytes 7 (length kvs) @ concat (map (\<lambda>(k, v). scalar_bytes 2 k @ field_bytes v) kvs)"
| "field_bytes (F_int32 w) = scalar_bytes 8 (short_bytes 4 (unat w))"
| "field_bytes (F_uint64 w) = scalar_bytes 9 (short_bytes 8 (unat w))"
| "field_bytes (F_uint128 w) = scalar_bytes 10 (short_bytes 16 (unat w))"
| "field_bytes (F_array vs) = ctrl_bytes 11 (length vs) @ concat (map field_bytes vs)"
| "field_bytes (F_boolean b) = ctrl_bytes 14 (of_bool b)"
| "field_bytes (F_float w) = scalar_bytes 15 (be_bytes 4 (unat w))"

text \<open>Strings, byte sequences, maps and arrays of sizes that the format has.\<close>

fun writable :: "field \<Rightarrow> bool" where
  "writable (F_string s) \<longleftrightarrow> length s \<le> max_size"
| "writable (F_bytes s) \<longleftrightarrow> length s \<le> max_size"
| "writable (F_map kvs) \<longleftrightarrow> length kvs \<le> max_size \<and> (\<forall>(k, v) \<in> set kvs. length k \<le> max_size \<and> writable v)"
| "writable (F_array vs) \<longleftrightarrow> length vs \<le> max_size \<and> (\<forall>v \<in> set vs. writable v)"
| "writable _ \<longleftrightarrow> True"

section \<open>What is written is an encoding\<close>

lemma be_val_short: "be_val (dropWhile (\<lambda>b. b = 0) bs) = be_val bs"
  by (induction bs) auto

lemma length_short_bytes: "length (short_bytes k n) \<le> k"
  using length_dropWhile_le[of "\<lambda>b. b = 0" "be_bytes k n"] by simp

lemma unat_mod_self: "LENGTH('a) \<le> 8 * k \<Longrightarrow> unat (w :: 'a::len word) mod 256 ^ k = unat w"
proof (rule mod_less)
  assume "LENGTH('a) \<le> 8 * k"
  then have "(2 :: nat) ^ LENGTH('a) \<le> 2 ^ (8 * k)" by (rule power_increasing) simp
  then show "unat w < 256 ^ k" using less_le_trans[OF unsigned_less[of w, where 'a = nat]] by (simp add: power_mult)
qed

lemma be_val_word: "LENGTH('a) \<le> 8 * k \<Longrightarrow> word_of_nat (be_val (be_bytes k (unat w))) = (w :: 'a::len word)"
  by (simp add: be_val_be_bytes unat_mod_self)

lemma scalar_bytes_encoded:
  "scalar v ty bs \<Longrightarrow> length bs \<le> max_size \<Longrightarrow> stored (ptr_add mem off) (scalar_bytes ty bs) \<Longrightarrow>
    encoded mem off v (off + length (scalar_bytes ty bs))"
  by (rule enc_scalar) (simp_all add: scalar_bytes_def)

lemma fields_bytes_at:
  assumes "\<And>v off. v \<in> set vs \<Longrightarrow> stored (ptr_add mem off) (field_bytes v) \<Longrightarrow> encoded mem off v (off + length (field_bytes v))"
  shows "stored (ptr_add mem off) (concat (map field_bytes vs)) \<Longrightarrow>
    fields_at mem off vs (off + length (concat (map field_bytes vs)))"
  using assms
proof (induction vs arbitrary: off)
  case (Cons v vs)
  then have st: "stored (ptr_add mem off) (field_bytes v)"
    "stored (ptr_add mem (off + length (field_bytes v))) (concat (map field_bytes vs))"
    by (simp_all add: stored_append)
  have "encoded mem off v (off + length (field_bytes v))" using Cons.prems(2) st(1) by simp
  from fields_cons[OF at_direct[OF this] Cons.IH[OF st(2)]] Cons.prems(2) show ?case by (simp add: add.assoc)
qed (simp add: fields_nil)

lemma pairs_bytes_at:
  assumes "\<And>k v off. (k, v) \<in> set kvs \<Longrightarrow> length k \<le> max_size \<and>
    (stored (ptr_add mem off) (field_bytes v) \<longrightarrow> encoded mem off v (off + length (field_bytes v)))"
  shows "stored (ptr_add mem off) (concat (map (\<lambda>(k, v). scalar_bytes 2 k @ field_bytes v) kvs)) \<Longrightarrow>
    pairs_at mem off kvs (off + length (concat (map (\<lambda>(k, v). scalar_bytes 2 k @ field_bytes v) kvs)))"
  using assms
proof (induction kvs arbitrary: off)
  case (Cons kv kvs)
  obtain k v where kv: "kv = (k, v)" by force
  let ?m = "off + length (scalar_bytes 2 k)"
  have st: "stored (ptr_add mem off) (scalar_bytes 2 k)" "stored (ptr_add mem ?m) (field_bytes v)"
    "stored (ptr_add mem (?m + length (field_bytes v))) (concat (map (\<lambda>(k, v). scalar_bytes 2 k @ field_bytes v) kvs))"
    using Cons.prems(1) by (simp_all add: kv stored_append)
  have "encoded mem off (F_string k) ?m"
    using Cons.prems(2)[of k v] by (intro scalar_bytes_encoded st(1)) (simp_all add: kv)
  moreover have "encoded mem ?m v (?m + length (field_bytes v))" using Cons.prems(2)[of k v] st(2) by (simp add: kv)
  moreover have "pairs_at mem (?m + length (field_bytes v)) kvs (?m + length (field_bytes v)
      + length (concat (map (\<lambda>(k, v). scalar_bytes 2 k @ field_bytes v) kvs)))"
    by (intro Cons.IH[OF st(3)] Cons.prems(2)) (simp add: kv)
  ultimately show ?case by (auto simp: kv add.assoc intro: pairs_cons at_direct)
qed (simp add: pairs_nil)

lemma field_bytes_encoded:
  "writable v \<Longrightarrow> stored (ptr_add mem off) (field_bytes v) \<Longrightarrow> encoded mem off v (off + length (field_bytes v))"
proof (induction v arbitrary: off)
  case (F_map kvs)
  let ?bs = "concat (map (\<lambda>(k, v). scalar_bytes 2 k @ field_bytes v) kvs)"
  let ?m = "off + length (ctrl_bytes 7 (length kvs))"
  have st: "stored (ptr_add mem off) (ctrl_bytes 7 (length kvs))" "stored (ptr_add mem ?m) ?bs"
    using F_map.prems(2) by (simp_all add: stored_append)
  have "pairs_at mem ?m kvs (?m + length ?bs)"
    using F_map by (intro pairs_bytes_at[OF _ st(2)]) fastforce
  with enc_map[OF _ st(1) this] F_map.prems(1) show ?case by (simp add: add.assoc)
next
  case (F_array vs)
  let ?m = "off + length (ctrl_bytes 11 (length vs))"
  have st: "stored (ptr_add mem off) (ctrl_bytes 11 (length vs))" "stored (ptr_add mem ?m) (concat (map field_bytes vs))"
    using F_array.prems(2) by (simp_all add: stored_append)
  have "fields_at mem ?m vs (?m + length (concat (map field_bytes vs)))"
    using F_array by (intro fields_bytes_at[OF _ st(2)]) simp
  with enc_array[OF _ st(1) this] F_array.prems(1) show ?case by (simp add: add.assoc)
next
  case (F_boolean b)
  then show ?case by (auto intro: enc_boolean)
qed (auto intro!: scalar_bytes_encoded le_trans[OF length_short_bytes] simp: be_val_short be_val_word length_short_bytes)

section \<open>Lengths\<close>

lemma ctrl_bytes_length: "length (ctrl_bytes ty n) \<le> 5"
  by (simp add: ctrl_bytes_def Let_def)

lemma scalar_bytes_length: "length (scalar_bytes ty bs) \<le> 5 + length bs"
  using ctrl_bytes_length[of ty "length bs"] by (simp add: scalar_bytes_def)

lemma short_field_length:
  "length (field_bytes (F_uint16 a)) \<le> 7" "length (field_bytes (F_uint32 b)) \<le> 9" "length (field_bytes (F_uint64 c)) \<le> 13"
  using scalar_bytes_length[of 5 "short_bytes 2 (unat a)"] scalar_bytes_length[of 6 "short_bytes 4 (unat b)"]
    scalar_bytes_length[of 9 "short_bytes 8 (unat c)"] length_short_bytes[of 2 "unat a"] length_short_bytes[of 4 "unat b"]
    length_short_bytes[of 8 "unat c"] by (simp_all del: le_zero_eq)

end
