(* ===== verification/DatabaseWriter.thy ===== *)
theory DatabaseWriter
  imports FieldWriter FormatFiles "HOL-Library.Sublist"
begin

text \<open>
  A writer of whole databases: a tree of networks becomes the nodes and the values of a file in the format, with the
  separator between them and the metadata behind them. Opening what is written and looking addresses up in it gives back
  the networks and their values.
\<close>

section \<open>Trees of networks\<close>

text \<open>A bit string has no value, the value of a network that its first bits name, or goes on to the left or right.\<close>

datatype net_tree = Unknown | Known field | Fork net_tree net_tree

fun net_find :: "net_tree \<Rightarrow> bool list \<Rightarrow> field option" where
  "net_find (Known v) bits = Some v"
| "net_find (Fork l r) (b # bits) = net_find (if b then r else l) bits"
| "net_find _ bits = None"

text \<open>The number of bits that are looked at.\<close>

fun net_bits :: "net_tree \<Rightarrow> bool list \<Rightarrow> nat" where
  "net_bits (Fork l r) (b # bits) = Suc (net_bits (if b then r else l) bits)"
| "net_bits _ bits = 0"

fun net_depth :: "net_tree \<Rightarrow> nat" where
  "net_depth (Fork l r) = Suc (max (net_depth l) (net_depth r))"
| "net_depth _ = 0"

fun net_values :: "net_tree \<Rightarrow> field set" where
  "net_values Unknown = {}"
| "net_values (Known v) = {v}"
| "net_values (Fork l r) = net_values l \<union> net_values r"

lemma net_find_values: "net_find t bits = Some v \<Longrightarrow> v \<in> net_values t"
  by (induction t bits rule: net_find.induct) (auto split: if_splits)

section \<open>Nodes and values of the file\<close>

fun net_nodes :: "net_tree \<Rightarrow> nat" where
  "net_nodes (Fork l r) = Suc (net_nodes l + net_nodes r)"
| "net_nodes _ = 0"

fun net_data :: "net_tree \<Rightarrow> u8 list" where
  "net_data Unknown = []"
| "net_data (Known v) = field_bytes v"
| "net_data (Fork l r) = net_data l @ net_data r"

text \<open>
  The record that leads to a tree, in a file of \<open>n\<close> nodes: the number of its node \<open>i\<close>, or \<open>n\<close>, or \<open>n\<close> and the offset of
  its value, which is \<open>d\<close> bytes behind the separator.
\<close>

fun net_record :: "nat \<Rightarrow> nat \<Rightarrow> nat \<Rightarrow> net_tree \<Rightarrow> nat" where
  "net_record n i d Unknown = n"
| "net_record n i d (Known v) = n + 16 + d"
| "net_record n i d (Fork l r) = i"

fun net_list :: "nat \<Rightarrow> nat \<Rightarrow> nat \<Rightarrow> net_tree \<Rightarrow> (nat \<times> nat) list" where
  "net_list n i d (Fork l r) =
     (net_record n (Suc i) d l, net_record n (Suc i + net_nodes l) (d + length (net_data l)) r)
       # net_list n (Suc i) d l @ net_list n (Suc i + net_nodes l) (d + length (net_data l)) r"
| "net_list n i d _ = []"

lemma length_net_list [simp]: "length (net_list n i d t) = net_nodes t"
  by (induction t arbitrary: i d) auto

lemma net_record_le: "i + net_nodes t \<le> n + 1 \<Longrightarrow> net_record n i d t \<le> n + 16 + (d + length (net_data t))"
  by (cases t) auto

lemma net_list_records:
  "i + net_nodes t \<le> n \<Longrightarrow> (a, b) \<in> set (net_list n i d t) \<Longrightarrow>
    a \<le> n + 16 + (d + length (net_data t)) \<and> b \<le> n + 16 + (d + length (net_data t))"
proof (induction t arbitrary: i d)
  case (Fork l r)
  from Fork.prems(2) consider "a = net_record n (Suc i) d l" "b = net_record n (Suc i + net_nodes l) (d + length (net_data l)) r"
    | "(a, b) \<in> set (net_list n (Suc i) d l)"
    | "(a, b) \<in> set (net_list n (Suc i + net_nodes l) (d + length (net_data l)) r)" by auto
  then show ?case
  proof cases
    case 1
    then show ?thesis
      using Fork.prems(1) net_record_le[of "Suc i" l n d] net_record_le[of "Suc i + net_nodes l" r n "d + length (net_data l)"]
      by simp
  next
    case 2
    then show ?thesis using Fork.IH(1)[of "Suc i" d] Fork.prems(1) by simp
  next
    case 3
    then show ?thesis using Fork.IH(2)[of "Suc i + net_nodes l" "d + length (net_data l)"] Fork.prems(1) by simp
  qed
qed auto

section \<open>Walking the nodes of a tree\<close>

text \<open>The records of the nodes from number \<open>i\<close> on are those of the list.\<close>

definition lists_children :: "(nat \<Rightarrow> bool \<Rightarrow> nat) \<Rightarrow> nat \<Rightarrow> (nat \<times> nat) list \<Rightarrow> bool" where
  "lists_children child i ns \<longleftrightarrow> (\<forall>j < length ns. (child (i + j) False, child (i + j) True) = ns ! j)"

lemma lists_children_Cons:
  "lists_children child i ((a, b) # ns) \<longleftrightarrow> child i False = a \<and> child i True = b \<and> lists_children child (Suc i) ns"
  by (auto simp: lists_children_def nth_Cons split: nat.splits)

lemma lists_children_append:
  "lists_children child i (xs @ ys) \<longleftrightarrow> lists_children child i xs \<and> lists_children child (i + length xs) ys"
proof (induction xs arbitrary: i)
  case (Cons x xs)
  then show ?case by (cases x) (simp add: lists_children_Cons)
qed (simp add: lists_children_def)

text \<open>Where the walk ends, and what is written there.\<close>

definition net_end :: "nat \<Rightarrow> nat \<Rightarrow> net_tree \<Rightarrow> bool list \<Rightarrow> nat \<Rightarrow> bool" where
  "net_end n d t bits r \<longleftrightarrow>
     (case net_find t bits of None \<Rightarrow> r = n
      | Some v \<Rightarrow> \<exists>pre rest. net_data t = pre @ field_bytes v @ rest \<and> r = n + 16 + d + length pre)"

lemma net_walk:
  assumes "lists_children child i (net_list n i d t)" "i + net_nodes t \<le> n" "net_depth t \<le> length bits" "t = Fork l r"
  shows "\<exists>end. walk child n k i bits = Leaves end (k + net_bits t bits) \<and> net_end n d t bits end"
  using assms
proof (induction t arbitrary: i d k bits l r)
  case (Fork tl tr)
  obtain b bs where bits: "bits = b # bs" using Fork.prems(3) by (cases bits) auto
  define i' where "i' = (if b then Suc i + net_nodes tl else Suc i)"
  define d' where "d' = (if b then d + length (net_data tl) else d)"
  define u where "u = (if b then tr else tl)"
  have child: "child i b = net_record n i' d' u" and below: "lists_children child i' (net_list n i' d' u)"
    using Fork.prems(1) by (auto simp: lists_children_Cons lists_children_append i'_def d'_def u_def)
  have size: "i' + net_nodes u \<le> n" "net_depth u \<le> length bs" "0 < i'"
    using Fork.prems(2,3) bits by (auto simp: i'_def u_def)
  have find: "net_find (Fork tl tr) bits = net_find u bs" "net_bits (Fork tl tr) bits = Suc (net_bits u bs)"
    by (simp_all add: bits u_def)
  have data: "net_end n d' u bs e \<Longrightarrow> net_end n d (Fork tl tr) bits e" for e
  proof (cases "net_find u bs")
    case (Some v)
    assume "net_end n d' u bs e"
    then obtain pre rest where p: "net_data u = pre @ field_bytes v @ rest" "e = n + 16 + d' + length pre"
      using Some by (auto simp: net_end_def)
    then have "net_data (Fork tl tr) = ((if b then net_data tl else []) @ pre) @ field_bytes v @ rest @ (if b then [] else net_data tr)"
      by (simp add: u_def split: if_splits)
    moreover have "e = n + 16 + d + length ((if b then net_data tl else []) @ pre)" using p(2) by (simp add: d'_def)
    ultimately show ?thesis unfolding net_end_def find Some option.case by blast
  qed (simp add: net_end_def find)
  have n: "0 < n" using Fork.prems(2) by simp
  show ?case
  proof (cases u)
    case (Fork ul ur)
    have "i' < n" using size(1) Fork by simp
    have "\<exists>e. walk child n (Suc k) i' bs = Leaves e (Suc k + net_bits u bs) \<and> net_end n d' u bs e"
    proof (cases b)
      case True
      then show ?thesis using Fork.IH(2)[of i' d' bs ul ur "Suc k"] below size Fork by (simp add: u_def)
    next
      case False
      then show ?thesis using Fork.IH(1)[of i' d' bs ul ur "Suc k"] below size Fork by (simp add: u_def)
    qed
    then show ?thesis using data child Fork \<open>i' < n\<close> size(3) find(2) by (auto simp: bits)
  next
    case Unknown
    then have "net_end n d' u bs n" by (simp add: net_end_def)
    from data[OF this] show ?thesis using child Unknown n find(2) by (auto simp: bits)
  next
    case (Known v)
    then have "net_end n d' u bs (n + 16 + d')" by (auto simp: net_end_def)
    from data[OF this] show ?thesis using child Known n find(2) by (auto simp: bits)
  qed
qed simp_all

section \<open>Files\<close>

definition metadata_map :: "file_metadata \<Rightarrow> (u8 list \<times> field) list" where
  "metadata_map fm =
     [(c_bytes ''node_count'', F_uint32 (fm_node_count fm)), (c_bytes ''record_size'', F_uint16 (fm_record_size fm)),
      (c_bytes ''ip_version'', F_uint16 (fm_ip_version fm)), (c_bytes ''database_type'', F_string (fm_database_type fm)),
      (c_bytes ''languages'', F_array (map F_string (fm_languages fm))),
      (c_bytes ''binary_format_major_version'', F_uint16 (fm_major_version fm)),
      (c_bytes ''binary_format_minor_version'', F_uint16 (fm_minor_version fm)),
      (c_bytes ''build_epoch'', F_uint64 (fm_build_epoch fm)),
      (c_bytes ''description'', F_map (map (\<lambda>(l, t). (l, F_string t)) (fm_description fm)))]"

text \<open>The metadata with the number of nodes that are written, and the bytes of a node.\<close>

definition counted :: "file_metadata \<Rightarrow> net_tree \<Rightarrow> file_metadata" where
  "counted fm t = fm\<lparr>fm_node_count := word_of_nat (net_nodes t)\<rparr>"

definition written_size :: "file_metadata \<Rightarrow> nat" where
  "written_size fm = (if fm_record_size fm = 24 then 6 else if fm_record_size fm = 28 then 7 else 8)"

definition tree_part :: "file_metadata \<Rightarrow> net_tree \<Rightarrow> u8 list" where
  "tree_part fm t = written_tree (written_size fm) (net_list (net_nodes t) 0 0 t)"

definition front_part :: "file_metadata \<Rightarrow> net_tree \<Rightarrow> u8 list" where
  "front_part fm t = tree_part fm t @ replicate 16 0 @ net_data t"

definition database_bytes :: "file_metadata \<Rightarrow> net_tree \<Rightarrow> u8 list" where
  "database_bytes fm t = front_part fm t @ METADATA_MARKER @ field_bytes (F_map (metadata_map (counted fm t)))"

definition database_file :: "file_metadata \<Rightarrow> net_tree \<Rightarrow> file_system" where
  "database_file fm t = \<lparr>open_ok = True, file_bytes = database_bytes fm t, mmap_failed = None\<rparr>"

text \<open>
  What can be written: a tree with a node, values and metadata that the format has, records that fit the nodes, no file of
  4 GiB, and no marker in front of the marker.
\<close>

definition database_writable :: "file_metadata \<Rightarrow> net_tree \<Rightarrow> bool" where
  "database_writable fm t \<longleftrightarrow> metadata_valid (counted fm t) \<and> writable (F_map (metadata_map fm))
     \<and> (\<forall>v \<in> net_values t. writable v)
     \<and> net_nodes t + 16 + length (net_data t) < 2 ^ (4 * written_size fm)
     \<and> length (database_bytes fm t) < 2 ^ 32
     \<and> metadata_start (database_bytes fm t) = Some (length (front_part fm t) + length METADATA_MARKER)"

lemma map_of_Cons: "map_of ((a, b) # xs) k = (if k = a then Some b else map_of xs k)"
  by simp

lemma metadata_map_says: "metadata_says (metadata_map fm) fm"
  unfolding metadata_says_def metadata_map_def
  by (intro conjI) (simp_all add: c_bytes_def)

lemma counted_simps [simp]:
  "fm_record_size (counted fm t) = fm_record_size fm" "fm_ip_version (counted fm t) = fm_ip_version fm"
  by (simp_all add: counted_def)

lemma writable_counted: "writable (F_map (metadata_map fm)) \<Longrightarrow> writable (F_map (metadata_map (counted fm t)))"
  by (simp add: metadata_map_def counted_def)

lemma metadata_map_depth: "fdepth (F_map (metadata_map fm)) \<le> 4"
proof -
  have "fdepth (F_map (metadata_map fm)) < Suc 3"
    unfolding fdepth_map_less using fdepth_strings(1)[of "fm_languages fm"] fdepth_strings(2)[of "fm_description fm"]
    by (auto simp: metadata_map_def)
  then show ?thesis by simp
qed

lemma length_written_tree: "sz \<in> {6, 7, 8} \<Longrightarrow> length (written_tree sz ns) = length ns * sz"
  by (induction ns) (auto simp: written_tree_def length_node_bytes)

lemma written_size_cases [simp]: "written_size fm \<in> {6, 7, 8}" "written_size (counted fm t) = written_size fm"
  by (simp_all add: written_size_def)

section \<open>The handle of a written file\<close>

abbreviation written_handle :: "file_metadata \<Rightarrow> net_tree \<Rightarrow> u8 list \<Rightarrow> u32 \<Rightarrow> MMDB_s" where
  "written_handle fm t name fl \<equiv>
     opened_handle (database_file fm t) name fl (counted fm t) (length (front_part fm t) + length METADATA_MARKER)"

lemma length_tree_part [simp]: "length (tree_part fm t) = net_nodes t * written_size fm"
  unfolding tree_part_def length_written_tree[OF written_size_cases(1)] by simp

lemma written_nodes_less: "database_writable fm t \<Longrightarrow> net_nodes t < 2 ^ 32"
proof -
  assume "database_writable fm t"
  then have "net_nodes t < 2 ^ (4 * written_size fm)" by (simp add: database_writable_def)
  also have "\<dots> \<le> (2 :: nat) ^ 32" by (rule power_increasing) (simp_all add: written_size_def)
  finally show ?thesis .
qed

lemma written_handle_sizes:
  assumes "database_writable fm t"
  shows "nodes_of (written_handle fm t name fl) = net_nodes t" "node_size (written_handle fm t name fl) = written_size fm"
    "file_content (written_handle fm t name fl) = Ptr (database_bytes fm t) 0"
    "file_bytes (database_file fm t) = database_bytes fm t"
proof -
  have "unat (word_of_nat (net_nodes t) :: u32) = net_nodes t" by (rule unat_u32[OF written_nodes_less[OF assms]])
  then show "nodes_of (written_handle fm t name fl) = net_nodes t"
    by (simp add: opened_handle_def filled_metadata_def counted_def Let_def)
qed (simp_all add: opened_handle_def written_size_def database_file_def Let_def)

lemma written_children:
  assumes w: "database_writable fm t"
  shows "lists_children (tree_child (written_handle fm t name fl)) 0 (net_list (net_nodes t) 0 0 t)"
  unfolding lists_children_def
proof (intro allI impI)
  let ?ns = "net_list (net_nodes t) 0 0 t" and ?sz = "written_size fm"
  fix j assume j: "j < length ?ns"
  obtain a b where ab: "?ns ! j = (a, b)" by force
  have nd: "take ?sz (drop (j * ?sz) (database_bytes fm t)) = node_bytes ?sz a b"
    unfolding database_bytes_def front_part_def tree_part_def append_assoc
    by (simp only: written_tree_nth[OF written_size_cases(1) j] ab fst_conv snd_conv)
  have "(a, b) \<in> set ?ns" using j ab nth_mem by metis
  from net_list_records[OF _ this] w have fit: "a < 2 ^ (4 * ?sz)" "b < 2 ^ (4 * ?sz)"
    by (auto simp: database_writable_def)
  show "(tree_child (written_handle fm t name fl) (0 + j) False, tree_child (written_handle fm t name fl) (0 + j) True) = ?ns ! j"
    using record_value_node_bytes[OF written_size_cases(1) fit] nd
    by (simp add: tree_child_def written_handle_sizes[OF w] ab)
qed

lemma written_metadata_encoded:
  assumes "database_writable fm t"
  shows "encoded (Ptr (database_bytes fm t) (length (front_part fm t) + length METADATA_MARKER)) 0
    (F_map (metadata_map (counted fm t))) (length (field_bytes (F_map (metadata_map (counted fm t)))))"
proof -
  let ?m = "F_map (metadata_map (counted fm t))" and ?p = "Ptr (database_bytes fm t) (length (front_part fm t) + length METADATA_MARKER)"
  have "stored ?p (field_bytes ?m)" by (rule stored_take_drop) (simp add: database_bytes_def)
  then have "stored (ptr_add ?p 0) (field_bytes ?m)" by simp
  from field_bytes_encoded[OF writable_counted this] assms show ?thesis by (simp add: database_writable_def)
qed

lemma written_file_opens:
  assumes w: "database_writable fm t" and nest: "4 \<le> nest"
  shows "MMDB_open (\<lambda>_. True) (database_file fm t) nest name fl db = Done (MMDB_SUCCESS, [], written_handle fm t name fl)"
proof (rule MMDB_open_says[OF _ _ _ _ _ nest metadata_map_says])
  show "encoded (Ptr (file_bytes (database_file fm t)) (length (front_part fm t) + length METADATA_MARKER)) 0
      (F_map (metadata_map (counted fm t))) (length (field_bytes (F_map (metadata_map (counted fm t)))))"
    unfolding written_handle_sizes(4)[OF w] by (rule written_metadata_encoded[OF w])
qed (use w nest metadata_map_depth[of "counted fm t"] in \<open>simp_all add: database_writable_def database_file_def\<close>)

lemma written_handle_ok:
  fixes name fl
  assumes w: "database_writable fm t"
  defines "h \<equiv> written_handle fm t name fl"
  shows "tree_wf h" "cache_ok h" "data_ok h" "data_section h = Ptr (database_bytes fm t) (length (tree_part fm t))"
    "unat (data_section_size h) = length (database_bytes fm t) - length (tree_part fm t)"
proof -
  have o: "opened (database_file fm t) h"
    using postD[OF MMDB_open_post written_file_opens[OF w order_refl]] by (simp add: open_result_ok_def h_def)
  have "nodes_of h * node_size h \<le> length (file_bytes (database_file fm t))"
    unfolding h_def written_handle_sizes[OF w] by (simp add: database_bytes_def front_part_def)
  note ok = opened_tree_wf[OF o this]
  show "tree_wf h" "cache_ok h" "data_ok h" "data_section h = Ptr (database_bytes fm t) (length (tree_part fm t))"
    "unat (data_section_size h) = length (database_bytes fm t) - length (tree_part fm t)"
    using ok w by (simp_all add: h_def written_handle_sizes[OF w] database_writable_def)
qed

text \<open>What the data section holds behind the bytes of other values.\<close>

lemma written_field_at:
  assumes w: "database_writable fm t" and d: "net_data t = pre @ field_bytes v @ rest" and v: "v \<in> net_values t"
  shows "\<exists>e. field_at (data_section (written_handle fm t name fl)) (16 + length pre) v e"
proof -
  have "take (length (field_bytes v)) (drop (length (tree_part fm t) + (16 + length pre)) (database_bytes fm t)) = field_bytes v"
    by (simp add: database_bytes_def front_part_def d)
  then have "stored (ptr_add (data_section (written_handle fm t name fl)) (16 + length pre)) (field_bytes v)"
    unfolding written_handle_ok(4)[OF w] by (simp add: stored_take_drop del: length_tree_part)
  with field_bytes_encoded[OF _ this] w v show ?thesis
    by (auto simp: database_writable_def intro: at_direct)
qed

section \<open>Looking addresses up in a written file\<close>

lemma written_walk:
  assumes w: "database_writable fm t" and bits: "net_depth t \<le> length bits"
  defines "n \<equiv> net_nodes t"
  shows "\<exists>r. walk (tree_child (written_handle fm t name fl)) n 0 0 bits = Leaves r (net_bits t bits) \<and> net_end n 0 t bits r"
proof -
  have "net_nodes t \<noteq> 0"
    using w by (intro notI) (simp add: database_writable_def metadata_valid_def counted_def)
  then obtain l r where t: "t = Fork l r" by (cases t) auto
  show ?thesis
    using net_walk[where i = 0 and d = 0 and k = 0, OF written_children[OF w] _ bits t] by (simp add: n_def)
qed

text \<open>The result of a lookup tells the value of the network, or that there is none.\<close>

definition lookup_tells :: "nat \<Rightarrow> MMDB_s \<Rightarrow> MMDB_lookup_result_s \<Rightarrow> field option \<Rightarrow> bool" where
  "lookup_tells nest h res found \<longleftrightarrow>
     (case found of None \<Rightarrow> \<not> found_entry res
      | Some v \<Rightarrow> found_entry res \<and>
         (fdepth v \<le> nest \<longrightarrow> (\<forall>path.
           case field_get v path of
             Inl err \<Rightarrow> err \<noteq> MMDB_SUCCESS \<and> MMDB_aget_value nest h (entry res) path = Done (err, zero_entry_data)
           | Inr w \<Rightarrow> \<exists>ed. MMDB_aget_value nest h (entry res) path = Done (MMDB_SUCCESS, ed) \<and> entry_shows ed w)))"

lemma lookup_tells_value:
  "lookup_tells nest h res (Some v) \<Longrightarrow> field_get v path = Inr w \<Longrightarrow> fdepth v \<le> nest \<Longrightarrow>
    found_entry res \<and> (\<exists>ed. MMDB_aget_value nest h (entry res) path = Done (MMDB_SUCCESS, ed) \<and> entry_shows ed w)"
  by (auto simp: lookup_tells_def dest!: spec[of _ path])

lemma net_end_report:
  fixes name fl
  assumes w: "database_writable fm t" and e: "net_end (net_nodes t) 0 t bits r"
  defines "h \<equiv> written_handle fm t name fl"
  shows "\<exists>res. report h no_result r k = (MMDB_SUCCESS, res) \<and> netmask res = word_of_nat k
    \<and> lookup_tells nest (h\<lparr>ipv4_start_node := start\<rparr>) res (net_find t bits)"
proof (cases "net_find t bits")
  case None
  then show ?thesis
    using e by (simp add: report_def h_def written_handle_sizes[OF w] net_end_def lookup_tells_def)
next
  case (Some v)
  then obtain pre rest where d: "net_data t = pre @ field_bytes v @ rest" and r: "r = net_nodes t + (16 + length pre)"
    using e by (auto simp: net_end_def)
  obtain e where at: "field_at (data_section h) (16 + length pre) v e"
    using written_field_at[OF w d net_find_values[OF Some]] unfolding h_def by blast
  have inside: "16 + length pre \<le> unat (data_section_size h)"
    unfolding h_def written_handle_ok(5)[OF w] by (simp add: database_bytes_def front_part_def d)
  then have u: "unat (word_of_nat (16 + length pre) :: u32) = 16 + length pre"
    using unat_u32_less[of "data_section_size h"] by (intro unat_u32) linarith
  let ?res = "no_result\<lparr>found_entry := True, entry := \<lparr>entry_offset = word_of_nat (16 + length pre)\<rparr>, netmask := word_of_nat k\<rparr>"
  have "report h no_result r k = (MMDB_SUCCESS, ?res)"
    using inside by (simp add: report_def h_def written_handle_sizes[OF w] r)
  moreover have "lookup_tells nest (h\<lparr>ipv4_start_node := start\<rparr>) ?res (Some v)"
  proof -
    have at': "field_at (data_section (h\<lparr>ipv4_start_node := start\<rparr>)) (unat (entry_offset (entry ?res))) v e"
      using at u by simp
    have ok: "data_ok (h\<lparr>ipv4_start_node := start\<rparr>)" using written_handle_ok(3)[OF w] by (simp add: h_def)
    show ?thesis
      unfolding lookup_tells_def
      using aget_value_cases[OF ok at', of nest] by simp
  qed
  ultimately show ?thesis using Some by simp
qed

lemma written_lookup:
  assumes w: "database_writable fm t" and bits: "net_depth t \<le> length bits"
    and b: "lookup_bits h sa = Some bits" and h: "h = written_handle fm t name fl"
  shows "\<exists>res start. MMDB_lookup_sockaddr h sa err = Done (res, Some MMDB_SUCCESS, h\<lparr>ipv4_start_node := start\<rparr>)
    \<and> lookup_tells nest (h\<lparr>ipv4_start_node := start\<rparr>) res (net_find t bits)
    \<and> (native_bits h sa = Some bits \<longrightarrow> netmask res = word_of_nat (net_bits t bits))"
proof -
  obtain r where wk: "walk (tree_child h) (nodes_of h) 0 0 bits = Leaves r (net_bits t bits)"
    and e: "net_end (net_nodes t) 0 t bits r"
    using written_walk[OF w bits, of name fl] by (auto simp: h written_handle_sizes[OF w])
  obtain k' start where look: "MMDB_lookup_sockaddr h sa err
      = Done (case report h no_result r k' of (st, res) \<Rightarrow> (res, Some st, h\<lparr>ipv4_start_node := start\<rparr>))"
    "native_bits h sa = Some bits \<longrightarrow> k' = net_bits t bits"
    using leaves_lookup[OF _ _ b wk, of err] written_handle_ok[OF w, of name fl] by (auto simp: h)
  show ?thesis using net_end_report[OF w e, of name fl k' nest start, folded h] look by auto
qed

text \<open>The bits that are looked up for an address in a database of an IP version.\<close>

definition asked_bits :: "u16 \<Rightarrow> sockaddr \<Rightarrow> bool list option" where
  "asked_bits version sa =
     (if family sa = AF_INET \<and> length (s_addr sa) = 4 \<and> version \<in> {4, 6}
      then Some (addr_bits ((if version = 6 then replicate 12 0 else []) @ s_addr sa))
      else if family sa = AF_INET6 \<and> length (s6_addr sa) = 16 \<and> version = 6 then Some (addr_bits (s6_addr sa))
      else None)"

lemma written_lookup_bits: "lookup_bits (written_handle fm t name fl) sa = asked_bits (fm_ip_version fm) sa"
proof -
  have "ip_version (metadata (written_handle fm t name fl)) = fm_ip_version fm"
    by (simp add: opened_handle_def filled_metadata_def Let_def)
  then show ?thesis by (auto simp: lookup_bits_def native_bits_def asked_bits_def)
qed

text \<open>In the words of \<open>FormatFiles\<close>: what a written file shows.\<close>

lemma written_file_served:
  assumes w: "database_writable fm t" and nest: "4 \<le> nest"
  shows "file_opens nest (database_file fm t) name (written_handle fm t name MMDB_MODE_MMAP)"
proof -
  let ?h = "written_handle fm t name MMDB_MODE_MMAP"
  have "nodes_of ?h * node_size ?h \<le> length (file_bytes (database_file fm t))"
    unfolding written_handle_sizes[OF w] by (simp add: database_bytes_def front_part_def)
  moreover have "metadata_says (metadata_map (counted fm t)) (counted fm t)" by (rule metadata_map_says)
  moreover note written_metadata_encoded[OF w]
  ultimately show ?thesis
    using w nest order_trans[OF metadata_map_depth[of "counted fm t"] nest]
    unfolding file_opens_def database_writable_def database_file_def by auto
qed

lemma written_file_shows:
  assumes w: "database_writable fm t" and nest: "4 \<le> nest" and b: "asked_bits (fm_ip_version fm) sa = Some bits"
    and d: "net_depth t \<le> length bits"
  shows "net_find t bits = Some v \<Longrightarrow> fdepth v \<le> nest \<Longrightarrow> file_shows nest (database_file fm t) name sa v"
    and "net_find t bits = None \<Longrightarrow> file_lacks nest (database_file fm t) name sa"
proof -
  let ?h = "written_handle fm t name MMDB_MODE_MMAP"
  have lb: "lookup_bits ?h sa = Some bits" using b by (simp add: written_lookup_bits)
  obtain r where wk: "walk (tree_child ?h) (nodes_of ?h) 0 0 bits = Leaves r (net_bits t bits)"
    and e: "net_end (net_nodes t) 0 t bits r"
    using written_walk[OF w d, of name MMDB_MODE_MMAP] by (auto simp: written_handle_sizes[OF w])
  note o = written_file_served[OF w nest, of name]
  show "file_lacks nest (database_file fm t) name sa" if "net_find t bits = None"
    using o lb wk e that unfolding file_lacks_def leads_nowhere_def
    by (auto simp: net_end_def written_handle_sizes[OF w])
  show "file_shows nest (database_file fm t) name sa v" if v: "net_find t bits = Some v" "fdepth v \<le> nest"
  proof -
    obtain pre rest where data: "net_data t = pre @ field_bytes v @ rest" and r: "r = net_nodes t + (16 + length pre)"
      using e v(1) by (auto simp: net_end_def)
    have "16 + length pre \<le> unat (data_section_size ?h)"
      unfolding written_handle_ok(5)[OF w] by (simp add: database_bytes_def front_part_def data)
    then have "leads_to ?h sa (16 + length pre)"
      using lb wk by (auto simp: leads_to_def r written_handle_sizes[OF w])
    moreover have "stored (data_section ?h) [0, 0]"
      unfolding written_handle_ok(4)[OF w]
      by (rule stored_take_drop) (simp add: database_bytes_def front_part_def numeral_eq_Suc del: length_tree_part)
    ultimately show ?thesis
      using o written_field_at[OF w data net_find_values[OF v(1)]] v(2) unfolding file_shows_def by blast
  qed
qed

section \<open>The tree of a list of networks\<close>

text \<open>A network is put into a tree, inside or around the networks that are there.\<close>

fun net_insert :: "bool list \<Rightarrow> field \<Rightarrow> net_tree \<Rightarrow> net_tree" where
  "net_insert [] v t = Known v"
| "net_insert (b # p) v t =
     (let (l, r) = (case t of Fork l r \<Rightarrow> (l, r) | _ \<Rightarrow> (t, t)) in
      if b then Fork l (net_insert p v r) else Fork (net_insert p v l) r)"

definition network_tree :: "(bool list \<times> field) list \<Rightarrow> net_tree" where
  "network_tree nets = foldr (\<lambda>(p, v). net_insert p v) nets Unknown"

text \<open>The network of an address is the first one whose bits the address begins with.\<close>

definition network_of :: "(bool list \<times> field) list \<Rightarrow> bool list \<Rightarrow> field option" where
  "network_of nets bits = map_option snd (List.find (\<lambda>(p, v). prefix p bits) nets)"

lemma net_find_insert:
  "length p \<le> length bits \<Longrightarrow> net_find (net_insert p v t) bits = (if prefix p bits then Some v else net_find t bits)"
proof (induction p v t arbitrary: bits rule: net_insert.induct)
  case (2 b p v t)
  then obtain c bs where bits: "bits = c # bs" "length p \<le> length bs" by (cases bits) auto
  show ?case
    using 2(1,2)[OF refl, of _ _ bs] bits by (cases t; cases b; cases c) (auto simp: Let_def)
qed simp

lemma net_depth_insert: "net_depth (net_insert p v t) \<le> max (length p) (net_depth t)"
proof (induction p v t rule: net_insert.induct)
  case (2 b p v t)
  then show ?case by (cases t; cases b) (fastforce simp: Let_def)+
qed simp

lemma network_tree_Cons [simp]:
  "network_tree [] = Unknown" "network_tree ((p, v) # nets) = net_insert p v (network_tree nets)"
  by (simp_all add: network_tree_def)

lemma network_tree_finds:
  "\<forall>(p, v) \<in> set nets. length p \<le> length bits \<Longrightarrow> net_find (network_tree nets) bits = network_of nets bits"
  by (induction nets) (auto simp: network_of_def net_find_insert split: if_splits)

lemma network_tree_depth: "\<forall>(p, v) \<in> set nets. length p \<le> n \<Longrightarrow> net_depth (network_tree nets) \<le> n"
proof (induction nets)
  case (Cons net nets)
  obtain p v where "net = (p, v)" by force
  with Cons net_depth_insert[of p v "network_tree nets"] show ?case by (simp add: max_def split: if_splits)
qed simp

section \<open>Files without another marker\<close>

lemma marker_first:
  assumes "length (database_bytes fm t) \<le> METADATA_BLOCK_MAX_SIZE" "0xAB \<notin> set (front_part fm t)"
  shows "metadata_start (database_bytes fm t) = Some (length (front_part fm t) + length METADATA_MARKER)"
proof -
  have m: "0xAB # tl METADATA_MARKER = METADATA_MARKER" by (simp add: METADATA_MARKER_def)
  have "last_block (database_bytes fm t) = database_bytes fm t" using assms(1) by (simp add: last_block_def)
  then show ?thesis
    using first_occurrence_behind[OF assms(2), of "tl METADATA_MARKER", unfolded m] assms(1)
    by (simp add: metadata_start_def database_bytes_def)
qed

end
