(* ===== verification/WrittenDatabase.thy ===== *)
theory WrittenDatabase
  imports DatabaseWriter
begin

text \<open>
  The round trip through a file: a database that is written for a list of networks and values, then opened, looked up and
  read with \<^verbatim>\<open>libmaxminddb/src/maxminddb.c\<close>.
\<close>

text \<open>
  C3: What is written is read back. Let a database be written for a list of networks with values, in any record size and
  IP version, under the conditions of \<open>database_writable\<close>: the metadata is valid, the sizes of keys, strings, maps and
  arrays are ones that the format has, the records have room for the number of nodes plus the size of the separator and the values, the file is smaller
  than 4 GiB, and the first metadata marker in the last 128 KiB of the file is the one in front of the metadata. The last is a condition on the
  values: \<open>find_metadata\<close> stops at the first marker, so in a file in which the bytes of the marker occur inside a value near its end
  the metadata is looked for behind that value. Then \<open>MMDB_open\<close> succeeds, where no allocation fails and the nesting bound is 4 or more, and, for every address whose family the
  database has (an IPv4 address in an IPv6 database included) and that is at least as long as the prefix of each network, the lookup succeeds
  and tells the value of the first network of the list that the address is in, which every path lookup reads, or that no network holds the
  address; an address of the database's own family gets the prefix length at which the tree decides.
\<close>
theorem written_database_is_read_back:
  assumes "database_writable fm (network_tree nets)" "4 \<le> nest"
    and "asked_bits (fm_ip_version fm) sa = Some bits" "\<forall>(p, v) \<in> set nets. length p \<le> length bits"
  shows "\<exists>h res start. MMDB_open (\<lambda>_. True) (database_file fm (network_tree nets)) nest name fl db = Done (MMDB_SUCCESS, [], h)
    \<and> MMDB_lookup_sockaddr h sa err = Done (res, Some MMDB_SUCCESS, h\<lparr>ipv4_start_node := start\<rparr>)
    \<and> lookup_tells nest (h\<lparr>ipv4_start_node := start\<rparr>) res (network_of nets bits)
    \<and> (native_bits h sa = Some bits \<longrightarrow> netmask res = word_of_nat (net_bits (network_tree nets) bits))"
proof -
  let ?h = "written_handle fm (network_tree nets) name fl"
  have "lookup_bits ?h sa = Some bits" using assms(3) by (simp add: written_lookup_bits)
  with written_lookup[OF assms(1) network_tree_depth[OF assms(4)], of ?h sa name fl err nest]
  show ?thesis
    using written_file_opens[OF assms(1,2), of name fl db] by (simp add: network_tree_finds[OF assms(4)])
qed

definition two_networks :: "(bool list \<times> field) list" where
  "two_networks = [([False], F_string [0x61, 0x62]), ([True, False], F_map [([0x6E], F_uint32 300)])]"

definition two_metadata :: file_metadata where
  "two_metadata =
     \<lparr>fm_node_count = 0, fm_record_size = 28, fm_ip_version = 4, fm_database_type = [0x54], fm_languages = [[0x65, 0x6E]],
      fm_major_version = 2, fm_minor_version = 0, fm_build_epoch = 7, fm_description = [([0x65, 0x6E], [0x78])]\<rparr>"

lemma two_tree:
  "network_tree two_networks
    = Fork (Known (F_string [0x61, 0x62])) (Fork (Known (F_map [([0x6E], F_uint32 300)])) Unknown)"
  by (simp add: two_networks_def)

lemma two_data: "field_bytes (F_string [0x61, 0x62]) = [0x42, 0x61, 0x62]"
  "field_bytes (F_map [([0x6E], F_uint32 300)]) = [0xE1, 0x41, 0x6E, 0xC2, 1, 0x2C]"
  by (simp_all add: scalar_bytes_def ctrl_bytes_def be_bytes_few)

lemma two_part:
  "front_part two_metadata (network_tree two_networks) = [0, 0, 18, 0, 0, 0, 1, 0, 0, 21, 0, 0, 0, 2] @ replicate 16 0
      @ [0x42, 0x61, 0x62, 0xE1, 0x41, 0x6E, 0xC2, 1, 0x2C]"
proof -
  have "written_size two_metadata = 7" by (simp add: written_size_def two_metadata_def)
  then show ?thesis unfolding two_tree
    by (simp add: front_part_def tree_part_def written_tree_def node_bytes_def two_data be_bytes_few del: field_bytes.simps)
qed
lemma two_metadata_length:
  "length (field_bytes (F_map (metadata_map (counted two_metadata t)))) \<le> 1000"
proof -
  let ?k = "\<lambda>s. length (scalar_bytes 2 (c_bytes s))" and ?f = "\<lambda>v. length (field_bytes v)"
  have k: "?k ''node_count'' \<le> 15" "?k ''record_size'' \<le> 16" "?k ''ip_version'' \<le> 15" "?k ''database_type'' \<le> 18"
    "?k ''languages'' \<le> 14" "?k ''binary_format_major_version'' \<le> 32" "?k ''binary_format_minor_version'' \<le> 32"
    "?k ''build_epoch'' \<le> 16" "?k ''description'' \<le> 16" "length (scalar_bytes 2 [0x54]) \<le> 6"
    "length (scalar_bytes 2 [0x65, 0x6E]) \<le> 7" "length (scalar_bytes 2 [0x78]) \<le> 6"
    by (rule order_trans[OF scalar_bytes_length]; simp add: c_bytes_def)+
  have "?f (F_map (metadata_map (counted two_metadata t))) = length (ctrl_bytes 7 (length (metadata_map (counted two_metadata t))))
      + ?k ''node_count'' + ?f (F_uint32 (word_of_nat (net_nodes t))) + ?k ''record_size'' + ?f (F_uint16 28)
      + ?k ''ip_version'' + ?f (F_uint16 4) + ?k ''database_type'' + length (scalar_bytes 2 [0x54])
      + ?k ''languages'' + length (ctrl_bytes 11 1) + length (scalar_bytes 2 [0x65, 0x6E])
      + ?k ''binary_format_major_version'' + ?f (F_uint16 2) + ?k ''binary_format_minor_version'' + ?f (F_uint16 0)
      + ?k ''build_epoch'' + ?f (F_uint64 7) + ?k ''description'' + length (ctrl_bytes 7 1)
      + length (scalar_bytes 2 [0x65, 0x6E]) + length (scalar_bytes 2 [0x78])"
    by (simp add: metadata_map_def counted_def two_metadata_def)
  with k ctrl_bytes_length[of 7 "length (metadata_map (counted two_metadata t))"] ctrl_bytes_length[of 11 1] ctrl_bytes_length[of 7 1]
    short_field_length(2)[of "word_of_nat (net_nodes t)"] short_field_length(1)[of 28] short_field_length(1)[of 4]
    short_field_length(1)[of 2] short_field_length(1)[of 0] short_field_length(3)[of 7]
  show ?thesis by linarith
qed

lemma two_writable: "database_writable two_metadata (network_tree two_networks)"
proof -
  let ?t = "network_tree two_networks"
  have l: "length (database_bytes two_metadata ?t) \<le> 2000"
    using two_metadata_length[of ?t] by (simp add: database_bytes_def two_part METADATA_MARKER_def del: field_bytes.simps)
  have "metadata_start (database_bytes two_metadata ?t) = Some (length (front_part two_metadata ?t) + length METADATA_MARKER)"
    using l by (intro marker_first) (simp_all add: METADATA_BLOCK_MAX_SIZE_def two_part)
  moreover have "metadata_valid (counted two_metadata ?t)"
    by (simp add: metadata_valid_def counted_def two_metadata_def two_tree)
  moreover have "writable (F_map (metadata_map two_metadata))"
    by (simp add: metadata_map_def two_metadata_def c_bytes_def)
  ultimately show ?thesis
    using l unfolding database_writable_def two_tree
    by (simp add: two_data two_metadata_def written_size_def del: field_bytes.simps)
qed

theorem written_database_is_read_back_witness:
  "\<exists>h res start. MMDB_open (\<lambda>_. True) (database_file two_metadata (network_tree two_networks)) 4 [0x66] 0 zero_mmdb
      = Done (MMDB_SUCCESS, [], h)
    \<and> MMDB_lookup_sockaddr h (ipv4 [0x80, 0, 0, 1]) None = Done (res, Some MMDB_SUCCESS, h\<lparr>ipv4_start_node := start\<rparr>)
    \<and> found_entry res \<and> (\<exists>ed. MMDB_aget_value 4 (h\<lparr>ipv4_start_node := start\<rparr>) (entry res) [''n''] = Done (MMDB_SUCCESS, ed)
        \<and> entry_shows ed (F_uint32 300))"
proof -
  have b: "asked_bits (fm_ip_version two_metadata) (ipv4 [0x80, 0, 0, 1]) = Some (addr_bits [0x80, 0, 0, 1])"
    by (simp add: asked_bits_def two_metadata_def ipv4_def)
  have p: "\<forall>(p, v) \<in> set two_networks. length p \<le> length (addr_bits [0x80, 0, 0, 1])"
    by (simp add: two_networks_def)
  have "network_of two_networks (addr_bits [0x80, 0, 0, 1]) = Some (F_map [([0x6E], F_uint32 300)])" by code_simp
  moreover have "field_get (F_map [([0x6E], F_uint32 300)]) [''n''] = Inr (F_uint32 300)" by code_simp
  moreover have "fdepth (F_map [([0x6E], F_uint32 300)]) \<le> 4" by (simp add: fdepth.simps)
  ultimately show ?thesis
    using written_database_is_read_back[OF two_writable order_refl b p, of "[0x66]" 0 zero_mmdb None]
      lookup_tells_value[of 4 _ _ "F_map [([0x6E], F_uint32 300)]" "[''n'']" "F_uint32 300"]
    by (metis (no_types))
qed

end
