(* ===== verification/WrittenNetworks.thy ===== *)
theory WrittenNetworks
  imports DatabaseWriter
begin

text \<open>
  Conditions on a list of networks under which a database can be written for it, without looking at the bytes of the
  whole file.
\<close>

section \<open>No marker in front of the marker\<close>

fun marker_free :: "u8 list \<Rightarrow> bool" where
  "marker_free (a # b # bs) \<longleftrightarrow> \<not> (a = 0xAB \<and> b = 0xCD) \<and> marker_free (b # bs)"
| "marker_free _ \<longleftrightarrow> True"

lemma marker_free_nth: "marker_free bs \<Longrightarrow> Suc j < length bs \<Longrightarrow> bs ! j = 0xAB \<Longrightarrow> bs ! Suc j \<noteq> 0xCD"
proof (induction bs arbitrary: j rule: marker_free.induct)
  case (1 a b bs)
  then show ?case by (cases j) auto
qed simp_all

lemma marker_free_tl: "marker_free (a # bs) \<Longrightarrow> marker_free bs"
  by (cases bs) simp_all

lemma marker_free_append: "marker_free xs \<Longrightarrow> marker_free ys \<Longrightarrow> ys = [] \<or> hd ys \<noteq> 0xCD \<Longrightarrow> marker_free (xs @ ys)"
  by (induction xs rule: marker_free.induct) (cases ys; simp)+

lemma marker_free_zeros: "marker_free ys \<Longrightarrow> marker_free (replicate n 0 @ ys)"
proof (induction n)
  case (Suc n)
  then show ?case by (cases "replicate n 0 @ ys") simp_all
qed simp

lemma occurs_nth: "occurs pat xs j \<Longrightarrow> k < length pat \<Longrightarrow> xs ! (j + k) = pat ! k"
proof -
  assume o: "occurs pat xs j" and k: "k < length pat"
  then have t: "take (length pat) (drop j xs) = pat" by (simp add: occurs_def)
  then have "length pat \<le> length xs - j" using length_take[of "length pat" "drop j xs"] by simp
  moreover have "take (length pat) (drop j xs) ! k = pat ! k" by (simp only: t)
  ultimately show ?thesis using k by simp
qed

lemma marker_behind:
  assumes "marker_free pre" "length pre + length METADATA_MARKER + length rest \<le> METADATA_BLOCK_MAX_SIZE"
  shows "metadata_start (pre @ METADATA_MARKER @ rest) = Some (length pre + length METADATA_MARKER)"
proof -
  let ?xs = "pre @ METADATA_MARKER @ rest"
  have m: "METADATA_MARKER ! 0 = 0xAB" "METADATA_MARKER ! 1 = 0xCD" "1 < length METADATA_MARKER" "METADATA_MARKER \<noteq> []"
    by (simp_all add: METADATA_MARKER_def)
  have "\<not> occurs METADATA_MARKER ?xs j" if j: "j < length pre" for j
  proof
    assume o: "occurs METADATA_MARKER ?xs j"
    have "?xs ! j = 0xAB" "?xs ! Suc j = 0xCD"
      using occurs_nth[OF o, of 0] occurs_nth[OF o, of 1] m by simp_all
    then show False
      using marker_free_nth[OF assms(1), of j] j m(1,4) by (cases "Suc j = length pre") (auto simp: nth_append)
  qed
  moreover have "occurs METADATA_MARKER ?xs (length pre)" by (simp add: occurs_def)
  ultimately have "first_occurrence METADATA_MARKER ?xs = Some (length pre)"
    by (auto simp: first_occurrence_def find_Some_iff nth_append intro!: exI[of _ "length pre"] simp del: upt_Suc)
  moreover have "last_block ?xs = ?xs" using assms(2) by (simp add: last_block_def)
  ultimately show ?thesis using assms(2) by (simp add: metadata_start_def)
qed

text \<open>Nodes with small records.\<close>

lemma small_bytes:
  assumes "n < 0xAB00"
  shows "be_bytes 3 n = [0, word_of_nat (n div 256), word_of_nat (n mod 256)]"
    "be_bytes 4 n = [0, 0, word_of_nat (n div 256), word_of_nat (n mod 256)]"
    "word_of_nat (n div 256) \<noteq> (0xAB :: u8)"
proof -
  have "unat (word_of_nat (n div 256) :: u8) = n div 256" using assms by (intro unat_word_of_nat) simp
  moreover have "n div 256 < unat (0xAB :: u8)" using assms by simp
  ultimately show "word_of_nat (n div 256) \<noteq> (0xAB :: u8)" by (metis less_irrefl)
  have "n mod 65536 = n" "n mod 16777216 = n" "n div 65536 = 0" "n div 16777216 = 0" using assms by simp_all
  then show "be_bytes 3 n = [0, word_of_nat (n div 256), word_of_nat (n mod 256)]"
    "be_bytes 4 n = [0, 0, word_of_nat (n div 256), word_of_nat (n mod 256)]"
    by (simp_all add: be_bytes_few)
qed

lemma node_marker_free:
  assumes "l < 0xAB00" "r < 0xAB00" "marker_free (0 # zs)"
  shows "marker_free (node_bytes sz l r @ 0 # zs) \<and> hd (node_bytes sz l r) = 0 \<and> node_bytes sz l r \<noteq> []"
proof -
  have "l mod 2 ^ 24 = l" "r mod 2 ^ 24 = r" "l div 2 ^ 24 = 0" "r div 2 ^ 24 = 0" using assms by simp_all
  then show ?thesis
    using assms(3) small_bytes[OF assms(1)] small_bytes[OF assms(2)] by (simp add: node_bytes_def)
qed

lemma tree_marker_free:
  "\<forall>(l, r) \<in> set ns. l < 0xAB00 \<and> r < 0xAB00 \<Longrightarrow> marker_free (0 # zs) \<Longrightarrow> marker_free (written_tree sz ns @ 0 # zs)"
proof (induction ns)
  case (Cons n ns)
  obtain l r where n: "n = (l, r)" by force
  have "hd (written_tree sz ns @ 0 # zs) = 0"
    using Cons.prems node_marker_free by (cases ns) (auto simp: written_tree_def)
  then obtain ys where ys: "written_tree sz ns @ 0 # zs = 0 # ys" by (cases "written_tree sz ns @ 0 # zs") auto
  then have "written_tree sz (n # ns) @ 0 # zs = node_bytes sz l r @ 0 # ys" by (simp add: written_tree_def n)
  then show ?case using Cons node_marker_free[of l r ys sz] ys by (auto simp: n)
qed (simp add: written_tree_def)

section \<open>How long the file is\<close>

fun field_room :: "field \<Rightarrow> nat" where
  "field_room (F_string s) = 5 + length s"
| "field_room (F_double w) = 13"
| "field_room (F_bytes s) = 5 + length s"
| "field_room (F_uint16 w) = 7"
| "field_room (F_uint32 w) = 9"
| "field_room (F_map kvs) = 5 + sum_list (map (\<lambda>(k, v). 5 + length k + field_room v) kvs)"
| "field_room (F_int32 w) = 9"
| "field_room (F_uint64 w) = 13"
| "field_room (F_uint128 w) = 21"
| "field_room (F_array vs) = 5 + sum_list (map field_room vs)"
| "field_room (F_boolean b) = 5"
| "field_room (F_float w) = 9"

lemma scalar_room: "length bs \<le> n - 5 \<Longrightarrow> 5 \<le> n \<Longrightarrow> length (scalar_bytes ty bs) \<le> n"
  using scalar_bytes_length[of ty bs] by linarith

lemma concat_room: "\<forall>x \<in> set xs. length (f x) \<le> g x \<Longrightarrow> length (concat (map f xs)) \<le> sum_list (map g xs)"
  by (induction xs) (auto intro: add_mono)

lemma field_bytes_room: "length (field_bytes v) \<le> field_room v"
proof (induction v rule: field_room.induct)
  case (6 kvs)
  have "length (scalar_bytes 2 k @ field_bytes v) \<le> 5 + length k + field_room v" if "(k, v) \<in> set kvs" for k v
    using 6[OF that] scalar_bytes_length[of 2 k] by simp
  then have "length (concat (map (\<lambda>(k, v). scalar_bytes 2 k @ field_bytes v) kvs))
      \<le> sum_list (map (\<lambda>(k, v). 5 + length k + field_room v) kvs)"
    by (intro concat_room) auto
  then show ?case using ctrl_bytes_length[of 7 "length kvs"] by simp
next
  case (10 vs)
  then have "length (concat (map field_bytes vs)) \<le> sum_list (map field_room vs)" by (intro concat_room) auto
  then show ?case using ctrl_bytes_length[of 11 "length vs"] by simp
qed (simp_all only: field_bytes.simps field_room.simps ctrl_bytes_length,
  (rule scalar_room; simp add: order_trans[OF length_short_bytes])+)

section \<open>Networks apart from each other\<close>

text \<open>The bits lead to a place of the tree where nothing is.\<close>

fun vacant :: "net_tree \<Rightarrow> bool list \<Rightarrow> bool" where
  "vacant Unknown p \<longleftrightarrow> True"
| "vacant (Known v) p \<longleftrightarrow> False"
| "vacant (Fork l r) [] \<longleftrightarrow> False"
| "vacant (Fork l r) (b # p) \<longleftrightarrow> vacant (if b then r else l) p"

lemma vacant_insert:
  "vacant t q \<Longrightarrow> \<not> prefix p q \<Longrightarrow> \<not> prefix q p \<Longrightarrow> vacant (net_insert p v t) q"
proof (induction p v t arbitrary: q rule: net_insert.induct)
  case (2 b p v t)
  then obtain c q' where q: "q = c # q'" by (cases q) auto
  show ?case
    using 2(1,2)[OF refl, of _ _ q'] 2(3-5) by (cases t; cases b; cases c) (auto simp: q Let_def)
qed simp

lemma insert_vacant:
  assumes "vacant t p"
  shows "net_nodes (net_insert p v t) \<le> net_nodes t + length p"
    "length (net_data (net_insert p v t)) = length (net_data t) + length (field_bytes v)"
  using assms
proof (induction p v t rule: net_insert.induct)
  case (2 b p v t)
  { case 1 then show ?case using 2 by (cases t; cases b) (auto simp: Let_def le_SucI) }
  { case 2 then show ?case using "2.IH" by (cases t; cases b) (auto simp: Let_def) }
qed (auto elim: vacant.elims)

lemma insert_values: "net_values (net_insert p v t) \<subseteq> insert v (net_values t)"
proof (induction p v t rule: net_insert.induct)
  case (2 b p v t)
  then show ?case by (cases t; cases b) (fastforce simp: Let_def)+
qed simp

text \<open>Networks with values, none of which is inside another, and what is asked of them.\<close>

fun apart :: "(bool list \<times> field) list \<Rightarrow> bool" where
  "apart [] \<longleftrightarrow> True"
| "apart ((p, v) # nets) \<longleftrightarrow> (\<forall>(q, w) \<in> set nets. \<not> prefix p q \<and> \<not> prefix q p) \<and> apart nets"

definition value_fits :: "field \<Rightarrow> bool" where
  "value_fits v \<longleftrightarrow> writable v \<and> marker_free (field_bytes v) \<and> field_bytes v \<noteq> [] \<and> hd (field_bytes v) \<noteq> 0xCD"

definition networks_fit :: "file_metadata \<Rightarrow> (bool list \<times> field) list \<Rightarrow> bool" where
  "networks_fit fm nets \<longleftrightarrow> metadata_valid (fm\<lparr>fm_node_count := 1\<rparr>) \<and> writable (F_map (metadata_map fm))
     \<and> nets \<noteq> [] \<and> apart nets \<and> (\<forall>(p, v) \<in> set nets. p \<noteq> [] \<and> value_fits v)
     \<and> 8 * sum_list (map (\<lambda>(p, v). length p) nets) + sum_list (map (\<lambda>(p, v). field_room v) nets)
         + field_room (F_map (metadata_map fm)) < 40000"

lemma vacant_networks:
  "\<forall>(q, w) \<in> set nets. \<not> prefix p q \<and> \<not> prefix q p \<Longrightarrow> vacant (network_tree nets) p"
  by (induction nets) (auto intro: vacant_insert)

lemma apart_sizes:
  "apart nets \<Longrightarrow> net_nodes (network_tree nets) \<le> sum_list (map (\<lambda>(p, v). length p) nets)
    \<and> length (net_data (network_tree nets)) \<le> sum_list (map (\<lambda>(p, v). field_room v) nets)"
proof (induction nets)
  case (Cons net nets)
  obtain p v where n: "net = (p, v)" by force
  then have "vacant (network_tree nets) p" using Cons.prems by (auto intro: vacant_networks)
  from insert_vacant[OF this, of v] show ?case using Cons field_bytes_room[of v] by (simp add: n)
qed simp

lemma networks_values: "net_values (network_tree nets) \<subseteq> snd ` set nets"
proof (induction nets)
  case (Cons net nets)
  obtain p v where "net = (p, v)" by force
  with Cons insert_values[of p v "network_tree nets"] show ?case by auto
qed simp

lemma data_marker_free:
  "\<forall>v \<in> net_values t. value_fits v \<Longrightarrow> marker_free (net_data t) \<and> (net_data t = [] \<or> hd (net_data t) \<noteq> 0xCD)"
  by (induction t) (auto simp: value_fits_def hd_append intro: marker_free_append)

lemma network_tree_nodes: "p \<noteq> [] \<Longrightarrow> 0 < net_nodes (net_insert p v t)"
  by (cases p; cases t) (auto simp: Let_def)

lemma metadata_counted_room: "field_room (F_map (metadata_map (counted fm t))) = field_room (F_map (metadata_map fm))"
  by (simp add: metadata_map_def counted_def)

lemma networks_fit_writable:
  assumes "networks_fit fm nets"
  shows "database_writable fm (network_tree nets)"
    "length (database_bytes fm (network_tree nets)) < 43000" "0 < length (database_bytes fm (network_tree nets))"
proof -
  let ?t = "network_tree nets" and ?n = "sum_list (map (\<lambda>(p, v). length p) nets)"
    and ?d = "sum_list (map (\<lambda>(p, v). field_room v) nets)" and ?m = "field_room (F_map (metadata_map fm))"
  have f: "metadata_valid (fm\<lparr>fm_node_count := 1\<rparr>)" "writable (F_map (metadata_map fm))" "nets \<noteq> []" "apart nets"
    "\<forall>(p, v) \<in> set nets. p \<noteq> [] \<and> value_fits v" "8 * ?n + ?d + ?m < 40000"
    using assms by (simp_all add: networks_fit_def)
  have s: "net_nodes ?t \<le> ?n" "length (net_data ?t) \<le> ?d" using apart_sizes[OF f(4)] by simp_all
  have m: "length (field_bytes (F_map (metadata_map (counted fm ?t)))) \<le> ?m"
    using field_bytes_room[of "F_map (metadata_map (counted fm ?t))"] by (simp only: metadata_counted_room)
  have "net_nodes ?t * written_size fm \<le> ?n * 8" by (rule mult_le_mono[OF s(1)]) (simp add: written_size_def)
  then have fr: "length (front_part fm ?t) \<le> 8 * ?n + 16 + ?d" using s by (simp add: front_part_def)
  then show l: "length (database_bytes fm ?t) < 43000" "0 < length (database_bytes fm ?t)"
    using m f(6) by (simp_all add: database_bytes_def METADATA_MARKER_def)
  have v: "\<forall>v \<in> net_values ?t. value_fits v" using networks_values[of nets] f(5) by fastforce
  have "\<forall>(a, b) \<in> set (net_list (net_nodes ?t) 0 0 ?t). a < 0xAB00 \<and> b < 0xAB00"
    using net_list_records[of 0 ?t "net_nodes ?t" _ _ 0] s f(6) by fastforce
  moreover have z: "replicate 16 (0 :: u8) = 0 # replicate 15 0" by (simp flip: replicate_Suc)
  moreover have "marker_free (0 # replicate 15 0 @ net_data ?t)"
    using marker_free_zeros[OF conjunct1[OF data_marker_free[OF v]], of 16] by (simp only: z append_Cons)
  ultimately have "marker_free (front_part fm ?t)"
    using tree_marker_free[of "net_list (net_nodes ?t) 0 0 ?t" "replicate 15 0 @ net_data ?t" "written_size fm"]
    by (simp only: front_part_def tree_part_def append_Cons)
  then have start: "metadata_start (database_bytes fm ?t) = Some (length (front_part fm ?t) + length METADATA_MARKER)"
    unfolding database_bytes_def by (rule marker_behind) (use fr m f(6) in \<open>simp add: METADATA_BLOCK_MAX_SIZE_def METADATA_MARKER_def\<close>)
  have "0 < net_nodes ?t" using f(3,5) by (cases nets) (auto intro: network_tree_nodes)
  moreover have "unat (word_of_nat (net_nodes ?t) :: u32) = net_nodes ?t" using s f(6) by (intro unat_u32) simp
  ultimately have "word_of_nat (net_nodes ?t) \<noteq> (0 :: u32)" by (metis less_irrefl unat_0)
  then have "metadata_valid (counted fm ?t)" using f(1) by (simp add: metadata_valid_def counted_def)
  moreover have "net_nodes ?t + 16 + length (net_data ?t) < 2 ^ 24" using s f(6) by simp
  then have "net_nodes ?t + 16 + length (net_data ?t) < 2 ^ (4 * written_size fm)"
    by (rule less_le_trans) (simp add: written_size_def)
  ultimately show "database_writable fm ?t"
    using f(2) v l(1) start by (simp add: database_writable_def value_fits_def)
qed

end
