(* ===== verification/BindingEndToEnd.thy ===== *)
theory BindingEndToEnd
  imports BindingTheorems WrittenDatabase WrittenNetworks
begin

text \<open>
  A session with the Node.js binding, from the bytes of the files: loading the databases, looking an address up and
  unloading them.
\<close>

lemma file_answers:
  assumes f: "file_shows (nesting env) (files env name) name sa v" and nest: "4 \<le> nesting env"
    and m: "open_malloc env = (\<lambda>_. True)" and r: "resolve_any_address (resolver env) ip = (0, Some sa)"
  shows "\<exists>h db'. (\<forall>db. loadMMDB env name db = Done ([], [], h)) \<and> answers env ip h db' v"
proof -
  obtain h res start e' where op: "\<forall>db. MMDB_open (\<lambda>_. True) (files env name) (nesting env) name MMDB_MODE_MMAP db
      = Done (MMDB_SUCCESS, [], h)"
    and look: "MMDB_lookup_sockaddr h sa None = Done (res, Some MMDB_SUCCESS, h\<lparr>ipv4_start_node := start\<rparr>)" "found_entry res"
    and h: "\<not> (ip_version (metadata h) = 4 \<and> family sa = AF_INET6)" "opened (files env name) h" "data_ok h"
    and "stored (data_section h) [0, 0]" and at: "field_at (data_section h) (unat (entry_offset (entry res))) v e'"
    using file_lookup[OF f nest] .
  have "filename h \<noteq> Null" using h(2) by (simp add: opened_def Let_def)
  moreover have "ask env ip h = Done (Inr res, h\<lparr>ipv4_start_node := start\<rparr>)"
    using r look(1) h(1) by (simp add: ask_def MMDB_lookup_string_def)
  moreover have "entry_holds (h\<lparr>ipv4_start_node := start\<rparr>) res v" using h(3) at by (auto simp: entry_holds_def)
  moreover have "fdepth v \<le> nesting env" using f by (simp add: file_shows_def)
  ultimately have "answers env ip h (h\<lparr>ipv4_start_node := start\<rparr>) v" using look(2) by (auto simp: answers_def)
  moreover have "loadMMDB env name db = Done ([], [], h)" for db using op m by (simp add: loadMMDB_open)
  ultimately show ?thesis by blast
qed

abbreviation loaded_keys :: "string set" where
  "loaded_keys \<equiv> {LOOKUP_KEY_CITY, LOOKUP_KEY_ISP, LOOKUP_KEY_NETSPEED, LOOKUP_KEY_ANONYMOUS}"

lemma load_key_opens:
  "0 \<notin> set name \<Longrightarrow> \<forall>db. loadMMDB env name db = Done ([], [], h) \<Longrightarrow>
    load_key env (Some name) key db st = Done (st(key \<mapsto> JS_string []), h)"
proof -
  assume n: "0 \<notin> set name" and l: "\<forall>db. loadMMDB env name db = Done ([], [], h)"
  have "takeWhile (\<lambda>c. c \<noteq> 0) name = name" using n by (auto simp: takeWhile_eq_all_conv)
  with l show ?thesis unfolding load_key_def option.case by (simp del: takeWhile_eq_all_conv)
qed

text \<open>
  C2: A session from files to objects: let four files hold databases in the format in which an address, of
  whatever family, leads to four values, let no allocation fail, and let each member that is asked for and is there have the
  type that its macro in \<open>binding.cpp\<close> reads (a string, an unsigned number of 16 or 32 bits, a boolean or a
  double). Then \<open>load\<close> of these files on the unused binding opens them
  and reports the empty text for each; \<open>lookupIp\<close> of the address returns, for each of the five parts, an object with exactly the
  members that its mask asks for, each with the value that its path has in the value of its file, or with the default text when the
  path leads to nothing there; and \<open>unload\<close> closes all of the files. A value is reported as the code makes it: strings and doubles as they are,
  booleans as 0 or 1, and of a number of 32 bits, such as that of an autonomous system, the low 16 bits only.
\<close>
theorem session_reports_what_the_files_hold:
  assumes files: "\<forall>key \<in> loaded_keys. 0 \<notin> set (name key)
      \<and> file_shows (nesting env) (files env (name key)) (name key) sa (v key)"
    and addr: "resolve_any_address (resolver env) ip = (0, Some sa)" "CHR 0x00 \<notin> set ip"
    and env: "open_malloc env = (\<lambda>_. True)" "\<forall>k. path_malloc env k" "4 \<le> nesting env"
    and fit: "fitting (v LOOKUP_KEY_CITY) (masks LOOKUP_KEY_COUNTRY) country_blocks"
      "fitting (v LOOKUP_KEY_CITY) (masks LOOKUP_KEY_CITY) city_blocks"
      "fitting (v LOOKUP_KEY_ISP) (masks LOOKUP_KEY_ISP) isp_blocks"
      "fitting (v LOOKUP_KEY_NETSPEED) (masks LOOKUP_KEY_NETSPEED) netspeed_blocks"
      "fitting (v LOOKUP_KEY_ANONYMOUS) (masks LOOKUP_KEY_ANONYMOUS) anonymous_blocks"
  shows "\<exists>s s' rs s''.
    loadDb env no_databases (Some (\<lambda>key. if key \<in> loaded_keys then Some (name key) else None))
      = Done (Inr (\<lambda>key. if key \<in> loaded_keys then Some (JS_string []) else None), s)
    \<and> lookupIp env s (Some ip) (Some (\<lambda>key. Some (masks key))) = Done (Inr
        [LOOKUP_KEY_COUNTRY \<mapsto> report_of (v LOOKUP_KEY_CITY) (masks LOOKUP_KEY_COUNTRY) country_blocks,
         LOOKUP_KEY_CITY \<mapsto> report_of (v LOOKUP_KEY_CITY) (masks LOOKUP_KEY_CITY) city_blocks,
         LOOKUP_KEY_ISP \<mapsto> report_of (v LOOKUP_KEY_ISP) (masks LOOKUP_KEY_ISP) isp_blocks,
         LOOKUP_KEY_NETSPEED \<mapsto> report_of (v LOOKUP_KEY_NETSPEED) (masks LOOKUP_KEY_NETSPEED) netspeed_blocks,
         LOOKUP_KEY_ANONYMOUS \<mapsto> report_of (v LOOKUP_KEY_ANONYMOUS) (masks LOOKUP_KEY_ANONYMOUS) anonymous_blocks], s')
    \<and> unload s' = Done (rs, s'')
    \<and> (\<forall>db \<in> {mmdbCountry s'', mmdbCity s'', mmdbIsp s'', mmdbNetspeed s'', mmdbAnonymous s''}. filename db = Null)"
proof -
  have a: "\<exists>h db'. (\<forall>db. loadMMDB env (name key) db = Done ([], [], h)) \<and> answers env ip h db' (v key)"
    if "key \<in> loaded_keys" for key
    using file_answers[OF _ env(3,1) addr(1)] files that by blast
  obtain h1 d1 where 1: "\<forall>db. loadMMDB env (name LOOKUP_KEY_CITY) db = Done ([], [], h1)"
      "answers env ip h1 d1 (v LOOKUP_KEY_CITY)" using a[of LOOKUP_KEY_CITY] by blast
  obtain h2 d2 where 2: "\<forall>db. loadMMDB env (name LOOKUP_KEY_ISP) db = Done ([], [], h2)"
      "answers env ip h2 d2 (v LOOKUP_KEY_ISP)" using a[of LOOKUP_KEY_ISP] by blast
  obtain h3 d3 where 3: "\<forall>db. loadMMDB env (name LOOKUP_KEY_NETSPEED) db = Done ([], [], h3)"
      "answers env ip h3 d3 (v LOOKUP_KEY_NETSPEED)" using a[of LOOKUP_KEY_NETSPEED] by blast
  obtain h4 d4 where 4: "\<forall>db. loadMMDB env (name LOOKUP_KEY_ANONYMOUS) db = Done ([], [], h4)"
      "answers env ip h4 d4 (v LOOKUP_KEY_ANONYMOUS)" using a[of LOOKUP_KEY_ANONYMOUS] by blast
  have n: "0 \<notin> set (name LOOKUP_KEY_CITY)" "0 \<notin> set (name LOOKUP_KEY_ISP)" "0 \<notin> set (name LOOKUP_KEY_NETSPEED)"
    "0 \<notin> set (name LOOKUP_KEY_ANONYMOUS)" using files by simp_all
  note opens = load_key_opens[OF n(1) 1(1)] load_key_opens[OF n(2) 2(1)] load_key_opens[OF n(3) 3(1)] load_key_opens[OF n(4) 4(1)]
  let ?opts = "\<lambda>key. if key \<in> loaded_keys then Some (name key) else None"
  let ?stats = "[LOOKUP_KEY_CITY \<mapsto> JS_string [], LOOKUP_KEY_ISP \<mapsto> JS_string [], LOOKUP_KEY_NETSPEED \<mapsto> JS_string [],
    LOOKUP_KEY_ANONYMOUS \<mapsto> JS_string []]"
  let ?s = "\<lparr>mmdbCountry = zero_mmdb, mmdbCity = h1, mmdbIsp = h2, mmdbNetspeed = h3, mmdbAnonymous = h4\<rparr>"
  have c: "LOOKUP_KEY_COUNTRY \<notin> loaded_keys" by (simp add: binding_constants)
  have load: "loadDb env no_databases (Some ?opts) = Done (Inr ?stats, ?s)"
    using c by (simp add: loadDb_def opens load_key_def[of _ None] no_databases_def)
  have stats: "?stats = (\<lambda>key. if key \<in> loaded_keys then Some (JS_string []) else None)" by (auto simp: fun_eq_iff)
  let ?s' = "?s\<lparr>mmdbCity := d1, mmdbIsp := d2, mmdbNetspeed := d3, mmdbAnonymous := d4\<rparr>"
  have look: "lookupIp env ?s (Some ip) (Some (\<lambda>key. Some (masks key))) = Done (Inr
        [LOOKUP_KEY_COUNTRY \<mapsto> report_of (v LOOKUP_KEY_CITY) (masks LOOKUP_KEY_COUNTRY) country_blocks,
         LOOKUP_KEY_CITY \<mapsto> report_of (v LOOKUP_KEY_CITY) (masks LOOKUP_KEY_CITY) city_blocks,
         LOOKUP_KEY_ISP \<mapsto> report_of (v LOOKUP_KEY_ISP) (masks LOOKUP_KEY_ISP) isp_blocks,
         LOOKUP_KEY_NETSPEED \<mapsto> report_of (v LOOKUP_KEY_NETSPEED) (masks LOOKUP_KEY_NETSPEED) netspeed_blocks,
         LOOKUP_KEY_ANONYMOUS \<mapsto> report_of (v LOOKUP_KEY_ANONYMOUS) (masks LOOKUP_KEY_ANONYMOUS) anonymous_blocks], ?s')"
    by (rule lookupIp_report[OF addr(2) env(2)]) (use 1 2 3 4 fit in simp_all)
  have "databases_closable ?s'"
    using lookupIp_closable[OF _ look] postD[OF loadDb_closable load] reachable_closable[OF reach_start] by simp
  note u = unload_closable[OF this]
  show ?thesis
    by (intro exI conjI) (rule load[unfolded stats], rule look, rule u, simp)
qed

section \<open>A session with four written databases\<close>

text \<open>
  Four files, each written for one network, 0.0.0.0/1, with a value that has members the binding asks for. The number of the
  autonomous system is 70000, of which the binding reports the low 16 bits.
\<close>

definition session_name :: "string \<Rightarrow> u8 list" where
  "session_name key = c_bytes key"

definition session_value :: "string \<Rightarrow> field" where
  "session_value key =
     (if key = LOOKUP_KEY_CITY then
        F_map [(c_bytes ''country'', F_map [(c_bytes ''iso_code'', F_string [0x44, 0x45])]),
               (c_bytes ''postal'', F_map [(c_bytes ''code'', F_string [0x31, 0x32])])]
      else if key = LOOKUP_KEY_ISP then F_map [(c_bytes ''autonomous_system_number'', F_uint32 70000)]
      else if key = LOOKUP_KEY_NETSPEED then F_map [(c_bytes ''connection_type'', F_string [0x44, 0x53, 0x4C])]
      else F_map [(c_bytes ''is_anonymous'', F_boolean True)])"

definition session_env :: surroundings where
  "session_env = small_env\<lparr>files := \<lambda>path.
     case List.find (\<lambda>key. session_name key = path)
       [LOOKUP_KEY_CITY, LOOKUP_KEY_ISP, LOOKUP_KEY_NETSPEED, LOOKUP_KEY_ANONYMOUS] of
       None \<Rightarrow> small_file | Some key \<Rightarrow> database_file two_metadata (network_tree [([False], session_value key)])\<rparr>"

lemma session_value_fits: "key \<in> loaded_keys \<Longrightarrow> value_fits (session_value key) \<and> field_room (session_value key) \<le> 100"
  by (auto simp: binding_constants session_value_def value_fits_def scalar_bytes_def ctrl_bytes_def be_bytes_few c_bytes_def)

lemma session_files:
  assumes k: "key \<in> loaded_keys"
  shows "files session_env (session_name key) = database_file two_metadata (network_tree [([False], session_value key)])"
    "0 \<notin> set (session_name key)"
  using k by (auto simp: binding_constants session_env_def session_name_def c_bytes_def)

lemma session_file_shows:
  assumes k: "key \<in> loaded_keys"
  shows "file_shows (nesting session_env) (files session_env (session_name key)) (session_name key) (ipv4 [64, 0, 0, 0]) (session_value key)"
proof -
  have "networks_fit two_metadata [([False], session_value key)]"
    using session_value_fits[OF k]
    by (simp add: networks_fit_def metadata_valid_def metadata_map_def two_metadata_def) (simp add: c_bytes_def)
  note w = networks_fit_writable(1)[OF this]
  have b: "asked_bits (fm_ip_version two_metadata) (ipv4 [64, 0, 0, 0]) = Some (addr_bits [64, 0, 0, 0])"
    by (simp add: asked_bits_def two_metadata_def ipv4_def)
  obtain bs where "addr_bits [64, 0, 0, 0] = False # bs" by (simp add: addr_bits_def byte_bits_def upt_rec)
  then have "net_find (network_tree [([False], session_value key)]) (addr_bits [64, 0, 0, 0]) = Some (session_value key)"
    by simp
  moreover have "net_depth (network_tree [([False], session_value key)]) \<le> length (addr_bits [64, 0, 0, 0])" by simp
  moreover have "fdepth (session_value key) \<le> 4" by (simp add: session_value_def fdepth.simps)
  moreover have "nesting session_env = 4" by (simp add: session_env_def small_env_def)
  ultimately show ?thesis
    unfolding session_files(1)[OF k] using written_file_shows(1)[OF w _ b] by simp
qed

lemma session_reports:
  "report_of (session_value LOOKUP_KEY_CITY) 1 country_blocks = [''countryCode'' \<mapsto> JS_string [0x44, 0x45]]"
  "report_of (session_value LOOKUP_KEY_CITY) 3 city_blocks = [''cityZip'' \<mapsto> JS_string [0x31, 0x32], ''cityName'' \<mapsto> default_val]"
  "report_of (session_value LOOKUP_KEY_ISP) 1 isp_blocks = [''ispCode'' \<mapsto> JS_int 4464]"
  "report_of (session_value LOOKUP_KEY_NETSPEED) 1 netspeed_blocks = [''connection_type'' \<mapsto> JS_string [0x44, 0x53, 0x4C]]"
  "report_of (session_value LOOKUP_KEY_ANONYMOUS) 1 anonymous_blocks = [''is_anonymous'' \<mapsto> JS_int 1]"
  by (simp_all add: session_value_def report_of_def country_blocks_def city_blocks_def isp_blocks_def netspeed_blocks_def
      anonymous_blocks_def binding_constants reported_def c_bytes_def)

definition session_masks :: "string \<Rightarrow> u32" where
  "session_masks key = (if key = LOOKUP_KEY_CITY then 3 else 1)"

lemma session_fitting:
  "fitting (session_value LOOKUP_KEY_CITY) 1 country_blocks" "fitting (session_value LOOKUP_KEY_CITY) 3 city_blocks"
  "fitting (session_value LOOKUP_KEY_ISP) 1 isp_blocks" "fitting (session_value LOOKUP_KEY_NETSPEED) 1 netspeed_blocks"
  "fitting (session_value LOOKUP_KEY_ANONYMOUS) 1 anonymous_blocks"
  by (simp_all add: session_value_def fitting_def country_blocks_def city_blocks_def isp_blocks_def netspeed_blocks_def
      anonymous_blocks_def binding_constants reported_def c_bytes_def)

theorem session_reports_what_the_files_hold_witness:
  "\<exists>stats s obj s' rs s''.
    loadDb session_env no_databases (Some (\<lambda>key. if key \<in> loaded_keys then Some (session_name key) else None)) = Done (Inr stats, s)
    \<and> stats LOOKUP_KEY_CITY = Some (JS_string [])
    \<and> lookupIp session_env s (Some ''64.0.0.0'') (Some (\<lambda>key. Some (session_masks key))) = Done (Inr obj, s')
    \<and> obj = [LOOKUP_KEY_COUNTRY \<mapsto> [''countryCode'' \<mapsto> JS_string [0x44, 0x45]],
        LOOKUP_KEY_CITY \<mapsto> [''cityZip'' \<mapsto> JS_string [0x31, 0x32], ''cityName'' \<mapsto> default_val],
        LOOKUP_KEY_ISP \<mapsto> [''ispCode'' \<mapsto> JS_int 4464],
        LOOKUP_KEY_NETSPEED \<mapsto> [''connection_type'' \<mapsto> JS_string [0x44, 0x53, 0x4C]],
        LOOKUP_KEY_ANONYMOUS \<mapsto> [''is_anonymous'' \<mapsto> JS_int 1]]
    \<and> unload s' = Done (rs, s'')"
proof -
  have g: "resolve_any_address (resolver session_env) ''64.0.0.0'' = (0, Some (ipv4 [64, 0, 0, 0]))"
    by (simp add: resolve_any_address_def example_gai_def small_env_def session_env_def)
  have f: "\<forall>key \<in> loaded_keys. 0 \<notin> set (session_name key)
      \<and> file_shows (nesting session_env) (files session_env (session_name key)) (session_name key) (ipv4 [64, 0, 0, 0]) (session_value key)"
    using session_file_shows session_files(2) by blast
  have m: "session_masks LOOKUP_KEY_COUNTRY = 1" "session_masks LOOKUP_KEY_CITY = 3" "session_masks LOOKUP_KEY_ISP = 1"
    "session_masks LOOKUP_KEY_NETSPEED = 1" "session_masks LOOKUP_KEY_ANONYMOUS = 1"
    by (simp_all add: session_masks_def binding_constants)
  have e: "open_malloc session_env = (\<lambda>_. True)" "\<forall>k. path_malloc session_env k" "4 \<le> nesting session_env"
    "CHR 0x00 \<notin> set ''64.0.0.0''" by (simp_all add: small_env_def session_env_def)
  note t = session_reports_what_the_files_hold[where masks = session_masks, OF f g e(4,1-3), unfolded m session_reports,
      OF session_fitting]
  then show ?thesis by (elim exE conjE) (intro exI conjI, assumption, simp, assumption, rule refl, assumption)
qed

end
