(* ===== verification/Mmdblookup.thy ===== *)
theory Mmdblookup
  imports Dump SearchTree Handle
begin

text \<open>
  The program \<^verbatim>\<open>libmaxminddb/bin/mmdblookup.c\<close>: options, opening, lookup, printing and the exit code.
  What it prints is a result; the operating system's answers are an argument.
\<close>

section \<open>Output, exits and surroundings\<close>

datatype printed = To_stdout "u8 list" | To_stderr "u8 list"

text \<open>A part of the program exits with a code or goes on, and has printed something.\<close>

type_synonym 'a part = "((int + 'a) \<times> printed list) run"

definition bind_part :: "'a part \<Rightarrow> ('a \<Rightarrow> 'b part) \<Rightarrow> 'b part" where
  "bind_part m f =
     bind_run m (\<lambda>(r, out). case r of
       Inl code \<Rightarrow> Done (Inl code, out)
     | Inr x \<Rightarrow> bind_run (f x) (\<lambda>(r', out'). Done (r', out @ out')))"

lemma bind_part_simps [simp]:
  "bind_part (Done (Inl code, out)) f = Done (Inl code, out)"
  "bind_part (Done (Inr x, out)) f = bind_run (f x) (\<lambda>(r, out'). Done (r, out @ out'))"
  "bind_part Fault f = Fault" "bind_part OutOfFuel f = OutOfFuel"
  by (simp_all add: bind_part_def)

text \<open>
  The name of the program as \<open>basename\<close> gives it, the \<open>VERSION\<close> of the build, files by name, \<open>getaddrinfo\<close>,
  the texts of \<open>gai_strerror\<close>, \<open>strerror (errno)\<close>, of \<open>strftime\<close> for an epoch and of the times of a benchmark;
  the calls of \<open>malloc\<close> and \<open>calloc\<close> that succeed, and the bound on recursions.
\<close>

record tool_env =
  program_name :: "u8 list"
  version_text :: "u8 list"
  files_of :: "u8 list \<Rightarrow> file_system"
  resolve :: getaddrinfo
  gai_text :: "int \<Rightarrow> u8 list"
  errno_text :: "u8 list"
  date_text :: "u64 \<Rightarrow> u8 list"
  times_text :: "int \<Rightarrow> u8 list"
  opening_malloc :: "alloc_site \<Rightarrow> bool"
  list_calloc :: "nat \<Rightarrow> bool"
  dump_malloc :: "nat \<Rightarrow> bool"
  nest_bound :: nat

section \<open>Options\<close>

text \<open>The lines of the help text.\<close>

definition usage_lines :: "u8 list \<Rightarrow> u8 list list" where
  "usage_lines program =
     [[], c_bytes ''  '' @ program @ c_bytes '' --file /path/to/file.mmdb --ip 1.2.3.4 [path to lookup]'',
      [],
      c_bytes ''  This application accepts the following options:'',
      [],
      c_bytes ''      --file (-f)     The path to the MMDB file. Required.'',
      [],
      c_bytes ''      --ip (-i)       The IP address to look up. Required.'',
      [],
      c_bytes ''      --verbose (-v)  Turns on verbose output. Specifically, this causes this'',
      c_bytes ''                      application to output the database metadata.'',
      [],
      c_bytes ''      --version       Print the program's version number and exit.'',
      [],
      c_bytes ''      --help (-h -?)  Show usage information.'',
      [],
      c_bytes ''  If an IP's data entry resolves to a map or array, you can provide'',
      c_bytes ''  a lookup path to only show part of that data.'',
      [],
      c_bytes ''  For example, given a JSON structure like this:'',
      [],
      c_bytes ''    {'',
      c_bytes ''        '' @ [quote_char] @ c_bytes ''names'' @ [quote_char] @ c_bytes '': {'',
      c_bytes ''             '' @ [quote_char] @ c_bytes ''en'' @ [quote_char] @ c_bytes '': '' @ [quote_char] @ c_bytes ''Germany'' @ [quote_char] @ c_bytes '','',
      c_bytes ''             '' @ [quote_char] @ c_bytes ''de'' @ [quote_char] @ c_bytes '': '' @ [quote_char] @ c_bytes ''Deutschland'' @ [quote_char],
      c_bytes ''        },'',
      c_bytes ''        '' @ [quote_char] @ c_bytes ''cities'' @ [quote_char] @ c_bytes '': [ '' @ [quote_char] @ c_bytes ''Berlin'' @ [quote_char] @ c_bytes '', '' @ [quote_char] @ c_bytes ''Frankfurt'' @ [quote_char] @ c_bytes '' ]'',
      c_bytes ''    }'',
      [],
      c_bytes ''  You could look up just the English name by calling mmdblookup with a lookup path of:'',
      [],
      c_bytes ''    mmdblookup --file ... --ip ... names en'',
      [],
      c_bytes ''  Or you could look up the second city in the list with:'',
      [],
      c_bytes ''    mmdblookup --file ... --ip ... cities 1'',
      [],
      c_bytes ''  Array numbering begins with zero (0).'',
      [],
      c_bytes ''  If you do not provide a path to lookup, all of the information for a given IP'',
      c_bytes ''  will be shown.'',
      []]"

definition print_lines :: "u8 list list \<Rightarrow> u8 list" where
  "print_lines ls = concat (map (\<lambda>l. l @ [newline]) ls)"

definition usage :: "tool_env \<Rightarrow> int \<Rightarrow> string option \<Rightarrow> 'a part" where
  "usage env exit_code err =
     Done (Inl exit_code,
       (case err of None \<Rightarrow> [] | Some msg \<Rightarrow> [To_stderr ([newline] @ c_bytes ''  *ERROR: '' @ c_bytes msg @ [newline])])
       @ [To_stdout (print_lines (usage_lines (program_name env)))])"

record options =
  mmdb_file :: "u8 list option"
  ip_address :: "string option"
  verbose :: bool
  iterations :: int
  help_wanted :: bool
  version_wanted :: bool

text \<open>
  The loop over what \<open>getopt_long\<close> returns: the character of an option with \<open>optarg\<close>. The long option
  \<^verbatim>\<open>--?\<close> has the code 1 and is passed over.
\<close>

fun option_loop :: "(char \<times> string) list \<Rightarrow> options \<Rightarrow> options" where
  "option_loop [] opts = opts"
| "option_loop ((opt_char, optarg) # rest) opts =
     option_loop rest
       (if opt_char = CHR ''f'' then opts\<lparr>mmdb_file := Some (c_bytes optarg)\<rparr>
        else if opt_char = CHR ''i'' then opts\<lparr>ip_address := Some optarg\<rparr>
        else if opt_char = CHR ''v'' then opts\<lparr>verbose := True\<rparr>
        else if opt_char = CHR ''n'' then opts\<lparr>version_wanted := True\<rparr>
        else if opt_char = CHR ''b'' then opts\<lparr>iterations := int_of_long (fst (strtol optarg))\<rparr>
        else if opt_char = CHR ''h'' \<or> opt_char = CHR ''?'' then opts\<lparr>help_wanted := True\<rparr>
        else opts)"

text \<open>The arguments behind the options are the lookup path.\<close>

definition get_options ::
  "tool_env \<Rightarrow> (char \<times> string) list \<Rightarrow> string list \<Rightarrow> (u8 list \<times> options \<times> string list) part" where
  "get_options env opt_chars args =
     (let opts = option_loop opt_chars
            \<lparr>mmdb_file = None, ip_address = None, verbose = False, iterations = 0, help_wanted = False, version_wanted = False\<rparr> in
      if help_wanted opts then usage env 0 None
      else if version_wanted opts then
        Done (Inl 0, [To_stdout ([newline] @ c_bytes ''  '' @ program_name env @ c_bytes '' version '' @ version_text env
          @ [newline, newline])])
      else case mmdb_file opts of None \<Rightarrow> usage env 1 (Some ''You must provide a filename with --file'')
      | Some fname \<Rightarrow>
        if ip_address opts = None \<and> iterations opts = 0 then
          usage env 1 (Some ''You must provide an IP address with --ip'')
        else Done (Inr (fname, opts, args), []))"

section \<open>Opening\<close>

text \<open>\<open>garbage\<close> is the local variable before it is passed to \<open>MMDB_open\<close>.\<close>

definition open_or_die :: "tool_env \<Rightarrow> MMDB_s \<Rightarrow> u8 list \<Rightarrow> MMDB_s part" where
  "open_or_die env garbage fname =
     bind_run (MMDB_open (opening_malloc env) (files_of env fname) (nest_bound env) fname MMDB_MODE_MMAP garbage)
       (\<lambda>(status, rs, mmdb).
     if status \<noteq> MMDB_SUCCESS then
       Done (Inl 2,
         [To_stderr ([newline] @ c_bytes ''  Can'' @ [0x27] @ c_bytes ''t open '' @ fname @ c_bytes '' - ''
            @ c_bytes (MMDB_strerror (status_code status)) @ [newline])]
         @ (if status = MMDB_IO_ERROR then [To_stderr (c_bytes ''    IO error: '' @ errno_text env @ [newline])] else [])
         @ [To_stderr [newline]])
     else Done (Inr mmdb, []))"

section \<open>Printing the metadata\<close>

text \<open>The names and descriptions, from the \<open>i\<close>-th on, \<open>n\<close> left.\<close>

fun print_languages :: "nat \<Rightarrow> nat \<Rightarrow> cptr list \<Rightarrow> u8 list run" where
  "print_languages i 0 names = Done []"
| "print_languages i (Suc n) names =
     (if i < length names then
        bind_run (print_string (names ! i)) (\<lambda>t.
        bind_run (print_languages (i + 1) n names) (\<lambda>ts. Done (t @ (if n \<noteq> 0 then c_bytes '' '' else []) @ ts)))
      else Fault)"

fun print_descriptions :: "nat \<Rightarrow> nat \<Rightarrow> MMDB_description_s option list \<Rightarrow> u8 list run" where
  "print_descriptions i 0 ds = Done []"
| "print_descriptions i (Suc n) ds =
     (if i < length ds then
        (case ds ! i of None \<Rightarrow> Fault
         | Some d \<Rightarrow>
           bind_run (print_string (language d)) (\<lambda>l.
           bind_run (print_string (description_text d)) (\<lambda>t.
           bind_run (print_descriptions (i + 1) n ds) (\<lambda>ts.
             Done (c_bytes ''      '' @ l @ c_bytes '':   '' @ t @ [newline] @ ts)))))
      else Fault)"

definition array_of :: "nat \<Rightarrow> 'a list option \<Rightarrow> 'a list run" where
  "array_of n a = (case a of None \<Rightarrow> if n = 0 then Done [] else Fault | Some xs \<Rightarrow> Done xs)"

text \<open>\<open>%i\<close> prints \<open>node_count\<close> as a signed number.\<close>

definition dump_meta :: "tool_env \<Rightarrow> MMDB_s \<Rightarrow> unit part" where
  "dump_meta env mmdb =
     (let md = metadata mmdb in
      bind_run (print_string (database_type md)) (\<lambda>ty.
      bind_run (array_of (languages_count md) (languages_names md)) (\<lambda>names.
      bind_run (print_languages 0 (languages_count md) names) (\<lambda>langs.
      bind_run (array_of (description_count md) (descriptions md)) (\<lambda>ds.
      bind_run (print_descriptions 0 (description_count md) ds) (\<lambda>descs.
        Done (Inr (), [To_stdout (print_lines
          [[], c_bytes ''  Database metadata'',
           c_bytes ''    Node count:    '' @ print_int (sint (node_count md)),
           c_bytes ''    Record size:   '' @ print_nat (unat (record_size md)) @ c_bytes '' bits'',
           c_bytes ''    IP version:    IPv'' @ print_nat (unat (ip_version md)),
           c_bytes ''    Binary format: '' @ print_nat (unat (binary_format_major_version md)) @ c_bytes ''.''
             @ print_nat (unat (binary_format_minor_version md)),
           c_bytes ''    Build epoch:   '' @ print_nat (unat (build_epoch md)) @ c_bytes '' ('' @ date_text env (build_epoch md)
             @ c_bytes '')'',
           c_bytes ''    Type:          '' @ ty,
           c_bytes ''    Languages:     '' @ langs,
           c_bytes ''    Description:''] @ descs @ [newline])])))))))"

section \<open>Looking an address up\<close>

definition lookup_or_die :: "tool_env \<Rightarrow> MMDB_s \<Rightarrow> string \<Rightarrow> (MMDB_lookup_result_s \<times> MMDB_s) part" where
  "lookup_or_die env mmdb ipstr =
     bind_run (MMDB_lookup_string (resolve env) mmdb ipstr None) (\<lambda>(result, gai_error, mmdb_error, mmdb).
     if gai_error \<noteq> 0 then
       Done (Inl 3, [To_stderr ([newline] @ c_bytes ''  Error from call to getaddrinfo for '' @ c_bytes ipstr
         @ c_bytes '' - '' @ gai_text env gai_error @ [newline, newline])])
     else case mmdb_error of None \<Rightarrow> Fault
     | Some st \<Rightarrow>
       if st \<noteq> MMDB_SUCCESS then
         Done (Inl 4, [To_stderr ([newline] @ c_bytes ''  Got an error from the maxminddb library: ''
           @ c_bytes (MMDB_strerror (status_code st)) @ [newline, newline])])
       else Done (Inr (result, mmdb), []))"

text \<open>The part that reads the entry: the status, the list and what is printed.\<close>

definition read_entry ::
  "tool_env \<Rightarrow> MMDB_s \<Rightarrow> MMDB_entry_s \<Rightarrow> string list \<Rightarrow> (status \<times> MMDB_entry_data_s list \<times> printed list) run" where
  "read_entry env mmdb entr lookup_path =
     (if lookup_path \<noteq> [] then
        bind_run (MMDB_aget_value (nest_bound env) mmdb entr lookup_path) (\<lambda>(status, entry_data).
        if status = MMDB_SUCCESS then
          (if data_offset entry_data \<noteq> 0 then
             bind_run (MMDB_get_entry_data_list (nest_bound env) (list_calloc env) mmdb
                         \<lparr>entry_offset = data_offset entry_data\<rparr>) (\<lambda>(status, nodes). Done (status, nodes, []))
           else Done (status, [],
             [To_stdout ([newline] @ c_bytes ''  No data was found at the lookup path you provided'' @ [newline, newline])]))
        else Done (status, [], []))
      else
        bind_run (MMDB_get_entry_data_list (nest_bound env) (list_calloc env) mmdb entr)
          (\<lambda>(status, nodes). Done (status, nodes, [])))"

text \<open>The exit code, what is printed, and what is freed: the nodes of the list and the database.\<close>

definition lookup_and_print ::
  "tool_env \<Rightarrow> MMDB_s \<Rightarrow> string \<Rightarrow> string list \<Rightarrow> (int \<times> MMDB_entry_data_s list \<times> resource list) part" where
  "lookup_and_print env mmdb ip lookup_path =
     bind_part (lookup_or_die env mmdb ip) (\<lambda>(result, mmdb).
     bind_run
       (if found_entry result then
          bind_run (read_entry env mmdb (entry result) lookup_path) (\<lambda>(status, nodes, out).
          if status \<noteq> MMDB_SUCCESS then
            Done (5, nodes, out @ [To_stderr (c_bytes ''Got an error looking up the entry data - ''
              @ c_bytes (MMDB_strerror (status_code status)) @ [newline])])
          else if nodes \<noteq> [] then
            bind_run (MMDB_dump_entry_data_list (nest_bound env) (dump_malloc env) nodes 2) (\<lambda>(st, text).
              Done (0, nodes, out @ [To_stdout [newline], To_stdout text, To_stdout [newline]]))
          else Done (0, nodes, out))
        else
          Done (6, [], [To_stderr ([newline] @ c_bytes ''  Could not find an entry for this IP address ('' @ c_bytes ip
            @ c_bytes '')'' @ [newline, newline])])) (\<lambda>(exit_code, nodes, out).
     bind_run (MMDB_close mmdb) (\<lambda>(rs, mmdb).
       Done (Inr (exit_code, MMDB_free_entry_data_list nodes, rs), out))))"

section \<open>The benchmark\<close>

text \<open>The four bytes of the number \<open>rand\<close> gives, lowest first; \<open>snprintf\<close> stores 15 characters at most.\<close>

definition random_ipv4 :: "u32 \<Rightarrow> u8 list" where
  "random_ipv4 ip_int =
     (let byte = (\<lambda>k. print_nat (unat ip_int div 256 ^ k mod 256)) in
      take 15 (byte 0 @ c_bytes ''.'' @ byte 1 @ c_bytes ''.'' @ byte 2 @ c_bytes ''.'' @ byte 3))"

definition to_string :: "u8 list \<Rightarrow> string" where
  "to_string bs = map (\<lambda>b. char_of (unat b)) bs"

text \<open>
  The loop, with the numbers \<open>rand\<close> gives in the rounds left; the result is the exit code, with which
  the loop is left early if a list cannot be built.
\<close>

fun benchmark_loop :: "tool_env \<Rightarrow> u32 list \<Rightarrow> MMDB_s \<Rightarrow> (int \<times> MMDB_s) part" where
  "benchmark_loop env [] mmdb = Done (Inr (0, mmdb), [])"
| "benchmark_loop env (r # rands) mmdb =
     bind_part (lookup_or_die env mmdb (to_string (random_ipv4 r))) (\<lambda>(result, mmdb).
     if found_entry result then
       bind_run (MMDB_get_entry_data_list (nest_bound env) (list_calloc env) mmdb (entry result)) (\<lambda>(status, nodes).
       if status \<noteq> MMDB_SUCCESS then
         Done (Inr (5, mmdb), [To_stderr (c_bytes ''Got an error looking up the entry data - ''
           @ c_bytes (MMDB_strerror (status_code status)) @ [newline])])
       else benchmark_loop env rands mmdb)
     else benchmark_loop env rands mmdb)"

definition benchmark :: "tool_env \<Rightarrow> (nat \<Rightarrow> u32) \<Rightarrow> MMDB_s \<Rightarrow> int \<Rightarrow> (int \<times> resource list) part" where
  "benchmark env rand mmdb n =
     bind_part (benchmark_loop env (map rand [0..<nat n]) mmdb) (\<lambda>(exit_code, mmdb).
     bind_run (MMDB_close mmdb) (\<lambda>(rs, mmdb).
       Done (Inr (exit_code, rs), if exit_code = 0 then [To_stdout (times_text env n)] else [])))"

section \<open>main\<close>

definition main :: "tool_env \<Rightarrow> (nat \<Rightarrow> u32) \<Rightarrow> MMDB_s \<Rightarrow> (char \<times> string) list \<Rightarrow> string list \<Rightarrow> unit part" where
  "main env rand garbage opt_chars args =
     bind_part (get_options env opt_chars args) (\<lambda>(fname, opts, lookup_path).
     bind_part (open_or_die env garbage fname) (\<lambda>mmdb.
     bind_part (if verbose opts then dump_meta env mmdb else Done (Inr (), [])) (\<lambda>_.
     if iterations opts = 0 then
       (case ip_address opts of None \<Rightarrow> Fault
        | Some ip \<Rightarrow> bind_part (lookup_and_print env mmdb ip lookup_path) (\<lambda>(exit_code, _). Done (Inl exit_code, [])))
     else bind_part (benchmark env rand mmdb (iterations opts)) (\<lambda>(exit_code, _). Done (Inl exit_code, [])))))"

end
