(* ===== verification/MmdblookupTheorems.thy ===== *)
theory MmdblookupTheorems
  imports Mmdblookup DumpTheorems SmallExample
begin

text \<open>
  What \<^verbatim>\<open>libmaxminddb/bin/mmdblookup.c\<close> prints and how it exits.
\<close>

section \<open>Reading an entry\<close>

text \<open>No value begins with two zero bytes, as the separator in front of the data does.\<close>

lemma ctrl_bytes_shape:
  "\<exists>k xs. k < 32 \<and> ctrl_bytes ty n
    = word_of_nat ((if ty \<le> 7 then ty else 0) * 32 + k) # (if ty \<le> 7 then xs else word_of_nat (ty - 7) # xs)"
proof -
  have "\<exists>k xs. k < 32 \<and> ctrl_bytes ty n
    = word_of_nat ((if ty \<le> 7 then ty else 0) * 32 + k) # (if ty \<le> 7 then [] else [word_of_nat (ty - 7)]) @ xs"
    unfolding ctrl_bytes_def Let_def
    by (auto intro: exI[of _ n] exI[of _ 29] exI[of _ 30] exI[of _ 31])
  then show ?thesis by (cases "ty \<le> 7") auto
qed

lemma ctrl_bytes_not_zeros:
  assumes z: "stored mem [0, 0]" and ty: "0 < ty" "ty < 16"
  shows "\<not> stored mem (ctrl_bytes ty n @ bs)"
proof
  assume s: "stored mem (ctrl_bytes ty n @ bs)"
  obtain k xs where k: "k < 32" "ctrl_bytes ty n
      = word_of_nat ((if ty \<le> 7 then ty else 0) * 32 + k) # (if ty \<le> 7 then xs else word_of_nat (ty - 7) # xs)"
    using ctrl_bytes_shape by blast
  have d: "deref mem 0 = Done 0" "deref mem 1 = Done 0" using z by (simp_all add: stored_Cons)
  show False
  proof (cases "ty \<le> 7")
    case True
    then have "word_of_nat (ty * 32 + k) = (0 :: u8)" using s k(2) d(1) by (simp add: stored_Cons)
    then show False using unat_ctrl[of ty k] True k(1) ty(1) by (simp del: of_nat_add of_nat_mult)
  next
    case False
    then have "word_of_nat (ty - 7) = (0 :: u8)" using s k(2) d(2) by (simp add: stored_Cons)
    moreover have "unat (word_of_nat (ty - 7) :: u8) = ty - 7" using ty(2) by (intro unat_word_of_nat) simp
    ultimately show False using False by simp
  qed
qed

lemma scalar_type: "scalar v ty bs \<Longrightarrow> 0 < ty \<and> ty < 16"
  by (cases v) auto

lemma no_value_in_separator:
  assumes z: "stored mem [0, 0]"
  shows "\<not> encoded mem 0 v e"
proof
  assume "encoded mem 0 v e"
  then show False
  proof (cases rule: encoded.cases)
    case (enc_scalar ty bs)
    then show False using ctrl_bytes_not_zeros[OF z, of ty] scalar_type by fastforce
  next
    case (enc_boolean b)
    then show False using ctrl_bytes_not_zeros[OF z, of 14 _ "[]"] by simp
  next
    case (enc_map kvs)
    then show False using ctrl_bytes_not_zeros[OF z, of 7 _ "[]"] by simp
  next
    case (enc_array vs)
    then show False using ctrl_bytes_not_zeros[OF z, of 11 _ "[]"] by simp
  qed
qed

lemma listed_flat:
  assumes "data_ok db" "field_at (data_section db) (unat off) v e" "2 * fdepth v + 1 < nest" "\<forall>k. calloc_ok k"
  obtains nodes where "MMDB_get_entry_data_list nest calloc_ok db \<lparr>entry_offset = off\<rparr> = Done (MMDB_SUCCESS, nodes)"
    "list_all2 entry_shows nodes (flat v)"
proof -
  obtain member rest where l: "MMDB_get_entry_data_list nest calloc_ok db \<lparr>entry_offset = off\<rparr>
      = Done (MMDB_SUCCESS, member # rest)" "entry_shows member v" "list_all2 entry_shows rest (inner v)"
    using listed_at[OF assms] by blast
  from l(2,3) have "list_all2 entry_shows (member # rest) (flat v)" unfolding flat_Cons by simp
  from that[OF l(1) this] show ?thesis .
qed

lemma read_entry_gives:
  assumes ok: "data_ok db" and at: "field_at (data_section db) (unat (entry_offset entr)) v e"
    and sep: "stored (data_section db) [0, 0]" and get: "field_get v path = Inr w"
    and n: "fdepth v \<le> nest_bound env" "2 * fdepth w + 1 < nest_bound env" and m: "\<forall>k. list_calloc env k"
  shows "\<exists>nodes. read_entry env db entr path = Done (MMDB_SUCCESS, nodes, []) \<and> list_all2 entry_shows nodes (flat w)"
proof (cases "path = []")
  case True
  have "field_at (data_section db) (unat (entry_offset entr)) w e" using at get True by simp
  then obtain nodes where "MMDB_get_entry_data_list (nest_bound env) (list_calloc env) db
      \<lparr>entry_offset = entry_offset entr\<rparr> = Done (MMDB_SUCCESS, nodes)" "list_all2 entry_shows nodes (flat w)"
    by (rule listed_flat[OF ok _ n(2) m])
  moreover have "\<lparr>entry_offset = entry_offset entr\<rparr> = entr" by simp
  ultimately show ?thesis using True by (auto simp: read_entry_def simp del: MMDB_entry_s.surjective)
next
  case False
  obtain ed e' where ed: "MMDB_aget_value (nest_bound env) db entr path = Done (MMDB_SUCCESS, ed)"
      "encoded (data_section db) (unat (data_offset ed)) w e'"
    using aget_value_gives[OF ok at n(1), of path] get by (auto simp: gives_Inr)
  have "data_offset ed \<noteq> 0" using ed(2) no_value_in_separator[OF sep] by (metis unat_0)
  moreover obtain nodes where "MMDB_get_entry_data_list (nest_bound env) (list_calloc env) db
      \<lparr>entry_offset = data_offset ed\<rparr> = Done (MMDB_SUCCESS, nodes)" "list_all2 entry_shows nodes (flat w)"
    by (rule listed_flat[OF ok at_direct[OF ed(2)] n(2) m])
  ultimately show ?thesis using ed(1) False by (auto simp: read_entry_def)
qed

section \<open>The program\<close>

lemma lookup_or_die_ok:
  "MMDB_lookup_string (resolve env) mmdb ip None = Done (res, 0, Some MMDB_SUCCESS, mmdb') \<Longrightarrow>
    lookup_or_die env mmdb ip = Done (Inr (res, mmdb'), [])"
  by (simp add: lookup_or_die_def)

text \<open>
  \<open>mmdblookup\<close> prints the element of the address's entry that the path selects, exactly as the text of
  that value indented by two columns, exits with 0 and frees every node of the list and everything
  the handle holds.
\<close>
lemma lookup_and_print_value:
  assumes look: "MMDB_lookup_string (resolve env) mmdb ip None = Done (res, 0, Some MMDB_SUCCESS, mmdb')" "found_entry res"
    and ok: "data_ok mmdb'" "arrays_ok mmdb'" and sep: "stored (data_section mmdb') [0, 0]"
    and at: "field_at (data_section mmdb') (unat (entry_offset (entry res))) v e" and get: "field_get v path = Inr w"
    and n: "fdepth v \<le> nest_bound env" "2 * fdepth w + 1 < nest_bound env"
    and m: "\<forall>k. list_calloc env k" "dump_malloc env = (\<lambda>_. True)"
    and w: "printable w" "2 + 4 * int (fdepth w) \<le> 2147483647"
  shows "\<exists>nodes. lookup_and_print env mmdb ip path
      = Done (Inr (0, rev nodes, held mmdb'), [To_stdout [newline], To_stdout (render 2 w), To_stdout [newline]])
    \<and> length nodes = length (flat w)"
proof -
  obtain nodes where nodes: "read_entry env mmdb' (entry res) path = Done (MMDB_SUCCESS, nodes, [])"
      "list_all2 entry_shows nodes (flat w)"
    using read_entry_gives[OF ok(1) at sep get n m(1)] by blast
  have d: "MMDB_dump_entry_data_list (nest_bound env) (\<lambda>_. True) nodes 2 = Done (MMDB_SUCCESS, render 2 w)"
    using dump_renders[of nodes w "nest_bound env" 2 "[]"] nodes(2) w n(2)
    by (simp add: MMDB_dump_entry_data_list_def)
  have "nodes \<noteq> []" using nodes(2) by (auto simp: flat_Cons)
  moreover have "MMDB_free_entry_data_list nodes = rev nodes" by (induction nodes) auto
  ultimately show ?thesis
    using lookup_or_die_ok[OF look(1)] look(2) nodes d free_mmdb_struct_held[OF ok(2)] m(2) list_all2_lengthD[OF nodes(2)]
    by (intro exI[of _ nodes]) (simp add: lookup_and_print_def MMDB_close_def)
qed

definition small_tool :: tool_env where
  "small_tool = \<lparr>program_name = c_bytes ''mmdblookup'', version_text = c_bytes ''1.1.1'', files_of = (\<lambda>_. small_file),
     resolve = example_gai, gai_text = (\<lambda>_. []), errno_text = [], date_text = (\<lambda>_. []), times_text = (\<lambda>_. []),
     opening_malloc = (\<lambda>_. True), list_calloc = (\<lambda>_. True), dump_malloc = (\<lambda>_. True), nest_bound = 4\<rparr>"

text \<open>The file and the address given as options, and a lookup path behind them.\<close>

lemma get_options_file_ip:
  "get_options env [(CHR ''f'', fname), (CHR ''i'', ip)] path = Done (Inr (c_bytes fname,
     \<lparr>mmdb_file = Some (c_bytes fname), ip_address = Some ip, verbose = False, iterations = 0,
      help_wanted = False, version_wanted = False\<rparr>, path), [])"
  by (simp add: get_options_def)

lemma bind_part_silent: "bind_part (Done (Inr x, [])) f = f x"
  by (cases "f x") auto

lemma bind_run_Done: "bind_run m Done = m"
  by (cases m) auto

lemma exit_code_of:
  "bind_part m (\<lambda>(code, _). Done (Inl code, [])) = Done (r, out) \<longleftrightarrow>
    (\<exists>c. m = Done (Inl c, out) \<and> r = Inl c) \<or> (\<exists>code x. m = Done (Inr (code, x), out) \<and> r = Inl code)"
proof (cases m)
  case (Done x)
  then show ?thesis by (cases x; cases "fst x") auto
qed auto

lemma main_file_ip:
  "main env rand garbage [(CHR ''f'', fname), (CHR ''i'', ip)] path =
     bind_part (open_or_die env garbage (c_bytes fname)) (\<lambda>mmdb.
     bind_part (lookup_and_print env mmdb ip path) (\<lambda>(exit_code, _). Done (Inl exit_code, [])))"
  by (simp add: main_def get_options_file_ip bind_part_silent bind_run_Done del: bind_part_simps(2))

text \<open>
  C37: The exit code of \<open>mmdblookup\<close> with a file and an address tells what happened: 2 exactly if the file
  cannot be opened as a database, 3 if the address is not understood, 4 if the search tree is
  corrupt or the address is of the wrong family, 6 if there is no entry, 5 if the entry cannot be
  read, else 0.
\<close>
theorem mmdblookup_exit_codes:
  assumes "main env rand garbage [(CHR ''f'', fname), (CHR ''i'', ip)] path = Done (r, out)"
    and "MMDB_open (opening_malloc env) (files_of env (c_bytes fname)) (nest_bound env) (c_bytes fname) 1 garbage
      = Done (st, rs, db)"
  shows "if st \<noteq> MMDB_SUCCESS then r = Inl 2
    else \<exists>res g err db'. MMDB_lookup_string (resolve env) db ip None = Done (res, g, err, db')
      \<and> (if g \<noteq> 0 then r = Inl 3 else if err \<noteq> Some MMDB_SUCCESS then r = Inl 4
         else if \<not> found_entry res then r = Inl 6
         else \<exists>st nodes more. read_entry env db' (entry res) path = Done (st, nodes, more)
           \<and> r = Inl (if st = MMDB_SUCCESS then 0 else 5))"
proof (cases "st = MMDB_SUCCESS")
  case False
  then show ?thesis using assms unfolding main_file_ip by (simp add: open_or_die_def)
next
  case True
  then have "bind_part (lookup_and_print env db ip path) (\<lambda>(exit_code, _). Done (Inl exit_code, [])) = Done (r, out)"
    using assms unfolding main_file_ip by (auto simp: open_or_die_def run_simps)
  then have m: "(\<exists>c. lookup_and_print env db ip path = Done (Inl c, out) \<and> r = Inl c)
      \<or> (\<exists>code x. lookup_and_print env db ip path = Done (Inr (code, x), out) \<and> r = Inl code)"
    unfolding exit_code_of .
  show ?thesis
  proof (cases "MMDB_lookup_string (resolve env) db ip None")
    case (Done x)
    obtain res g err db' where x: "x = (res, g, err, db')" by (cases x)
    show ?thesis
    proof (cases "g = 0 \<and> err = Some MMDB_SUCCESS")
      case True
      then have d: "lookup_or_die env db ip = Done (Inr (res, db'), [])" using Done x lookup_or_die_ok by blast
      show ?thesis
        using m True Done x \<open>st = MMDB_SUCCESS\<close>
        by (auto simp: lookup_and_print_def d bind_part_silent run_simps split: if_splits simp del: bind_part_simps(2))
    next
      case False
      then show ?thesis
        using m Done x \<open>st = MMDB_SUCCESS\<close>
        by (auto simp: lookup_and_print_def lookup_or_die_def split: if_splits option.splits)
    qed
  qed (use m in \<open>auto simp: lookup_and_print_def lookup_or_die_def\<close>)
qed

theorem mmdblookup_exit_codes_witness:
  "\<exists>out. main (small_tool\<lparr>files_of := (\<lambda>_. small_file\<lparr>open_ok := False\<rparr>)\<rparr>) (\<lambda>_. 0) zero_mmdb
      [(CHR ''f'', ''x''), (CHR ''i'', ''64.0.0.0'')] [] = Done (Inl 2, out)"
proof -
  let ?env = "small_tool\<lparr>files_of := (\<lambda>_. small_file\<lparr>open_ok := False\<rparr>)\<rparr>"
  obtain db where o: "MMDB_open (opening_malloc ?env) (files_of ?env (c_bytes ''x'')) (nest_bound ?env) (c_bytes ''x'') 1
      zero_mmdb = Done (MMDB_FILE_OPEN_ERROR, [R_filename], db)"
    by (simp add: MMDB_open_def open_attempt_def open_init_def map_file_def small_file_def mmdb_strdup_def free_mmdb_struct_def
        free_languages_metadata_def free_descriptions_metadata_def freed_def zero_mmdb_def zero_metadata_def small_tool_def)
  then obtain r out where m: "main ?env (\<lambda>_. 0) zero_mmdb [(CHR ''f'', ''x''), (CHR ''i'', ''64.0.0.0'')] [] = Done (r, out)"
    unfolding main_file_ip by (simp add: open_or_die_def)
  show ?thesis using mmdblookup_exit_codes[OF m o] m by simp
qed

end
