(* ===== verification/EndToEnd.thy ===== *)
theory EndToEnd
  imports MmdblookupTheorems
begin

text \<open>
  From the bytes of a file to the text on the terminal: opening, resolving the address, the walk through
  the search tree, the lookup by path, the entry list and printing put together.
\<close>

text \<open>
  C1: From the file to the text. Let a file hold metadata in the format behind the first marker, with nodes
  inside the file, let the bits of the address (of either family, zero-prefixed where that is needed) lead
  through its tree to a value, and let a path select an element of that value. Let that element hold no byte sequence of length 0, whose
  text the code leaves undefined: \<open>bytes_to_hex\<close> writes nothing into its block then, and the block is printed as a string; the
  value at ::0.0.0.0 of the test database \<open>MaxMind-DB-test-decoder.mmdb\<close> is such a case and is not covered. Let the columns of the
  text fit an int, let the bound on the recursion be at least 4, the depth of the value, and two more than twice the depth of the element, and let no allocation fail. Then
  \<open>mmdblookup\<close> with the file, the address and the path prints exactly the text of that element and exits with 0.
\<close>
theorem mmdblookup_from_file_to_text:
  assumes fsh: "file_shows (nest_bound env) (files_of env (c_bytes fname)) (c_bytes fname) sa v"
    and addr: "resolve_any_address (resolve env) ip = (0, Some sa)"
    and val: "field_get v path = Inr w" "printable w" "2 + 4 * int (fdepth w) \<le> 2147483647"
    and n: "4 \<le> nest_bound env" "2 * fdepth w + 1 < nest_bound env"
    and m: "opening_malloc env = (\<lambda>_. True)" "\<forall>k. list_calloc env k" "dump_malloc env = (\<lambda>_. True)"
  shows "main env rand garbage [(CHR ''f'', fname), (CHR ''i'', ip)] path
    = Done (Inl 0, [To_stdout [newline], To_stdout (render 2 w), To_stdout [newline]])"
proof -
  obtain h res start e' where op: "\<forall>db. MMDB_open (\<lambda>_. True) (files_of env (c_bytes fname)) (nest_bound env) (c_bytes fname)
        MMDB_MODE_MMAP db = Done (MMDB_SUCCESS, [], h)"
    and look: "MMDB_lookup_sockaddr h sa None = Done (res, Some MMDB_SUCCESS, h\<lparr>ipv4_start_node := start\<rparr>)" "found_entry res"
    and h: "\<not> (ip_version (metadata h) = 4 \<and> family sa = AF_INET6)" "opened (files_of env (c_bytes fname)) h" "data_ok h"
      "stored (data_section h) [0, 0]"
    and at: "field_at (data_section h) (unat (entry_offset (entry res))) v e'"
    using file_lookup[OF fsh n(1)] .
  let ?h = "h\<lparr>ipv4_start_node := start\<rparr>"
  have "arrays_ok h" using h(2) by (intro metadata_ok_arrays) (simp add: opened_def Let_def)
  then have ar: "arrays_ok ?h" by (rule arrays_ok_metadata) simp
  have dep: "fdepth v \<le> nest_bound env" using fsh by (simp add: file_shows_def)
  have "MMDB_lookup_string (resolve env) h ip None = Done (res, 0, Some MMDB_SUCCESS, ?h)"
    using look(1) addr h(1) by (simp add: MMDB_lookup_string_def)
  then obtain freed where p: "lookup_and_print env h ip path
      = Done (Inr (0, freed, held ?h), [To_stdout [newline], To_stdout (render 2 w), To_stdout [newline]])"
    using lookup_and_print_value[of env h ip res ?h v e' path w] look(2) h(3,4) ar at val dep n(2) m(2,3) by auto
  have "open_or_die env garbage (c_bytes fname) = Done (Inr h, [])"
    using op m(1) by (simp add: open_or_die_def)
  with p show ?thesis unfolding main_file_ip by simp
qed

theorem mmdblookup_from_file_to_text_witness:
  "main small_tool (\<lambda>_. 0) zero_mmdb [(CHR ''f'', ''f''), (CHR ''i'', ''64.0.0.0'')] []
    = Done (Inl 0, [To_stdout [newline],
        To_stdout (c_bytes ''  '' @ [quote_char] @ c_bytes ''ab'' @ [quote_char] @ c_bytes '' <utf8_string>'' @ [newline]),
        To_stdout [newline]])"
proof -
  have f: "c_bytes ''f'' = [0x66]" "files_of small_tool [0x66] = small_file" "nest_bound small_tool = 4"
    "opening_malloc small_tool = (\<lambda>_. True)" "\<forall>k. list_calloc small_tool k" "dump_malloc small_tool = (\<lambda>_. True)"
    by (simp_all add: small_tool_def c_bytes_def)
  have g: "resolve_any_address (resolve small_tool) ''64.0.0.0'' = (0, Some (ipv4 [64, 0, 0, 0]))"
    by (simp add: resolve_any_address_def example_gai_def small_tool_def)
  have "render 2 (F_string [0x61, 0x62])
      = c_bytes ''  '' @ [quote_char] @ c_bytes ''ab'' @ [quote_char] @ c_bytes '' <utf8_string>'' @ [newline]"
    using small_spaces by (simp add: shown_def c_bytes_def)
  moreover have "main small_tool (\<lambda>_. 0) zero_mmdb [(CHR ''f'', ''f''), (CHR ''i'', ''64.0.0.0'')] []
      = Done (Inl 0, [To_stdout [newline], To_stdout (render 2 (F_string [0x61, 0x62])), To_stdout [newline]])"
    using mmdblookup_from_file_to_text[where env = small_tool and fname = "''f''" and ip = "''64.0.0.0''"
        and v = "F_string [0x61, 0x62]" and path = "[]" and w = "F_string [0x61, 0x62]", unfolded f, OF small_file_shows g]
    by (simp add: f)
  ultimately show ?thesis by simp
qed

end
