(* ===== verification/Tap.thy ===== *)
theory Tap
  imports Mmdblookup "HOL-Library.Signed_Division"
begin

text \<open>
  The part of \<^verbatim>\<open>libmaxminddb/t/libtap/tap.c\<close> that the tests of the library use: numbered results, messages, the plan and
  the exit code. A test program is a computation over the static variables of that file and what has been printed; it may
  leave with an exit code. The place of a failed test, \<^verbatim>\<open>__FILE__\<close> and \<^verbatim>\<open>__LINE__\<close>, is left out of the message about it.
\<close>

section \<open>Test programs\<close>

text \<open>The static variables, and what was printed. Tests are counted without an overflow.\<close>

record tap =
  expected_tests :: int
  failed_tests :: nat
  current_test :: nat
  todo_mesg :: "u8 list option"
  tap_output :: "printed list"

abbreviation (input) NO_PLAN :: int where "NO_PLAN \<equiv> - 1"
abbreviation (input) SKIP_ALL :: int where "SKIP_ALL \<equiv> - 2"

definition fresh_tap :: tap where
  "fresh_tap = \<lparr>expected_tests = NO_PLAN, failed_tests = 0, current_test = 0, todo_mesg = None, tap_output = []\<rparr>"

type_synonym 'a prog = "tap \<Rightarrow> ((int + 'a) \<times> tap) run"

definition bind_prog :: "'a prog \<Rightarrow> ('a \<Rightarrow> 'b prog) \<Rightarrow> 'b prog" where
  "bind_prog m k = (\<lambda>t. bind_run (m t) (\<lambda>(r, t). case r of Inl code \<Rightarrow> Done (Inl code, t) | Inr x \<Rightarrow> k x t))"

definition give :: "'a \<Rightarrow> 'a prog" where
  "give x = (\<lambda>t. Done (Inr x, t))"

definition exits :: "int \<Rightarrow> 'a prog" where
  "exits code = (\<lambda>t. Done (Inl code, t))"

text \<open>A computation of the library in a test program.\<close>

definition call :: "'a run \<Rightarrow> 'a prog" where
  "call m = (\<lambda>t. bind_run m (\<lambda>x. Done (Inr x, t)))"

definition then_prog :: "'a prog \<Rightarrow> 'b prog \<Rightarrow> 'b prog" where
  "then_prog m n = bind_prog m (\<lambda>_. n)"

primrec in_turn :: "unit prog list \<Rightarrow> unit prog" where
  "in_turn [] = give ()"
| "in_turn (m # ms) = then_prog m (in_turn ms)"

definition write_out :: "printed \<Rightarrow> unit prog" where
  "write_out p = (\<lambda>t. Done (Inr (), t\<lparr>tap_output := tap_output t @ [p]\<rparr>))"

section \<open>Messages\<close>

text \<open>\<open>vdiag_to_fh\<close>: the lines of a message, without an empty one behind the last newline.\<close>

function mesg_lines :: "u8 list \<Rightarrow> u8 list list" where
  "mesg_lines [] = []"
| "mesg_lines (c # mesg) =
     takeWhile (\<lambda>c. c \<noteq> newline) (c # mesg) # mesg_lines (drop 1 (dropWhile (\<lambda>c. c \<noteq> newline) (c # mesg)))"
  by pat_completeness auto
termination
proof (relation "measure length")
  show "(drop 1 (dropWhile (\<lambda>c. c \<noteq> newline) (c # mesg)), c # mesg) \<in> measure length" for c mesg
    using length_dropWhile_le[of "\<lambda>c. c \<noteq> newline" mesg] by (auto simp: less_Suc_eq_le)
qed simp

definition vdiag_to_fh :: "(u8 list \<Rightarrow> printed) \<Rightarrow> u8 list \<Rightarrow> unit prog" where
  "vdiag_to_fh fh mesg = in_turn (map (\<lambda>line. write_out (fh (c_bytes ''# '' @ line @ [newline]))) (mesg_lines mesg))"

definition diag :: "u8 list \<Rightarrow> unit prog" where
  "diag mesg = vdiag_to_fh To_stderr mesg"

definition note_mesg :: "u8 list \<Rightarrow> unit prog" where
  "note_mesg mesg = vdiag_to_fh To_stdout mesg"

definition bail_out :: "u8 list \<Rightarrow> 'a prog" where
  "bail_out mesg = then_prog (write_out (To_stdout (c_bytes ''Bail out!  '' @ mesg @ [newline]))) (exits 255)"

section \<open>Results\<close>

definition tap_plan :: "int \<Rightarrow> u8 list \<Rightarrow> unit prog" where
  "tap_plan tests why =
     then_prog (\<lambda>t. Done (Inr (), t\<lparr>expected_tests := tests\<rparr>))
       (if tests = SKIP_ALL then
          in_turn [write_out (To_stdout (c_bytes ''1..0 '')), note_mesg (c_bytes ''SKIP '' @ why @ [newline]), exits 0]
        else if tests \<noteq> NO_PLAN then write_out (To_stdout (c_bytes ''1..'' @ print_int tests @ [newline]))
        else give ())"

text \<open>\<open>ok (test, name)\<close> by \<open>ok_at_loc\<close>, and the other forms, end here.\<close>

definition vok_at_loc :: "bool \<Rightarrow> u8 list \<Rightarrow> bool prog" where
  "vok_at_loc test name = (\<lambda>t.
     let n = current_test t + 1;
         line = (if test then [] else c_bytes ''not '') @ c_bytes ''ok '' @ print_nat n
           @ (if name \<noteq> [] then c_bytes '' - '' @ name else [])
           @ (case todo_mesg t of None \<Rightarrow> [] | Some m \<Rightarrow> c_bytes '' # TODO'' @ (if m \<noteq> [] then c_bytes '' '' @ m else []))
           @ [newline];
         failure = c_bytes ''#   Failed '' @ (if todo_mesg t \<noteq> None then c_bytes ''(TODO) '' else []) @ c_bytes ''test ''
           @ (if name \<noteq> [] then [0x27] @ name @ [0x27, newline] @ c_bytes ''#   '' else []) in
     Done (Inr test,
       t\<lparr>current_test := n, tap_output := tap_output t @ [To_stdout line] @ (if test then [] else [To_stderr failure]),
         failed_tests := (if \<not> test \<and> todo_mesg t = None then failed_tests t + 1 else failed_tests t)\<rparr>))"

abbreviation ok :: "bool \<Rightarrow> u8 list \<Rightarrow> bool prog" where
  "ok test name \<equiv> vok_at_loc test name"

text \<open>Strings are compared as C strings, or as null pointers.\<close>

definition mystrcmp_eq :: "u8 list option \<Rightarrow> u8 list option \<Rightarrow> bool" where
  "mystrcmp_eq a b = (case (a, b) of (None, None) \<Rightarrow> True | (Some s, Some s') \<Rightarrow> s = s' | _ \<Rightarrow> False)"

definition shown_string :: "u8 list option \<Rightarrow> u8 list" where
  "shown_string s = (case s of None \<Rightarrow> c_bytes ''(null)'' | Some s \<Rightarrow> s)"

definition is_at_loc :: "u8 list option \<Rightarrow> u8 list option \<Rightarrow> u8 list \<Rightarrow> bool prog" where
  "is_at_loc got expected name =
     (let test = mystrcmp_eq got expected in
      bind_prog (ok test name) (\<lambda>_.
        then_prog
          (if \<not> test then in_turn
             [diag (c_bytes ''         got: '' @ [0x27] @ shown_string got @ [0x27]),
              diag (c_bytes ''    expected: '' @ [0x27] @ shown_string expected @ [0x27])]
           else give ())
          (give test)))"

text \<open>An \<open>int\<close> result of an operator: leaving the range has no defined result.\<close>

definition c_int :: "int \<Rightarrow> int run" where
  "c_int n = (if - 2147483648 \<le> n \<and> n \<le> 2147483647 then Done n else Fault)"

definition compared :: "int \<Rightarrow> string \<Rightarrow> int \<Rightarrow> int run option" where
  "compared a opr b =
     (if opr = ''||'' then Some (Done (of_bool (a \<noteq> 0 \<or> b \<noteq> 0)))
      else if opr = ''&&'' then Some (Done (of_bool (a \<noteq> 0 \<and> b \<noteq> 0)))
      else if opr = ''|'' then Some (Done (a OR b))
      else if opr = ''^'' then Some (Done (a XOR b))
      else if opr = ''&'' then Some (Done (a AND b))
      else if opr = ''=='' then Some (Done (of_bool (a = b)))
      else if opr = ''!='' then Some (Done (of_bool (a \<noteq> b)))
      else if opr = ''<'' then Some (Done (of_bool (a < b)))
      else if opr = ''>'' then Some (Done (of_bool (a > b)))
      else if opr = ''<='' then Some (Done (of_bool (a \<le> b)))
      else if opr = ''>='' then Some (Done (of_bool (a \<ge> b)))
      else if opr = ''<<'' then Some (if a < 0 \<or> b < 0 \<or> 32 \<le> b then Fault else c_int (a * 2 ^ nat b))
      else if opr = ''>>'' then Some (if b < 0 \<or> 32 \<le> b then Fault else Done (drop_bit (nat b) a))
      else if opr = ''+'' then Some (c_int (a + b))
      else if opr = ''-'' then Some (c_int (a - b))
      else if opr = ''*'' then Some (c_int (a * b))
      else if opr = ''/'' then Some (if b = 0 then Fault else c_int (a sdiv b))
      else if opr = ''%'' then Some (if b = 0 \<or> a = - 2147483648 \<and> b = - 1 then Fault else Done (a smod b))
      else None)"

definition cmp_ok_at_loc :: "int \<Rightarrow> string \<Rightarrow> int \<Rightarrow> u8 list \<Rightarrow> bool prog" where
  "cmp_ok_at_loc a opr b name =
     bind_prog
       (case compared a opr b of Some m \<Rightarrow> call m
        | None \<Rightarrow> then_prog (diag (c_bytes ''unrecognized operator '' @ [0x27] @ c_bytes opr @ [0x27])) (give 0)) (\<lambda>test.
     bind_prog (ok (test \<noteq> 0) name) (\<lambda>_.
     then_prog
       (if test = 0 then in_turn
          [diag (c_bytes ''    '' @ print_int a), diag (c_bytes ''        '' @ c_bytes opr), diag (c_bytes ''    '' @ print_int b)]
        else give ())
       (give (test \<noteq> 0))))"

section \<open>The end of a program\<close>

definition plural :: "int \<Rightarrow> u8 list" where
  "plural n = (if n > 1 then c_bytes ''s'' else [])"

definition exit_status :: "int prog" where
  "exit_status = (\<lambda>t.
     bind_run
       (if expected_tests t = NO_PLAN then
          then_prog (write_out (To_stdout (c_bytes ''1..'' @ print_nat (current_test t) @ [newline]))) (give 0) t
        else if int (current_test t) \<noteq> expected_tests t then
          then_prog (diag (c_bytes ''Looks like you planned '' @ print_int (expected_tests t) @ c_bytes '' test''
            @ plural (expected_tests t) @ c_bytes '' but ran '' @ print_nat (current_test t) @ c_bytes ''.'')) (give 255) t
        else give 0 t) (\<lambda>(retval, t).
     if failed_tests t \<noteq> 0 then
       then_prog (diag (c_bytes ''Looks like you failed '' @ print_nat (failed_tests t) @ c_bytes '' test''
           @ plural (int (failed_tests t)) @ c_bytes '' of '' @ print_nat (current_test t) @ c_bytes '' run.''))
         (give (if expected_tests t = NO_PLAN then int (failed_tests t)
                else expected_tests t - int (current_test t) + int (failed_tests t))) t
     else Done (retval, t)))"

text \<open>\<open>main\<close> of a test program without a plan, with the code that \<open>done_testing\<close> returns.\<close>

definition test_main :: "unit prog \<Rightarrow> (int \<times> tap) run" where
  "test_main tests =
     bind_run (then_prog (tap_plan NO_PLAN []) (then_prog tests exit_status) fresh_tap)
       (\<lambda>(r, t). Done (case r of Inl code \<Rightarrow> code | Inr code \<Rightarrow> code, t))"

section \<open>Programs whose tests pass\<close>

text \<open>\<open>passes m n P\<close>: the computation runs \<open>n\<close> tests, none of which fails, and \<open>P\<close> holds of its result.\<close>

definition passes :: "'a prog \<Rightarrow> nat \<Rightarrow> ('a \<Rightarrow> bool) \<Rightarrow> bool" where
  "passes m n P \<longleftrightarrow> (\<forall>t. todo_mesg t = None \<longrightarrow>
     (\<exists>x t'. m t = Done (Inr x, t') \<and> P x \<and> current_test t' = current_test t + n
        \<and> failed_tests t' = failed_tests t \<and> expected_tests t' = expected_tests t \<and> todo_mesg t' = None))"

lemma passes_give: "P x \<Longrightarrow> n = 0 \<Longrightarrow> passes (give x) n P"
  by (simp add: passes_def give_def)

lemma passes_bind:
  assumes "passes m n P" "\<And>x. P x \<Longrightarrow> passes (k x) (N - n) Q" "n \<le> N"
  shows "passes (bind_prog m k) N Q"
  unfolding passes_def
proof (intro allI impI)
  fix t :: tap
  assume "todo_mesg t = None"
  with assms(1) obtain x t' where m: "m t = Done (Inr x, t')" "P x" "current_test t' = current_test t + n"
    "failed_tests t' = failed_tests t" "expected_tests t' = expected_tests t" "todo_mesg t' = None"
    unfolding passes_def by blast
  from assms(2)[OF m(2)] m(6) obtain y t'' where "k x t' = Done (Inr y, t'')" "Q y"
    "current_test t'' = current_test t' + (N - n)" "failed_tests t'' = failed_tests t'"
    "expected_tests t'' = expected_tests t'" "todo_mesg t'' = None"
    unfolding passes_def by blast
  with m assms(3) show "\<exists>y t''. bind_prog m k t = Done (Inr y, t'') \<and> Q y \<and> current_test t'' = current_test t + N
      \<and> failed_tests t'' = failed_tests t \<and> expected_tests t'' = expected_tests t \<and> todo_mesg t'' = None"
    by (simp add: bind_prog_def)
qed

lemma passes_then:
  "passes m n P \<Longrightarrow> passes m' (N - n) Q \<Longrightarrow> n \<le> N \<Longrightarrow> passes (then_prog m m') N Q"
  unfolding then_prog_def by (rule passes_bind)

lemma passes_mono: "passes m n P \<Longrightarrow> (\<And>x. P x \<Longrightarrow> Q x) \<Longrightarrow> passes m n Q"
  unfolding passes_def by blast

lemma passes_call: "m = Done x \<Longrightarrow> P x \<Longrightarrow> n = 0 \<Longrightarrow> passes (call m) n P"
  by (simp add: passes_def call_def)

lemma passes_ok: "test \<Longrightarrow> n = 1 \<Longrightarrow> passes (ok test name) n (\<lambda>r. r)"
  by (auto simp: passes_def vok_at_loc_def Let_def)

lemma passes_call_bind: "m = Done x \<Longrightarrow> passes (k x) n Q \<Longrightarrow> passes (bind_prog (call m) k) n Q"
  by (simp add: passes_def bind_prog_def call_def)

lemma passes_ok_bind: "test \<Longrightarrow> passes (k True) (n - 1) Q \<Longrightarrow> 1 \<le> n \<Longrightarrow> passes (bind_prog (ok test name) k) n Q"
  by (rule passes_bind[OF passes_ok[OF _ refl]]) simp_all

lemma passes_give_bind: "passes (k x) n Q \<Longrightarrow> passes (bind_prog (give x) k) n Q"
  by (simp add: passes_def bind_prog_def give_def)

lemmas prog_defs = bind_prog_def then_prog_def give_def call_def vok_at_loc_def Let_def

lemma passes_is: "got = expected \<Longrightarrow> n = 1 \<Longrightarrow> passes (is_at_loc got expected name) n (\<lambda>r. r)"
  by (auto simp: passes_def is_at_loc_def mystrcmp_eq_def prog_defs split: option.split)

lemma passes_cmp_ok:
  "compared a opr b = Some (Done r) \<Longrightarrow> r \<noteq> 0 \<Longrightarrow> n = 1 \<Longrightarrow> passes (cmp_ok_at_loc a opr b name) n (\<lambda>r. r)"
  by (auto simp: passes_def cmp_ok_at_loc_def prog_defs)

lemma passes_eq: "a = b \<Longrightarrow> n = 1 \<Longrightarrow> passes (cmp_ok_at_loc a ''=='' b name) n (\<lambda>r. r)"
  by (rule passes_cmp_ok[of _ _ _ 1]) (simp_all add: compared_def)

lemma passes_greater: "b < a \<Longrightarrow> n = 1 \<Longrightarrow> passes (cmp_ok_at_loc a ''>'' b name) n (\<lambda>r. r)"
  by (rule passes_cmp_ok[of _ _ _ 1]) (simp_all add: compared_def)

lemma passes_in_turn_Nil: "n = 0 \<Longrightarrow> passes (in_turn []) n (\<lambda>_. True)"
  by (simp add: passes_give)

lemma passes_in_turn_Cons:
  "passes m n P \<Longrightarrow> passes (in_turn ms) (N - n) (\<lambda>_. True) \<Longrightarrow> n \<le> N \<Longrightarrow> passes (in_turn (m # ms)) N (\<lambda>_. True)"
  unfolding in_turn.simps by (rule passes_then)

text \<open>The exit code is 0, \<open>n\<close> tests ran, and none failed.\<close>

definition succeeds :: "(int \<times> tap) run \<Rightarrow> nat \<Rightarrow> bool" where
  "succeeds p n \<longleftrightarrow> (\<exists>t. p = Done (0, t) \<and> current_test t = n \<and> failed_tests t = 0)"

lemma succeeds_main: "passes tests n P \<Longrightarrow> succeeds (test_main tests) n"
proof -
  assume p: "passes tests n P"
  let ?t = "fresh_tap\<lparr>expected_tests := NO_PLAN\<rparr>"
  have "todo_mesg ?t = None" by (simp add: fresh_tap_def)
  from p[unfolded passes_def, rule_format, OF this] obtain x t' where "tests ?t = Done (Inr x, t')"
    "current_test t' = current_test ?t + n" "failed_tests t' = failed_tests ?t" "expected_tests t' = expected_tests ?t"
    by blast
  moreover have "current_test ?t = 0" "failed_tests ?t = 0" "expected_tests ?t = NO_PLAN" by (simp_all add: fresh_tap_def)
  ultimately show ?thesis
    by (simp add: succeeds_def test_main_def tap_plan_def then_prog_def bind_prog_def give_def exit_status_def write_out_def)
qed

end
