(* ===== verification/TestHelper.thy ===== *)
theory TestHelper
  imports Tap EntryTyping FormatFiles
begin

text \<open>
  \<^verbatim>\<open>libmaxminddb/t/maxminddb_test_helper.c\<close>: opening a test database, looking addresses up and reading values, with a test
  result for each step; and what these functions do on a database that has the values.
\<close>

section \<open>The surroundings of a test program\<close>

text \<open>
  Whether the program is started in the directory \<^verbatim>\<open>t\<close>, which files may be read, the files by path, \<open>getaddrinfo\<close> and
  the texts of its errors, the message about two floating point numbers that differ; the allocations that succeed, those
  of the test programs by what they are for; the size of a page, and the bound on recursions.
\<close>

record test_env =
  in_test_dir :: bool
  may_read :: "u8 list \<Rightarrow> bool"
  files_at :: "u8 list \<Rightarrow> file_system"
  resolver :: getaddrinfo
  gai_message :: "int \<Rightarrow> u8 list"
  difference_text :: "u64 \<Rightarrow> u64 \<Rightarrow> u8 list"
  test_malloc :: "string \<Rightarrow> bool"
  lib_malloc :: "alloc_site \<Rightarrow> bool"
  path_malloc :: "nat \<Rightarrow> bool"
  node_calloc :: "nat \<Rightarrow> bool"
  text_malloc :: "nat \<Rightarrow> bool"
  page_size :: nat
  depth_bound :: nat

section \<open>Strings\<close>

text \<open>
  The C library's \<open>strlen\<close>. A file that is mapped ends with zero bytes up to the end of its last page, so a string that
  runs to the end of the file ends there, unless the file fills its pages.
\<close>

definition strlen :: "nat \<Rightarrow> cptr \<Rightarrow> nat run" where
  "strlen page p =
     (case p of Null \<Rightarrow> Fault
      | Ptr b i \<Rightarrow>
        if 0 \<in> set (drop i b) then Done (length (takeWhile (\<lambda>c. c \<noteq> 0) (drop i b)))
        else if i \<le> length b \<and> length b mod page \<noteq> 0 then Done (length b - i)
        else Fault)"

text \<open>The string at a pointer, as \<open>is\<close> and \<open>strcmp\<close> read it.\<close>

definition string_at :: "test_env \<Rightarrow> cptr \<Rightarrow> u8 list run" where
  "string_at env p = bind_run (strlen (page_size env) p) (\<lambda>n. copy_bytes p n)"

text \<open>The program's own \<open>strndup\<close>, which takes the length of the whole string first.\<close>

definition strndup :: "test_env \<Rightarrow> cptr \<Rightarrow> nat \<Rightarrow> u8 list option run" where
  "strndup env s n =
     bind_run (strlen (page_size env) s) (\<lambda>len.
     let len = (if n < len then n else len) in
     if \<not> test_malloc env ''strndup'' then Done None
     else bind_run (copy_bytes s len) (\<lambda>result. Done (Some result)))"

text \<open>\<open>strndup (data.utf8_string, data.data_size)\<close>\<close>

definition strndup_data :: "test_env \<Rightarrow> MMDB_entry_data_s \<Rightarrow> u8 list option run" where
  "strndup_data env data =
     bind_run (union_utf8_string (entry_value data)) (\<lambda>p.
     bind_run (size_of_entry data) (\<lambda>n. strndup env p (unat n)))"

definition dup_entry_string_or_bail :: "test_env \<Rightarrow> MMDB_entry_data_s \<Rightarrow> u8 list prog" where
  "dup_entry_string_or_bail env entry_data =
     bind_prog (call (strndup_data env entry_data)) (\<lambda>string.
     case string of None \<Rightarrow> bail_out (c_bytes ''strndup failed'') | Some s \<Rightarrow> give s)"

section \<open>Databases\<close>

text \<open>\<open>snprintf\<close> into a buffer of \<open>n\<close> bytes.\<close>

definition clipped :: "nat \<Rightarrow> u8 list \<Rightarrow> u8 list" where
  "clipped n s = take (n - 1) s"

definition for_all_record_sizes :: "(nat \<Rightarrow> u8 list) \<Rightarrow> (nat \<Rightarrow> u8 list \<Rightarrow> u8 list \<Rightarrow> unit prog) \<Rightarrow> unit prog" where
  "for_all_record_sizes filename_fmt tests =
     in_turn (map (\<lambda>size. tests size (clipped 500 (filename_fmt size)) (clipped 14 (print_nat size @ c_bytes '' bit record'')))
       [24, 28, 32])"

definition for_all_modes :: "(u32 \<Rightarrow> u8 list \<Rightarrow> unit prog) \<Rightarrow> unit prog" where
  "for_all_modes tests = tests MMDB_MODE_MMAP (c_bytes ''mmap mode'')"

definition database_path :: "test_env \<Rightarrow> u8 list \<Rightarrow> u8 list" where
  "database_path env file =
     clipped 500 (c_bytes (if in_test_dir env then ''./maxmind-db/test-data'' else ''./t/maxmind-db/test-data'') @ c_bytes ''/'' @ file)"

text \<open>A failing \<open>assert\<close> aborts the program.\<close>

definition test_database_path :: "test_env \<Rightarrow> u8 list \<Rightarrow> u8 list prog" where
  "test_database_path env file =
     (if test_malloc env ''path'' then give (database_path env file) else exits 134)"

definition open_ok :: "test_env \<Rightarrow> u8 list \<Rightarrow> u32 \<Rightarrow> u8 list \<Rightarrow> MMDB_s option prog" where
  "open_ok env db_file mode mode_desc =
     (if \<not> may_read env db_file then
        bail_out (c_bytes ''could not read the specified file - '' @ db_file @ [newline]
          @ c_bytes ''If you are in a git checkout try running '' @ [0x27] @ c_bytes ''git submodule update --init'' @ [0x27])
      else if \<not> test_malloc env ''handle'' then
        bail_out (c_bytes ''could not allocate memory for our MMDB_s struct'')
      else
        bind_prog (call (MMDB_open (lib_malloc env) (files_at env db_file) (depth_bound env) db_file mode zero_mmdb))
          (\<lambda>(status, rs, mmdb).
        bind_prog (ok (status = MMDB_SUCCESS) (c_bytes ''open '' @ db_file @ c_bytes '' status is success - '' @ mode_desc)) (\<lambda>is_ok.
        if \<not> is_ok then
          then_prog (diag (c_bytes ''open status code = '' @ print_int (status_code status) @ c_bytes '' (''
            @ c_bytes (MMDB_strerror (status_code status)) @ c_bytes '')'')) (give None)
        else
          then_prog (ok True (c_bytes ''returned mmdb struct is not null for '' @ db_file @ c_bytes '' - '' @ mode_desc))
            (give (Some mmdb)))))"

text \<open>A handle that is used without a test for the null pointer.\<close>

definition handle_at :: "MMDB_s option \<Rightarrow> MMDB_s prog" where
  "handle_at mmdb = (case mmdb of None \<Rightarrow> call Fault | Some h \<Rightarrow> give h)"

text \<open>\<open>MMDB_close (mmdb); free (mmdb);\<close>\<close>

definition close_and_free :: "MMDB_s \<Rightarrow> unit prog" where
  "close_and_free mmdb = then_prog (call (MMDB_close mmdb)) (give ())"

section \<open>Lookups\<close>

definition test_lookup_errors ::
  "test_env \<Rightarrow> int \<Rightarrow> status option \<Rightarrow> string \<Rightarrow> string \<Rightarrow> u8 list \<Rightarrow> u8 list \<Rightarrow> unit prog" where
  "test_lookup_errors env gai_error mmdb_error func ip file mode_desc =
     (let where_from = c_bytes func @ c_bytes '' for '' @ c_bytes ip @ c_bytes '' - '' @ file @ c_bytes '' - '' @ mode_desc in
      bind_prog (ok (gai_error = 0) (c_bytes ''no getaddrinfo error in call to '' @ where_from)) (\<lambda>is_ok.
      then_prog
        (if \<not> is_ok then diag (c_bytes ''error from call to getaddrinfo for '' @ c_bytes ip @ c_bytes '' - '' @ gai_message env gai_error)
         else give ())
        (case mmdb_error of None \<Rightarrow> call Fault
         | Some st \<Rightarrow>
           bind_prog (ok (st = MMDB_SUCCESS) (c_bytes ''no MMDB error in call to '' @ where_from)) (\<lambda>is_ok.
             if \<not> is_ok then diag (c_bytes ''MMDB error - '' @ c_bytes (MMDB_strerror (status_code st))) else give ()))))"

definition lookup_string_ok ::
  "test_env \<Rightarrow> MMDB_s \<Rightarrow> string \<Rightarrow> u8 list \<Rightarrow> u8 list \<Rightarrow> (MMDB_lookup_result_s \<times> MMDB_s) prog" where
  "lookup_string_ok env mmdb ip file mode_desc =
     bind_prog (call (MMDB_lookup_string (resolver env) mmdb ip None)) (\<lambda>(result, gai_error, mmdb_error, mmdb).
     then_prog (test_lookup_errors env gai_error mmdb_error ''MMDB_lookup_string'' ip file mode_desc) (give (result, mmdb)))"

text \<open>Only an address that begins with a colon is taken for IPv6; \<open>mmdb_error\<close> starts as 0, success.\<close>

definition lookup_sockaddr_ok ::
  "test_env \<Rightarrow> MMDB_s \<Rightarrow> string \<Rightarrow> u8 list \<Rightarrow> u8 list \<Rightarrow> (MMDB_lookup_result_s \<times> MMDB_s) prog" where
  "lookup_sockaddr_ok env mmdb ip file mode_desc =
     (let hints =
        (if take 1 ip = '':'' then \<lparr>ai_numerichost = True, ai_v4mapped = True, ai_family = AF_INET6\<rparr>
         else \<lparr>ai_numerichost = True, ai_v4mapped = False, ai_family = AF_INET\<rparr>) in
      case resolver env ip hints of (gai_error, addresses) \<Rightarrow>
      bind_prog
        (if gai_error = 0 then
           (case addresses of None \<Rightarrow> call Fault
            | Some ai_addr \<Rightarrow> call (MMDB_lookup_sockaddr mmdb ai_addr (Some MMDB_SUCCESS)))
         else give (no_result, Some MMDB_SUCCESS, mmdb)) (\<lambda>(result, mmdb_error, mmdb).
      then_prog (test_lookup_errors env gai_error mmdb_error ''MMDB_lookup_sockaddr'' ip file mode_desc) (give (result, mmdb))))"

section \<open>Values\<close>

text \<open>\<open>data_ok\<close>, with the arguments behind the description, the null pointer that ends them included.\<close>

definition entry_data_ok ::
  "test_env \<Rightarrow> MMDB_s \<Rightarrow> MMDB_lookup_result_s \<Rightarrow> u32 \<Rightarrow> u8 list \<Rightarrow> string option list \<Rightarrow> MMDB_entry_data_s prog" where
  "entry_data_ok env mmdb result expect_type description keys =
     bind_prog (call (MMDB_vget_value (path_malloc env) (depth_bound env) mmdb (entry result) uninit_entry_data keys))
       (\<lambda>(status, data).
     bind_prog (cmp_ok_at_loc (status_code status) ''=='' (status_code MMDB_SUCCESS)
       (c_bytes ''no error from call to MMDB_vget_value - '' @ description)) (\<lambda>is_ok.
     then_prog
       (if is_ok then
          bind_prog (ok (data_type data = expect_type) (c_bytes ''got the expected data type - '' @ description)) (\<lambda>is_ok.
            if \<not> is_ok then diag (c_bytes ''  data type value is '' @ print_int (sint (data_type data)) @ c_bytes '' but expected ''
              @ print_int (sint expect_type))
            else give ())
        else diag (c_bytes ''  error from MMDB_vget_value - '' @ c_bytes (MMDB_strerror (status_code status))))
       (give data)))"

text \<open>
  A floating point number as a fraction, nothing for infinities and what is no number. Two numbers whose difference is
  below the \<open>double\<close> next to 0.01 are near each other; their difference is exact then, and rounding a larger one does not
  bring it below that number.
\<close>

definition ieee_fraction :: "nat \<Rightarrow> nat \<Rightarrow> nat \<Rightarrow> (int \<times> int) option" where
  "ieee_fraction eb fb w =
     (let sgn = (if w div 2 ^ (eb + fb) mod 2 = 1 then - 1 else 1);
          ex = w div 2 ^ fb mod 2 ^ eb; fr = w mod 2 ^ fb; bias = 2 ^ (eb - 1) - 1 + fb;
          m = int (if ex = 0 then fr else 2 ^ fb + fr); e = (if ex = 0 then 1 else ex) in
      if ex = 2 ^ eb - 1 then None
      else if bias \<le> e then Some (sgn * m * 2 ^ (e - bias), 1)
      else Some (sgn * m, 2 ^ (bias - e)))"

definition near :: "(int \<times> int) option \<Rightarrow> (int \<times> int) option \<Rightarrow> bool" where
  "near got expect =
     (case (got, expect) of
        (Some (a, b), Some (c, d)) \<Rightarrow> \<bar>a * d - c * b\<bar> * 2 ^ 59 < 5764607523034235 * (b * d)
      | _ \<Rightarrow> False)"

definition compare_double :: "test_env \<Rightarrow> u64 \<Rightarrow> u64 \<Rightarrow> unit prog" where
  "compare_double env got expect =
     bind_prog (ok (near (ieee_fraction 11 52 (unat got)) (ieee_fraction 11 52 (unat expect)))
       (c_bytes ''double value was approximately '' @ print_double expect)) (\<lambda>is_ok.
     if \<not> is_ok then diag (difference_text env got expect) else give ())"

text \<open>\<open>%2.1f\<close>: one digit behind the point.\<close>

definition print_tenths :: "u32 \<Rightarrow> u8 list" where
  "print_tenths w =
     (case ieee_fraction 8 23 (unat w) of None \<Rightarrow> print_float w
      | Some (a, b) \<Rightarrow> let n = round_even (nat \<bar>a\<bar> * 10) (nat b) in
          (if unat w div 2 ^ 31 = 1 then [0x2D] else []) @ print_nat (n div 10) @ [0x2E] @ print_nat (n mod 10))"

definition compare_float :: "test_env \<Rightarrow> u32 \<Rightarrow> u32 \<Rightarrow> unit prog" where
  "compare_float env got expect =
     bind_prog (ok (near (ieee_fraction 8 23 (unat got)) (ieee_fraction 8 23 (unat expect)))
       (c_bytes ''float value was approximately '' @ print_tenths expect)) (\<lambda>is_ok.
     if \<not> is_ok then diag (difference_text env (ucast got) (ucast expect)) else give ())"

text \<open>The number of an entry, compared.\<close>

definition double_is :: "test_env \<Rightarrow> u64 \<Rightarrow> MMDB_entry_data_s \<Rightarrow> unit prog" where
  "double_is env expect data = bind_prog (call (union_low 8 (entry_value data))) (\<lambda>n. compare_double env (word_of_nat n) expect)"

definition float_is :: "test_env \<Rightarrow> u32 \<Rightarrow> MMDB_entry_data_s \<Rightarrow> unit prog" where
  "float_is env expect data = bind_prog (call (union_low 4 (entry_value data))) (\<lambda>n. compare_float env (word_of_nat n) expect)"

end
