(* ===== verification/TestRules.thy ===== *)
theory TestRules
  imports TestHelper
begin

text \<open>
  What the functions of the test helper do on a database that has the values: the rules from which every test program is
  proved to pass.
\<close>

section \<open>Databases that have what is looked up\<close>

text \<open>Memory is there, for 16 levels of recursion as well.\<close>

definition memory_ok :: "test_env \<Rightarrow> bool" where
  "memory_ok env \<longleftrightarrow> (\<forall>s. test_malloc env s) \<and> lib_malloc env = (\<lambda>_. True) \<and> path_malloc env = (\<lambda>_. True)
     \<and> node_calloc env = (\<lambda>_. True) \<and> text_malloc env = (\<lambda>_. True) \<and> 16 \<le> depth_bound env"

abbreviation test_file :: "test_env \<Rightarrow> string \<Rightarrow> file_system" where
  "test_file env file \<equiv> files_at env (database_path env (c_bytes file))"

text \<open>The file may be read and opened as a database, and its offsets are positive numbers as \<open>int\<close>.\<close>

definition has_database :: "test_env \<Rightarrow> string \<Rightarrow> bool" where
  "has_database env file \<longleftrightarrow> may_read env (database_path env (c_bytes file))
     \<and> length (file_bytes (test_file env file)) < 2 ^ 31
     \<and> length (file_bytes (test_file env file)) mod page_size env \<noteq> 0
     \<and> (\<exists>h. file_opens (depth_bound env) (test_file env file) (database_path env (c_bytes file)) h)"

text \<open>An address that is looked up as a string is in a database with a value, or is not in it.\<close>

definition in_database :: "test_env \<Rightarrow> string \<Rightarrow> string \<Rightarrow> field \<Rightarrow> bool" where
  "in_database env file ip v \<longleftrightarrow> (\<exists>sa. resolve_any_address (resolver env) ip = (0, Some sa)
     \<and> file_shows (depth_bound env) (test_file env file) (database_path env (c_bytes file)) sa v)"

definition not_in_database :: "test_env \<Rightarrow> string \<Rightarrow> string \<Rightarrow> bool" where
  "not_in_database env file ip \<longleftrightarrow> (\<exists>sa. resolve_any_address (resolver env) ip = (0, Some sa)
     \<and> file_lacks (depth_bound env) (test_file env file) (database_path env (c_bytes file)) sa)"

text \<open>A handle of a test database, and an entry in it that holds a value.\<close>

definition handle_of :: "test_env \<Rightarrow> string \<Rightarrow> MMDB_s \<Rightarrow> bool" where
  "handle_of env file h \<longleftrightarrow> memory_ok env \<and> has_database env file
     \<and> serves (depth_bound env) (test_file env file) (database_path env (c_bytes file)) h"

definition entry_tells :: "test_env \<Rightarrow> MMDB_s \<Rightarrow> MMDB_entry_s \<Rightarrow> field \<Rightarrow> bool" where
  "entry_tells env h entr v \<longleftrightarrow> 0 < sint (entry_offset entr) \<and> fdepth v \<le> depth_bound env
     \<and> (\<exists>e. field_at (data_section h) (unat (entry_offset entr)) v e)"

lemma handle_ofD:
  assumes "handle_of env file h"
  shows "memory_ok env" "16 \<le> depth_bound env" "data_ok h" "arrays_ok h"
    "data_section h = Ptr (file_bytes (test_file env file)) (nodes_of h * node_size h)"
    "length (file_bytes (test_file env file)) mod page_size env \<noteq> 0"
  using assms serves_ok(3-5)[of "depth_bound env" "test_file env file" "database_path env (c_bytes file)" h]
  by (simp_all add: handle_of_def memory_ok_def has_database_def)

section \<open>Opening and closing\<close>

lemma passes_for_all_modes: "passes (tests MMDB_MODE_MMAP (c_bytes ''mmap mode'')) n P \<Longrightarrow> passes (for_all_modes tests) n P"
  by (simp add: for_all_modes_def)

lemma passes_path:
  "memory_ok env \<Longrightarrow> n = 0 \<Longrightarrow> passes (test_database_path env file) n (\<lambda>p. p = database_path env file)"
  by (simp add: test_database_path_def memory_ok_def passes_give)

lemma passes_open_ok:
  assumes "memory_ok env" "has_database env file" "n = 2"
  shows "passes (open_ok env (database_path env (c_bytes file)) MMDB_MODE_MMAP mode_desc) n
    (\<lambda>r. \<exists>h. r = Some h \<and> handle_of env file h
       \<and> file_opens (depth_bound env) (test_file env file) (database_path env (c_bytes file)) h)"
proof -
  let ?p = "database_path env (c_bytes file)"
  from assms(1,2) obtain h where r: "may_read env ?p" "test_malloc env ''handle''" "lib_malloc env = (\<lambda>_. True)"
    "4 \<le> depth_bound env" and o: "file_opens (depth_bound env) (files_at env ?p) ?p h"
    by (auto simp: has_database_def memory_ok_def)
  have "handle_of env file h" using assms(1,2) serves_opened[OF o r(4)] by (simp add: handle_of_def)
  with o show ?thesis
    using file_opens_open[OF o r(4), of zero_mmdb] r assms(3) unfolding open_ok_def
    by (auto simp: passes_def prog_defs)
qed

lemma passes_handle_at: "mmdb = Some h \<Longrightarrow> n = 0 \<Longrightarrow> passes (handle_at mmdb) n (\<lambda>h'. h' = h)"
  by (simp add: handle_at_def passes_give)

lemma passes_close:
  assumes "handle_of env file h" "n = 0"
  shows "passes (close_and_free h) n (\<lambda>_. True)"
proof -
  have "arrays_ok h" by (rule handle_ofD(4)[OF assms(1)])
  then have "MMDB_close h = Done (held h, closed_handle h)" by (simp add: MMDB_close_def free_mmdb_struct_held)
  then show ?thesis using assms(2) by (simp add: close_and_free_def passes_def prog_defs)
qed

section \<open>Lookups\<close>

lemma passes_lookup_errors:
  "gai_error = 0 \<Longrightarrow> mmdb_error = Some MMDB_SUCCESS \<Longrightarrow> n = 2 \<Longrightarrow>
    passes (test_lookup_errors env gai_error mmdb_error func ip file mode_desc) n (\<lambda>_. True)"
  by (simp add: test_lookup_errors_def passes_def prog_defs)

lemma sint_positive: "0 < unat w \<Longrightarrow> unat w < 2 ^ 31 \<Longrightarrow> 0 < sint (w :: u32)"
proof -
  assume w: "0 < unat w" "unat w < 2 ^ 31"
  have "int 0 < int (unat w)" "int (unat w) < int (2 ^ 31)" using w by (simp_all only: of_nat_less_iff)
  then have "0 < uint w" "uint w < 2 ^ 31" by simp_all
  then have "signed_take_bit 31 (uint w) = uint w" by (intro signed_take_bit_int_eq_self) simp_all
  then show ?thesis using \<open>0 < uint w\<close> by (simp add: sint_uint)
qed

text \<open>The address that a string stands for is in the database.\<close>

lemma sockaddr_in_database:
  assumes h: "handle_of env file h" and i: "in_database env file ip v"
  obtains sa where "resolve_any_address (resolver env) ip = (0, Some sa)"
    "\<not> (ip_version (metadata h) = 4 \<and> family sa = AF_INET6)"
    "\<And>err. \<exists>res h'. MMDB_lookup_sockaddr h sa err = Done (res, Some MMDB_SUCCESS, h') \<and> handle_of env file h'
       \<and> found_entry res \<and> entry_tells env h' (entry res) v \<and> metadata h' = metadata h"
proof -
  obtain sa where sa: "resolve_any_address (resolver env) ip = (0, Some sa)"
    "file_shows (depth_bound env) (test_file env file) (database_path env (c_bytes file)) sa v"
    using i by (auto simp: in_database_def)
  have s: "serves (depth_bound env) (test_file env file) (database_path env (c_bytes file)) h" "4 \<le> depth_bound env"
    using h by (simp_all add: handle_of_def memory_ok_def)
  have "\<exists>res h'. MMDB_lookup_sockaddr h sa err = Done (res, Some MMDB_SUCCESS, h') \<and> handle_of env file h'
       \<and> found_entry res \<and> entry_tells env h' (entry res) v \<and> metadata h' = metadata h" for err
  proof -
    obtain res h' e where l: "MMDB_lookup_sockaddr h sa err = Done (res, Some MMDB_SUCCESS, h')"
      "serves (depth_bound env) (test_file env file) (database_path env (c_bytes file)) h'" "found_entry res"
      "0 < unat (entry_offset (entry res))" "entry_offset (entry res) \<le> data_section_size h'"
      "field_at (data_section h') (unat (entry_offset (entry res))) v e" "metadata h' = metadata h"
      using serves_lookup(1)[OF s(1) sa(2) s(2), of err] by blast
    have "length (file_bytes (test_file env file)) < 2 ^ 31" using h by (simp add: handle_of_def has_database_def)
    then have "unat (entry_offset (entry res)) < 2 ^ 31"
      using l(5) serves_ok(6)[OF l(2) s(2)] by (simp add: word_le_nat_alt)
    then have "0 < sint (entry_offset (entry res))" by (rule sint_positive[OF l(4)])
    moreover have "fdepth v \<le> depth_bound env" using sa(2) by (simp add: file_shows_def)
    ultimately show ?thesis using l h by (auto simp: handle_of_def entry_tells_def)
  qed
  then show ?thesis using that[OF sa(1)] serves_lookup(2)[OF s(1) sa(2) s(2)] by blast
qed

lemma lookup_string_in_database:
  assumes h: "handle_of env file h" and i: "in_database env file ip v"
  shows "\<exists>res h'. MMDB_lookup_string (resolver env) h ip err = Done (res, 0, Some MMDB_SUCCESS, h') \<and> handle_of env file h'
    \<and> found_entry res \<and> entry_tells env h' (entry res) v \<and> metadata h' = metadata h"
proof -
  obtain sa where sa: "resolve_any_address (resolver env) ip = (0, Some sa)"
    "\<not> (ip_version (metadata h) = 4 \<and> family sa = AF_INET6)"
    "\<exists>res h'. MMDB_lookup_sockaddr h sa err = Done (res, Some MMDB_SUCCESS, h') \<and> handle_of env file h'
       \<and> found_entry res \<and> entry_tells env h' (entry res) v \<and> metadata h' = metadata h"
    using sockaddr_in_database[OF h i] by metis
  then show ?thesis by (auto simp: MMDB_lookup_string_def)
qed

text \<open>The two lookups of the helper resolve an address alike, unless it has a colon that it does not begin with.\<close>

definition plain_address :: "string \<Rightarrow> bool" where
  "plain_address ip \<longleftrightarrow> (take 1 ip = '':'' \<longleftrightarrow> CHR '':'' \<in> set ip)"

lemma resolve_plain:
  "plain_address ip \<Longrightarrow> resolve_any_address gai ip = (0, Some sa) \<Longrightarrow>
    gai ip (if take 1 ip = '':'' then \<lparr>ai_numerichost = True, ai_v4mapped = True, ai_family = AF_INET6\<rparr>
      else \<lparr>ai_numerichost = True, ai_v4mapped = False, ai_family = AF_INET\<rparr>) = (0, Some sa)"
  by (auto simp: plain_address_def resolve_any_address_def Let_def split: prod.splits if_splits)

lemma passes_lookup_sockaddr:
  assumes "handle_of env file h" "in_database env file ip v" "plain_address ip" "n = 2"
  shows "passes (lookup_sockaddr_ok env h ip name mode_desc) n
    (\<lambda>(res, h'). handle_of env file h' \<and> found_entry res \<and> entry_tells env h' (entry res) v \<and> metadata h' = metadata h)"
proof -
  obtain sa res h' where r: "resolve_any_address (resolver env) ip = (0, Some sa)"
    "MMDB_lookup_sockaddr h sa (Some MMDB_SUCCESS) = Done (res, Some MMDB_SUCCESS, h')" "handle_of env file h'"
    "found_entry res" "entry_tells env h' (entry res) v" "metadata h' = metadata h"
    using sockaddr_in_database[OF assms(1,2)] by metis
  show ?thesis
    unfolding lookup_sockaddr_ok_def Let_def resolve_plain[OF assms(3) r(1)] prod.case
    by (rule passes_bind[of _ 0 "\<lambda>x. x = (res, Some MMDB_SUCCESS, h')"], use r(2) in \<open>auto intro!: passes_call\<close>,
        rule passes_then[OF passes_lookup_errors[OF refl refl refl]])
      (use r(3-6) assms(4) in \<open>simp_all add: passes_give\<close>)
qed

lemma passes_lookup_string:
  assumes "handle_of env file h" "in_database env file ip v" "n = 2"
  shows "passes (lookup_string_ok env h ip name mode_desc) n
    (\<lambda>(res, h'). handle_of env file h' \<and> found_entry res \<and> entry_tells env h' (entry res) v \<and> metadata h' = metadata h)"
proof -
  obtain res h' where l: "MMDB_lookup_string (resolver env) h ip None = Done (res, 0, Some MMDB_SUCCESS, h')"
    "handle_of env file h'" "found_entry res" "entry_tells env h' (entry res) v" "metadata h' = metadata h"
    using lookup_string_in_database[OF assms(1,2), of None] by blast
  show ?thesis
    unfolding lookup_string_ok_def
    by (rule passes_call_bind[OF l(1)], unfold prod.case, rule passes_then[OF passes_lookup_errors[OF refl refl refl]])
      (use l(2-5) assms(3) in \<open>simp_all add: passes_give\<close>)
qed

lemma passes_lookup_string_missing:
  assumes "handle_of env file h" "not_in_database env file ip" "n = 2"
  shows "passes (lookup_string_ok env h ip name mode_desc) n
    (\<lambda>(res, h'). handle_of env file h' \<and> \<not> found_entry res \<and> metadata h' = metadata h)"
proof -
  obtain sa where sa: "resolve_any_address (resolver env) ip = (0, Some sa)"
    "file_lacks (depth_bound env) (test_file env file) (database_path env (c_bytes file)) sa"
    using assms(2) by (auto simp: not_in_database_def)
  have s: "serves (depth_bound env) (test_file env file) (database_path env (c_bytes file)) h" "4 \<le> depth_bound env"
    using assms(1) by (simp_all add: handle_of_def memory_ok_def)
  obtain res h' where l: "MMDB_lookup_string (resolver env) h ip None = Done (res, 0, Some MMDB_SUCCESS, h')"
    "handle_of env file h'" "\<not> found_entry res" "metadata h' = metadata h"
    using serves_miss(1)[OF s(1) sa(2) s(2), of None] serves_miss(2)[OF s(1) sa(2) s(2)] assms(1) sa(1)
    by (auto simp: MMDB_lookup_string_def handle_of_def)
  show ?thesis
    unfolding lookup_string_ok_def
    by (rule passes_call_bind[OF l(1)], unfold prod.case, rule passes_then[OF passes_lookup_errors[OF refl refl refl]])
      (use l(2-4) assms(3) in \<open>simp_all add: passes_give\<close>)
qed

lemma passes_lookup_sockaddr_missing:
  assumes "handle_of env file h" "not_in_database env file ip" "plain_address ip" "n = 2"
  shows "passes (lookup_sockaddr_ok env h ip name mode_desc) n
    (\<lambda>(res, h'). handle_of env file h' \<and> \<not> found_entry res \<and> metadata h' = metadata h)"
proof -
  obtain sa where sa: "resolve_any_address (resolver env) ip = (0, Some sa)"
    "file_lacks (depth_bound env) (test_file env file) (database_path env (c_bytes file)) sa"
    using assms(2) by (auto simp: not_in_database_def)
  have s: "serves (depth_bound env) (test_file env file) (database_path env (c_bytes file)) h" "4 \<le> depth_bound env"
    using assms(1) by (simp_all add: handle_of_def memory_ok_def)
  obtain res h' where l: "MMDB_lookup_sockaddr h sa (Some MMDB_SUCCESS) = Done (res, Some MMDB_SUCCESS, h')"
    "handle_of env file h'" "\<not> found_entry res" "metadata h' = metadata h"
    using serves_miss(1)[OF s(1) sa(2) s(2), of "Some MMDB_SUCCESS"] assms(1) by (auto simp: handle_of_def)
  show ?thesis
    unfolding lookup_sockaddr_ok_def Let_def resolve_plain[OF assms(3) sa(1)] prod.case
    by (rule passes_bind[of _ 0 "\<lambda>x. x = (res, Some MMDB_SUCCESS, h')"], use l(1) in \<open>auto intro!: passes_call\<close>,
        rule passes_then[OF passes_lookup_errors[OF refl refl refl]])
      (use l(2-4) assms(4) in \<open>simp_all add: passes_give\<close>)
qed

text \<open>A program that opens a database and looks up an address in it.\<close>

lemma passes_opened:
  assumes "memory_ok env" "has_database env file" "in_database env file ip v"
    and "\<And>h res. handle_of env file h \<Longrightarrow> found_entry res \<Longrightarrow> entry_tells env h (entry res) v \<Longrightarrow> passes (tests (res, h)) m P"
    and "n = m + 4"
  shows "passes (bind_prog (test_database_path env (c_bytes file)) (\<lambda>path.
     bind_prog (open_ok env path MMDB_MODE_MMAP mode_desc) (\<lambda>mmdb.
     bind_prog (handle_at mmdb) (\<lambda>mmdb.
     bind_prog (lookup_string_ok env mmdb ip name mode_desc) tests)))) n P"
proof (rule passes_bind[OF passes_path[OF assms(1) refl]], simp only:, rule passes_bind[OF passes_open_ok[OF assms(1,2) refl]], clarify)
  fix h
  assume h: "handle_of env file h"
  show "passes (bind_prog (handle_at (Some h)) (\<lambda>mmdb. bind_prog (lookup_string_ok env mmdb ip name mode_desc) tests)) (n - 0 - 2) P"
    by (rule passes_bind[OF passes_handle_at[OF refl refl]], simp only:, rule passes_bind[OF passes_lookup_string[OF h assms(3) refl]])
      (use assms(4,5) in auto)
qed (use assms(5) in simp_all)

section \<open>Values\<close>

lemma of_char_u8: "unat (of_char c :: u8) = of_char c"
proof -
  have "unat (word_of_nat (of_char c) :: u8) = of_char c" by (rule unat_word_of_nat) simp
  then show ?thesis by (simp only: of_nat_of_char)
qed

lemma c_bytes_inj [simp]: "c_bytes s = c_bytes t \<longleftrightarrow> s = t"
proof -
  have "inj (of_char :: char \<Rightarrow> u8)"
  proof (rule injI)
    fix c d :: char
    assume "(of_char c :: u8) = of_char d"
    then have "(of_char c :: nat) = of_char d" by (metis of_char_u8)
    then show "c = d" by (simp only: of_char_eq_iff)
  qed
  then show ?thesis unfolding c_bytes_def by (simp only: inj_map_eq_map)
qed

fun field_type :: "field \<Rightarrow> u32" where
  "field_type (F_string s) = MMDB_DATA_TYPE_UTF8_STRING"
| "field_type (F_double d) = MMDB_DATA_TYPE_DOUBLE"
| "field_type (F_bytes s) = MMDB_DATA_TYPE_BYTES"
| "field_type (F_uint16 w) = MMDB_DATA_TYPE_UINT16"
| "field_type (F_uint32 w) = MMDB_DATA_TYPE_UINT32"
| "field_type (F_map kvs) = MMDB_DATA_TYPE_MAP"
| "field_type (F_int32 w) = MMDB_DATA_TYPE_INT32"
| "field_type (F_uint64 w) = MMDB_DATA_TYPE_UINT64"
| "field_type (F_uint128 w) = MMDB_DATA_TYPE_UINT128"
| "field_type (F_array vs) = MMDB_DATA_TYPE_ARRAY"
| "field_type (F_boolean b) = MMDB_DATA_TYPE_BOOLEAN"
| "field_type (F_float w) = MMDB_DATA_TYPE_FLOAT"

text \<open>An entry of a handle that shows a value.\<close>

definition shows_in :: "MMDB_s \<Rightarrow> MMDB_entry_data_s \<Rightarrow> field \<Rightarrow> bool" where
  "shows_in h ed v \<longleftrightarrow> entry_shows ed v \<and> has_data ed \<and> string_inside h ed"

lemma shows_in_type: "shows_in h ed v \<Longrightarrow> data_type ed = field_type v"
  by (cases v) (simp_all add: shows_in_def)

lemma shows_in_has_data: "shows_in h ed v \<Longrightarrow> has_data ed"
  by (simp add: shows_in_def)

lemma shows_in_number:
  "shows_in h ed (F_uint16 a) \<Longrightarrow> union_low 2 (entry_value ed) = Done (unat a)"
  "shows_in h ed (F_uint32 b) \<Longrightarrow> union_low 4 (entry_value ed) = Done (unat b)"
  "shows_in h ed (F_int32 c) \<Longrightarrow> union_low 4 (entry_value ed) = Done (unat c)"
  "shows_in h ed (F_uint64 d) \<Longrightarrow> union_low 8 (entry_value ed) = Done (unat d)"
  "shows_in h ed (F_uint128 e) \<Longrightarrow> union_low 16 (entry_value ed) = Done (unat e)"
  "shows_in h ed (F_double f) \<Longrightarrow> union_low 8 (entry_value ed) = Done (unat f)"
  "shows_in h ed (F_float g) \<Longrightarrow> union_low 4 (entry_value ed) = Done (unat g)"
  "shows_in h ed (F_boolean k) \<Longrightarrow> union_low 1 (entry_value ed) = Done (of_bool k)"
  by (simp_all add: shows_in_def)

lemma shows_in_size:
  "shows_in h ed (F_map kvs) \<Longrightarrow> size_of_entry ed = Done (word_of_nat (length kvs)) \<and> length kvs \<le> max_size"
  "shows_in h ed (F_array vs) \<Longrightarrow> size_of_entry ed = Done (word_of_nat (length vs)) \<and> length vs \<le> max_size"
  "shows_in h ed (F_string s) \<Longrightarrow> size_of_entry ed = Done (word_of_nat (length s)) \<and> length s \<le> max_size"
  "shows_in h ed (F_bytes s) \<Longrightarrow> size_of_entry ed = Done (word_of_nat (length s)) \<and> length s \<le> max_size"
  by (simp_all add: shows_in_def)

fun field_number :: "field \<Rightarrow> (nat \<times> nat) option" where
  "field_number (F_uint16 w) = Some (2, unat w)"
| "field_number (F_uint32 w) = Some (4, unat w)"
| "field_number (F_int32 w) = Some (4, unat w)"
| "field_number (F_uint64 w) = Some (8, unat w)"
| "field_number (F_uint128 w) = Some (16, unat w)"
| "field_number (F_boolean b) = Some (1, of_bool b)"
| "field_number (F_double w) = Some (8, unat w)"
| "field_number (F_float w) = Some (4, unat w)"
| "field_number _ = None"

lemma shows_in_low: "shows_in h ed w \<Longrightarrow> field_number w = Some (k, n) \<Longrightarrow> union_low k (entry_value ed) = Done n"
  by (cases w) (auto dest: shows_in_number)

fun field_length :: "field \<Rightarrow> nat option" where
  "field_length (F_map kvs) = Some (length kvs)"
| "field_length (F_array vs) = Some (length vs)"
| "field_length (F_string s) = Some (length s)"
| "field_length (F_bytes s) = Some (length s)"
| "field_length _ = None"

lemma shows_in_length: "shows_in h ed w \<Longrightarrow> field_length w = Some n \<Longrightarrow> size_of_entry ed = Done (word_of_nat n) \<and> n \<le> max_size"
  by (cases w) (auto dest!: shows_in_size simp del: size_of_entry.simps)

text \<open>The value at a path.\<close>

lemma vget_value_in_entry:
  assumes h: "handle_of env file h" and e: "entry_tells env h entr v" and g: "field_get v path = Inr w"
  shows "\<exists>ed. MMDB_aget_value (depth_bound env) h entr path = Done (MMDB_SUCCESS, ed) \<and> shows_in h ed w"
    "\<exists>ed. MMDB_vget_value (path_malloc env) (depth_bound env) h entr garbage (map Some path @ [None])
      = Done (MMDB_SUCCESS, ed) \<and> shows_in h ed w"
proof -
  obtain e' where at: "field_at (data_section h) (unat (entry_offset entr)) v e'" and d: "fdepth v \<le> depth_bound env"
    using e by (auto simp: entry_tells_def)
  obtain ed where ed: "MMDB_aget_value (depth_bound env) h entr path = Done (MMDB_SUCCESS, ed)" "entry_shows ed w" "has_data ed"
    using aget_value_gives[OF handle_ofD(3)[OF h] at d, of path] g by (auto simp: gives_Inr entry_at_def)
  have i: "shows_in h ed w" using ed inside.value_at_path_ok[OF ed(1)] by (simp add: shows_in_def)
  then show "\<exists>ed. MMDB_aget_value (depth_bound env) h entr path = Done (MMDB_SUCCESS, ed) \<and> shows_in h ed w"
    using ed(1) by blast
  have "MMDB_vget_value (path_malloc env) (depth_bound env) h entr garbage (map Some path @ [None])
      = MMDB_aget_value (depth_bound env) h entr path"
    using handle_ofD(1)[OF h] path_length_list[of path "[]"] collect_path_list[of path "[]"]
    by (simp add: MMDB_vget_value_def memory_ok_def)
  then show "\<exists>ed. MMDB_vget_value (path_malloc env) (depth_bound env) h entr garbage (map Some path @ [None])
      = Done (MMDB_SUCCESS, ed) \<and> shows_in h ed w"
    using ed(1) i by auto
qed

lemma passes_data_ok:
  assumes "handle_of env file h" "entry_tells env h (entry res) v" "field_get v path = Inr w"
    and "expect_type = field_type w" "keys = map Some path @ [None]" "n = 2"
  shows "passes (entry_data_ok env h res expect_type description keys) n (\<lambda>ed. shows_in h ed w)"
proof -
  obtain ed where ed: "MMDB_vget_value (path_malloc env) (depth_bound env) h (entry res) uninit_entry_data keys
      = Done (MMDB_SUCCESS, ed)" "shows_in h ed w"
    using vget_value_in_entry(2)[OF assms(1-3), of uninit_entry_data] assms(5) by blast
  show ?thesis
    unfolding entry_data_ok_def
    by (rule passes_call_bind[OF ed(1)])
      (use ed(2) shows_in_type[OF ed(2)] assms(4,6) in \<open>auto simp: passes_def cmp_ok_at_loc_def compared_def prog_defs\<close>)
qed

section \<open>Strings and numbers\<close>

text \<open>The data section is part of a mapped file with zeros behind it, so that every string ends.\<close>

definition strings_end :: "test_env \<Rightarrow> MMDB_s \<Rightarrow> bool" where
  "strings_end env h \<longleftrightarrow> memory_ok env \<and> (\<exists>b k. data_section h = Ptr b k \<and> length b mod page_size env \<noteq> 0)"

lemma handle_of_strings: "handle_of env file h \<Longrightarrow> strings_end env h"
  using handle_ofD(1,5,6) by (auto simp: strings_end_def)

text \<open>Strings without a zero byte are what their C strings are.\<close>

lemma strlen_stored:
  assumes s: "stored (Ptr b i) s" "0 \<notin> set s" "s = [] \<Longrightarrow> i \<le> length b"
    and p: "0 \<in> set (drop i b) \<or> length b mod page \<noteq> 0"
  shows "\<exists>n. strlen page (Ptr b i) = Done n \<and> length s \<le> n"
proof -
  have "readable (Ptr b i) (length s)" by (rule stored_readable[OF s(1)])
  then have l: "s \<noteq> [] \<longrightarrow> i + length s \<le> length b" by auto
  have t: "take (length s) (drop i b) = s" using stored_bytes_at_eq[OF s(1)] by simp
  show ?thesis
  proof (cases "0 \<in> set (drop i b)")
    case True
    have "takeWhile (\<lambda>c. c \<noteq> 0) (s @ drop (length s) (drop i b)) = s @ takeWhile (\<lambda>c. c \<noteq> 0) (drop (length s) (drop i b))"
      using s(2) by (intro takeWhile_append2) auto
    moreover have "s @ drop (length s) (drop i b) = drop i b" using append_take_drop_id[of "length s" "drop i b"] t by simp
    ultimately show ?thesis using True by (simp add: strlen_def)
  next
    case False
    with p have "length b mod page \<noteq> 0" by blast
    then show ?thesis using l s(3) False by (cases "s = []") (auto simp: strlen_def)
  qed
qed

lemma copy_stored: "stored p s \<Longrightarrow> n = length s \<Longrightarrow> copy_bytes p n = Done s"
  using copy_bytes_readable[OF stored_readable, of p s] stored_bytes_at_eq[of p s] by simp

lemma shows_string:
  assumes h: "strings_end env h" and ed: "shows_in h ed (F_string s)" and z: "0 \<notin> set s"
  shows "\<exists>p n. entry_value ed = U_utf8_string p \<and> stored p s \<and> strlen (page_size env) p = Done n \<and> length s \<le> n"
    "strndup_data env ed = Done (Some s)"
proof -
  have "data_type ed = MMDB_DATA_TYPE_UTF8_STRING" "string_inside h ed" using ed by (simp_all add: shows_in_def)
  then obtain p where v: "entry_value ed = U_utf8_string p"
    and i: "p = Ptr [0] 0 \<or> data_size ed \<noteq> Some 0 \<and> (\<exists>k. p = ptr_add (data_section h) k)"
    by (auto simp: string_inside_def)
  have "stored p s" using ed v by (simp add: shows_in_def)
  note p = v this i
  have sz: "data_size ed = Some (word_of_nat (length s))" "length s \<le> max_size" using ed by (simp_all add: shows_in_def)
  obtain n where n: "strlen (page_size env) p = Done n" "length s \<le> n"
  proof (cases "p = Ptr [0] 0")
    case True
    then show ?thesis using that strlen_stored[of "[0]" 0 s "page_size env"] p(2) z by auto
  next
    case False
    obtain b k where b: "data_section h = Ptr b k" "length b mod page_size env \<noteq> 0" using h by (auto simp: strings_end_def)
    with False obtain i where "p = Ptr b (k + i)" and "s \<noteq> []" using p(3) sz(1) by (cases s) auto
    then show ?thesis using that strlen_stored[of b _ s "page_size env"] p(2) z b(2) by auto
  qed
  show "\<exists>p n. entry_value ed = U_utf8_string p \<and> stored p s \<and> strlen (page_size env) p = Done n \<and> length s \<le> n"
    using p n by blast
  have "unat (word_of_nat (length s) :: u32) = length s" using sz(2) by (intro unat_u32) simp
  moreover have "copy_bytes p (length s) = Done s" by (rule copy_stored[OF p(2) refl])
  ultimately show "strndup_data env ed = Done (Some s)"
    using p(1) n sz(1) h by (auto simp: strings_end_def strndup_data_def strndup_def memory_ok_def min_def)
qed

lemma passes_dup_entry_string:
  "strings_end env h \<Longrightarrow> shows_in h ed (F_string s) \<Longrightarrow> 0 \<notin> set s \<Longrightarrow> n = 0 \<Longrightarrow>
    passes (dup_entry_string_or_bail env ed) n (\<lambda>r. r = s)"
  unfolding dup_entry_string_or_bail_def
  by (rule passes_call_bind[OF shows_string(2)]) (auto intro: passes_give)

lemma near_self:
  assumes "w div 2 ^ fb mod 2 ^ eb \<noteq> 2 ^ eb - 1"
  shows "near (ieee_fraction eb fb w) (ieee_fraction eb fb w)"
proof -
  have "ieee_fraction eb fb w \<noteq> None" "\<And>a b. ieee_fraction eb fb w = Some (a, b) \<Longrightarrow> 0 < b"
    using assms by (auto simp: ieee_fraction_def Let_def split: if_splits)
  then show ?thesis by (auto simp: near_def split: option.split)
qed

lemma passes_compare_double:
  "near (ieee_fraction 11 52 (unat got)) (ieee_fraction 11 52 (unat expect)) \<Longrightarrow> n = 1 \<Longrightarrow>
    passes (compare_double env got expect) n (\<lambda>_. True)"
  unfolding compare_double_def by (rule passes_ok_bind) (simp_all add: passes_give)

lemma passes_compare_float:
  "near (ieee_fraction 8 23 (unat got)) (ieee_fraction 8 23 (unat expect)) \<Longrightarrow> n = 1 \<Longrightarrow>
    passes (compare_float env got expect) n (\<lambda>_. True)"
  unfolding compare_float_def by (rule passes_ok_bind) (simp_all add: passes_give)

lemma passes_double_is:
  "shows_in h ed (F_double d) \<Longrightarrow> near (ieee_fraction 11 52 (unat d)) (ieee_fraction 11 52 (unat expect)) \<Longrightarrow> n = 1 \<Longrightarrow>
    passes (double_is env expect ed) n (\<lambda>_. True)"
  unfolding double_is_def
  by (rule passes_call_bind[OF shows_in_number(6)], assumption, rule passes_compare_double) simp_all

lemma passes_float_is:
  "shows_in h ed (F_float d) \<Longrightarrow> near (ieee_fraction 8 23 (unat d)) (ieee_fraction 8 23 (unat expect)) \<Longrightarrow> n = 1 \<Longrightarrow>
    passes (float_is env expect ed) n (\<lambda>_. True)"
  unfolding float_is_def
  by (rule passes_call_bind[OF shows_in_number(7)], assumption, rule passes_compare_float) simp_all

end
