(* ===== verification/TestDatabases.thy ===== *)
theory TestDatabases
  imports TestRules WrittenNetworks
begin

text \<open>
  A directory of databases that are written for lists of networks, and the surroundings of a test program with it: what the
  test programs expect of their databases holds of some files.
\<close>

definition test_path :: "string \<Rightarrow> u8 list" where
  "test_path file = clipped 500 (c_bytes ''./maxmind-db/test-data'' @ c_bytes ''/'' @ c_bytes file)"

lemma test_path_eq: "length f \<le> 400 \<Longrightarrow> length g \<le> 400 \<Longrightarrow> test_path f = test_path g \<longleftrightarrow> f = g"
proof -
  have "length (c_bytes s) = length s" for s by (simp add: c_bytes_def)
  then show "length f \<le> 400 \<Longrightarrow> length g \<le> 400 \<Longrightarrow> test_path f = test_path g \<longleftrightarrow> f = g"
    by (simp add: test_path_def clipped_def)
qed

type_synonym disk = "(string \<times> file_metadata \<times> (bool list \<times> field) list) list"

fun find_file :: "disk \<Rightarrow> u8 list \<Rightarrow> file_system" where
  "find_file [] path = \<lparr>file_system.open_ok = False, file_bytes = [], mmap_failed = None\<rparr>"
| "find_file ((f, fm, nets) # disk) path =
     (if path = test_path f then database_file fm (network_tree nets) else find_file disk path)"

definition written_env :: "disk \<Rightarrow> (string \<times> sockaddr) list \<Rightarrow> test_env" where
  "written_env disk hosts =
     \<lparr>in_test_dir = True, may_read = (\<lambda>_. True), files_at = find_file disk,
      resolver = (\<lambda>s hints. case map_of hosts s of None \<Rightarrow> (- 2, None) | Some sa \<Rightarrow> (0, Some sa)),
      gai_message = (\<lambda>_. []), difference_text = (\<lambda>_ _. []), test_malloc = (\<lambda>_. True), lib_malloc = (\<lambda>_. True),
      path_malloc = (\<lambda>_. True), node_calloc = (\<lambda>_. True), text_malloc = (\<lambda>_. True), page_size = 65536, depth_bound = 16\<rparr>"

lemma written_memory [simp]: "memory_ok (written_env disk hosts)" "depth_bound (written_env disk hosts) = 16"
  by (simp_all add: memory_ok_def written_env_def)

lemma written_path: "database_path (written_env disk hosts) (c_bytes file) = test_path file"
  by (simp add: database_path_def test_path_def written_env_def)

definition on_disk :: "disk \<Rightarrow> string \<Rightarrow> file_metadata \<Rightarrow> (bool list \<times> field) list \<Rightarrow> bool" where
  "on_disk disk file fm nets \<longleftrightarrow> map_of disk file = Some (fm, nets) \<and> (\<forall>(f, w) \<in> set disk. length f \<le> 400) \<and> networks_fit fm nets"

lemma on_disk_file:
  assumes "on_disk disk file fm nets"
  shows "test_file (written_env disk hosts) file = database_file fm (network_tree nets)"
proof -
  have "find_file disk (test_path file) = database_file fm (network_tree nets)"
    if "map_of disk file = Some (fm, nets)" "\<forall>(f, w) \<in> set disk. length f \<le> 400" "length file \<le> 400"
    using that by (induction disk) (auto simp: test_path_eq split: if_splits)
  moreover have "length file \<le> 400" using assms unfolding on_disk_def by (auto dest!: map_of_SomeD)
  ultimately show ?thesis using assms by (simp add: on_disk_def written_path) (simp add: written_env_def)
qed

lemma on_disk_has_database: "on_disk disk file fm nets \<Longrightarrow> has_database (written_env disk hosts) file"
proof -
  assume d: "on_disk disk file fm nets"
  then have f: "networks_fit fm nets" by (simp add: on_disk_def)
  note w = networks_fit_writable[OF f]
  have "file_opens 16 (database_file fm (network_tree nets)) (test_path file)
      (written_handle fm (network_tree nets) (test_path file) MMDB_MODE_MMAP)"
    by (rule written_file_served[OF w(1)]) simp
  moreover have "may_read (written_env disk hosts) p" "page_size (written_env disk hosts) = 65536" for p
    by (simp_all add: written_env_def)
  ultimately show ?thesis
    using w(2,3) unfolding has_database_def on_disk_file[OF d] by (auto simp: written_path) (simp_all add: database_file_def)
qed

lemma resolve_written:
  "resolve_any_address (resolver (written_env disk hosts)) ip = (case map_of hosts ip of None \<Rightarrow> (- 2, None) | Some sa \<Rightarrow> (0, Some sa))"
  by (simp add: resolve_any_address_def written_env_def Let_def split: option.split)

lemma on_disk_value:
  assumes d: "on_disk disk file fm nets" and a: "map_of hosts ip = Some sa" "asked_bits (fm_ip_version fm) sa = Some bits"
    and l: "\<forall>(p, v) \<in> set nets. length p \<le> length bits"
  shows "network_of nets bits = Some v \<Longrightarrow> fdepth v \<le> 16 \<Longrightarrow> in_database (written_env disk hosts) file ip v"
    "network_of nets bits = None \<Longrightarrow> not_in_database (written_env disk hosts) file ip"
proof -
  have f: "networks_fit fm nets" using d by (simp add: on_disk_def)
  note w = written_file_shows[OF networks_fit_writable(1)[OF f] _ a(2) network_tree_depth[OF l], of 16]
  show "network_of nets bits = Some v \<Longrightarrow> fdepth v \<le> 16 \<Longrightarrow> in_database (written_env disk hosts) file ip v"
    using w(1) network_tree_finds[OF l] a(1)
    by (simp add: in_database_def resolve_written on_disk_file[OF d, unfolded written_path] written_path)
  show "network_of nets bits = None \<Longrightarrow> not_in_database (written_env disk hosts) file ip"
    using w(2) network_tree_finds[OF l] a(1)
    by (simp add: not_in_database_def resolve_written on_disk_file[OF d, unfolded written_path] written_path)
qed

text \<open>Networks that are whole bytes, as the bits of these bytes.\<close>

lemma byte_bits_eq: "byte_bits a = byte_bits b \<longleftrightarrow> a = b"
proof
  assume e: "byte_bits a = byte_bits b"
  have "byte_bits c ! (7 - n) = bit c n" if "n < 8" for n c
    using that by (subst byte_bits_def) (subst nth_map, simp_all)
  then have "bit a n = bit b n" if "n < 8" for n using e that by metis
  then show "a = b" by (auto intro!: bit_word_eqI)
qed simp

lemma prefix_addr_bits [simp]: "prefix (addr_bits xs) (addr_bits ys) \<longleftrightarrow> prefix xs ys"
proof (induction xs arbitrary: ys)
  case (Cons x xs)
  show ?case
  proof (cases ys)
    case Nil
    then show ?thesis using length_byte_bits[of x] by (auto simp: addr_bits_def simp del: length_byte_bits)
  next
    case (Cons y ys')
    have "prefix (byte_bits x @ addr_bits xs) (byte_bits y @ addr_bits ys') \<longleftrightarrow> x = y \<and> prefix (addr_bits xs) (addr_bits ys')"
      by (auto simp: prefix_def append_eq_append_conv byte_bits_eq)
    then show ?thesis using Cons.IH Cons by (simp add: addr_bits_def)
  qed
qed (simp add: addr_bits_def)

lemma network_of_simps [simp]:
  "network_of [] bits = None"
  "network_of ((p, v) # nets) bits = (if prefix p bits then Some v else network_of nets bits)"
  by (simp_all add: network_of_def)

end
