(* ===== verification/DecoderDatabase.thy ===== *)
theory DecoderDatabase
  imports TestDatabases
begin

text \<open>
  The values of the database \<open>MaxMind-DB-test-decoder.mmdb\<close> that several test programs read, one of every type, and a database
  with them that the writer makes for the networks of \<^verbatim>\<open>libmaxminddb/t/maxmind-db/test-data/write-test-data.pl\<close>.
\<close>

section \<open>The values of the database\<close>

text \<open>\<open>%all_types\<close> and \<open>%all_types_0\<close> of \<^verbatim>\<open>libmaxminddb/t/maxmind-db/test-data/write-test-data.pl\<close>.\<close>

definition unicode_string :: "u8 list" where
  "unicode_string = [0x75, 0x6e, 0x69, 0x63, 0x6f, 0x64, 0x65, 0x21, 0x20, 0xe2, 0x98, 0xaf, 0x20, 0x2d, 0x20, 0xe2, 0x99, 0xab]"

definition named :: "string \<Rightarrow> field \<Rightarrow> u8 list \<times> field" where
  "named key v = (c_bytes key, v)"

definition decoder_value :: field where
  "decoder_value = F_map
     [named ''array'' (F_array [F_uint32 1, F_uint32 2, F_uint32 3]),
      named ''boolean'' (F_boolean True),
      named ''bytes'' (F_bytes [0x00, 0x00, 0x00, 0x2a]),
      named ''double'' (F_double 0x40450FCD67FD3F5B),
      named ''float'' (F_float 0x3F8CCCCD),
      named ''int32'' (F_int32 0xF0000000),
      named ''map'' (F_map [named ''mapX'' (F_map
        [named ''arrayX'' (F_array [F_uint32 7, F_uint32 8, F_uint32 9]), named ''utf8_stringX'' (F_string (c_bytes ''hello''))])]),
      named ''uint128'' (F_uint128 0x01000000000000000000000000000000),
      named ''uint16'' (F_uint16 100),
      named ''uint32'' (F_uint32 0x10000000),
      named ''uint64'' (F_uint64 0x1000000000000000),
      named ''utf8_string'' (F_string unicode_string)]"

definition zero_value :: field where
  "zero_value = F_map
     [named ''array'' (F_array []), named ''boolean'' (F_boolean False), named ''bytes'' (F_bytes []), named ''double'' (F_double 0),
      named ''float'' (F_float 0), named ''int32'' (F_int32 0), named ''map'' (F_map []), named ''uint128'' (F_uint128 0),
      named ''uint16'' (F_uint16 0), named ''uint32'' (F_uint32 0), named ''uint64'' (F_uint64 0), named ''utf8_string'' (F_string [])]"

lemma digit_paths: "strtol ''0'' = (0, False, [])" "strtol ''1'' = (1, False, [])" "strtol ''2'' = (2, False, [])"
  "int_of_long 0 = 0" "int_of_long 1 = 1" "int_of_long 2 = 2"
  by code_simp+

lemma decoder_value_gets:
  "field_get decoder_value [''array''] = Inr (F_array [F_uint32 1, F_uint32 2, F_uint32 3])"
  "field_get decoder_value [''array'', ''0''] = Inr (F_uint32 1)"
  "field_get decoder_value [''array'', ''1''] = Inr (F_uint32 2)"
  "field_get decoder_value [''array'', ''2''] = Inr (F_uint32 3)"
  "field_get decoder_value [''boolean''] = Inr (F_boolean True)"
  "field_get decoder_value [''bytes''] = Inr (F_bytes [0, 0, 0, 0x2a])"
  "field_get decoder_value [''double''] = Inr (F_double 0x40450FCD67FD3F5B)"
  "field_get decoder_value [''float''] = Inr (F_float 0x3F8CCCCD)"
  "field_get decoder_value [''int32''] = Inr (F_int32 0xF0000000)"
  "field_get decoder_value [''map''] = Inr (F_map [named ''mapX'' (F_map
    [named ''arrayX'' (F_array [F_uint32 7, F_uint32 8, F_uint32 9]), named ''utf8_stringX'' (F_string (c_bytes ''hello''))])])"
  "field_get decoder_value [''map'', ''mapX''] = Inr (F_map
    [named ''arrayX'' (F_array [F_uint32 7, F_uint32 8, F_uint32 9]), named ''utf8_stringX'' (F_string (c_bytes ''hello''))])"
  "field_get decoder_value [''map'', ''mapX'', ''utf8_stringX''] = Inr (F_string (c_bytes ''hello''))"
  "field_get decoder_value [''map'', ''mapX'', ''arrayX''] = Inr (F_array [F_uint32 7, F_uint32 8, F_uint32 9])"
  "field_get decoder_value [''map'', ''mapX'', ''arrayX'', ''0''] = Inr (F_uint32 7)"
  "field_get decoder_value [''map'', ''mapX'', ''arrayX'', ''1''] = Inr (F_uint32 8)"
  "field_get decoder_value [''map'', ''mapX'', ''arrayX'', ''2''] = Inr (F_uint32 9)"
  "field_get decoder_value [''uint128''] = Inr (F_uint128 0x01000000000000000000000000000000)"
  "field_get decoder_value [''uint16''] = Inr (F_uint16 100)"
  "field_get decoder_value [''uint32''] = Inr (F_uint32 0x10000000)"
  "field_get decoder_value [''uint64''] = Inr (F_uint64 0x1000000000000000)"
  "field_get decoder_value [''utf8_string''] = Inr (F_string unicode_string)"
  by (simp_all add: decoder_value_def named_def digit_paths)

lemma zero_value_gets:
  "field_get zero_value [''array''] = Inr (F_array [])" "field_get zero_value [''boolean''] = Inr (F_boolean False)"
  "field_get zero_value [''bytes''] = Inr (F_bytes [])" "field_get zero_value [''double''] = Inr (F_double 0)"
  "field_get zero_value [''float''] = Inr (F_float 0)" "field_get zero_value [''int32''] = Inr (F_int32 0)"
  "field_get zero_value [''map''] = Inr (F_map [])" "field_get zero_value [''uint128''] = Inr (F_uint128 0)"
  "field_get zero_value [''uint16''] = Inr (F_uint16 0)" "field_get zero_value [''uint32''] = Inr (F_uint32 0)"
  "field_get zero_value [''uint64''] = Inr (F_uint64 0)" "field_get zero_value [''utf8_string''] = Inr (F_string [])"
  by (simp_all add: zero_value_def named_def)

lemma test_values: "0 \<notin> set unicode_string" "0 \<notin> set (c_bytes ''hello'')"
  by (simp_all add: unicode_string_def c_bytes_def)

section \<open>A database with these values\<close>

definition decoder_networks :: "(bool list \<times> field) list" where
  "decoder_networks =
     [(addr_bits [0, 0, 0, 0, 0, 0, 0, 0, 0, 0, 0, 0, 1, 1, 1], decoder_value),
      (addr_bits [0, 0, 0, 0, 0, 0, 0, 0, 0, 0, 0, 0, 2, 2], decoder_value),
      (addr_bits [0, 0, 0, 0, 0, 0, 0, 0, 0, 0, 0, 0, 3], decoder_value),
      (addr_bits [0, 0, 0, 0, 0, 0, 0, 0, 0, 0, 0, 0, 4, 5, 6, 7], decoder_value),
      (addr_bits [0xab, 0xcd, 0, 0, 0, 0, 0, 0], decoder_value),
      (addr_bits [0x10, 0, 0, 0, 0, 0, 0, 0, 0, 0, 0, 0, 0x12, 0x34], decoder_value),
      (addr_bits [0, 0, 0, 0, 0, 0, 0, 0, 0, 0, 0, 0, 0, 0, 0, 0], zero_value)]"

definition decoder_metadata :: file_metadata where
  "decoder_metadata =
     \<lparr>fm_node_count = 0, fm_record_size = 24, fm_ip_version = 6, fm_database_type = c_bytes ''MaxMind DB Decoder Test'',
      fm_languages = [c_bytes ''en''], fm_major_version = 2, fm_minor_version = 0, fm_build_epoch = 1400000000,
      fm_description = [(c_bytes ''en'',
        c_bytes ''MaxMind DB Decoder Test database - contains every MaxMind DB data type'')]\<rparr>"

lemma c_bytes_simps: "length (c_bytes s) = length s" "c_bytes [] = []" "c_bytes (c # s) = of_char c # c_bytes s"
  by (simp_all add: c_bytes_def)

lemma decoder_fits: "value_fits decoder_value"
  by (simp add: value_fits_def decoder_value_def named_def c_bytes_simps scalar_bytes_def ctrl_bytes_def be_bytes_step unicode_string_def)


lemma zero_fits: "value_fits zero_value"
  by (simp add: value_fits_def zero_value_def named_def c_bytes_simps scalar_bytes_def ctrl_bytes_def be_bytes_step)

lemma decoder_rooms: "field_room decoder_value \<le> 400" "field_room zero_value \<le> 300" "fdepth decoder_value \<le> 16" "fdepth zero_value \<le> 16"
  by (simp_all add: decoder_value_def zero_value_def named_def c_bytes_simps unicode_string_def fdepth.simps)

lemma decoder_apart: "apart decoder_networks"
  by (simp add: decoder_networks_def)

lemma decoder_networks_fit: "networks_fit decoder_metadata decoder_networks"
proof -
  have "metadata_valid (decoder_metadata\<lparr>fm_node_count := 1\<rparr>)" "writable (F_map (metadata_map decoder_metadata))"
    "field_room (F_map (metadata_map decoder_metadata)) \<le> 1000"
    by (simp_all add: metadata_valid_def metadata_map_def decoder_metadata_def c_bytes_simps)
  moreover have "\<forall>(p, v) \<in> set decoder_networks. p \<noteq> [] \<and> value_fits v"
    using decoder_fits zero_fits by (simp add: decoder_networks_def flip: length_greater_0_conv)
  moreover have "8 * sum_list (map (\<lambda>(p, v). length p) decoder_networks) + sum_list (map (\<lambda>(p, v). field_room v) decoder_networks) \<le> 30000"
    using decoder_rooms by (simp add: decoder_networks_def)
  ultimately show ?thesis
    using decoder_apart unfolding networks_fit_def by (simp add: decoder_networks_def)
qed

definition decoder_env :: test_env where
  "decoder_env = written_env [(''MaxMind-DB-test-decoder.mmdb'', decoder_metadata, decoder_networks)]
     [(''::1.1.1.1'', ipv6 [0, 0, 0, 0, 0, 0, 0, 0, 0, 0, 0, 0, 1, 1, 1, 1]),
      (''::4.5.6.7'', ipv6 [0, 0, 0, 0, 0, 0, 0, 0, 0, 0, 0, 0, 4, 5, 6, 7]),
      (''::0.0.0.0'', ipv6 [0, 0, 0, 0, 0, 0, 0, 0, 0, 0, 0, 0, 0, 0, 0, 0]),
      (''e900::'', ipv6 [0xe9, 0, 0, 0, 0, 0, 0, 0, 0, 0, 0, 0, 0, 0, 0, 0]),
      (''1.1.1.1'', ipv4 [1, 1, 1, 1])]"

lemma decoder_lookups:
  "network_of decoder_networks (addr_bits [0, 0, 0, 0, 0, 0, 0, 0, 0, 0, 0, 0, 1, 1, 1, 1]) = Some decoder_value"
  "network_of decoder_networks (addr_bits [0, 0, 0, 0, 0, 0, 0, 0, 0, 0, 0, 0, 4, 5, 6, 7]) = Some decoder_value"
  "network_of decoder_networks (addr_bits [0, 0, 0, 0, 0, 0, 0, 0, 0, 0, 0, 0, 0, 0, 0, 0]) = Some zero_value"
  "network_of decoder_networks (addr_bits [0xe9, 0, 0, 0, 0, 0, 0, 0, 0, 0, 0, 0, 0, 0, 0, 0]) = None"
  by (simp_all add: decoder_networks_def)

end
