(* ===== verification/DataTypesTest.thy ===== *)
theory DataTypesTest
  imports DecoderDatabase
begin

text \<open>
  \<^verbatim>\<open>libmaxminddb/t/data_types_t.c\<close>: a value of every type, and a value of every type that is zero or empty, read from the
  database \<open>MaxMind-DB-test-decoder.mmdb\<close>; and the proof that all its tests pass on every database that has these values.
\<close>

section \<open>The test program\<close>

text \<open>A block of the program: \<open>data_ok\<close> for a path, with a description of 500 bytes, and tests of the value.\<close>

definition block ::
  "test_env \<Rightarrow> MMDB_s \<Rightarrow> MMDB_lookup_result_s \<Rightarrow> string \<Rightarrow> u8 list \<Rightarrow> u32 \<Rightarrow> string \<Rightarrow> string list
    \<Rightarrow> (MMDB_entry_data_s \<Rightarrow> unit prog) \<Rightarrow> unit prog" where
  "block env mmdb result ip mode_desc expect_type what path tests =
     bind_prog
       (entry_data_ok env mmdb result expect_type
         (clipped 500 (c_bytes what @ c_bytes '' for '' @ c_bytes ip @ c_bytes '' - '' @ mode_desc)) (map Some path @ [None]))
       tests"

text \<open>The tests of a value: a number of so many bytes, a string, a sequence of bytes, a size.\<close>

definition number_is :: "nat \<Rightarrow> nat \<Rightarrow> string \<Rightarrow> MMDB_entry_data_s \<Rightarrow> unit prog" where
  "number_is k expect name data =
     bind_prog (call (union_low k (entry_value data))) (\<lambda>n. then_prog (ok (n = expect) (c_bytes name)) (give ()))"

definition int_is :: "nat \<Rightarrow> int \<Rightarrow> string \<Rightarrow> MMDB_entry_data_s \<Rightarrow> unit prog" where
  "int_is k expect name data =
     bind_prog (call (union_low k (entry_value data))) (\<lambda>n.
       then_prog (cmp_ok_at_loc (sint (word_of_nat n :: u32)) ''=='' expect (c_bytes name)) (give ()))"

definition string_is :: "test_env \<Rightarrow> u8 list \<Rightarrow> string \<Rightarrow> MMDB_entry_data_s \<Rightarrow> unit prog" where
  "string_is env expect name data =
     bind_prog (call (strndup_data env data)) (\<lambda>string. then_prog (is_at_loc string (Some expect) (c_bytes name)) (give ()))"

definition c_string_is :: "test_env \<Rightarrow> u8 list \<Rightarrow> string \<Rightarrow> MMDB_entry_data_s \<Rightarrow> unit prog" where
  "c_string_is env expect name data =
     bind_prog (call (bind_run (union_utf8_string (entry_value data)) (string_at env))) (\<lambda>string.
       then_prog (is_at_loc (Some string) (Some expect) (c_bytes name)) (give ()))"

definition bytes_are :: "u8 list \<Rightarrow> string \<Rightarrow> MMDB_entry_data_s \<Rightarrow> unit prog" where
  "bytes_are expect name data =
     bind_prog (call (bind_run (union_bytes (entry_value data)) (\<lambda>p. copy_bytes p (length expect)))) (\<lambda>bytes.
       then_prog (ok (bytes = expect) (c_bytes name)) (give ()))"

definition size_is :: "u32 \<Rightarrow> string \<Rightarrow> MMDB_entry_data_s \<Rightarrow> unit prog" where
  "size_is n name data = bind_prog (call (size_of_entry data)) (\<lambda>sz. then_prog (ok (sz = n) (c_bytes name)) (give ()))"

definition test_all_data_types :: "test_env \<Rightarrow> MMDB_s \<Rightarrow> MMDB_lookup_result_s \<Rightarrow> string \<Rightarrow> u8 list \<Rightarrow> unit prog" where
  "test_all_data_types env mmdb result ip mode_desc =
     (let field = block env mmdb result ip mode_desc in
      in_turn
       [field MMDB_DATA_TYPE_UTF8_STRING ''utf8_string field'' [''utf8_string'']
          (string_is env unicode_string ''got expected utf8_string value''),
        field MMDB_DATA_TYPE_DOUBLE ''double field'' [''double''] (double_is env 0x40450FCD67FD3F5B),
        field MMDB_DATA_TYPE_FLOAT ''float field'' [''float''] (float_is env 0x3F8CCCCD),
        field MMDB_DATA_TYPE_BYTES ''bytes field'' [''bytes''] (bytes_are [0, 0, 0, 0x2a] ''bytes field has expected value''),
        field MMDB_DATA_TYPE_UINT16 ''uint16 field'' [''uint16''] (number_is 2 100 ''uint16 field is 100''),
        field MMDB_DATA_TYPE_UINT32 ''uint32 field'' [''uint32''] (number_is 4 (2 ^ 28) ''uint32 field is 2**28''),
        field MMDB_DATA_TYPE_INT32 ''int32 field'' [''int32''] (int_is 4 (- (2 ^ 28)) ''int32 field is -(2**28)''),
        field MMDB_DATA_TYPE_UINT64 ''uint64 field'' [''uint64''] (number_is 8 (2 ^ 60) ''uint64 field is 2**60''),
        field MMDB_DATA_TYPE_UINT128 ''uint128 field'' [''uint128''] (number_is 16 (2 ^ 120) ''uint128 field is 2**120''),
        field MMDB_DATA_TYPE_BOOLEAN ''boolean field'' [''boolean''] (int_is 1 1 ''boolean field is true''),
        field MMDB_DATA_TYPE_ARRAY ''array field'' [''array''] (size_is 3 ''array field has 3 elements''),
        field MMDB_DATA_TYPE_UINT32 ''array[0]'' [''array'', ''0''] (number_is 4 1 ''array[0] is 1''),
        field MMDB_DATA_TYPE_UINT32 ''array[1]'' [''array'', ''1''] (number_is 4 2 ''array[1] is 1''),
        field MMDB_DATA_TYPE_UINT32 ''array[2]'' [''array'', ''2''] (number_is 4 3 ''array[2] is 1''),
        field MMDB_DATA_TYPE_MAP ''map field'' [''map''] (size_is 1 ''map field has 1 element''),
        field MMDB_DATA_TYPE_MAP ''map{mapX}'' [''map'', ''mapX''] (size_is 2 ''map{mapX} field has 2 elements''),
        field MMDB_DATA_TYPE_UTF8_STRING ''map{mapX}{utf8_stringX}'' [''map'', ''mapX'', ''utf8_stringX'']
          (string_is env (c_bytes ''hello'') (''map{mapX}{utf8_stringX} is '' @ [CHR 0x27] @ ''hello'' @ [CHR 0x27])),
        field MMDB_DATA_TYPE_ARRAY ''map{mapX}{arrayX}'' [''map'', ''mapX'', ''arrayX'']
          (size_is 3 ''map{mapX}{arrayX} field has 3 elements''),
        field MMDB_DATA_TYPE_UINT32 ''map{mapX}{arrayX}[0]'' [''map'', ''mapX'', ''arrayX'', ''0'']
          (number_is 4 7 ''map{mapX}{arrayX}[0] is 7''),
        field MMDB_DATA_TYPE_UINT32 ''map{mapX}{arrayX}[1]'' [''map'', ''mapX'', ''arrayX'', ''1'']
          (number_is 4 8 ''map{mapX}{arrayX}[1] is 8''),
        field MMDB_DATA_TYPE_UINT32 ''map{mapX}{arrayX}[2]'' [''map'', ''mapX'', ''arrayX'', ''2'']
          (number_is 4 9 ''map{mapX}{arrayX}[2] is 9'')])"

definition test_all_data_types_as_zero :: "test_env \<Rightarrow> MMDB_s \<Rightarrow> MMDB_lookup_result_s \<Rightarrow> string \<Rightarrow> u8 list \<Rightarrow> unit prog" where
  "test_all_data_types_as_zero env mmdb result ip mode_desc =
     (let field = block env mmdb result ip mode_desc in
      in_turn
       [field MMDB_DATA_TYPE_UTF8_STRING ''utf8_string field'' [''utf8_string'']
          (c_string_is env [] ''got expected utf8_string value (NULL)''),
        field MMDB_DATA_TYPE_DOUBLE ''double field'' [''double''] (double_is env 0),
        field MMDB_DATA_TYPE_FLOAT ''float field'' [''float''] (float_is env 0),
        field MMDB_DATA_TYPE_BYTES ''bytes field'' [''bytes''] (size_is 0 ''bytes field data_size is 0''),
        field MMDB_DATA_TYPE_UINT16 ''uint16 field'' [''uint16''] (number_is 2 0 ''uint16 field is 0''),
        field MMDB_DATA_TYPE_UINT32 ''uint32 field'' [''uint32''] (number_is 4 0 ''uint32 field is 0''),
        field MMDB_DATA_TYPE_INT32 ''int32 field'' [''int32''] (int_is 4 0 ''int32 field is 0''),
        field MMDB_DATA_TYPE_UINT64 ''uint64 field'' [''uint64''] (number_is 8 0 ''uint64 field is 0''),
        field MMDB_DATA_TYPE_UINT128 ''uint128 field'' [''uint128''] (number_is 16 0 ''uint128 field is 0''),
        field MMDB_DATA_TYPE_BOOLEAN ''boolean field'' [''boolean''] (int_is 1 0 ''boolean field is false''),
        field MMDB_DATA_TYPE_ARRAY ''array field'' [''array''] (size_is 0 ''array field has 0 elements''),
        field MMDB_DATA_TYPE_MAP ''map field'' [''map''] (size_is 0 ''map field has 0 elements'')])"

text \<open>The lookup of an address that has a value, and the tests of the value.\<close>

definition address_tests ::
  "test_env \<Rightarrow> u8 list \<Rightarrow> u8 list \<Rightarrow> string \<Rightarrow> (MMDB_s \<Rightarrow> MMDB_lookup_result_s \<Rightarrow> string \<Rightarrow> u8 list \<Rightarrow> unit prog)
    \<Rightarrow> MMDB_s \<Rightarrow> MMDB_s prog" where
  "address_tests env file mode_desc ip tests mmdb =
     (let where_at = c_bytes '' for address in the database - '' @ c_bytes ip @ c_bytes '' - '' @ file @ c_bytes '' - '' @ mode_desc in
      bind_prog (lookup_string_ok env mmdb ip file mode_desc) (\<lambda>(result, mmdb).
      then_prog (ok (found_entry result)
        (c_bytes ''got a result entry struct for IP address in the database - '' @ c_bytes ip @ c_bytes '' - '' @ file
          @ c_bytes '' - '' @ mode_desc))
      (then_prog (cmp_ok_at_loc (sint (entry_offset (entry result))) ''>'' 0 (c_bytes ''result.entry.offset > 0'' @ where_at))
      (then_prog (tests mmdb result ip mode_desc) (give mmdb)))))"

text \<open>\<open>EAI_NONAME\<close>\<close>

abbreviation (input) EAI_NONAME :: int where "EAI_NONAME \<equiv> - 2"

definition data_types_run_tests :: "test_env \<Rightarrow> u32 \<Rightarrow> u8 list \<Rightarrow> unit prog" where
  "data_types_run_tests env mode mode_desc =
     (let file = c_bytes ''MaxMind-DB-test-decoder.mmdb'' in
      bind_prog (test_database_path env file) (\<lambda>path.
      bind_prog (open_ok env path mode mode_desc) (\<lambda>mmdb.
      case mmdb of
        None \<Rightarrow> diag (c_bytes ''could not open '' @ path @ c_bytes '' - skipping remaining tests'')
      | Some mmdb \<Rightarrow>
          bind_prog (call (MMDB_lookup_string (resolver env) mmdb ''not an ip'' None)) (\<lambda>(result, gai_error, mmdb_error, mmdb).
          then_prog (cmp_ok_at_loc gai_error ''=='' EAI_NONAME
            (c_bytes ''MMDB_lookup populates getaddrinfo error properly - not an ip''))
          (then_prog (ok (\<not> found_entry result)
            (c_bytes ''no result entry struct returned for invalid IP address '' @ [0x27] @ c_bytes ''not an ip'' @ [0x27]))
          (bind_prog (lookup_string_ok env mmdb ''e900::'' file mode_desc) (\<lambda>(result, mmdb).
          then_prog (ok (\<not> found_entry result)
            (c_bytes ''no result entry struct returned for IP address not in the database - e900:: - '' @ file
              @ c_bytes '' - '' @ mode_desc))
          (bind_prog (address_tests env file mode_desc ''::1.1.1.1'' (test_all_data_types env) mmdb) (\<lambda>mmdb.
          bind_prog (address_tests env file mode_desc ''::4.5.6.7'' (test_all_data_types env) mmdb) (\<lambda>mmdb.
          bind_prog (address_tests env file mode_desc ''::0.0.0.0'' (test_all_data_types_as_zero env) mmdb) (\<lambda>mmdb.
          close_and_free mmdb)))))))))))"

definition data_types_t :: "test_env \<Rightarrow> (int \<times> tap) run" where
  "data_types_t env = test_main (for_all_modes (data_types_run_tests env))"

section \<open>Blocks that pass\<close>

lemma passes_block:
  assumes "handle_of env file h" "entry_tells env h (entry res) v" "field_get v path = Inr w" "ty = field_type w"
    and "\<And>ed. shows_in h ed w \<Longrightarrow> passes (tests ed) m (\<lambda>_. True)" "n = m + 2"
  shows "passes (block env h res ip mode_desc ty what path tests) n (\<lambda>_. True)"
  unfolding block_def
  by (rule passes_bind[OF passes_data_ok[OF assms(1-4) refl refl]]) (use assms(5,6) in simp_all)

lemma passes_number_is:
  "shows_in h ed w \<Longrightarrow> field_number w = Some (k, expect) \<Longrightarrow> n = 1 \<Longrightarrow> passes (number_is k expect name ed) n (\<lambda>_. True)"
  unfolding number_is_def
  by (rule passes_call_bind[OF shows_in_low], assumption, assumption, rule passes_then[OF passes_ok[OF refl refl]])
    (simp_all add: passes_give)

lemma passes_int_is:
  "shows_in h ed w \<Longrightarrow> field_number w = Some (k, i) \<Longrightarrow> sint (word_of_nat i :: u32) = expect \<Longrightarrow> n = 1 \<Longrightarrow>
    passes (int_is k expect name ed) n (\<lambda>_. True)"
  unfolding int_is_def
  by (rule passes_call_bind[OF shows_in_low], assumption, assumption, rule passes_then[OF passes_eq[OF _ refl]])
    (simp_all add: passes_give)

lemma passes_string_is:
  "strings_end env h \<Longrightarrow> shows_in h ed (F_string expect) \<Longrightarrow> 0 \<notin> set expect \<Longrightarrow> n = 1 \<Longrightarrow>
    passes (string_is env expect name ed) n (\<lambda>_. True)"
  unfolding string_is_def
  by (rule passes_call_bind[OF shows_string(2)], assumption+, rule passes_then[OF passes_is[OF refl refl]])
    (simp_all add: passes_give)

lemma passes_size_is:
  "shows_in h ed w \<Longrightarrow> field_length w = Some l \<Longrightarrow> word_of_nat l = k \<Longrightarrow> n = 1 \<Longrightarrow> passes (size_is k name ed) n (\<lambda>_. True)"
  unfolding size_is_def
  by (rule passes_call_bind[OF conjunct1[OF shows_in_length]], assumption+, rule passes_then[OF passes_ok[OF _ refl]])
    (simp_all add: passes_give)

lemma passes_c_string_is:
  assumes "handle_of env file h" "shows_in h ed (F_string [])" "n = 1"
  shows "passes (c_string_is env [] name ed) n (\<lambda>_. True)"
proof -
  have "data_type ed = MMDB_DATA_TYPE_UTF8_STRING" "string_inside h ed" "data_size ed = Some 0"
    using assms(2) by (simp_all add: shows_in_def)
  then have "entry_value ed = U_utf8_string (Ptr [0] 0)" by (auto simp: string_inside_def)
  then have "bind_run (union_utf8_string (entry_value ed)) (string_at env) = Done []"
    by (simp add: string_at_def strlen_def copy_bytes_readable)
  then show ?thesis
    unfolding c_string_is_def
    by (rule passes_call_bind) (rule passes_then[OF passes_is[OF refl refl]], use assms(3) in \<open>simp_all add: passes_give\<close>)
qed

lemma passes_bytes_are:
  assumes "shows_in h ed (F_bytes expect)" "n = 1"
  shows "passes (bytes_are expect name ed) n (\<lambda>_. True)"
proof -
  from assms(1) obtain p where p: "entry_value ed = U_bytes p" "stored p expect"
    by (auto simp: shows_in_def split: entry_union.splits)
  then have "bind_run (union_bytes (entry_value ed)) (\<lambda>p. copy_bytes p (length expect)) = Done expect"
    using copy_stored[OF p(2) refl] by simp
  then show ?thesis
    unfolding bytes_are_def
    by (rule passes_call_bind) (rule passes_then[OF passes_ok[OF refl refl]], use assms(2) in \<open>simp_all add: passes_give\<close>)
qed

lemmas block_rules = passes_number_is passes_int_is passes_double_is passes_float_is passes_size_is passes_bytes_are

section \<open>All tests pass\<close>

lemma passes_all_data_types:
  assumes h: "handle_of env file h" and e: "entry_tells env h (entry res) decoder_value" and n: "n = 63"
  shows "passes (test_all_data_types env h res ip mode_desc) n (\<lambda>_. True)"
proof -
  note rules = passes_in_turn_Cons passes_in_turn_Nil passes_block[OF h e]
  have "passes (test_all_data_types env h res ip mode_desc) 63 (\<lambda>_. True)"
    unfolding test_all_data_types_def Let_def
    by (rule rules | rule decoder_value_gets | erule block_rules passes_string_is[OF handle_of_strings[OF h]] | rule near_self | simp add: test_values)+
  with n show ?thesis by simp
qed

lemma passes_all_data_types_as_zero:
  assumes h: "handle_of env file h" and e: "entry_tells env h (entry res) zero_value" and n: "n = 36"
  shows "passes (test_all_data_types_as_zero env h res ip mode_desc) n (\<lambda>_. True)"
proof -
  note rules = passes_in_turn_Cons passes_in_turn_Nil passes_block[OF h e]
  have "passes (test_all_data_types_as_zero env h res ip mode_desc) 36 (\<lambda>_. True)"
    unfolding test_all_data_types_as_zero_def Let_def
    by (rule rules | rule zero_value_gets | erule block_rules passes_c_string_is[OF h] | rule near_self | simp add: test_values)+
  with n show ?thesis by simp
qed

lemma passes_address_tests:
  assumes "handle_of env file h" "in_database env file ip v"
    and "\<And>h' res. handle_of env file h' \<Longrightarrow> entry_tells env h' (entry res) v \<Longrightarrow> passes (tests h' res ip mode_desc) m (\<lambda>_. True)"
    and "n = m + 4"
  shows "passes (address_tests env name mode_desc ip tests h) n (handle_of env file)"
  unfolding address_tests_def Let_def
proof (rule passes_bind[OF passes_lookup_string[OF assms(1,2) refl]], clarify)
  fix res :: MMDB_lookup_result_s and h'
  assume r: "handle_of env file h'" "found_entry res" "entry_tells env h' (entry res) v"
  then have "0 < sint (entry_offset (entry res))" by (simp add: entry_tells_def)
  then show "passes (then_prog (ok (found_entry res) a) (then_prog (cmp_ok_at_loc (sint (entry_offset (entry res))) ''>'' 0 b)
      (then_prog (tests h' res ip mode_desc) (give h')))) (n - 2) (handle_of env file)" for a b
    by (intro passes_then[OF passes_ok[OF r(2) refl]] passes_then[OF passes_greater[OF _ refl]]
          passes_then[OF assms(3)[OF r(1,3)]] passes_give r(1)) (use assms(4) in simp_all)
qed (use assms(4) in simp)

text \<open>The databases that the program is for.\<close>

definition decoder_database :: "test_env \<Rightarrow> bool" where
  "decoder_database env \<longleftrightarrow> (let file = ''MaxMind-DB-test-decoder.mmdb'' in
     memory_ok env \<and> has_database env file
     \<and> in_database env file ''::1.1.1.1'' decoder_value \<and> in_database env file ''::4.5.6.7'' decoder_value
     \<and> in_database env file ''::0.0.0.0'' zero_value \<and> not_in_database env file ''e900::''
     \<and> fst (resolve_any_address (resolver env) ''not an ip'') = EAI_NONAME)"

text \<open>
  C20: The tests of \<^verbatim>\<open>data_types_t.c\<close>, 181 of them, pass on every file that opens with the two values at the addresses of
  the program: opening, the error for a string that is no address, the address in no network, and the numbers, strings,
  arrays and maps that paths lead to, of every type, with their sizes and with zero and empty values.
\<close>
theorem data_types_t_passes:
  assumes "decoder_database env"
  shows "succeeds (data_types_t env) 181"
proof -
  let ?file = "''MaxMind-DB-test-decoder.mmdb''"
  from assms have m: "memory_ok env" "has_database env ?file"
    and i: "in_database env ?file ''::1.1.1.1'' decoder_value" "in_database env ?file ''::4.5.6.7'' decoder_value"
      "in_database env ?file ''::0.0.0.0'' zero_value" "not_in_database env ?file ''e900::''"
      "fst (resolve_any_address (resolver env) ''not an ip'') = EAI_NONAME"
    by (simp_all add: decoder_database_def Let_def)
  have l: "MMDB_lookup_string (resolver env) h ''not an ip'' None = Done (no_result, EAI_NONAME, None, h)" for h
    using i(5) by (cases "resolve_any_address (resolver env) ''not an ip''") (simp add: MMDB_lookup_string_def)
  have "passes (data_types_run_tests env MMDB_MODE_MMAP (c_bytes ''mmap mode'')) 181 (\<lambda>_. True)"
    unfolding data_types_run_tests_def Let_def
    by (rule passes_bind[OF passes_path[OF m(1) refl]], simp only:,
        rule passes_bind[OF passes_open_ok[OF m refl]], clarify, unfold option.case,
        rule passes_call_bind[OF l], unfold prod.case,
        rule passes_then[OF passes_eq[OF refl refl]], rule passes_then[OF passes_ok[OF _ refl]], simp add: no_result_def,
        rule passes_bind[OF passes_lookup_string_missing[OF _ i(4) refl]], assumption, clarify,
        rule passes_then[OF passes_ok[OF _ refl]], assumption,
        (rule passes_bind[OF passes_address_tests[OF _ i(1) passes_all_data_types[OF _ _ refl] refl]], assumption+),
        (rule passes_bind[OF passes_address_tests[OF _ i(2) passes_all_data_types[OF _ _ refl] refl]], assumption+),
        (rule passes_bind[OF passes_address_tests[OF _ i(3) passes_all_data_types_as_zero[OF _ _ refl] refl]], assumption+),
        rule passes_close, assumption, simp_all)
  then show ?thesis unfolding data_types_t_def by (intro succeeds_main passes_for_all_modes)
qed

lemma decoder_env_database: "decoder_database decoder_env"
proof -
  let ?file = "''MaxMind-DB-test-decoder.mmdb''"
  have d: "on_disk [(?file, decoder_metadata, decoder_networks)] ?file decoder_metadata decoder_networks"
    using decoder_networks_fit by (simp add: on_disk_def)
  have l: "\<forall>(p, v) \<in> set decoder_networks. length p \<le> length (addr_bits bs)" if "length bs = 16" for bs
    using that by (simp add: decoder_networks_def)
  have b: "asked_bits (fm_ip_version decoder_metadata) (ipv6 bs) = Some (addr_bits bs)" if "length bs = 16" for bs
    using that by (simp add: asked_bits_def decoder_metadata_def ipv6_def)
  note v = on_disk_value[OF d _ b l]
  show ?thesis
    unfolding decoder_database_def Let_def decoder_env_def
    by (intro conjI on_disk_has_database[OF d] v(1)[OF _ _ _ decoder_lookups(1) decoder_rooms(3)]
          v(1)[OF _ _ _ decoder_lookups(2) decoder_rooms(3)] v(1)[OF _ _ _ decoder_lookups(3) decoder_rooms(4)]
          v(2)[OF _ _ _ decoder_lookups(4)]) (simp_all add: resolve_written)
qed

theorem data_types_t_passes_witness: "succeeds (data_types_t decoder_env) 181"
  by (rule data_types_t_passes[OF decoder_env_database])

end
