(* ===== verification/GetValueTest.thy ===== *)
theory GetValueTest
  imports DecoderDatabase
begin

text \<open>
  \<^verbatim>\<open>libmaxminddb/t/get_value_t.c\<close> and \<^verbatim>\<open>libmaxminddb/t/no_map_get_value_t.c\<close>: values at paths, by each of the three
  functions that look them up, paths that lead nowhere and array indexes that are none; and the proof that their tests pass.
\<close>

section \<open>The values of the nested database\<close>

text \<open>\<open>%nested\<close> of \<^verbatim>\<open>libmaxminddb/t/maxmind-db/test-data/write-test-data.pl\<close>.\<close>

definition nested_value :: field where
  "nested_value = F_map [named ''map1'' (F_map [named ''map2'' (F_map [named ''array'' (F_array
     [F_map [named ''map3'' (F_map [named ''a'' (F_uint32 1), named ''b'' (F_uint32 2), named ''c'' (F_uint32 3)])]])])])]"

section \<open>The test programs\<close>

text \<open>What \<open>test_array_0_result\<close> and the three functions like it have in common: a number is found at a path.\<close>

definition test_uint32_result :: "string \<Rightarrow> int \<Rightarrow> status \<Rightarrow> MMDB_entry_data_s \<Rightarrow> string \<Rightarrow> unit prog" where
  "test_uint32_result path expect status entry_data func =
     (let at = c_bytes '' - '' @ c_bytes path in
      bind_prog (cmp_ok_at_loc (status_code status) ''=='' (status_code MMDB_SUCCESS)
        (c_bytes ''status for '' @ c_bytes func @ c_bytes ''() is MMDB_SUCCESS'' @ at)) (\<lambda>_.
      bind_prog (ok (has_data entry_data) (c_bytes ''found a value for '' @ c_bytes path)) (\<lambda>_.
      bind_prog (cmp_ok_at_loc (sint (data_type entry_data)) ''=='' (sint MMDB_DATA_TYPE_UINT32)
        (c_bytes ''returned entry type is uint32'' @ at)) (\<lambda>_.
      bind_prog (call (union_low 4 (entry_value entry_data))) (\<lambda>n.
      then_prog (cmp_ok_at_loc (sint (word_of_nat n :: u32)) ''=='' expect
        (c_bytes ''entry value is '' @ print_int expect @ at)) (give ()))))))"

definition test_array_0_result :: "status \<Rightarrow> MMDB_entry_data_s \<Rightarrow> string \<Rightarrow> unit prog" where
  "test_array_0_result = test_uint32_result ''array[0]'' 1"

definition test_array_2_result :: "status \<Rightarrow> MMDB_entry_data_s \<Rightarrow> string \<Rightarrow> unit prog" where
  "test_array_2_result = test_uint32_result ''array[2]'' 3"

definition test_complex_map_a_result :: "status \<Rightarrow> MMDB_entry_data_s \<Rightarrow> string \<Rightarrow> unit prog" where
  "test_complex_map_a_result = test_uint32_result ''map1{map2}{array}[0]{map3}{a}'' 1"

definition test_complex_map_c_result :: "status \<Rightarrow> MMDB_entry_data_s \<Rightarrow> string \<Rightarrow> unit prog" where
  "test_complex_map_c_result = test_uint32_result ''map1{map2}{array}[0]{map3}{c}'' 3"

definition test_no_result :: "string \<Rightarrow> status \<Rightarrow> MMDB_entry_data_s \<Rightarrow> string \<Rightarrow> unit prog" where
  "test_no_result path_description status entry_data func =
     bind_prog (cmp_ok_at_loc (status_code status) ''=='' (status_code MMDB_LOOKUP_PATH_DOES_NOT_MATCH_DATA_ERROR)
       (c_bytes ''status for '' @ c_bytes func @ c_bytes ''() is MMDB_LOOKUP_PATH_DOES_NOT_MATCH_DATA_ERROR - ''
         @ c_bytes path_description)) (\<lambda>_.
     then_prog (ok (\<not> has_data entry_data) (c_bytes ''did not find a value for '' @ c_bytes path_description)) (give ()))"

definition get_value_of ::
  "test_env \<Rightarrow> MMDB_s \<Rightarrow> MMDB_lookup_result_s \<Rightarrow> MMDB_entry_data_s \<Rightarrow> string list \<Rightarrow> (status \<times> MMDB_entry_data_s) prog" where
  "get_value_of env mmdb result entry_data path =
     call (MMDB_get_value (path_malloc env) (depth_bound env) mmdb (entry result) entry_data (map Some path @ [None]))"

definition call_vget_value ::
  "test_env \<Rightarrow> MMDB_s \<Rightarrow> MMDB_lookup_result_s \<Rightarrow> MMDB_entry_data_s \<Rightarrow> string list \<Rightarrow> (status \<times> MMDB_entry_data_s) prog" where
  "call_vget_value env mmdb result entry_data path =
     call (MMDB_vget_value (path_malloc env) (depth_bound env) mmdb (entry result) entry_data (map Some path @ [None]))"

text \<open>A block of the program: the same path by the three functions.\<close>

definition three_ways ::
  "test_env \<Rightarrow> MMDB_s \<Rightarrow> MMDB_lookup_result_s \<Rightarrow> string list \<Rightarrow> (status \<Rightarrow> MMDB_entry_data_s \<Rightarrow> string \<Rightarrow> unit prog) \<Rightarrow> unit prog" where
  "three_ways env mmdb result lookup_path tests =
     bind_prog (call (MMDB_aget_value (depth_bound env) mmdb (entry result) lookup_path)) (\<lambda>(status, entry_data).
     then_prog (tests status entry_data ''MMDB_aget_value'')
     (bind_prog (get_value_of env mmdb result entry_data lookup_path) (\<lambda>(status, entry_data).
     then_prog (tests status entry_data ''MMDB_get_value'')
     (bind_prog (call_vget_value env mmdb result entry_data lookup_path) (\<lambda>(status, entry_data).
     tests status entry_data ''MMDB_vget_value'')))))"

text \<open>A block that tests the status alone.\<close>

definition get_status_is ::
  "test_env \<Rightarrow> MMDB_s \<Rightarrow> MMDB_lookup_result_s \<Rightarrow> string list \<Rightarrow> status \<Rightarrow> string \<Rightarrow> unit prog" where
  "get_status_is env mmdb result path expect name =
     bind_prog (get_value_of env mmdb result uninit_entry_data path) (\<lambda>(status, entry_data).
     then_prog (cmp_ok_at_loc (status_code status) ''=='' (status_code expect) (c_bytes name)) (give ()))"

definition test_simple_structure :: "test_env \<Rightarrow> u32 \<Rightarrow> u8 list \<Rightarrow> unit prog" where
  "test_simple_structure env mode mode_desc =
     (let file = c_bytes ''MaxMind-DB-test-decoder.mmdb'' in
      bind_prog (test_database_path env file) (\<lambda>path.
      bind_prog (open_ok env path mode mode_desc) (\<lambda>mmdb.
      bind_prog (handle_at mmdb) (\<lambda>mmdb.
      bind_prog (lookup_string_ok env mmdb ''1.1.1.1'' file mode_desc) (\<lambda>(result, mmdb).
      in_turn
       [three_ways env mmdb result [''array'', ''0''] test_array_0_result,
        three_ways env mmdb result [''array'', ''2''] test_array_2_result,
        get_status_is env mmdb result [''array'', ''zero''] MMDB_LOOKUP_PATH_DOES_NOT_MATCH_DATA_ERROR
          ''MMDB_get_value() returns error on non-integer array index'',
        get_status_is env mmdb result [''array'', ''-1''] MMDB_INVALID_LOOKUP_PATH_ERROR
          ''MMDB_get_value() returns error on negative integer'',
        get_status_is env mmdb result [''array'', ''18446744073709551616''] MMDB_INVALID_LOOKUP_PATH_ERROR
          ''MMDB_get_value() returns error on integer larger than LONG_MAX'',
        close_and_free mmdb])))))"

definition test_nested_structure :: "test_env \<Rightarrow> u32 \<Rightarrow> u8 list \<Rightarrow> unit prog" where
  "test_nested_structure env mode mode_desc =
     (let file = c_bytes ''MaxMind-DB-test-nested.mmdb'' in
      bind_prog (test_database_path env file) (\<lambda>path.
      bind_prog (open_ok env path mode mode_desc) (\<lambda>mmdb.
      bind_prog (handle_at mmdb) (\<lambda>mmdb.
      bind_prog (lookup_string_ok env mmdb ''1.1.1.1'' file mode_desc) (\<lambda>(result, mmdb).
      in_turn
       [three_ways env mmdb result [''map1'', ''map2'', ''array'', ''0'', ''map3'', ''a''] test_complex_map_a_result,
        three_ways env mmdb result [''map1'', ''map2'', ''array'', ''0'', ''map3'', ''c''] test_complex_map_c_result,
        three_ways env mmdb result [''map1'', ''map42'', ''array'', ''0'', ''map3'', ''c'']
          (test_no_result ''map1{map42}{array}[0]{map3}{c}''),
        three_ways env mmdb result [''map1'', ''map2'', ''array'', ''9'', ''map3'', ''c'']
          (test_no_result ''map1{map42}{array}[9]{map3}{c}''),
        close_and_free mmdb])))))"

definition get_value_run_tests :: "test_env \<Rightarrow> u32 \<Rightarrow> u8 list \<Rightarrow> unit prog" where
  "get_value_run_tests env mode mode_desc =
     then_prog (test_simple_structure env mode mode_desc) (test_nested_structure env mode mode_desc)"

definition get_value_t :: "test_env \<Rightarrow> (int \<times> tap) run" where
  "get_value_t env = test_main (for_all_modes (get_value_run_tests env))"

definition no_map_run_tests :: "test_env \<Rightarrow> u32 \<Rightarrow> u8 list \<Rightarrow> unit prog" where
  "no_map_run_tests env mode mode_desc =
     (let file = c_bytes ''MaxMind-DB-string-value-entries.mmdb'' in
      bind_prog (test_database_path env file) (\<lambda>path.
      bind_prog (open_ok env path mode mode_desc) (\<lambda>mmdb.
      bind_prog (handle_at mmdb) (\<lambda>mmdb.
      bind_prog (lookup_string_ok env mmdb ''1.1.1.1'' file mode_desc) (\<lambda>(result, mmdb).
      bind_prog (get_value_of env mmdb result uninit_entry_data []) (\<lambda>(status, entry_data).
      then_prog (cmp_ok_at_loc (status_code status) ''=='' (status_code MMDB_SUCCESS)
        (c_bytes ''status for MMDB_get_value() is MMDB_SUCCESS''))
      (then_prog (ok (has_data entry_data) (c_bytes ''found a value when varargs list is just NULL''))
      (then_prog (cmp_ok_at_loc (sint (data_type entry_data)) ''=='' (sint MMDB_DATA_TYPE_UTF8_STRING)
        (c_bytes ''returned entry type is utf8_string''))
      (close_and_free mmdb)))))))))"

definition no_map_get_value_t :: "test_env \<Rightarrow> (int \<times> tap) run" where
  "no_map_get_value_t env = test_main (for_all_modes (no_map_run_tests env))"

section \<open>Blocks that pass\<close>

lemma get_value_missing:
  assumes h: "handle_of env file h" and e: "entry_tells env h entr v" and g: "field_get v path = Inl err"
  shows "MMDB_aget_value (depth_bound env) h entr path = Done (err, zero_entry_data)"
    "MMDB_vget_value (path_malloc env) (depth_bound env) h entr garbage (map Some path @ [None]) = Done (err, zero_entry_data)"
proof -
  obtain e' where at: "field_at (data_section h) (unat (entry_offset entr)) v e'" and d: "fdepth v \<le> depth_bound env"
    using e by (auto simp: entry_tells_def)
  show "MMDB_aget_value (depth_bound env) h entr path = Done (err, zero_entry_data)"
    using aget_value_gives[OF handle_ofD(3)[OF h] at d, of path] g by blast
  then show "MMDB_vget_value (path_malloc env) (depth_bound env) h entr garbage (map Some path @ [None]) = Done (err, zero_entry_data)"
    using handle_ofD(1)[OF h] path_length_list[of path "[]"] collect_path_list[of path "[]"]
    by (simp add: MMDB_vget_value_def memory_ok_def)
qed

lemma passes_three_ways:
  assumes "\<And>garbage. \<exists>ed. MMDB_vget_value (path_malloc env) (depth_bound env) h (entry res) garbage (map Some path @ [None])
      = Done (st, ed) \<and> P ed"
    and "\<exists>ed. MMDB_aget_value (depth_bound env) h (entry res) path = Done (st, ed) \<and> P ed"
    and "\<And>ed func. P ed \<Longrightarrow> passes (tests st ed func) m Q" "n = 3 * m"
  shows "passes (three_ways env h res path tests) n Q"
proof -
  obtain ed where a: "MMDB_aget_value (depth_bound env) h (entry res) path = Done (st, ed)" "P ed" using assms(2) by blast
  obtain ed' where g: "MMDB_get_value (path_malloc env) (depth_bound env) h (entry res) ed (map Some path @ [None]) = Done (st, ed')" "P ed'"
    using assms(1)[of ed] by (auto simp: MMDB_get_value_def)
  obtain ed'' where v: "MMDB_vget_value (path_malloc env) (depth_bound env) h (entry res) ed' (map Some path @ [None]) = Done (st, ed'')" "P ed''"
    using assms(1)[of ed'] by blast
  show ?thesis
    unfolding three_ways_def get_value_of_def call_vget_value_def
    by (rule passes_call_bind[OF a(1)], unfold prod.case, rule passes_then[OF assms(3)[OF a(2)]],
        rule passes_call_bind[OF g(1)], unfold prod.case, rule passes_then[OF assms(3)[OF g(2)]],
        rule passes_call_bind[OF v(1)], unfold prod.case)
      (use assms(3)[OF v(2)] assms(4) in simp_all)
qed

lemma passes_three_ways_number:
  assumes h: "handle_of env file h" and e: "entry_tells env h (entry res) v" and g: "field_get v path = Inr (F_uint32 w)"
    and "sint w = expect" "n = 12"
  shows "passes (three_ways env h res path (test_uint32_result name expect)) n (\<lambda>_. True)"
proof (rule passes_three_ways[where P = "\<lambda>ed. shows_in h ed (F_uint32 w)" and st = MMDB_SUCCESS and m = 4])
  fix ed func
  assume s: "shows_in h ed (F_uint32 w)"
  show "passes (test_uint32_result name expect MMDB_SUCCESS ed func) 4 (\<lambda>_. True)"
    unfolding test_uint32_result_def Let_def
    by (rule passes_bind[OF passes_eq[OF refl refl]], rule passes_bind[OF passes_ok[OF shows_in_has_data[OF s] refl]],
        rule passes_bind[OF passes_eq[OF _ refl]], simp add: shows_in_type[OF s],
        rule passes_call_bind[OF shows_in_number(2)[OF s]], rule passes_then[OF passes_eq[OF _ refl]])
      (use assms(4) in \<open>simp_all add: passes_give\<close>)
qed (use vget_value_in_entry[OF h e g] assms(5) in simp_all)

lemma passes_three_ways_none:
  assumes h: "handle_of env file h" and e: "entry_tells env h (entry res) v"
    and g: "field_get v path = Inl MMDB_LOOKUP_PATH_DOES_NOT_MATCH_DATA_ERROR" and "n = 6"
  shows "passes (three_ways env h res path (test_no_result name)) n (\<lambda>_. True)"
proof (rule passes_three_ways[where P = "\<lambda>ed. ed = zero_entry_data" and st = MMDB_LOOKUP_PATH_DOES_NOT_MATCH_DATA_ERROR and m = 2])
  fix ed func
  assume "ed = zero_entry_data"
  then show "passes (test_no_result name MMDB_LOOKUP_PATH_DOES_NOT_MATCH_DATA_ERROR ed func) 2 (\<lambda>_. True)"
    unfolding test_no_result_def
    by (intro passes_bind[OF passes_eq[OF refl refl]] passes_then[OF passes_ok[OF _ refl]])
      (simp_all add: passes_give zero_entry_data_def)
qed (use get_value_missing[OF h e g] assms(4) in simp_all)

lemma passes_get_status:
  assumes h: "handle_of env file h" and e: "entry_tells env h (entry res) v" and g: "field_get v path = Inl st" and "n = 1"
  shows "passes (get_status_is env h res path st name) n (\<lambda>_. True)"
  unfolding get_status_is_def get_value_of_def MMDB_get_value_def
  by (rule passes_call_bind[OF get_value_missing(2)[OF h e g]], unfold prod.case, rule passes_then[OF passes_eq[OF refl refl]])
    (use assms(4) in \<open>simp_all add: passes_give\<close>)

section \<open>All tests pass\<close>

lemma other_indexes: "strtol ''zero'' = (0, False, ''zero'')" "strtol ''-1'' = (- 1, False, [])" "int_of_long (- 1) = - 1"
  "strtol ''18446744073709551616'' = (LONG_MAX, True, [])" "strtol ''9'' = (9, False, [])" "int_of_long 9 = 9"
  by (simp_all add: strtol_def is_space_def is_digit_def digits_value_def LONG_MAX_def LONG_MIN_def int_of_long_def Let_def)

lemma decoder_value_wrong:
  "field_get decoder_value [''array'', ''zero''] = Inl MMDB_LOOKUP_PATH_DOES_NOT_MATCH_DATA_ERROR"
  "field_get decoder_value [''array'', ''-1''] = Inl MMDB_INVALID_LOOKUP_PATH_ERROR"
  "field_get decoder_value [''array'', ''18446744073709551616''] = Inl MMDB_INVALID_LOOKUP_PATH_ERROR"
  by (simp_all add: decoder_value_def named_def other_indexes digit_paths)

lemma nested_value_gets:
  "field_get nested_value [''map1'', ''map2'', ''array'', ''0'', ''map3'', ''a''] = Inr (F_uint32 1)"
  "field_get nested_value [''map1'', ''map2'', ''array'', ''0'', ''map3'', ''c''] = Inr (F_uint32 3)"
  "field_get nested_value [''map1'', ''map42'', ''array'', ''0'', ''map3'', ''c''] = Inl MMDB_LOOKUP_PATH_DOES_NOT_MATCH_DATA_ERROR"
  "field_get nested_value [''map1'', ''map2'', ''array'', ''9'', ''map3'', ''c''] = Inl MMDB_LOOKUP_PATH_DOES_NOT_MATCH_DATA_ERROR"
  by (simp_all add: nested_value_def named_def digit_paths other_indexes)

text \<open>The databases that the program is for.\<close>

definition structure_databases :: "test_env \<Rightarrow> bool" where
  "structure_databases env \<longleftrightarrow> memory_ok env
     \<and> has_database env ''MaxMind-DB-test-decoder.mmdb'' \<and> in_database env ''MaxMind-DB-test-decoder.mmdb'' ''1.1.1.1'' decoder_value
     \<and> has_database env ''MaxMind-DB-test-nested.mmdb'' \<and> in_database env ''MaxMind-DB-test-nested.mmdb'' ''1.1.1.1'' nested_value"

text \<open>
  C27: The tests of \<^verbatim>\<open>get_value_t.c\<close>, 71 of them, pass: whatever the databases look like inside, the three functions that look
  up a path find the numbers, and give the errors of paths that lead nowhere, or to no index of an array.
\<close>
theorem get_value_t_passes:
  assumes "structure_databases env"
  shows "succeeds (get_value_t env) 71"
proof -
  from assms have m: "memory_ok env"
    and d: "has_database env ''MaxMind-DB-test-decoder.mmdb''" "in_database env ''MaxMind-DB-test-decoder.mmdb'' ''1.1.1.1'' decoder_value"
    and n: "has_database env ''MaxMind-DB-test-nested.mmdb''" "in_database env ''MaxMind-DB-test-nested.mmdb'' ''1.1.1.1'' nested_value"
    by (simp_all add: structure_databases_def)
  note in_turn_rules = passes_in_turn_Cons passes_in_turn_Nil passes_three_ways_number passes_three_ways_none passes_get_status passes_close
  have simple: "passes (test_simple_structure env MMDB_MODE_MMAP mode_desc) 31 (\<lambda>_. True)" for mode_desc
    unfolding test_simple_structure_def Let_def test_array_0_result_def test_array_2_result_def
    by (rule passes_opened[OF m d, where m = 27], unfold prod.case)
      (rule in_turn_rules decoder_value_gets decoder_value_wrong refl | assumption | simp)+
  have nested: "passes (test_nested_structure env MMDB_MODE_MMAP mode_desc) 40 (\<lambda>_. True)" for mode_desc
    unfolding test_nested_structure_def Let_def test_complex_map_a_result_def test_complex_map_c_result_def
    by (rule passes_opened[OF m n, where m = 36], unfold prod.case)
      (rule in_turn_rules nested_value_gets refl | assumption | simp)+
  have "passes (get_value_run_tests env MMDB_MODE_MMAP mode_desc) 71 (\<lambda>_. True)" for mode_desc
    unfolding get_value_run_tests_def by (rule passes_then[OF simple]) (simp_all add: nested)
  then show ?thesis unfolding get_value_t_def by (intro succeeds_main passes_for_all_modes)
qed

text \<open>
  The tests of \<^verbatim>\<open>no_map_get_value_t.c\<close>, 7 of them, pass: the empty path leads to the value of the address itself, which
  need not be a map.
\<close>
theorem no_map_get_value_t_passes:
  assumes "memory_ok env" "has_database env ''MaxMind-DB-string-value-entries.mmdb''"
    and "in_database env ''MaxMind-DB-string-value-entries.mmdb'' ''1.1.1.1'' (F_string s)"
  shows "succeeds (no_map_get_value_t env) 7"
proof -
  have "passes (no_map_run_tests env MMDB_MODE_MMAP mode_desc) 7 (\<lambda>_. True)" for mode_desc
    unfolding no_map_run_tests_def Let_def
  proof (rule passes_opened[OF assms], unfold prod.case)
    fix h and res :: MMDB_lookup_result_s
    assume h: "handle_of env ''MaxMind-DB-string-value-entries.mmdb'' h" and e: "entry_tells env h (entry res) (F_string s)"
    obtain ed where g: "MMDB_get_value (path_malloc env) (depth_bound env) h (entry res) uninit_entry_data (map Some [] @ [None])
        = Done (MMDB_SUCCESS, ed)" "shows_in h ed (F_string s)"
      using vget_value_in_entry(2)[OF h e, of "[]" "F_string s" uninit_entry_data] by (auto simp: MMDB_get_value_def)
    show "passes (bind_prog (get_value_of env h res uninit_entry_data []) (\<lambda>(status, entry_data).
        then_prog (cmp_ok_at_loc (status_code status) ''=='' (status_code MMDB_SUCCESS) a)
        (then_prog (ok (has_data entry_data) b)
        (then_prog (cmp_ok_at_loc (sint (data_type entry_data)) ''=='' (sint MMDB_DATA_TYPE_UTF8_STRING) c)
        (close_and_free h))))) 3 (\<lambda>_. True)" for a b c
      unfolding get_value_of_def
      by (rule passes_call_bind[OF g(1)], unfold prod.case, rule passes_then[OF passes_eq[OF refl refl]],
          rule passes_then[OF passes_ok[OF shows_in_has_data[OF g(2)] refl]], rule passes_then[OF passes_eq[OF _ refl]],
          simp add: shows_in_type[OF g(2)], rule passes_close[OF h], simp_all)
  qed simp
  then show ?thesis unfolding no_map_get_value_t_def by (intro succeeds_main passes_for_all_modes)
qed

section \<open>Databases for which they pass\<close>

text \<open>The networks of both databases are the same, but for the one with zeros.\<close>

definition nested_networks :: "(bool list \<times> field) list" where
  "nested_networks =
     [(addr_bits [0, 0, 0, 0, 0, 0, 0, 0, 0, 0, 0, 0, 1, 1, 1], nested_value),
      (addr_bits [0, 0, 0, 0, 0, 0, 0, 0, 0, 0, 0, 0, 2, 2], nested_value),
      (addr_bits [0, 0, 0, 0, 0, 0, 0, 0, 0, 0, 0, 0, 3], nested_value),
      (addr_bits [0, 0, 0, 0, 0, 0, 0, 0, 0, 0, 0, 0, 4, 5, 6, 7], nested_value),
      (addr_bits [0xab, 0xcd, 0, 0, 0, 0, 0, 0], nested_value),
      (addr_bits [0x10, 0, 0, 0, 0, 0, 0, 0, 0, 0, 0, 0, 0x12, 0x34], nested_value)]"

definition nested_metadata :: file_metadata where
  "nested_metadata = decoder_metadata
     \<lparr>fm_database_type := c_bytes ''MaxMind DB Nested Data Structures'',
      fm_description := [(c_bytes ''en'',
        c_bytes ''MaxMind DB Nested Data Structures Test database - contains deeply nested map/array structures'')]\<rparr>"

lemma nested_networks_fit: "networks_fit nested_metadata nested_networks"
proof -
  have "metadata_valid (nested_metadata\<lparr>fm_node_count := 1\<rparr>)" "writable (F_map (metadata_map nested_metadata))"
    "field_room (F_map (metadata_map nested_metadata)) \<le> 1000"
    by (simp_all add: metadata_valid_def metadata_map_def nested_metadata_def decoder_metadata_def c_bytes_simps)
  moreover have "value_fits nested_value"
    by (simp add: value_fits_def nested_value_def named_def c_bytes_simps scalar_bytes_def ctrl_bytes_def be_bytes_step)
  then have "\<forall>(p, v) \<in> set nested_networks. p \<noteq> [] \<and> value_fits v"
    by (simp add: nested_networks_def flip: length_greater_0_conv)
  moreover have "field_room nested_value \<le> 200" by (simp add: nested_value_def named_def c_bytes_simps)
  then have "8 * sum_list (map (\<lambda>(p, v). length p) nested_networks) + sum_list (map (\<lambda>(p, v). field_room v) nested_networks) \<le> 30000"
    by (simp add: nested_networks_def)
  moreover have "apart nested_networks" by (simp add: nested_networks_def)
  ultimately show ?thesis unfolding networks_fit_def by (simp add: nested_networks_def)
qed

abbreviation structure_disk :: disk where
  "structure_disk \<equiv> [(''MaxMind-DB-test-decoder.mmdb'', decoder_metadata, decoder_networks),
     (''MaxMind-DB-test-nested.mmdb'', nested_metadata, nested_networks)]"

definition structure_env :: test_env where
  "structure_env = written_env structure_disk [(''1.1.1.1'', ipv4 [1, 1, 1, 1])]"

lemma structure_env_databases: "structure_databases structure_env"
proof -
  let ?bits = "addr_bits [0, 0, 0, 0, 0, 0, 0, 0, 0, 0, 0, 0, 1, 1, 1, 1]"
  have d: "on_disk structure_disk ''MaxMind-DB-test-decoder.mmdb'' decoder_metadata decoder_networks"
    "on_disk structure_disk ''MaxMind-DB-test-nested.mmdb'' nested_metadata nested_networks"
    using decoder_networks_fit nested_networks_fit by (simp_all add: on_disk_def)
  have l: "\<forall>(p, v) \<in> set decoder_networks. length p \<le> length ?bits" "\<forall>(p, v) \<in> set nested_networks. length p \<le> length ?bits"
    by (simp_all add: decoder_networks_def nested_networks_def)
  have b: "asked_bits (fm_ip_version decoder_metadata) (ipv4 [1, 1, 1, 1]) = Some ?bits"
    "asked_bits (fm_ip_version nested_metadata) (ipv4 [1, 1, 1, 1]) = Some ?bits"
    by (simp_all add: asked_bits_def decoder_metadata_def nested_metadata_def ipv4_def numeral_eq_Suc)
  have "network_of nested_networks ?bits = Some nested_value" by (simp add: nested_networks_def)
  moreover have "fdepth nested_value \<le> 16" by (simp add: nested_value_def named_def fdepth.simps)
  ultimately show ?thesis
    unfolding structure_databases_def structure_env_def
    using on_disk_has_database[OF d(1)] on_disk_has_database[OF d(2)]
      on_disk_value(1)[OF d(1) _ b(1) l(1) decoder_lookups(1) decoder_rooms(3)] on_disk_value(1)[OF d(2) _ b(2) l(2)]
    by simp
qed

theorem get_value_t_passes_witness: "succeeds (get_value_t structure_env) 71"
  by (rule get_value_t_passes[OF structure_env_databases])

definition string_metadata :: file_metadata where
  "string_metadata = decoder_metadata
     \<lparr>fm_ip_version := 4, fm_database_type := c_bytes ''MaxMind DB String Value Entries'',
      fm_description := [(c_bytes ''en'', c_bytes ''MaxMind DB String Value Entries (no maps or arrays as values)'')]\<rparr>"

definition string_networks :: "(bool list \<times> field) list" where
  "string_networks = [(addr_bits [1, 1, 1, 1], F_string (c_bytes ''1.1.1.1/32'')), (addr_bits [1, 1, 1, 32], F_string (c_bytes ''1.1.1.32/32''))]"

lemma string_networks_fit: "networks_fit string_metadata string_networks"
proof -
  have "metadata_valid (string_metadata\<lparr>fm_node_count := 1\<rparr>)" "writable (F_map (metadata_map string_metadata))"
    "field_room (F_map (metadata_map string_metadata)) \<le> 1000"
    by (simp_all add: metadata_valid_def metadata_map_def string_metadata_def decoder_metadata_def c_bytes_simps)
  moreover have "\<forall>(p, v) \<in> set string_networks. p \<noteq> [] \<and> value_fits v"
    by (simp add: string_networks_def value_fits_def scalar_bytes_def ctrl_bytes_def c_bytes_simps flip: length_greater_0_conv)
  ultimately show ?thesis
    unfolding networks_fit_def by (simp add: string_networks_def c_bytes_simps)
qed

definition string_env :: test_env where
  "string_env = written_env [(''MaxMind-DB-string-value-entries.mmdb'', string_metadata, string_networks)]
     [(''1.1.1.1'', ipv4 [1, 1, 1, 1])]"

theorem no_map_get_value_t_passes_witness: "succeeds (no_map_get_value_t string_env) 7"
proof (rule no_map_get_value_t_passes)
  let ?file = "''MaxMind-DB-string-value-entries.mmdb''"
  have d: "on_disk [(?file, string_metadata, string_networks)] ?file string_metadata string_networks"
    using string_networks_fit by (simp add: on_disk_def)
  then show "has_database string_env ?file" unfolding string_env_def by (rule on_disk_has_database)
  have "asked_bits (fm_ip_version string_metadata) (ipv4 [1, 1, 1, 1]) = Some (addr_bits [1, 1, 1, 1])"
    by (simp add: asked_bits_def string_metadata_def ipv4_def)
  from on_disk_value(1)[OF d _ this] show "in_database string_env ?file ''1.1.1.1'' (F_string (c_bytes ''1.1.1.1/32''))"
    unfolding string_env_def by (simp add: string_networks_def)
qed (simp add: string_env_def)

end
