(* ===== verification/EntryListTest.thy ===== *)
theory EntryListTest
  imports DecoderDatabase
begin

text \<open>
  \<^verbatim>\<open>libmaxminddb/t/data_entry_list_t.c\<close>: the list of everything in a value, gone through node by node; and the proof that
  its tests pass. A list is what is left of it at the pointer \<open>entry_data_list\<close>, the node pointed to first.
\<close>

section \<open>Nodes\<close>

type_synonym nodes = "MMDB_entry_data_s list"

text \<open>A message, with a grave accent for each apostrophe of it.\<close>

definition msg :: "string \<Rightarrow> u8 list" where
  "msg s = c_bytes (map (\<lambda>c. if c = CHR ''`'' then CHR 0x27 else c) s)"

text \<open>\<open>node = entry_data_list = entry_data_list->next\<close>, with the data of the node, which is not tested for null.\<close>

definition with_next :: "nodes \<Rightarrow> (MMDB_entry_data_s \<Rightarrow> nodes \<Rightarrow> 'a prog) \<Rightarrow> 'a prog" where
  "with_next nodes k = (case nodes of _ # node # rest \<Rightarrow> k node (node # rest) | _ \<Rightarrow> call Fault)"

definition type_is :: "u32 \<Rightarrow> u8 list \<Rightarrow> MMDB_entry_data_s \<Rightarrow> unit prog" where
  "type_is ty name data = then_prog (cmp_ok_at_loc (sint (data_type data)) ''=='' (sint ty) name) (give ())"

definition count_is :: "int \<Rightarrow> u8 list \<Rightarrow> MMDB_entry_data_s \<Rightarrow> unit prog" where
  "count_is n name data = bind_prog (call (size_of_entry data)) (\<lambda>sz. then_prog (cmp_ok_at_loc (sint sz) ''=='' n name) (give ()))"

definition value_is :: "nat \<Rightarrow> int \<Rightarrow> u8 list \<Rightarrow> MMDB_entry_data_s \<Rightarrow> unit prog" where
  "value_is k expect name data =
     bind_prog (call (union_low k (entry_value data))) (\<lambda>n.
       then_prog (cmp_ok_at_loc (sint (word_of_nat n :: u32)) ''=='' expect name) (give ()))"

definition number_ok :: "nat \<Rightarrow> (nat \<Rightarrow> bool) \<Rightarrow> u8 list \<Rightarrow> MMDB_entry_data_s \<Rightarrow> unit prog" where
  "number_ok k test name data = bind_prog (call (union_low k (entry_value data))) (\<lambda>n. then_prog (ok (test n) name) (give ()))"

text \<open>The next node has a type, and what is tested of its value.\<close>

definition typed_node :: "u32 \<Rightarrow> u8 list \<Rightarrow> (MMDB_entry_data_s \<Rightarrow> unit prog) \<Rightarrow> nodes \<Rightarrow> nodes prog" where
  "typed_node ty name tests nodes =
     with_next nodes (\<lambda>data nodes. then_prog (type_is ty name data) (then_prog (tests data) (give nodes)))"

text \<open>
  The loop over the keys and values of a map, until the list ends; \<open>member\<close> is what is done for a key. Each round takes a
  node at least.
\<close>

fun member_loop :: "test_env \<Rightarrow> (u8 list \<Rightarrow> nodes \<Rightarrow> nodes prog) \<Rightarrow> nat \<Rightarrow> nodes \<Rightarrow> unit prog" where
  "member_loop env member 0 nodes = call OutOfFuel"
| "member_loop env member (Suc fuel) nodes =
     (case nodes of
        [] \<Rightarrow> call Fault
      | [_] \<Rightarrow> give ()
      | _ # key # rest \<Rightarrow>
          then_prog (type_is MMDB_DATA_TYPE_UTF8_STRING (c_bytes ''found a map key'') key)
          (bind_prog (dup_entry_string_or_bail env key) (\<lambda>key_name.
          bind_prog (member key_name (key # rest)) (\<lambda>nodes. member_loop env member fuel nodes))))"

section \<open>The tests of the values\<close>

text \<open>\<open>test_array_value\<close> and \<open>test_arrayX_value\<close>: an array of three numbers.\<close>

definition three_numbers :: "string \<Rightarrow> int \<Rightarrow> int \<Rightarrow> int \<Rightarrow> nodes \<Rightarrow> nodes prog" where
  "three_numbers key a b c nodes =
     bind_prog (typed_node MMDB_DATA_TYPE_ARRAY (msg (key @ '' key`s value is an array''))
       (count_is 3 (msg (key @ '' key`s value has 3 elements''))) nodes) (\<lambda>nodes.
     bind_prog (typed_node MMDB_DATA_TYPE_UINT32 (msg ''first array entry is a UINT32'')
       (value_is 4 a (msg ''first array entry value is '' @ print_int a)) nodes) (\<lambda>nodes.
     bind_prog (typed_node MMDB_DATA_TYPE_UINT32 (msg ''second array entry is a UINT32'')
       (value_is 4 b (msg ''second array entry value is '' @ print_int b)) nodes) (\<lambda>nodes.
     typed_node MMDB_DATA_TYPE_UINT32 (msg ''third array entry is a UINT32'')
       (value_is 4 c (msg ''third array entry value is '' @ print_int c)) nodes)))"

definition test_array_value :: "nodes \<Rightarrow> nodes prog" where
  "test_array_value = three_numbers ''`array`'' 1 2 3"

definition test_boolean_value :: "nodes \<Rightarrow> nodes prog" where
  "test_boolean_value = typed_node MMDB_DATA_TYPE_BOOLEAN (msg ''`boolean` key`s value is a boolean'')
     (number_ok 1 (\<lambda>n. n \<noteq> 0) (msg ''`boolean` key`s value is true''))"

definition test_bytes_value :: "test_env \<Rightarrow> nodes \<Rightarrow> nodes prog" where
  "test_bytes_value env = typed_node MMDB_DATA_TYPE_BYTES (msg ''`bytes` key`s value is bytes'') (\<lambda>data.
     bind_prog (call (size_of_entry data)) (\<lambda>sz.
     if \<not> test_malloc env ''bytes'' then bail_out (c_bytes ''malloc failed'')
     else
       bind_prog (call (bind_run (union_bytes (entry_value data)) (\<lambda>p. copy_bytes p (unat sz)))) (\<lambda>bytes.
       if length bytes < 4 then call Fault
       else then_prog (ok (take 4 bytes = [0, 0, 0, 0x2a]) (c_bytes ''got expected value for bytes key'')) (give ()))))"

definition test_double_value :: "test_env \<Rightarrow> nodes \<Rightarrow> nodes prog" where
  "test_double_value env = typed_node MMDB_DATA_TYPE_DOUBLE (msg ''`double` key`s value is a double'') (double_is env 0x40450FCD67FD3F5B)"

definition test_float_value :: "test_env \<Rightarrow> nodes \<Rightarrow> nodes prog" where
  "test_float_value env = typed_node MMDB_DATA_TYPE_FLOAT (msg ''`float` key`s value is a float'') (float_is env 0x3F8CCCCD)"

definition test_int32_value :: "nodes \<Rightarrow> nodes prog" where
  "test_int32_value = typed_node MMDB_DATA_TYPE_INT32 (msg ''`int32` key`s value is an int32'')
     (value_is 4 (- (2 ^ 28)) (msg ''got expected value for int32 key''))"

definition test_arrayX_value :: "nodes \<Rightarrow> nodes prog" where
  "test_arrayX_value = three_numbers ''`map{mapX}{arrayX}`'' 7 8 9"

definition test_mapX_key_value_pair :: "test_env \<Rightarrow> nodes \<Rightarrow> nodes prog" where
  "test_mapX_key_value_pair env nodes =
     with_next nodes (\<lambda>mapX_key nodes.
     then_prog (type_is MMDB_DATA_TYPE_UTF8_STRING (msg ''found a map key in `map{mapX}`'') mapX_key)
     (bind_prog (dup_entry_string_or_bail env mapX_key) (\<lambda>mapX_key_name.
     if mapX_key_name = c_bytes ''utf8_stringX'' then
       typed_node MMDB_DATA_TYPE_UTF8_STRING (msg ''`map{mapX}{utf8_stringX}` type is utf8_string'') (\<lambda>mapX_value.
         bind_prog (dup_entry_string_or_bail env mapX_value) (\<lambda>utf8_stringX_value.
         then_prog (ok (utf8_stringX_value = c_bytes ''hello'') (msg ''map{mapX}{utf8_stringX} value is `hello`'')) (give ()))) nodes
     else if mapX_key_name = c_bytes ''arrayX'' then test_arrayX_value nodes
     else then_prog (ok False (c_bytes ''unknown key found in map{mapX} - '' @ mapX_key_name)) (give nodes))))"

definition test_map_value :: "test_env \<Rightarrow> nodes \<Rightarrow> nodes prog" where
  "test_map_value env nodes =
     bind_prog (typed_node MMDB_DATA_TYPE_MAP (msg ''`map` key`s value is a map'')
       (count_is 1 (msg ''`map` key`s value has 1 key/value pair'')) nodes) (\<lambda>nodes.
     bind_prog (typed_node MMDB_DATA_TYPE_UTF8_STRING (msg ''found a map key in `map`'') (\<lambda>map_key_1.
       bind_prog (dup_entry_string_or_bail env map_key_1) (\<lambda>map_key_1_name.
       then_prog (ok (map_key_1_name = c_bytes ''mapX'') (c_bytes ''key name is mapX'')) (give ()))) nodes) (\<lambda>nodes.
     bind_prog (typed_node MMDB_DATA_TYPE_MAP (msg ''`map{mapX}` key`s value is a map'')
       (count_is 2 (msg ''`map` key`s value has 2 key/value pairs'')) nodes) (\<lambda>nodes.
     bind_prog (test_mapX_key_value_pair env nodes) (\<lambda>nodes.
     test_mapX_key_value_pair env nodes))))"

definition test_uint128_value :: "nodes \<Rightarrow> nodes prog" where
  "test_uint128_value = typed_node MMDB_DATA_TYPE_UINT128 (msg ''`uint128` key`s value is an uint128'')
     (number_ok 16 (\<lambda>n. n = 2 ^ 120) (msg ''uint128 field is 2**120''))"

definition test_uint16_value :: "nodes \<Rightarrow> nodes prog" where
  "test_uint16_value = typed_node MMDB_DATA_TYPE_UINT16 (msg ''`uint16` key`s value is an uint16'')
     (number_ok 2 (\<lambda>n. n = 100) (msg ''uint16 field is 100''))"

definition test_uint32_value :: "nodes \<Rightarrow> nodes prog" where
  "test_uint32_value = typed_node MMDB_DATA_TYPE_UINT32 (msg ''`uint32` key`s value is an uint32'')
     (number_ok 4 (\<lambda>n. n = 2 ^ 28) (msg ''uint32 field is 100''))"

definition test_uint64_value :: "nodes \<Rightarrow> nodes prog" where
  "test_uint64_value = typed_node MMDB_DATA_TYPE_UINT64 (msg ''`uint64` key`s value is an uint64'')
     (number_ok 8 (\<lambda>n. n = 2 ^ 60) (msg ''uint64 field is 2**60''))"

definition test_utf8_string_value :: "test_env \<Rightarrow> nodes \<Rightarrow> nodes prog" where
  "test_utf8_string_value env = typed_node MMDB_DATA_TYPE_UTF8_STRING (msg ''`utf8_string` key`s value is a string'') (\<lambda>data.
     bind_prog (dup_entry_string_or_bail env data) (\<lambda>utf8_string.
     then_prog (is_at_loc (Some utf8_string) (Some unicode_string) (c_bytes ''got expected value for utf8_string key'')) (give ())))"

section \<open>The program\<close>

definition test_decoder_member :: "test_env \<Rightarrow> u8 list \<Rightarrow> nodes \<Rightarrow> nodes prog" where
  "test_decoder_member env key_name nodes =
     (if key_name = c_bytes ''array'' then test_array_value nodes
      else if key_name = c_bytes ''boolean'' then test_boolean_value nodes
      else if key_name = c_bytes ''bytes'' then test_bytes_value env nodes
      else if key_name = c_bytes ''double'' then test_double_value env nodes
      else if key_name = c_bytes ''float'' then test_float_value env nodes
      else if key_name = c_bytes ''int32'' then test_int32_value nodes
      else if key_name = c_bytes ''map'' then test_map_value env nodes
      else if key_name = c_bytes ''uint128'' then test_uint128_value nodes
      else if key_name = c_bytes ''uint16'' then test_uint16_value nodes
      else if key_name = c_bytes ''uint32'' then test_uint32_value nodes
      else if key_name = c_bytes ''uint64'' then test_uint64_value nodes
      else if key_name = c_bytes ''utf8_string'' then test_utf8_string_value env nodes
      else then_prog (ok False (c_bytes ''unknown key found in map - '' @ key_name)) (give nodes))"

definition entry_list_run_tests :: "test_env \<Rightarrow> u32 \<Rightarrow> u8 list \<Rightarrow> unit prog" where
  "entry_list_run_tests env mode mode_desc =
     (let file = c_bytes ''MaxMind-DB-test-decoder.mmdb'' in
      bind_prog (test_database_path env file) (\<lambda>path.
      bind_prog (open_ok env path mode mode_desc) (\<lambda>mmdb.
      bind_prog (handle_at mmdb) (\<lambda>mmdb.
      bind_prog (lookup_string_ok env mmdb ''1.1.1.1'' file mode_desc) (\<lambda>(result, mmdb).
      bind_prog (call (MMDB_get_entry_data_list (depth_bound env) (node_calloc env) mmdb (entry result))) (\<lambda>(status, nodes).
      if status \<noteq> MMDB_SUCCESS then
        bail_out (c_bytes ''MMDB_get_entry_data_list failed with '' @ c_bytes (MMDB_strerror (status_code status)))
      else
        then_prog (cmp_ok_at_loc (status_code status) ''=='' (status_code MMDB_SUCCESS)
          (c_bytes ''MMDB_get_entry_data_list succeeded''))
        (case nodes of
           [] \<Rightarrow> call Fault
         | first # _ \<Rightarrow> in_turn
             [type_is MMDB_DATA_TYPE_MAP (c_bytes ''first entry in entry data list is a map'') first,
              count_is 12 (c_bytes ''first map in entry data list has 12 k/v pairs'') first,
              member_loop env (test_decoder_member env) (length nodes) nodes,
              close_and_free mmdb])))))))"

definition data_entry_list_t :: "test_env \<Rightarrow> (int \<times> tap) run" where
  "data_entry_list_t env = test_main (for_all_modes (entry_list_run_tests env))"

section \<open>Nodes that pass\<close>

text \<open>The nodes behind the one pointed to show these values.\<close>

definition at_values :: "MMDB_s \<Rightarrow> field list \<Rightarrow> nodes \<Rightarrow> bool" where
  "at_values h vs nodes \<longleftrightarrow> (\<exists>node rest. nodes = node # rest \<and> list_all2 (shows_in h) rest vs)"

lemma passes_with_next:
  assumes "at_values h (w # vs) nodes" "\<And>data nodes. shows_in h data w \<Longrightarrow> at_values h vs nodes \<Longrightarrow> passes (k data nodes) n P"
  shows "passes (with_next nodes k) n P"
  using assms by (auto simp: at_values_def list_all2_Cons2 with_next_def)

lemma passes_type_is: "shows_in h data w \<Longrightarrow> ty = field_type w \<Longrightarrow> n = 1 \<Longrightarrow> passes (type_is ty name data) n (\<lambda>_. True)"
  unfolding type_is_def by (rule passes_then[OF passes_eq[OF _ refl]]) (simp_all add: shows_in_type passes_give)

lemma passes_count_is:
  assumes "shows_in h data w" "field_length w = Some l" "sint (word_of_nat l :: u32) = k" "n = 1"
  shows "passes (count_is k name data) n (\<lambda>_. True)"
  unfolding count_is_def
  by (rule passes_call_bind[OF conjunct1[OF shows_in_length[OF assms(1,2)]]], rule passes_then[OF passes_eq[OF assms(3) refl]])
    (use assms(4) in \<open>simp_all add: passes_give\<close>)

lemma passes_value_is:
  assumes "shows_in h data w" "field_number w = Some (k, i)" "sint (word_of_nat i :: u32) = expect" "n = 1"
  shows "passes (value_is k expect name data) n (\<lambda>_. True)"
  unfolding value_is_def
  by (rule passes_call_bind[OF shows_in_low[OF assms(1,2)]], rule passes_then[OF passes_eq[OF assms(3) refl]])
    (use assms(4) in \<open>simp_all add: passes_give\<close>)

lemma passes_number_ok:
  assumes "shows_in h data w" "field_number w = Some (k, i)" "test i" "n = 1"
  shows "passes (number_ok k test name data) n (\<lambda>_. True)"
  unfolding number_ok_def
  by (rule passes_call_bind[OF shows_in_low[OF assms(1,2)]], rule passes_then[OF passes_ok[OF assms(3) refl]])
    (use assms(4) in \<open>simp_all add: passes_give\<close>)

lemma passes_typed_node:
  assumes "at_values h (w # vs) nodes" "ty = field_type w" "\<And>data. shows_in h data w \<Longrightarrow> passes (tests data) m (\<lambda>_. True)" "n = m + 1"
  shows "passes (typed_node ty name tests nodes) n (at_values h vs)"
  unfolding typed_node_def
  by (rule passes_with_next[OF assms(1)], rule passes_then[OF passes_type_is[OF _ assms(2) refl]], assumption,
      rule passes_then[OF assms(3)], assumption, rule passes_give) (use assms(4) in simp_all)

lemma passes_member_loop:
  assumes "strings_end env h" and "at_values h (concat (map (\<lambda>(k, v). F_string k # flat v) kvs)) nodes"
    and "\<forall>(k, v) \<in> set kvs. 0 \<notin> set k \<and> (\<forall>nodes vs. at_values h (flat v @ vs) nodes \<longrightarrow> passes (member k nodes) (m k) (at_values h vs))"
    and "length kvs < fuel" "n = sum_list (map (\<lambda>(k, v). m k + 1) kvs)"
  shows "passes (member_loop env member fuel nodes) n (\<lambda>_. True)"
  using assms(2-5)
proof (induction kvs arbitrary: nodes fuel n)
  case Nil
  then obtain node where "nodes = [node]" by (auto simp: at_values_def)
  with Nil show ?case by (cases fuel) (simp_all add: passes_give)
next
  case (Cons kv kvs)
  obtain k v where kv: "kv = (k, v)" by force
  obtain fuel' where fuel: "fuel = Suc fuel'" "length kvs < fuel'" using Cons.prems(3) by (cases fuel) auto
  let ?vs = "concat (map (\<lambda>(k, v). F_string k # flat v) kvs)"
  from Cons.prems(1) obtain node key rest where nodes: "nodes = node # key # rest" and key: "shows_in h key (F_string k)"
    and rest: "at_values h (flat v @ ?vs) (key # rest)"
    by (auto simp: kv at_values_def list_all2_Cons2)
  have k: "0 \<notin> set k" and member: "passes (member k (key # rest)) (m k) (at_values h ?vs)"
    using Cons.prems(2) rest by (auto simp: kv)
  have loop: "passes (member_loop env member fuel' nodes') (sum_list (map (\<lambda>(k, v). m k + 1) kvs)) (\<lambda>_. True)"
    if "at_values h ?vs nodes'" for nodes'
    using Cons.IH[OF that _ fuel(2)] Cons.prems(2) by simp
  show ?case
    unfolding fuel(1) nodes member_loop.simps list.case
    by (rule passes_then[OF passes_type_is[OF key _ refl]], simp,
        rule passes_bind[OF passes_dup_entry_string[OF assms(1) key k refl]], simp only:, rule passes_bind[OF member])
      (use loop Cons.prems(4) kv in simp_all)
qed

section \<open>The tests of the values pass\<close>

lemma passes_three_numbers:
  assumes "at_values h (F_array [F_uint32 u, F_uint32 v, F_uint32 w] # F_uint32 u # F_uint32 v # F_uint32 w # vs) nodes"
    and "sint u = a" "sint v = b" "sint w = c" "n = 8"
  shows "passes (three_numbers key a b c nodes) n (at_values h vs)"
proof -
  note number = passes_value_is[where k = 4, OF _ _ _ refl]
  show ?thesis
    unfolding three_numbers_def
    by (rule passes_bind[OF passes_typed_node[OF assms(1) _ passes_count_is[where l = 3, OF _ _ _ refl] refl]], simp, assumption, simp, simp,
        rule passes_bind[OF passes_typed_node[OF _ _ number refl]], assumption, simp, assumption, simp, use assms(2) in simp,
        rule passes_bind[OF passes_typed_node[OF _ _ number refl]], assumption, simp, assumption, simp, use assms(3) in simp,
        rule passes_mono[OF passes_typed_node[OF _ _ number]], assumption, simp, assumption, simp, use assms(4) in simp)
      (use assms(5) in simp_all)
qed

lemma passes_bytes_value:
  assumes "strings_end env h" "at_values h (F_bytes [0, 0, 0, 0x2a] # vs) nodes" "n = 2"
  shows "passes (test_bytes_value env nodes) n (at_values h vs)"
proof -
  have "passes (bind_prog (call (size_of_entry data)) (\<lambda>sz.
      if \<not> test_malloc env ''bytes'' then bail_out a
      else bind_prog (call (bind_run (union_bytes (entry_value data)) (\<lambda>p. copy_bytes p (unat sz)))) (\<lambda>bytes.
        if length bytes < 4 then call Fault else then_prog (ok (take 4 bytes = [0, 0, 0, 0x2a]) b) (give ())))) 1 (\<lambda>_. True)"
    if s: "shows_in h data (F_bytes [0, 0, 0, 0x2a])" for data a b
  proof -
    from s obtain p where p: "entry_value data = U_bytes p" "stored p [0, 0, 0, 0x2a]"
      by (auto simp: shows_in_def split: entry_union.splits)
    then have c: "bind_run (union_bytes (entry_value data)) (\<lambda>p. copy_bytes p (unat (4 :: u32))) = Done [0, 0, 0, 0x2a]"
      using copy_stored[OF p(2), of "unat (4 :: u32)"] by (simp del: copy_bytes.simps)
    have "size_of_entry data = Done 4" using shows_in_size(4)[OF s] by simp
    then show ?thesis
      using assms(1) passes_then[OF passes_ok[OF TrueI refl], of "give ()" 1 "\<lambda>_. True"]
      by (intro passes_call_bind) (auto simp: strings_end_def memory_ok_def passes_give intro!: passes_call_bind[OF c])
  qed
  then show ?thesis
    unfolding test_bytes_value_def by (intro passes_typed_node[OF assms(2)]) (use assms(3) in auto)
qed

text \<open>A string, once it is copied.\<close>

lemma passes_string_node:
  assumes "strings_end env h" "at_values h (F_string s # vs) nodes" "0 \<notin> set s" "passes (tests s) m (\<lambda>_. True)" "n = m + 1"
  shows "passes (typed_node MMDB_DATA_TYPE_UTF8_STRING name (\<lambda>data. bind_prog (dup_entry_string_or_bail env data) tests) nodes) n (at_values h vs)"
  by (rule passes_typed_node[OF assms(2) _ passes_bind[OF passes_dup_entry_string[OF assms(1) _ assms(3) refl]] assms(5)])
    (use assms(4) in auto)

lemma passes_string_test:
  assumes "strings_end env h" "at_values h (F_string s # vs) nodes" "0 \<notin> set s" "test s" "n = 2"
  shows "passes (typed_node MMDB_DATA_TYPE_UTF8_STRING name (\<lambda>data. bind_prog (dup_entry_string_or_bail env data)
    (\<lambda>s. then_prog (ok (test s) text) (give ()))) nodes) n (at_values h vs)"
proof (rule passes_string_node[OF assms(1-3)])
  show "passes (then_prog (ok (test s) text) (give ())) 1 (\<lambda>_. True)"
    by (rule passes_then[OF passes_ok[OF assms(4) refl]]) (simp_all add: passes_give)
qed (use assms(5) in simp)

lemma passes_mapX_pair:
  assumes "strings_end env h"
  shows "at_values h (F_string (c_bytes ''arrayX'') # F_array [F_uint32 7, F_uint32 8, F_uint32 9] # F_uint32 7 # F_uint32 8 # F_uint32 9 # vs) nodes
      \<Longrightarrow> n = 9 \<Longrightarrow> passes (test_mapX_key_value_pair env nodes) n (at_values h vs)"
    "at_values h (F_string (c_bytes ''utf8_stringX'') # F_string (c_bytes ''hello'') # vs) nodes
      \<Longrightarrow> n' = 3 \<Longrightarrow> passes (test_mapX_key_value_pair env nodes) n' (at_values h vs)"
proof -
  have z: "0 \<notin> set (c_bytes ''arrayX'')" "0 \<notin> set (c_bytes ''utf8_stringX'')" "0 \<notin> set (c_bytes ''hello'')"
    by (simp_all add: c_bytes_def)
  show "passes (test_mapX_key_value_pair env nodes) n (at_values h vs)"
    if a: "at_values h (F_string (c_bytes ''arrayX'') # F_array [F_uint32 7, F_uint32 8, F_uint32 9] # F_uint32 7 # F_uint32 8 # F_uint32 9 # vs) nodes"
      and "n = 9"
    unfolding test_mapX_key_value_pair_def test_arrayX_value_def
    by (rule passes_with_next[OF a], rule passes_then[OF passes_type_is[OF _ _ refl]], assumption, simp,
        rule passes_bind[OF passes_dup_entry_string[OF assms _ z(1) refl]], assumption, simp, rule passes_three_numbers, assumption)
      (use that(2) in simp_all)
  show "passes (test_mapX_key_value_pair env nodes) n' (at_values h vs)"
    if a: "at_values h (F_string (c_bytes ''utf8_stringX'') # F_string (c_bytes ''hello'') # vs) nodes" and "n' = 3"
    unfolding test_mapX_key_value_pair_def
    by (rule passes_with_next[OF a], rule passes_then[OF passes_type_is[OF _ _ refl]], assumption, simp,
        rule passes_bind[OF passes_dup_entry_string[OF assms _ z(2) refl]], assumption, simp,
        rule passes_string_test[OF assms _ z(3)], assumption)
      (use that(2) in simp_all)
qed

lemma passes_map_value:
  assumes "strings_end env h"
    and a: "at_values h (F_map [(c_bytes ''mapX'', F_map [(c_bytes ''arrayX'', F_array [F_uint32 7, F_uint32 8, F_uint32 9]),
        (c_bytes ''utf8_stringX'', F_string (c_bytes ''hello''))])]
      # F_string (c_bytes ''mapX'') # F_map [(c_bytes ''arrayX'', F_array [F_uint32 7, F_uint32 8, F_uint32 9]),
        (c_bytes ''utf8_stringX'', F_string (c_bytes ''hello''))]
      # F_string (c_bytes ''arrayX'') # F_array [F_uint32 7, F_uint32 8, F_uint32 9] # F_uint32 7 # F_uint32 8 # F_uint32 9
      # F_string (c_bytes ''utf8_stringX'') # F_string (c_bytes ''hello'') # vs) nodes"
    and "n = 18"
  shows "passes (test_map_value env nodes) n (at_values h vs)"
proof -
  have z: "0 \<notin> set (c_bytes ''mapX'')" by (simp add: c_bytes_def)
  show ?thesis
    unfolding test_map_value_def
    by (rule passes_bind[OF passes_typed_node[OF a _ passes_count_is[where l = 1, OF _ _ _ refl] refl]], simp, assumption, simp, simp,
        rule passes_bind[OF passes_string_test[OF assms(1) _ z _ refl]], assumption, rule refl,
        rule passes_bind[OF passes_typed_node[OF _ _ passes_count_is[where l = 2, OF _ _ _ refl] refl]], assumption, simp, assumption, simp, simp,
        rule passes_bind[OF passes_mapX_pair(1)[OF assms(1) _ refl]], assumption,
        rule passes_mapX_pair(2)[OF assms(1)], assumption)
      (use assms(3) in simp_all)
qed

section \<open>All tests pass\<close>

lemma listed_values:
  assumes ok: "data_ok db" and at: "field_at (data_section db) (unat (entry_offset start)) v e"
    and m: "calloc_ok = (\<lambda>_. True)" "2 * fdepth v + 1 < nest"
  shows "\<exists>node rest. MMDB_get_entry_data_list nest calloc_ok db start = Done (MMDB_SUCCESS, node # rest)
    \<and> shows_in db node v \<and> at_values db (inner v) (node # rest)"
proof -
  obtain nodes where n: "MMDB_get_entry_data_list nest calloc_ok db start = Done (MMDB_SUCCESS, nodes)"
    "list_all2 entry_shows nodes (flat v)"
    using get_entry_data_list_field[OF ok at m(2), of calloc_ok] m(1) by (auto simp: all_ok_less)
  have "\<forall>node \<in> set nodes. has_data node \<and> string_inside db node"
    using typed.nodes_ok[OF n(1)] inside.nodes_ok[OF n(1)] by (auto simp: list_all_iff well_typed_def)
  then have "list_all2 (shows_in db) nodes (flat v)"
    using n(2) by (auto simp: list_all2_conv_all_nth shows_in_def)
  then show ?thesis using n(1) by (auto simp: flat_Cons list_all2_Cons2 at_values_def)
qed

lemma vget_list_in_entry:
  assumes h: "handle_of env file h" and e: "entry_tells env h entr v" and d: "2 * fdepth v + 1 < 16"
  shows "\<exists>node rest. MMDB_get_entry_data_list (depth_bound env) (node_calloc env) h entr = Done (MMDB_SUCCESS, node # rest)
    \<and> shows_in h node v \<and> at_values h (inner v) (node # rest)"
proof -
  obtain e' where "field_at (data_section h) (unat (entry_offset entr)) v e'" using e by (auto simp: entry_tells_def)
  from listed_values[OF handle_ofD(3)[OF h] this] show ?thesis
    using handle_ofD(1,2)[OF h] d by (simp add: memory_ok_def)
qed

definition member_tests :: "u8 list \<Rightarrow> nat" where
  "member_tests k = (if k = c_bytes ''array'' then 8 else if k = c_bytes ''map'' then 18 else 2)"

abbreviation decoder_members :: "(u8 list \<times> field) list" where
  "decoder_members \<equiv> (case decoder_value of F_map kvs \<Rightarrow> kvs)"

lemma decoder_member_passes:
  assumes s: "strings_end env h" and m: "(k, v) \<in> set decoder_members" and a: "at_values h (flat v @ vs) nodes"
  shows "passes (test_decoder_member env k nodes) (member_tests k) (at_values h vs)"
proof -
  note value_rules = passes_typed_node passes_value_is passes_number_ok passes_double_is passes_float_is passes_three_numbers
    passes_bytes_value[OF s] passes_map_value[OF s]
  note member_defs = test_decoder_member_def member_tests_def test_array_value_def test_boolean_value_def
    test_double_value_def test_float_value_def test_int32_value_def test_uint128_value_def test_uint16_value_def
    test_uint32_value_def test_uint64_value_def
  have u: "passes (test_utf8_string_value env nodes) 2 (at_values h vs)" if "at_values h (F_string unicode_string # vs) nodes"
    unfolding test_utf8_string_value_def
  proof (rule passes_string_node[OF s that])
    show "passes (then_prog (is_at_loc (Some unicode_string) (Some unicode_string) b) (give ())) 1 (\<lambda>_. True)" for b
      by (rule passes_then[OF passes_is[OF refl refl]]) (simp_all add: passes_give)
  qed (simp_all add: test_values)
  show ?thesis
    using m a
    by (simp add: decoder_value_def)
       (elim disjE; simp add: named_def member_defs; (rule u value_rules refl near_self | assumption | simp)+)
qed

text \<open>The databases that the program is for.\<close>

definition listed_database :: "test_env \<Rightarrow> bool" where
  "listed_database env \<longleftrightarrow> memory_ok env \<and> has_database env ''MaxMind-DB-test-decoder.mmdb''
     \<and> in_database env ''MaxMind-DB-test-decoder.mmdb'' ''1.1.1.1'' decoder_value"

text \<open>
  C26: The tests of \<^verbatim>\<open>data_entry_list_t.c\<close>, 65 of them, pass: the list has a node for every key, value and element, in the order
  in which the program goes through them, and ends behind the last one.
\<close>
theorem data_entry_list_t_passes:
  assumes "listed_database env"
  shows "succeeds (data_entry_list_t env) 65"
proof -
  let ?file = "''MaxMind-DB-test-decoder.mmdb''"
  have m: "memory_ok env" "has_database env ?file" "in_database env ?file ''1.1.1.1'' decoder_value"
    using assms by (simp_all add: listed_database_def)
  have f: "2 * fdepth decoder_value + 1 < 16" "decoder_value = F_map decoder_members"
    "length decoder_members = 12" "sum_list (map (\<lambda>(k, v). member_tests k + 1) decoder_members) = 58"
    "\<forall>(k, v) \<in> set decoder_members. 0 \<notin> set k" "12 \<le> length (inner decoder_value)"
    "field_type decoder_value = MMDB_DATA_TYPE_MAP" "field_length decoder_value = Some 12"
    by (simp_all add: decoder_value_def named_def c_bytes_simps fdepth.simps member_tests_def)
  have "passes (entry_list_run_tests env MMDB_MODE_MMAP mode_desc) 65 (\<lambda>_. True)" for mode_desc
    unfolding entry_list_run_tests_def Let_def
  proof (rule passes_opened[OF m, where m = 61], unfold prod.case)
    fix h and res :: MMDB_lookup_result_s
    assume h: "handle_of env ?file h" and "entry_tells env h (entry res) decoder_value"
    then obtain node rest where l: "MMDB_get_entry_data_list (depth_bound env) (node_calloc env) h (entry res) = Done (MMDB_SUCCESS, node # rest)"
      "shows_in h node decoder_value" "at_values h (inner decoder_value) (node # rest)"
      using vget_list_in_entry f(1) by blast
    have inner: "inner decoder_value = concat (map (\<lambda>(k, v). F_string k # flat v) decoder_members)"
      by (subst f(2)) (simp add: case_prod_unfold)
    have members: "\<forall>(k, v) \<in> set decoder_members. 0 \<notin> set k \<and> (\<forall>nodes vs. at_values h (flat v @ vs) nodes
        \<longrightarrow> passes (test_decoder_member env k nodes) (member_tests k) (at_values h vs))"
      using f(5) decoder_member_passes[OF handle_of_strings[OF h]] by fastforce
    have long: "length decoder_members < length (node # rest)"
      using l(3) f(3,6) by (auto simp: at_values_def dest: list_all2_lengthD)
    show "passes (bind_prog (call (MMDB_get_entry_data_list (depth_bound env) (node_calloc env) h (entry res))) (\<lambda>(status, nodes).
        if status \<noteq> MMDB_SUCCESS then bail_out (a status)
        else then_prog (cmp_ok_at_loc (status_code status) ''=='' (status_code MMDB_SUCCESS) b)
          (case nodes of [] \<Rightarrow> call Fault
           | first # _ \<Rightarrow> in_turn [type_is MMDB_DATA_TYPE_MAP c first, count_is 12 d first,
               member_loop env (test_decoder_member env) (length nodes) nodes, close_and_free h]))) 61 (\<lambda>_. True)" for a b c d
      unfolding in_turn.simps
      by (rule passes_call_bind[OF l(1)], unfold prod.case, subst if_not_P, simp, unfold list.case,
          rule passes_then[OF passes_eq[OF refl refl]],
          rule passes_then[OF passes_type_is[OF l(2) f(7)[symmetric] refl]],
          rule passes_then[OF passes_count_is[OF l(2) f(8) _ refl]], simp,
          rule passes_then[OF passes_member_loop[OF handle_of_strings[OF h] l(3)[unfolded inner] members long f(4)[symmetric]]],
          rule passes_then[OF passes_close[OF h refl] passes_give], simp_all)
  qed simp
  then show ?thesis unfolding data_entry_list_t_def by (intro succeeds_main passes_for_all_modes)
qed

theorem data_entry_list_t_passes_witness: "succeeds (data_entry_list_t decoder_env) 65"
proof (rule data_entry_list_t_passes)
  let ?file = "''MaxMind-DB-test-decoder.mmdb''" and ?bits = "addr_bits [0, 0, 0, 0, 0, 0, 0, 0, 0, 0, 0, 0, 1, 1, 1, 1]"
  have d: "on_disk [(?file, decoder_metadata, decoder_networks)] ?file decoder_metadata decoder_networks"
    using decoder_networks_fit by (simp add: on_disk_def)
  have l: "\<forall>(p, v) \<in> set decoder_networks. length p \<le> length ?bits" by (simp add: decoder_networks_def)
  have b: "asked_bits (fm_ip_version decoder_metadata) (ipv4 [1, 1, 1, 1]) = Some ?bits"
    by (simp add: asked_bits_def decoder_metadata_def ipv4_def numeral_eq_Suc)
  show "listed_database decoder_env"
    unfolding listed_database_def decoder_env_def
    using on_disk_has_database[OF d] on_disk_value(1)[OF d _ b l decoder_lookups(1) decoder_rooms(3)] by simp
qed

end
