(* ===== verification/AddressDatabases.thy ===== *)
theory AddressDatabases
  imports TestDatabases
begin

text \<open>
  The databases \<open>MaxMind-DB-test-ipv4-\<dots>\<close>, \<open>MaxMind-DB-test-ipv6-\<dots>\<close> and \<open>MaxMind-DB-test-mixed-\<dots>\<close>, written in all record sizes
  for the networks of \<^verbatim>\<open>libmaxminddb/t/maxmind-db/test-data/write-test-data.pl\<close>: the value of each network is a map with its
  first address.
\<close>

section \<open>Networks that end inside a byte\<close>

definition net :: "u8 list \<Rightarrow> u8 \<Rightarrow> nat \<Rightarrow> bool list" where
  "net bytes b k = addr_bits bytes @ take k (byte_bits b)"

lemma length_net [simp]: "k \<le> 8 \<Longrightarrow> length (net bytes b k) = 8 * length bytes + k"
  by (simp add: net_def)

lemma addr_bits_eq: "length xs = length ys \<Longrightarrow> addr_bits xs = addr_bits ys \<longleftrightarrow> xs = ys"
proof
  assume l: "length xs = length ys" and "addr_bits xs = addr_bits ys"
  then have "prefix (addr_bits xs) (addr_bits ys)" by simp
  then have "prefix xs ys" by (simp only: prefix_addr_bits)
  with l show "xs = ys" by (auto simp: prefix_def)
qed simp

lemma prefix_net: "length xs = length ys \<Longrightarrow> prefix (net xs b k) (net ys c l) \<longleftrightarrow> xs = ys \<and> prefix (take k (byte_bits b)) (take l (byte_bits c))"
  unfolding net_def by (auto simp: prefix_def append_eq_append_conv addr_bits_eq)

lemma prefix_byte: "prefix (take k (byte_bits b)) (byte_bits c) \<longleftrightarrow> take k (byte_bits b) = take k (byte_bits c)"
proof
  assume "prefix (take k (byte_bits b)) (byte_bits c)"
  then obtain zs where "byte_bits c = take k (byte_bits b) @ zs" by (auto simp: prefix_def)
  then have "take (min k 8) (byte_bits c) = take k (byte_bits b)" by (metis append_eq_conv_conj length_byte_bits length_take min.commute)
  then show "take k (byte_bits b) = take k (byte_bits c)" by (cases "k \<le> 8") (simp_all add: min_def)
qed (simp add: take_is_prefix)

lemma prefix_net_addr:
  assumes "length ys = Suc (length xs)"
  shows "prefix (net xs b k) (addr_bits ys) \<longleftrightarrow> xs = butlast ys \<and> take k (byte_bits b) = take k (byte_bits (last ys))"
proof -
  have "ys = butlast ys @ [last ys]" using assms by (cases ys rule: rev_cases) auto
  then have "addr_bits ys = addr_bits (butlast ys) @ byte_bits (last ys)"
    using addr_bits_append[of "butlast ys" "[last ys]"] by (simp add: addr_bits_def)
  then have "addr_bits ys = net (butlast ys) (last ys) 8" by (simp add: net_def)
  then show ?thesis using prefix_net[of xs "butlast ys" b k "last ys" 8] assms by (simp add: prefix_byte)
qed

section \<open>The networks\<close>

definition ip_value :: "string \<Rightarrow> field" where
  "ip_value ip = F_map [(c_bytes ''ip'', F_string (c_bytes ip))]"

text \<open>The IPv4 networks, as IPv4 addresses or in an IPv6 database.\<close>

definition ipv4_networks :: "u8 list \<Rightarrow> string \<Rightarrow> (bool list \<times> field) list" where
  "ipv4_networks front name =
     map (\<lambda>(b, k, ip). (net (front @ [1, 1, 1]) b k, ip_value (name @ ip)))
       [(1, 8, ''1.1.1.1''), (2, 7, ''1.1.1.2''), (4, 6, ''1.1.1.4''), (8, 5, ''1.1.1.8''), (16, 4, ''1.1.1.16''), (32, 8, ''1.1.1.32'')]"

definition ipv6_networks :: "(bool list \<times> field) list" where
  "ipv6_networks =
     [(net [0, 0, 0, 0, 0, 0, 0, 0, 0, 0, 0, 1, 0xff, 0xff, 0xff] 0xff 8, ip_value ''::1:ffff:ffff''),
      (net [0, 0, 0, 0, 0, 0, 0, 0, 0, 0, 0, 2, 0, 0, 0] 0 2, ip_value ''::2:0:0''),
      (net [0, 0, 0, 0, 0, 0, 0, 0, 0, 0, 0, 2, 0, 0, 0] 0x40 4, ip_value ''::2:0:40''),
      (net [0, 0, 0, 0, 0, 0, 0, 0, 0, 0, 0, 2, 0, 0, 0] 0x50 5, ip_value ''::2:0:50''),
      (net [0, 0, 0, 0, 0, 0, 0, 0, 0, 0, 0, 2, 0, 0, 0] 0x58 7, ip_value ''::2:0:58'')]"

definition mixed_networks :: "(bool list \<times> field) list" where
  "mixed_networks = ipv6_networks @ ipv4_networks (replicate 12 0) ''::''"

definition test_metadata_for :: "u16 \<Rightarrow> u16 \<Rightarrow> file_metadata" where
  "test_metadata_for bits version =
     \<lparr>fm_node_count = 0, fm_record_size = bits, fm_ip_version = version, fm_database_type = c_bytes ''Test'',
      fm_languages = [c_bytes ''en'', c_bytes ''zh''], fm_major_version = 2, fm_minor_version = 0, fm_build_epoch = 1400000000,
      fm_description = [(c_bytes ''en'', c_bytes ''Test Database''), (c_bytes ''zh'', c_bytes ''Test Database Chinese'')]\<rparr>"

lemma eight_places: "[0..<8] = [0, 1, 2, 3, 4, 5, 6, 7 :: nat]"
  by (simp add: upt_rec)

lemma byte_values:
  "byte_bits 0 = [False, False, False, False, False, False, False, False]"
  "byte_bits 1 = [False, False, False, False, False, False, False, True]"
  "byte_bits 2 = [False, False, False, False, False, False, True, False]"
  "byte_bits 3 = [False, False, False, False, False, False, True, True]"
  "byte_bits 4 = [False, False, False, False, False, True, False, False]"
  "byte_bits 5 = [False, False, False, False, False, True, False, True]"
  "byte_bits 7 = [False, False, False, False, False, True, True, True]"
  "byte_bits 8 = [False, False, False, False, True, False, False, False]"
  "byte_bits 9 = [False, False, False, False, True, False, False, True]"
  "byte_bits 0x0f = [False, False, False, False, True, True, True, True]"
  "byte_bits 0x10 = [False, False, False, True, False, False, False, False]"
  "byte_bits 0x11 = [False, False, False, True, False, False, False, True]"
  "byte_bits 0x1a = [False, False, False, True, True, False, True, False]"
  "byte_bits 0x1f = [False, False, False, True, True, True, True, True]"
  "byte_bits 0x20 = [False, False, True, False, False, False, False, False]"
  "byte_bits 0x40 = [False, True, False, False, False, False, False, False]"
  "byte_bits 0x4f = [False, True, False, False, True, True, True, True]"
  "byte_bits 0x50 = [False, True, False, True, False, False, False, False]"
  "byte_bits 0x52 = [False, True, False, True, False, False, True, False]"
  "byte_bits 0x58 = [False, True, False, True, True, False, False, False]"
  "byte_bits 0x59 = [False, True, False, True, True, False, False, True]"
  "byte_bits 0xcd = [True, True, False, False, True, True, False, True]"
  "byte_bits 0xff = [True, True, True, True, True, True, True, True]"
  by (simp_all add: byte_bits_def eight_places)

lemma networks_apart:
  "apart (ipv4_networks front name)" "apart ipv6_networks" "apart mixed_networks"
  by (simp_all add: ipv4_networks_def ipv6_networks_def mixed_networks_def prefix_net byte_values)

lemma ip_value_fits:
  "length ip \<le> 20 \<Longrightarrow> 0xAB \<notin> set (c_bytes ip) \<Longrightarrow> value_fits (ip_value ip) \<and> field_room (ip_value ip) \<le> 40"
proof -
  assume l: "length ip \<le> 20" and f: "0xAB \<notin> set (c_bytes ip)"
  have "marker_free s" if "0xAB \<notin> set s" for s using that by (induction s rule: marker_free.induct) auto
  moreover have "field_bytes (ip_value ip) = [0xE1, 0x42, 0x69, 0x70, word_of_nat (64 + length ip)] @ c_bytes ip"
    using l by (simp add: ip_value_def scalar_bytes_def ctrl_bytes_def) (simp add: c_bytes_def)
  moreover have "word_of_nat (64 + length ip) \<noteq> (0xAB :: u8)"
  proof
    assume "word_of_nat (64 + length ip) = (0xAB :: u8)"
    then have "unat (word_of_nat (64 + length ip) :: u8) = unat (0xAB :: u8)" by simp
    with l show False by (simp add: unat_word_of_nat del: of_nat_add)
  qed
  ultimately show "value_fits (ip_value ip) \<and> field_room (ip_value ip) \<le> 40"
    using l f by (simp add: value_fits_def) (simp add: ip_value_def c_bytes_def)
qed

lemma test_metadata_fits:
  assumes "bits \<in> {24, 28, 32}" "version \<in> {4, 6}"
  shows "metadata_valid ((test_metadata_for bits version)\<lparr>fm_node_count := 1\<rparr>)"
    "writable (F_map (metadata_map (test_metadata_for bits version)))" "field_room (F_map (metadata_map (test_metadata_for bits version))) \<le> 1000"
  using assms by (simp_all add: metadata_valid_def metadata_map_def test_metadata_for_def) (simp_all add: c_bytes_def)

lemma address_networks_fit:
  assumes "bits \<in> {24, 28, 32}"
  shows "networks_fit (test_metadata_for bits 4) (ipv4_networks [] [])" "networks_fit (test_metadata_for bits 6) ipv6_networks"
    "networks_fit (test_metadata_for bits 6) mixed_networks"
proof -
  have fit: "networks_fit (test_metadata_for bits version) nets"
    if "nets \<noteq> []" "apart nets" "version \<in> {4, 6}"
      "\<forall>(p, v) \<in> set nets. p \<noteq> [] \<and> length p \<le> 128 \<and> value_fits v \<and> field_room v \<le> 40" "length nets \<le> 20" for version nets
  proof -
    have "sum_list (map (\<lambda>(p, v). length p) nets) \<le> 128 * length nets \<and> sum_list (map (\<lambda>(p, v). field_room v) nets) \<le> 40 * length nets"
      using that(4) by (induction nets) auto
    then show ?thesis
      using test_metadata_fits[OF assms that(3)] that unfolding networks_fit_def by fastforce
  qed
  show "networks_fit (test_metadata_for bits 4) (ipv4_networks [] [])"
    by (rule fit[OF _ networks_apart(1)]) (simp_all add: ipv4_networks_def ip_value_fits c_bytes_def flip: length_greater_0_conv)
  show "networks_fit (test_metadata_for bits 6) ipv6_networks"
    by (rule fit[OF _ networks_apart(2)]) (simp_all add: ipv6_networks_def ip_value_fits c_bytes_def flip: length_greater_0_conv)
  show "networks_fit (test_metadata_for bits 6) mixed_networks"
    by (rule fit[OF _ networks_apart(3)])
      (simp_all add: mixed_networks_def ipv4_networks_def ipv6_networks_def ip_value_fits c_bytes_def flip: length_greater_0_conv)
qed

text \<open>The tree of the IPv4 networks has 37 nodes, as the database in the repository has.\<close>

lemma ipv4_nodes: "net_nodes (network_tree (ipv4_networks [] [])) = 37"
  by (simp add: ipv4_networks_def net_def addr_bits_def byte_values)

end
