(* ===== verification/MetadataTest.thy ===== *)
theory MetadataTest
  imports EntryListTest AddressDatabases
begin

text \<open>
  \<^verbatim>\<open>libmaxminddb/t/metadata_t.c\<close>: the metadata in the handle, and as a list; and the proof that its tests pass on every
  database with this metadata, in whatever order its map has the keys.
\<close>

section \<open>The metadata in the handle\<close>

text \<open>The strings of the handle, which are copies that end with a zero.\<close>

definition is_string :: "test_env \<Rightarrow> cptr \<Rightarrow> string \<Rightarrow> u8 list \<Rightarrow> unit prog" where
  "is_string env p expect name =
     bind_prog (call (string_at env p)) (\<lambda>s. then_prog (is_at_loc (Some s) (Some (c_bytes expect)) name) (give ()))"

definition int_eq :: "int \<Rightarrow> int \<Rightarrow> u8 list \<Rightarrow> unit prog" where
  "int_eq a b name = then_prog (cmp_ok_at_loc a ''=='' b name) (give ())"

text \<open>An element of an array of pointers.\<close>

definition element_at :: "'p list option \<Rightarrow> nat \<Rightarrow> 'p prog" where
  "element_at ps i = (case ps of None \<Rightarrow> call Fault | Some ps \<Rightarrow> if i < length ps then give (ps ! i) else call Fault)"

definition test_one_description :: "test_env \<Rightarrow> MMDB_description_s option \<Rightarrow> unit prog" where
  "test_one_description env entr =
     (case entr of None \<Rightarrow> call Fault
      | Some d \<Rightarrow>
        bind_prog (call (string_at env (language d))) (\<lambda>lang.
        if take 2 lang = c_bytes ''en'' then
          then_prog (ok True (c_bytes ''found en description'')) (is_string env (description_text d) ''Test Database'' (c_bytes ''en description''))
        else if take 2 lang = c_bytes ''zh'' then
          then_prog (ok True (c_bytes ''found zh description''))
            (is_string env (description_text d) ''Test Database Chinese'' (c_bytes ''zh description''))
        else then_prog (ok False (c_bytes ''found unknown description in unexpected language - '' @ lang)) (give ())))"

text \<open>The index of the loop has 16 bits: it never reaches a larger number of descriptions.\<close>

definition test_descriptions :: "test_env \<Rightarrow> MMDB_metadata_s \<Rightarrow> unit prog" where
  "test_descriptions env md =
     (if 65535 < description_count md then call OutOfFuel
      else in_turn (map (\<lambda>i. bind_prog (element_at (descriptions md) i) (test_one_description env)) [0..<description_count md]))"

definition test_metadata :: "test_env \<Rightarrow> MMDB_s \<Rightarrow> u8 list \<Rightarrow> unit prog" where
  "test_metadata env mmdb mode_desc =
     (let md = metadata mmdb; mode = c_bytes '' - '' @ mode_desc in
      in_turn
       [int_eq (sint (node_count md)) 37 (c_bytes ''node_count is 37'' @ mode),
        int_eq (int (unat (record_size md))) 24 (c_bytes ''record_size is 24'' @ mode),
        int_eq (int (unat (ip_version md))) 4 (c_bytes ''ip_version is 4'' @ mode),
        is_string env (database_type md) ''Test'' (c_bytes ''database_type is Test'' @ mode),
        bind_prog (ok (1372636800 \<le> build_epoch md) (c_bytes ''build_epoch > 1372636800'')) (\<lambda>is_ok.
          if \<not> is_ok then diag (c_bytes ''  epoch is '' @ print_nat (unat (build_epoch md))) else give ()),
        int_eq (int (unat (binary_format_major_version md))) 2 (c_bytes ''binary_format_major_version is 2'' @ mode),
        int_eq (int (unat (binary_format_minor_version md))) 0 (c_bytes ''binary_format_minor_version is 0'' @ mode),
        int_eq (sint (word_of_nat (languages_count md) :: u32)) 2 (c_bytes ''found 2 languages'' @ mode),
        bind_prog (element_at (languages_names md) 0) (\<lambda>p. is_string env p ''en'' (c_bytes ''first language is en'' @ mode)),
        bind_prog (element_at (languages_names md) 1) (\<lambda>p. is_string env p ''zh'' (c_bytes ''second language is zh'' @ mode)),
        int_eq (sint (word_of_nat (description_count md) :: u32)) 2 (c_bytes ''found 2 descriptions'' @ mode),
        test_descriptions env md,
        int_eq (int (unat (full_record_byte_size mmdb))) 6 (c_bytes ''full_record_byte_size is 6'' @ mode)])"

section \<open>The metadata as a list\<close>

text \<open>A string node: its type, and what its copy is compared with.\<close>

definition string_node :: "test_env \<Rightarrow> u8 list \<Rightarrow> string \<Rightarrow> u8 list \<Rightarrow> nodes \<Rightarrow> nodes prog" where
  "string_node env type_name expect name =
     typed_node MMDB_DATA_TYPE_UTF8_STRING type_name (\<lambda>data. bind_prog (dup_entry_string_or_bail env data)
       (\<lambda>s. then_prog (is_at_loc (Some s) (Some (c_bytes expect)) name) (give ())))"

definition test_languages_value :: "test_env \<Rightarrow> nodes \<Rightarrow> nodes prog" where
  "test_languages_value env nodes =
     bind_prog (typed_node MMDB_DATA_TYPE_ARRAY (msg ''`languages` key`s value is an array'')
       (count_is 2 (msg ''`languages` key`s value has 2 elements'')) nodes) (\<lambda>nodes.
     bind_prog (string_node env (msg ''first array entry is a UTF8_STRING'') ''en'' (msg ''first language is en'') nodes) (\<lambda>nodes.
     string_node env (msg ''second array entry is a UTF8_STRING'') ''zh'' (msg ''second language is zh'') nodes))"

definition description_pair :: "test_env \<Rightarrow> nodes \<Rightarrow> nodes prog" where
  "description_pair env nodes =
     with_next nodes (\<lambda>key nodes.
     then_prog (type_is MMDB_DATA_TYPE_UTF8_STRING (msg ''found a map key in `map`'') key)
     (bind_prog (dup_entry_string_or_bail env key) (\<lambda>key_name.
     with_next nodes (\<lambda>value nodes.
     then_prog (type_is MMDB_DATA_TYPE_UTF8_STRING (msg ''map value is a UTF8_STRING'') value)
     (bind_prog (dup_entry_string_or_bail env value) (\<lambda>description.
     then_prog
       (if key_name = c_bytes ''en'' then
          then_prog (is_at_loc (Some description) (Some (c_bytes ''Test Database'')) (msg ''en description == `Test Database`'')) (give ())
        else if key_name = c_bytes ''zh'' then
          then_prog (is_at_loc (Some description) (Some (c_bytes ''Test Database Chinese''))
            (msg ''zh description == `Test Database Chinese`'')) (give ())
        else then_prog (ok False (c_bytes ''unknown key found in description map - '' @ key_name)) (give ()))
       (give nodes)))))))"

definition test_description_value :: "test_env \<Rightarrow> nodes \<Rightarrow> nodes prog" where
  "test_description_value env nodes =
     bind_prog (typed_node MMDB_DATA_TYPE_MAP (msg ''`description` key`s value is a map'')
       (count_is 2 (msg ''`description` key`s value has 2 key/value pairs'')) nodes) (\<lambda>nodes.
     bind_prog (description_pair env nodes) (description_pair env))"

text \<open>A number whose type is not tested.\<close>

definition number_node :: "nat \<Rightarrow> int \<Rightarrow> string \<Rightarrow> nodes \<Rightarrow> nodes prog" where
  "number_node k expect name nodes = with_next nodes (\<lambda>value nodes. then_prog (value_is k expect (c_bytes name) value) (give nodes))"

definition test_metadata_member :: "test_env \<Rightarrow> u8 list \<Rightarrow> nodes \<Rightarrow> nodes prog" where
  "test_metadata_member env key_name nodes =
     (if key_name = c_bytes ''node_count'' then number_node 4 37 ''node_count == 37'' nodes
      else if key_name = c_bytes ''record_size'' then number_node 2 24 ''record_size == 24'' nodes
      else if key_name = c_bytes ''ip_version'' then number_node 2 4 ''ip_version == 4'' nodes
      else if key_name = c_bytes ''binary_format_major_version'' then number_node 2 2 ''binary_format_major_version == 2'' nodes
      else if key_name = c_bytes ''binary_format_minor_version'' then number_node 2 0 ''binary_format_minor_version == 0'' nodes
      else if key_name = c_bytes ''build_epoch'' then
        with_next nodes (\<lambda>value nodes.
          then_prog (number_ok 8 (\<lambda>n. 1373571901 < n) (c_bytes ''build_epoch > 1373571901'') value) (give nodes))
      else if key_name = c_bytes ''database_type'' then
        with_next nodes (\<lambda>value nodes.
          bind_prog (dup_entry_string_or_bail env value) (\<lambda>type.
          then_prog (is_at_loc (Some type) (Some (c_bytes ''Test'')) (c_bytes ''type == Test'')) (give nodes)))
      else if key_name = c_bytes ''languages'' then test_languages_value env nodes
      else if key_name = c_bytes ''description'' then test_description_value env nodes
      else then_prog (ok False (c_bytes ''unknown key found in metadata map - '' @ key_name)) (give nodes))"

definition test_metadata_as_data_entry_list :: "test_env \<Rightarrow> MMDB_s \<Rightarrow> u8 list \<Rightarrow> unit prog" where
  "test_metadata_as_data_entry_list env mmdb mode_desc =
     bind_prog (call (MMDB_get_metadata_as_entry_data_list (depth_bound env) (node_calloc env) mmdb)) (\<lambda>(status, nodes).
     then_prog (cmp_ok_at_loc (status_code status) ''=='' (status_code MMDB_SUCCESS)
       (c_bytes ''get metadata as data_entry_list - '' @ mode_desc))
     (case nodes of
        [] \<Rightarrow> call Fault
      | first # _ \<Rightarrow> in_turn
          [count_is 9 (c_bytes ''metadata map has 9 key/value pairs'') first,
           member_loop env (test_metadata_member env) (length nodes) nodes]))"

definition metadata_run_tests :: "test_env \<Rightarrow> u32 \<Rightarrow> u8 list \<Rightarrow> unit prog" where
  "metadata_run_tests env mode mode_desc =
     bind_prog (test_database_path env (c_bytes ''MaxMind-DB-test-ipv4-24.mmdb'')) (\<lambda>path.
     bind_prog (open_ok env path mode mode_desc) (\<lambda>mmdb.
     case mmdb of
       None \<Rightarrow> diag (c_bytes ''could not open '' @ path @ c_bytes '' - skipping remaining tests'')
     | Some mmdb \<Rightarrow> in_turn
         [test_metadata env mmdb mode_desc, test_metadata_as_data_entry_list env mmdb mode_desc, close_and_free mmdb]))"

definition metadata_t :: "test_env \<Rightarrow> (int \<times> tap) run" where
  "metadata_t env = test_main (for_all_modes (metadata_run_tests env))"

section \<open>All tests pass\<close>

text \<open>The metadata the program is for: the map of the file has the nine keys, and nothing else.\<close>

definition standard_metadata :: "file_metadata \<Rightarrow> bool" where
  "standard_metadata fm \<longleftrightarrow> fm_node_count fm = 37 \<and> fm_record_size fm = 24 \<and> fm_ip_version fm = 4
     \<and> fm_database_type fm = c_bytes ''Test'' \<and> fm_languages fm = [c_bytes ''en'', c_bytes ''zh'']
     \<and> fm_major_version fm = 2 \<and> fm_minor_version fm = 0 \<and> 1373571901 < fm_build_epoch fm
     \<and> fm_description fm = [(c_bytes ''en'', c_bytes ''Test Database''), (c_bytes ''zh'', c_bytes ''Test Database Chinese'')]"

definition metadata_database :: "test_env \<Rightarrow> bool" where
  "metadata_database env \<longleftrightarrow> memory_ok env \<and> has_database env ''MaxMind-DB-test-ipv4-24.mmdb''
     \<and> (let fs = test_file env ''MaxMind-DB-test-ipv4-24.mmdb''; path = database_path env (c_bytes ''MaxMind-DB-test-ipv4-24.mmdb'') in
        \<exists>start kvs e fm. metadata_start (file_bytes fs) = Some start \<and> encoded (Ptr (file_bytes fs) start) 0 (F_map kvs) e
          \<and> metadata_says kvs fm \<and> standard_metadata fm \<and> length kvs = 9 \<and> distinct (map fst kvs) \<and> fdepth (F_map kvs) \<le> 4
          \<and> file_opens (depth_bound env) fs path (opened_handle fs path MMDB_MODE_MMAP fm start))"

lemma test_words: "0 \<notin> set (c_bytes ''Test'')" "0 \<notin> set (c_bytes ''en'')" "0 \<notin> set (c_bytes ''zh'')" "0 \<notin> set (c_bytes ''Test Database'')"
  "0 \<notin> set (c_bytes ''Test Database Chinese'')" "take 2 (c_bytes ''en'') = c_bytes ''en''" "take 2 (c_bytes ''zh'') = c_bytes ''zh''"
  by (simp_all add: c_bytes_def)

lemma string_at_c_string: "0 \<notin> set (c_bytes s) \<Longrightarrow> string_at env (c_string (c_bytes s)) = Done (c_bytes s)"
proof -
  assume z: "0 \<notin> set (c_bytes s)"
  have t: "takeWhile (\<lambda>c. c \<noteq> 0) (c_bytes s) = c_bytes s" using z by (intro takeWhile_eq_all_conv[THEN iffD2]) auto
  have "takeWhile (\<lambda>c. c \<noteq> 0) (c_bytes s @ [0]) = c_bytes s" using t z by (subst takeWhile_append2) auto
  then show ?thesis unfolding string_at_def c_string_def t by (simp add: strlen_def copy_bytes_readable)
qed

lemma passes_is_string: "p = c_string (c_bytes expect) \<Longrightarrow> 0 \<notin> set (c_bytes expect) \<Longrightarrow> n = 1 \<Longrightarrow> passes (is_string env p expect name) n (\<lambda>_. True)"
  unfolding is_string_def
  by (rule passes_call_bind, simp add: string_at_c_string, rule passes_then[OF passes_is[OF refl refl]]) (simp_all add: passes_give)

lemma passes_int_eq: "a = b \<Longrightarrow> n = 1 \<Longrightarrow> passes (int_eq a b name) n (\<lambda>_. True)"
  unfolding int_eq_def by (rule passes_then[OF passes_eq[OF _ refl]]) (simp_all add: passes_give)

lemma passes_element: "i < length ps \<Longrightarrow> passes (k (ps ! i)) n P \<Longrightarrow> passes (bind_prog (element_at (Some ps) i) k) n P"
  by (simp add: element_at_def passes_give_bind)

lemma passes_one_description:
  "passes (test_one_description env (Some \<lparr>language = c_string (c_bytes ''en''), description_text = c_string (c_bytes ''Test Database'')\<rparr>)) 2 (\<lambda>_. True)"
  "passes (test_one_description env (Some \<lparr>language = c_string (c_bytes ''zh''), description_text = c_string (c_bytes ''Test Database Chinese'')\<rparr>))
    2 (\<lambda>_. True)"
  unfolding test_one_description_def option.case
  by (rule passes_call_bind, simp add: string_at_c_string test_words, simp add: test_words,
      rule passes_then[OF passes_ok[OF TrueI refl] passes_is_string]; simp add: test_words)+

lemma passes_test_metadata:
  assumes "standard_metadata fm" "metadata h = filled_metadata fm" "full_record_byte_size h = 6" "n = 16"
  shows "passes (test_metadata env h mode_desc) n (\<lambda>_. True)"
proof -
  have m: "node_count (metadata h) = 37" "record_size (metadata h) = 24" "ip_version (metadata h) = 4"
    "database_type (metadata h) = c_string (c_bytes ''Test'')" "1372636800 \<le> build_epoch (metadata h)"
    "binary_format_major_version (metadata h) = 2" "binary_format_minor_version (metadata h) = 0"
    "languages_count (metadata h) = 2" "languages_names (metadata h) = Some [c_string (c_bytes ''en''), c_string (c_bytes ''zh'')]"
    "description_count (metadata h) = 2"
    "descriptions (metadata h) = Some [Some \<lparr>language = c_string (c_bytes ''en''), description_text = c_string (c_bytes ''Test Database'')\<rparr>,
      Some \<lparr>language = c_string (c_bytes ''zh''), description_text = c_string (c_bytes ''Test Database Chinese'')\<rparr>]"
    using assms(1) unfolding assms(2) by (auto simp: filled_metadata_def standard_metadata_def word_le_nat_alt word_less_nat_alt)
  have d: "passes (test_descriptions env (metadata h)) 4 (\<lambda>_. True)"
    unfolding test_descriptions_def m
    by (simp add: upt_rec del: in_turn.simps, rule passes_in_turn_Cons[OF passes_element], simp, simp, rule passes_one_description(1),
        rule passes_in_turn_Cons[OF passes_element], simp, simp, rule passes_one_description(2))
      (simp_all add: passes_give)
  have e: "passes (bind_prog (ok True a) (\<lambda>is_ok. if \<not> is_ok then b else give ())) 1 (\<lambda>_. True)" for a b
    by (rule passes_ok_bind) (simp_all add: passes_give)
  have "passes (test_metadata env h mode_desc) 16 (\<lambda>_. True)"
    unfolding test_metadata_def Let_def using d
    by (simp only: m assms(3) simp_thms)
      (rule passes_in_turn_Cons passes_in_turn_Nil passes_int_eq passes_is_string passes_element e | assumption | simp add: test_words)+
  with assms(4) show ?thesis by simp
qed

lemma passes_string_node_is:
  assumes "strings_end env h" "at_values h (F_string (c_bytes expect) # vs) nodes" "0 \<notin> set (c_bytes expect)" "n = 2"
  shows "passes (string_node env type_name expect name nodes) n (at_values h vs)"
  unfolding string_node_def
proof (rule passes_string_node[OF assms(1-3)])
  show "passes (then_prog (is_at_loc (Some (c_bytes expect)) (Some (c_bytes expect)) name) (give ())) 1 (\<lambda>_. True)"
    by (rule passes_then[OF passes_is[OF refl refl]]) (simp_all add: passes_give)
qed (use assms(4) in simp)

lemma passes_languages_value:
  assumes s: "strings_end env h"
    and a: "at_values h (F_array [F_string (c_bytes ''en''), F_string (c_bytes ''zh'')] # F_string (c_bytes ''en'') # F_string (c_bytes ''zh'') # vs) nodes"
    and "n = 6"
  shows "passes (test_languages_value env nodes) n (at_values h vs)"
  unfolding test_languages_value_def
  by (rule passes_bind[OF passes_typed_node[OF a _ passes_count_is[where l = 2, OF _ _ _ refl] refl]], simp, assumption, simp, simp,
      rule passes_bind[OF passes_string_node_is[OF s _ _ refl]], assumption, simp add: test_words,
      rule passes_string_node_is[OF s], assumption)
    (use assms(3) in \<open>simp_all add: test_words\<close>)

lemma passes_is_give: "got = expected \<Longrightarrow> P x \<Longrightarrow> n = 1 \<Longrightarrow> passes (then_prog (is_at_loc got expected name) (give x)) n P"
  by (rule passes_then[OF passes_is[OF _ refl]]) (simp_all add: passes_give)

lemma passes_description_pair:
  assumes s: "strings_end env h" and a: "at_values h (F_string (c_bytes k) # F_string (c_bytes t) # vs) nodes"
    and "(k, t) \<in> {(''en'', ''Test Database''), (''zh'', ''Test Database Chinese'')}" "n = 3"
  shows "passes (description_pair env nodes) n (at_values h vs)"
proof -
  have z: "0 \<notin> set (c_bytes k)" "0 \<notin> set (c_bytes t)" using assms(3) by (auto simp: test_words)
  have last: "passes (then_prog
       (if c_bytes k = c_bytes ''en'' then
          then_prog (is_at_loc (Some (c_bytes t)) (Some (c_bytes ''Test Database'')) a) (give ())
        else if c_bytes k = c_bytes ''zh'' then
          then_prog (is_at_loc (Some (c_bytes t)) (Some (c_bytes ''Test Database Chinese'')) b) (give ())
        else then_prog (ok False c) (give ()))
       (give nodes')) m (at_values h vs)" if "at_values h vs nodes'" "m = 1" for a b c nodes' m
    by (rule passes_then[where n = 1 and P = "\<lambda>_. True"])
      (use assms(3) that in \<open>auto intro!: passes_is_give intro: passes_give\<close>)
  show ?thesis
    unfolding description_pair_def
    by (rule passes_with_next[OF a], rule passes_then[OF passes_type_is[OF _ _ refl]], assumption, simp,
        rule passes_bind[OF passes_dup_entry_string[OF s _ z(1) refl]], assumption, simp only:, rule passes_with_next, assumption,
        rule passes_then[OF passes_type_is[OF _ _ refl]], assumption, simp,
        rule passes_bind[OF passes_dup_entry_string[OF s _ z(2) refl]], assumption, simp only:, rule last, assumption)
      (use assms(4) in simp_all)
qed

lemma passes_description_value:
  assumes s: "strings_end env h"
    and a: "at_values h (F_map [(c_bytes ''en'', F_string (c_bytes ''Test Database'')), (c_bytes ''zh'', F_string (c_bytes ''Test Database Chinese''))]
      # F_string (c_bytes ''en'') # F_string (c_bytes ''Test Database'') # F_string (c_bytes ''zh'')
      # F_string (c_bytes ''Test Database Chinese'') # vs) nodes"
    and "n = 8"
  shows "passes (test_description_value env nodes) n (at_values h vs)"
  unfolding test_description_value_def
  by (rule passes_bind[OF passes_typed_node[OF a _ passes_count_is[where l = 2, OF _ _ _ refl] refl]], simp, assumption, simp, simp,
      rule passes_bind[OF passes_description_pair[OF s _ _ refl]], assumption, simp,
      rule passes_description_pair[OF s], assumption)
    (use assms(3) in simp_all)

lemma passes_number_node:
  assumes a: "at_values h (w # vs) nodes" and w: "field_number w = Some (k, i)" "sint (word_of_nat i :: u32) = expect" and "n = 1"
  shows "passes (number_node k expect name nodes) n (at_values h vs)"
  unfolding number_node_def
  by (rule passes_with_next[OF a], rule passes_then[OF passes_value_is[OF _ w refl]], assumption)
    (use assms(4) in \<open>simp_all add: passes_give\<close>)

definition metadata_tests :: "u8 list \<Rightarrow> nat" where
  "metadata_tests k = (if k = c_bytes ''languages'' then 6 else if k = c_bytes ''description'' then 8 else 1)"

definition metadata_keys :: "u8 list list" where
  "metadata_keys = map c_bytes [''node_count'', ''record_size'', ''ip_version'', ''database_type'', ''languages'',
     ''binary_format_major_version'', ''binary_format_minor_version'', ''build_epoch'', ''description'']"

lemma metadata_member_passes:
  assumes s: "strings_end env h" and says: "metadata_says kvs fm" "standard_metadata fm" and k: "map_of kvs k = Some v" "k \<in> set metadata_keys"
    and a: "at_values h (flat v @ vs) nodes"
  shows "passes (test_metadata_member env k nodes) (metadata_tests k) (at_values h vs)"
proof -
  have t: "k = c_bytes ''database_type'' \<longrightarrow> v = F_string (c_bytes ''Test'')"
    using says k(1) by (auto simp: metadata_says_def standard_metadata_def c_bytes_def)
  have type: "passes (with_next nodes (\<lambda>value nodes. bind_prog (dup_entry_string_or_bail env value) (\<lambda>type.
      then_prog (is_at_loc (Some type) (Some (c_bytes ''Test'')) b) (give nodes)))) m (at_values h vs)"
    if "at_values h (F_string (c_bytes ''Test'') # vs) nodes" "m = 1" for b m
    by (rule passes_with_next[OF that(1)], rule passes_bind[OF passes_dup_entry_string[OF s _ test_words(1) refl]], assumption, simp only:,
        rule passes_is_give) (use that(2) in simp_all)
  have epoch: "passes (with_next nodes (\<lambda>value nodes. then_prog (number_ok 8 (\<lambda>n. 1373571901 < n) b value) (give nodes))) m (at_values h vs)"
    if "at_values h (F_uint64 (fm_build_epoch fm) # vs) nodes" "m = 1" for b m
    by (rule passes_with_next[OF that(1)], rule passes_then[OF passes_number_ok[OF _ _ _ refl]], assumption, simp)
      (use says(2) that(2) in \<open>auto simp: standard_metadata_def word_less_nat_alt passes_give\<close>)
  note member_defs = test_metadata_member_def metadata_tests_def standard_metadata_def
  note value_rules = passes_number_node passes_languages_value[OF s] passes_description_value[OF s] type epoch
  show ?thesis
    using k says a t unfolding metadata_keys_def
    by simp ((elim disjE; simp add: member_defs metadata_says_def); (rule value_rules refl | assumption | simp)+)
qed

lemma standard_keys:
  assumes "metadata_says kvs fm" "standard_metadata fm" "length kvs = 9" "distinct (map fst kvs)"
  shows "set (map fst kvs) = set metadata_keys" "sum_list (map (\<lambda>(k, v). metadata_tests k + 1) kvs) = 30"
proof -
  have "set metadata_keys \<subseteq> dom (map_of kvs)"
    using assms(1,2) by (auto simp: metadata_keys_def metadata_says_def standard_metadata_def c_bytes_def)
  then have s: "set metadata_keys \<subseteq> set (map fst kvs)" by (simp add: dom_map_of_conv_image_fst)
  have d: "distinct metadata_keys" "length metadata_keys = 9" by (simp_all add: metadata_keys_def)
  then have "card (set metadata_keys) = card (set (map fst kvs))"
    using assms(3,4) by (simp only: distinct_card length_map)
  then show e: "set (map fst kvs) = set metadata_keys" using card_subset_eq[OF _ s] by simp
  have "sum_list (map (\<lambda>(k, v). metadata_tests k + 1) kvs) = sum_list (map (\<lambda>k. metadata_tests k + 1) (map fst kvs))"
    by (simp add: comp_def case_prod_unfold)
  also have "\<dots> = sum (\<lambda>k. metadata_tests k + 1) (set (map fst kvs))" by (rule sum_list_distinct_conv_sum_set[OF assms(4)])
  also have "\<dots> = sum_list (map (\<lambda>k. metadata_tests k + 1) metadata_keys)"
    unfolding e by (rule sum_list_distinct_conv_sum_set[OF d(1), symmetric])
  also have "\<dots> = 30" by (simp add: metadata_keys_def metadata_tests_def)
  finally show "sum_list (map (\<lambda>(k, v). metadata_tests k + 1) kvs) = 30" .
qed

lemma passes_metadata_list:
  assumes m: "memory_ok env" and st: "metadata_start (file_bytes fs) = Some start" and enc: "encoded (Ptr (file_bytes fs) start) 0 (F_map kvs) e"
    and says: "metadata_says kvs fm" "standard_metadata fm" "length kvs = 9" "distinct (map fst kvs)" and d: "fdepth (F_map kvs) \<le> 4"
    and h: "h = opened_handle fs name fl fm start" and page: "length (file_bytes fs) mod page_size env \<noteq> 0" and "n = 32"
  shows "passes (test_metadata_as_data_entry_list env h mode_desc) n (\<lambda>_. True)"
proof -
  let ?db = "make_fake_metadata_db h"
  have "section_map ?db kvs" unfolding h by (rule opened_handle_section[OF st enc])
  then obtain e' where ok: "data_ok ?db" and at: "encoded (data_section ?db) 0 (F_map kvs) e'" by (auto simp: section_map_def)
  have f: "field_at (data_section ?db) (unat (entry_offset \<lparr>entry_offset = 0\<rparr>)) (F_map kvs) e'" using at_direct[OF at] by simp
  have b: "node_calloc env = (\<lambda>_. True)" "2 * fdepth (F_map kvs) + 1 < depth_bound env" using m d by (simp_all add: memory_ok_def)
  obtain node rest where l: "MMDB_get_metadata_as_entry_data_list (depth_bound env) (node_calloc env) h = Done (MMDB_SUCCESS, node # rest)"
    "shows_in ?db node (F_map kvs)" "at_values ?db (inner (F_map kvs)) (node # rest)"
    using listed_values[OF ok f b] by (auto simp: MMDB_get_metadata_as_entry_data_list_def)
  have inner: "inner (F_map kvs) = concat (map (\<lambda>(k, v). F_string k # flat v) kvs)" by (simp add: case_prod_unfold)
  have s: "strings_end env ?db"
    using m page by (auto simp: strings_end_def make_fake_metadata_db_def h opened_handle_def Let_def)
  have "length kvs \<le> length (inner (F_map kvs))" unfolding inner by (induction kvs) auto
  then have long: "length kvs < length (node # rest)" using l(3) by (auto simp: at_values_def dest: list_all2_lengthD)
  have z: "0 \<notin> set k" if "k \<in> set metadata_keys" for k using that by (auto simp: metadata_keys_def c_bytes_def)
  have members: "\<forall>(k, v) \<in> set kvs. 0 \<notin> set k \<and> (\<forall>nodes vs. at_values ?db (flat v @ vs) nodes
      \<longrightarrow> passes (test_metadata_member env k nodes) (metadata_tests k) (at_values ?db vs))"
  proof (clarify, intro conjI allI impI)
    fix k v
    assume kv: "(k, v) \<in> set kvs"
    then have k: "map_of kvs k = Some v" using says(4) by simp
    have "k \<in> set (map fst kvs)" using kv by force
    then have key: "k \<in> set metadata_keys" unfolding standard_keys(1)[OF says] .
    show "0 \<notin> set k" by (rule z[OF key])
    show "passes (test_metadata_member env k nodes) (metadata_tests k) (at_values ?db vs)" if "at_values ?db (flat v @ vs) nodes" for nodes vs
      by (rule metadata_member_passes[OF s says(1,2) k key that])
  qed
  show ?thesis
    unfolding test_metadata_as_data_entry_list_def in_turn.simps
    by (rule passes_call_bind[OF l(1)], unfold prod.case list.case, rule passes_then[OF passes_eq[OF refl refl]],
        rule passes_then[OF passes_count_is[OF l(2) _ _ refl, where l = 9]], simp add: says(3), simp,
        rule passes_then[OF passes_member_loop[OF s l(3)[unfolded inner] members long standard_keys(2)[OF says, symmetric]]])
      (use \<open>n = 32\<close> in \<open>simp_all add: passes_give\<close>)
qed

text \<open>
  C21: The tests of \<^verbatim>\<open>metadata_t.c\<close>, 50 of them, pass on every database that has this metadata: \<open>MMDB_open\<close> fills the handle
  with it, and the list of the metadata shows the map of the file, whatever the order of its keys is.
\<close>
theorem metadata_t_passes:
  assumes "metadata_database env"
  shows "succeeds (metadata_t env) 50"
proof -
  let ?file = "''MaxMind-DB-test-ipv4-24.mmdb''"
  let ?fs = "test_file env ?file" and ?path = "database_path env (c_bytes ?file)"
  have m: "memory_ok env" "has_database env ?file" using assms by (simp_all add: metadata_database_def)
  obtain start kvs e fm where st: "metadata_start (file_bytes ?fs) = Some start"
    "encoded (Ptr (file_bytes ?fs) start) 0 (F_map kvs) e"
    and says: "metadata_says kvs fm" "standard_metadata fm" "length kvs = 9" "distinct (map fst kvs)" "fdepth (F_map kvs) \<le> 4"
    and o: "file_opens (depth_bound env) ?fs ?path (opened_handle ?fs ?path MMDB_MODE_MMAP fm start)"
    using assms by (auto simp: metadata_database_def Let_def)
  let ?h = "opened_handle ?fs ?path MMDB_MODE_MMAP fm start"
  have hm: "metadata ?h = filled_metadata fm" "full_record_byte_size ?h = 6"
    using says(2) by (simp_all add: opened_handle_def Let_def standard_metadata_def)
  have page: "length (file_bytes ?fs) mod page_size env \<noteq> 0" "4 \<le> depth_bound env"
    using m by (simp_all add: has_database_def memory_ok_def)
  have "passes (metadata_run_tests env MMDB_MODE_MMAP mode_desc) 50 (\<lambda>_. True)" for mode_desc
    unfolding metadata_run_tests_def
  proof (rule passes_bind[OF passes_path[OF m(1) refl]], simp only:, rule passes_bind[OF passes_open_ok[OF m refl]], clarify)
    fix h
    assume h: "handle_of env ?file h" and "file_opens (depth_bound env) ?fs ?path h"
    then have eq: "h = ?h" using file_opens_same[OF o _ page(2)] by simp
    show "passes (case Some h of None \<Rightarrow> a
        | Some mmdb \<Rightarrow> in_turn [test_metadata env mmdb mode_desc, test_metadata_as_data_entry_list env mmdb mode_desc, close_and_free mmdb])
        (50 - 0 - 2) (\<lambda>_. True)" for a
      unfolding option.case in_turn.simps
      by (rule passes_then[OF passes_test_metadata[OF says(2) hm[folded eq] refl]],
          rule passes_then[OF passes_metadata_list[OF m(1) st says eq page(1) refl]],
          rule passes_then[OF passes_close[OF h refl] passes_give]) simp_all
  qed simp_all
  then show ?thesis unfolding metadata_t_def by (intro succeeds_main passes_for_all_modes)
qed

section \<open>A database for which they pass\<close>

definition metadata_env :: test_env where
  "metadata_env = written_env [(''MaxMind-DB-test-ipv4-24.mmdb'', test_metadata_for 24 4, ipv4_networks [] [])] []"

lemma metadata_env_database: "metadata_database metadata_env"
proof -
  let ?file = "''MaxMind-DB-test-ipv4-24.mmdb''" and ?fm = "test_metadata_for 24 4" and ?t = "network_tree (ipv4_networks [] [])"
  have d: "on_disk [(?file, ?fm, ipv4_networks [] [])] ?file ?fm (ipv4_networks [] [])"
    using address_networks_fit(1)[of 24] by (simp add: on_disk_def)
  have w: "database_writable ?fm ?t" by (rule networks_fit_writable(1)[OF address_networks_fit(1)]) simp
  have fs: "test_file metadata_env ?file = database_file ?fm ?t" unfolding metadata_env_def by (rule on_disk_file[OF d])
  have path: "database_path metadata_env (c_bytes ?file) = test_path ?file" unfolding metadata_env_def by (rule written_path)
  let ?kvs = "metadata_map (counted ?fm ?t)" and ?start = "length (front_part ?fm ?t) + length METADATA_MARKER"
  have "metadata_start (file_bytes (database_file ?fm ?t)) = Some ?start"
    using w by (simp add: database_writable_def database_file_def)
  moreover obtain e where "encoded (Ptr (file_bytes (database_file ?fm ?t)) ?start) 0 (F_map ?kvs) e"
    using written_metadata_encoded[OF w] by (auto simp: database_file_def)
  moreover have "metadata_says ?kvs (counted ?fm ?t)" by (rule metadata_map_says)
  moreover have "standard_metadata (counted ?fm ?t)"
    by (simp add: standard_metadata_def counted_def test_metadata_for_def ipv4_nodes)
  moreover have "length ?kvs = 9" "distinct (map fst ?kvs)" by (simp_all add: metadata_map_def)
  moreover have "fdepth (F_map ?kvs) \<le> 4" by (rule metadata_map_depth)
  moreover have "file_opens 16 (database_file ?fm ?t) (test_path ?file) (written_handle ?fm ?t (test_path ?file) MMDB_MODE_MMAP)"
    by (rule written_file_served[OF w]) simp
  moreover have "memory_ok metadata_env" "depth_bound metadata_env = 16" "has_database metadata_env ?file"
    using on_disk_has_database[OF d] by (simp_all add: metadata_env_def)
  ultimately show ?thesis unfolding metadata_database_def Let_def path fs[unfolded path] by auto
qed

theorem metadata_t_passes_witness: "succeeds (metadata_t metadata_env) 50"
  by (rule metadata_t_passes[OF metadata_env_database])

end
