(* ===== verification/BasicLookupTest.thy ===== *)
theory BasicLookupTest
  imports TestRules AddressDatabases
begin

text \<open>
  \<^verbatim>\<open>libmaxminddb/t/basic_lookup_t.c\<close>: addresses in and outside of IPv4, IPv6 and mixed databases of every record size, looked
  up as strings and as socket addresses; and the proof that all its tests pass on databases that have these addresses.
\<close>

section \<open>The test program\<close>

text \<open>
  What the value under the key \<^verbatim>\<open>ip\<close> is compared with: in a mixed database an IPv4 address has colons in front. A failed
  allocation leaves a null pointer, into which the second branch writes.
\<close>

definition real_expect :: "test_env \<Rightarrow> MMDB_s \<Rightarrow> string \<Rightarrow> u8 list option run" where
  "real_expect env mmdb expect =
     (if ip_version (metadata mmdb) = 4 \<or> take 2 expect = ''::'' then
        Done (if test_malloc env ''strndup'' then Some (c_bytes expect) else None)
      else
        let maxlen = length expect + 3 in
        if test_malloc env ''real_expect'' then Done (Some (clipped maxlen (c_bytes ''::'' @ c_bytes expect))) else Fault)"

definition test_one_result ::
  "test_env \<Rightarrow> MMDB_s \<Rightarrow> MMDB_lookup_result_s \<Rightarrow> string \<Rightarrow> string \<Rightarrow> string \<Rightarrow> u8 list \<Rightarrow> u8 list \<Rightarrow> unit prog" where
  "test_one_result env mmdb result ip expect func db_file mode_desc =
     (let where_at = c_bytes '' - '' @ c_bytes func @ c_bytes '' - '' @ c_bytes ip @ c_bytes '' - '' @ db_file
        @ c_bytes '' - '' @ mode_desc in
      bind_prog (ok (found_entry result) (c_bytes ''got a result for an IP in the database'' @ where_at)) (\<lambda>is_ok.
      if \<not> is_ok then give ()
      else
        bind_prog (entry_data_ok env mmdb result MMDB_DATA_TYPE_UTF8_STRING (c_bytes ''result{ip}'') [Some ''ip'', None]) (\<lambda>data.
        bind_prog (call (strndup_data env data)) (\<lambda>string.
        bind_prog (call (real_expect env mmdb expect)) (\<lambda>expected.
        then_prog (is_at_loc string expected (c_bytes ''found expected result for ip key'' @ where_at)) (give ()))))))"

definition basic_test_one_ip ::
  "test_env \<Rightarrow> MMDB_s \<Rightarrow> string \<Rightarrow> string \<Rightarrow> u8 list \<Rightarrow> u8 list \<Rightarrow> MMDB_s prog" where
  "basic_test_one_ip env mmdb ip expect db_file mode_desc =
     bind_prog (lookup_string_ok env mmdb ip db_file mode_desc) (\<lambda>(result, mmdb).
     then_prog (test_one_result env mmdb result ip expect ''MMDB_lookup_string'' db_file mode_desc)
     (bind_prog (lookup_sockaddr_ok env mmdb ip db_file mode_desc) (\<lambda>(result, mmdb).
     then_prog (test_one_result env mmdb result ip expect ''MMDB_lookup_addrinfo'' db_file mode_desc)
     (give mmdb))))"

text \<open>The two loops of \<open>run_ipX_tests\<close>.\<close>

primrec missing_loop :: "test_env \<Rightarrow> u8 list \<Rightarrow> u8 list \<Rightarrow> string list \<Rightarrow> MMDB_s \<Rightarrow> MMDB_s prog" where
  "missing_loop env db_file mode_desc [] mmdb = give mmdb"
| "missing_loop env db_file mode_desc (ip # missing_ips) mmdb =
     (let where_at = c_bytes '' - '' @ c_bytes ip @ c_bytes '' - '' @ db_file @ c_bytes '' - '' @ mode_desc in
      bind_prog (lookup_string_ok env mmdb ip db_file mode_desc) (\<lambda>(result, mmdb).
      then_prog (ok (\<not> found_entry result)
        (c_bytes ''no result entry struct returned for IP address not in the database (string lookup)'' @ where_at))
      (bind_prog (lookup_sockaddr_ok env mmdb ip db_file mode_desc) (\<lambda>(result, mmdb).
      then_prog (ok (\<not> found_entry result)
        (c_bytes ''no result entry struct returned for IP address not in the database (ipv4 lookup)'' @ where_at))
      (missing_loop env db_file mode_desc missing_ips mmdb)))))"

primrec pairs_loop :: "test_env \<Rightarrow> u8 list \<Rightarrow> u8 list \<Rightarrow> (string \<times> string) list \<Rightarrow> MMDB_s \<Rightarrow> MMDB_s prog" where
  "pairs_loop env db_file mode_desc [] mmdb = give mmdb"
| "pairs_loop env db_file mode_desc (pair # pairs) mmdb =
     bind_prog (basic_test_one_ip env mmdb (fst pair) (snd pair) db_file mode_desc) (pairs_loop env db_file mode_desc pairs)"

definition run_ipX_tests ::
  "test_env \<Rightarrow> u32 \<Rightarrow> u8 list \<Rightarrow> u8 list \<Rightarrow> string list \<Rightarrow> (string \<times> string) list \<Rightarrow> unit prog" where
  "run_ipX_tests env mode mode_desc db_file missing_ips pairs =
     bind_prog (test_database_path env db_file) (\<lambda>path.
     bind_prog (open_ok env path mode mode_desc) (\<lambda>mmdb.
     bind_prog (handle_at mmdb) (\<lambda>mmdb.
     bind_prog (missing_loop env db_file mode_desc missing_ips mmdb) (\<lambda>mmdb.
     bind_prog (pairs_loop env db_file mode_desc pairs mmdb) close_and_free))))"

definition ipv4_pairs :: "(string \<times> string) list" where
  "ipv4_pairs =
     [(''1.1.1.1'', ''1.1.1.1''), (''1.1.1.2'', ''1.1.1.2''), (''1.1.1.3'', ''1.1.1.2''), (''1.1.1.7'', ''1.1.1.4''),
      (''1.1.1.9'', ''1.1.1.8''), (''1.1.1.15'', ''1.1.1.8''), (''1.1.1.17'', ''1.1.1.16''), (''1.1.1.31'', ''1.1.1.16''),
      (''1.1.1.32'', ''1.1.1.32'')]"

definition ipv6_pairs :: "(string \<times> string) list" where
  "ipv6_pairs =
     [(''::1:ffff:ffff'', ''::1:ffff:ffff''), (''::2:0:0'', ''::2:0:0''), (''::2:0:1a'', ''::2:0:0''),
      (''::2:0:40'', ''::2:0:40''), (''::2:0:4f'', ''::2:0:40''), (''::2:0:50'', ''::2:0:50''), (''::2:0:52'', ''::2:0:50''),
      (''::2:0:58'', ''::2:0:58''), (''::2:0:59'', ''::2:0:58'')]"

text \<open>The mode and its description are global variables.\<close>

definition run_ipv4_tests :: "test_env \<Rightarrow> u32 \<Rightarrow> u8 list \<Rightarrow> nat \<Rightarrow> u8 list \<Rightarrow> u8 list \<Rightarrow> unit prog" where
  "run_ipv4_tests env mode mode_desc bits db_file ignored =
     run_ipX_tests env mode mode_desc db_file [''2.3.4.5''] ipv4_pairs"

definition run_ipv6_tests :: "test_env \<Rightarrow> u32 \<Rightarrow> u8 list \<Rightarrow> nat \<Rightarrow> u8 list \<Rightarrow> u8 list \<Rightarrow> unit prog" where
  "run_ipv6_tests env mode mode_desc bits db_file ignored =
     run_ipX_tests env mode mode_desc db_file [''2.3.4.5'', ''::abcd''] ipv6_pairs"

text \<open>The name of a file, with its record size for \<^verbatim>\<open>%i\<close>.\<close>

definition sized_name :: "string \<Rightarrow> nat \<Rightarrow> u8 list" where
  "sized_name kind bits = c_bytes ''MaxMind-DB-test-'' @ c_bytes kind @ c_bytes ''-'' @ print_nat bits @ c_bytes ''.mmdb''"

definition all_record_sizes :: "test_env \<Rightarrow> u32 \<Rightarrow> u8 list \<Rightarrow> unit prog" where
  "all_record_sizes env mode mode_desc = in_turn
     [for_all_record_sizes (sized_name ''ipv4'') (run_ipv4_tests env mode mode_desc),
      for_all_record_sizes (sized_name ''mixed'') (run_ipv4_tests env mode mode_desc),
      for_all_record_sizes (sized_name ''ipv6'') (run_ipv6_tests env mode mode_desc),
      for_all_record_sizes (sized_name ''mixed'') (run_ipv6_tests env mode mode_desc)]"

definition basic_lookup_t :: "test_env \<Rightarrow> (int \<times> tap) run" where
  "basic_lookup_t env = test_main (for_all_modes (all_record_sizes env))"

section \<open>All tests pass\<close>

text \<open>The value of an address, in a database of an IP version.\<close>

definition shown_ip :: "u16 \<Rightarrow> string \<Rightarrow> string" where
  "shown_ip version expect = (if version = 4 \<or> take 2 expect = ''::'' then expect else ''::'' @ expect)"

definition has_ip :: "test_env \<Rightarrow> string \<Rightarrow> u16 \<Rightarrow> string \<times> string \<Rightarrow> bool" where
  "has_ip env file version pair \<longleftrightarrow> plain_address (fst pair) \<and> 0 \<notin> set (c_bytes (snd pair))
     \<and> (\<exists>v. in_database env file (fst pair) v \<and> field_get v [''ip''] = Inr (F_string (c_bytes (shown_ip version (snd pair)))))"

definition has_addresses :: "test_env \<Rightarrow> string \<Rightarrow> u16 \<Rightarrow> string list \<Rightarrow> (string \<times> string) list \<Rightarrow> bool" where
  "has_addresses env file version missing_ips pairs \<longleftrightarrow> has_database env file
     \<and> (\<forall>h. file_opens (depth_bound env) (test_file env file) (database_path env (c_bytes file)) h \<longrightarrow> ip_version (metadata h) = version)
     \<and> (\<forall>ip \<in> set missing_ips. plain_address ip \<and> not_in_database env file ip) \<and> (\<forall>pair \<in> set pairs. has_ip env file version pair)"

lemma real_expect_shown:
  "memory_ok env \<Longrightarrow> real_expect env mmdb expect = Done (Some (c_bytes (shown_ip (ip_version (metadata mmdb)) expect)))"
  by (simp add: real_expect_def shown_ip_def memory_ok_def clipped_def) (simp add: c_bytes_def)

lemma passes_one_result:
  assumes h: "handle_of env file h" and r: "found_entry res" "entry_tells env h (entry res) v"
    and v: "field_get v [''ip''] = Inr (F_string (c_bytes (shown_ip (ip_version (metadata h)) expect)))"
    and z: "0 \<notin> set (c_bytes expect)" and n: "n = 4"
  shows "passes (test_one_result env h res ip expect func db_file mode_desc) n (\<lambda>_. True)"
proof -
  have z': "0 \<notin> set (c_bytes (shown_ip (ip_version (metadata h)) expect))"
    using z by (simp add: shown_ip_def) (simp add: c_bytes_def)
  note x = real_expect_shown[OF handle_ofD(1)[OF h], of h expect]
  show ?thesis
    unfolding test_one_result_def Let_def
  proof (rule passes_ok_bind[OF r(1)], simp only: not_True_eq_False if_False, rule passes_bind[OF passes_data_ok[OF h r(2) v]])
    fix ed
    assume "shows_in h ed (F_string (c_bytes (shown_ip (ip_version (metadata h)) expect)))"
    note s = shows_string(2)[OF handle_of_strings[OF h] this z']
    show "passes (bind_prog (call (strndup_data env ed)) (\<lambda>string. bind_prog (call (real_expect env h expect)) (\<lambda>expected.
        then_prog (is_at_loc string expected name) (give ())))) (n - 1 - 2) (\<lambda>_. True)" for name
      by (rule passes_call_bind[OF s], rule passes_call_bind[OF x], rule passes_then[OF passes_is[OF refl refl]])
        (use n in \<open>simp_all add: passes_give\<close>)
  qed (use n in simp_all)
qed

text \<open>A handle whose database has an IP version.\<close>

definition handle_for :: "test_env \<Rightarrow> string \<Rightarrow> u16 \<Rightarrow> MMDB_s \<Rightarrow> bool" where
  "handle_for env file version h \<longleftrightarrow> handle_of env file h \<and> ip_version (metadata h) = version"

lemma passes_one_ip:
  assumes h: "handle_for env file version h" and i: "has_ip env file version (ip, expect)" and n: "n = 12"
  shows "passes (basic_test_one_ip env h ip expect db_file mode_desc) n (handle_for env file version)"
proof -
  obtain v where p: "plain_address ip" and z: "0 \<notin> set (c_bytes expect)" and v: "in_database env file ip v"
    and g: "field_get v [''ip''] = Inr (F_string (c_bytes (shown_ip version expect)))"
    using i by (auto simp: has_ip_def)
  have one: "passes (test_one_result env h' res ip expect func db_file mode_desc) 4 (\<lambda>_. True)"
    if "handle_of env file h'" "found_entry res" "entry_tells env h' (entry res) v" "ip_version (metadata h') = version" for h' and res :: MMDB_lookup_result_s and func
    by (rule passes_one_result[OF that(1-3)]) (use g z that(4) in simp_all)
  have h': "handle_of env file h" "ip_version (metadata h) = version" using h by (simp_all add: handle_for_def)
  show ?thesis
    unfolding basic_test_one_ip_def
  proof (rule passes_bind[OF passes_lookup_string[OF h'(1) v refl]], clarify)
    fix res :: MMDB_lookup_result_s and h1
    assume a: "handle_of env file h1" "found_entry res" "entry_tells env h1 (entry res) v" "metadata h1 = metadata h"
    then have b: "ip_version (metadata h1) = version" using h'(2) by simp
    show "passes (then_prog (test_one_result env h1 res ip expect ''MMDB_lookup_string'' db_file mode_desc)
      (bind_prog (lookup_sockaddr_ok env h1 ip db_file mode_desc) (\<lambda>(result, mmdb).
       then_prog (test_one_result env mmdb result ip expect ''MMDB_lookup_addrinfo'' db_file mode_desc) (give mmdb)))) (n - 2)
       (handle_for env file version)"
    proof (rule passes_then[OF one[OF a(1-3) b]], rule passes_bind[OF passes_lookup_sockaddr[OF a(1) v p refl]], clarify)
      fix res :: MMDB_lookup_result_s and h2
      assume c: "handle_of env file h2" "found_entry res" "entry_tells env h2 (entry res) v" "metadata h2 = metadata h1"
      then have d: "ip_version (metadata h2) = version" using b by simp
      show "passes (then_prog (test_one_result env h2 res ip expect ''MMDB_lookup_addrinfo'' db_file mode_desc) (give h2))
          (n - 2 - 4 - 2) (handle_for env file version)"
        by (rule passes_then[OF one[OF c(1-3) d] passes_give]) (use c(1) d n in \<open>simp_all add: handle_for_def\<close>)
    qed (use n in simp_all)
  qed (use n in simp_all)
qed

lemma passes_pairs:
  "handle_for env file version h \<Longrightarrow> \<forall>pair \<in> set pairs. has_ip env file version pair \<Longrightarrow> n = 12 * length pairs \<Longrightarrow>
    passes (pairs_loop env db_file mode_desc pairs h) n (handle_for env file version)"
proof (induction pairs arbitrary: h n)
  case (Cons pair pairs)
  then have "has_ip env file version (fst pair, snd pair)" by simp
  note one = passes_one_ip[OF Cons.prems(1) this refl]
  show ?case unfolding pairs_loop.simps by (rule passes_bind[OF one], rule Cons.IH) (use Cons.prems in simp_all)
qed (simp add: passes_give)

lemma passes_missing:
  "handle_for env file version h \<Longrightarrow> \<forall>ip \<in> set ips. plain_address ip \<and> not_in_database env file ip \<Longrightarrow> n = 6 * length ips \<Longrightarrow>
    passes (missing_loop env db_file mode_desc ips h) n (handle_for env file version)"
proof (induction ips arbitrary: h n)
  case (Cons ip ips)
  then have h: "handle_of env file h" "ip_version (metadata h) = version" and i: "plain_address ip" "not_in_database env file ip"
    by (simp_all add: handle_for_def)
  show ?case
    unfolding missing_loop.simps Let_def
  proof (rule passes_bind[OF passes_lookup_string_missing[OF h(1) i(2) refl]], clarify,
      rule passes_then[OF passes_ok[OF _ refl]], simp, rule passes_bind[OF passes_lookup_sockaddr_missing[OF _ i(2,1) refl]], assumption, clarify,
      rule passes_then[OF passes_ok[OF _ refl]], simp, rule Cons.IH)
    fix res h1 res' h2
    assume "handle_of env file h2" "metadata h2 = metadata h1" "metadata h1 = metadata h"
    then show "handle_for env file version h2" using h(2) by (simp add: handle_for_def)
  qed (use Cons.prems in simp_all)
qed (simp add: passes_give)

lemma passes_ipX:
  assumes m: "memory_ok env" and a: "has_addresses env file version missing_ips pairs" and f: "db_file = c_bytes file"
    and n: "n = 2 + 6 * length missing_ips + 12 * length pairs"
  shows "passes (run_ipX_tests env MMDB_MODE_MMAP mode_desc db_file missing_ips pairs) n (\<lambda>_. True)"
  unfolding run_ipX_tests_def f
proof (rule passes_bind[OF passes_path[OF m refl]], simp only:, rule passes_bind[OF passes_open_ok[OF m _ refl]])
  fix r
  assume "\<exists>h. r = Some h \<and> handle_of env file h \<and> file_opens (depth_bound env) (test_file env file) (database_path env (c_bytes file)) h"
  then obtain h where h: "r = Some h" "handle_for env file version h" using a by (auto simp: has_addresses_def handle_for_def)
  show "passes (bind_prog (handle_at r) (\<lambda>mmdb. bind_prog (missing_loop env (c_bytes file) mode_desc missing_ips mmdb)
      (\<lambda>mmdb. bind_prog (pairs_loop env (c_bytes file) mode_desc pairs mmdb) close_and_free))) (n - 0 - 2) (\<lambda>_. True)"
  proof (rule passes_bind[OF passes_handle_at[OF h(1) refl]], simp only:, rule passes_bind[OF passes_missing[OF h(2) _ refl]],
      use a in \<open>simp add: has_addresses_def\<close>, rule passes_bind[OF passes_pairs[OF _ _ refl]], assumption,
      use a in \<open>simp add: has_addresses_def\<close>, rule passes_close)
    show "handle_for env file version h' \<Longrightarrow> handle_of env file h'" for h' by (simp add: handle_for_def)
  qed (use n in simp_all)
qed (use a n in \<open>simp_all add: has_addresses_def\<close>)

text \<open>The databases that the program is for.\<close>

abbreviation sized_file :: "string \<Rightarrow> string \<Rightarrow> string" where
  "sized_file kind bits \<equiv> ''MaxMind-DB-test-'' @ kind @ ''-'' @ bits @ ''.mmdb''"

definition basic_databases :: "test_env \<Rightarrow> bool" where
  "basic_databases env \<longleftrightarrow> memory_ok env \<and> (\<forall>bits \<in> {''24'', ''28'', ''32''}.
     has_addresses env (sized_file ''ipv4'' bits) 4 [''2.3.4.5''] ipv4_pairs
     \<and> has_addresses env (sized_file ''mixed'' bits) 6 [''2.3.4.5''] ipv4_pairs
     \<and> has_addresses env (sized_file ''ipv6'' bits) 6 [''2.3.4.5'', ''::abcd''] ipv6_pairs
     \<and> has_addresses env (sized_file ''mixed'' bits) 6 [''2.3.4.5'', ''::abcd''] ipv6_pairs)"

lemma sized_names:
  assumes "length kind \<le> 100"
  shows "clipped 500 (sized_name kind 24) = c_bytes (sized_file kind ''24'')"
    "clipped 500 (sized_name kind 28) = c_bytes (sized_file kind ''28'')"
    "clipped 500 (sized_name kind 32) = c_bytes (sized_file kind ''32'')"
  using assms by (simp_all add: clipped_def sized_name_def) (simp_all add: c_bytes_def print_nat.simps digit_char_def)

lemma passes_record_sizes:
  assumes "\<And>bits db_file. db_file \<in> c_bytes ` sized_file kind ` {''24'', ''28'', ''32''} \<Longrightarrow>
      passes (tests bits db_file (clipped 14 (print_nat bits @ c_bytes '' bit record''))) m (\<lambda>_. True)"
    and "length kind \<le> 100" "n = 3 * m"
  shows "passes (for_all_record_sizes (sized_name kind) tests) n (\<lambda>_. True)"
proof -
  have t: "passes (tests bits (clipped 500 (sized_name kind bits)) (clipped 14 (print_nat bits @ c_bytes '' bit record''))) m (\<lambda>_. True)"
    if "bits \<in> {24, 28, 32}" for bits
    by (rule assms(1)) (use that sized_names[OF assms(2)] in auto)
  show ?thesis
    unfolding for_all_record_sizes_def list.map
    by (rule passes_in_turn_Cons[OF t passes_in_turn_Cons[OF t passes_in_turn_Cons[OF t passes_in_turn_Nil]]])
      (use assms(3) in simp_all)
qed

text \<open>
  C19: The tests of \<^verbatim>\<open>basic_lookup_t.c\<close>, 1428 of them, pass: in databases of every record size and IP version each address is
  found with the value of its network, by its string and by its socket address, and the others are not found.
\<close>
theorem basic_lookup_t_passes:
  assumes "basic_databases env"
  shows "succeeds (basic_lookup_t env) 1428"
proof -
  have m: "memory_ok env" and four: "length ipv4_pairs = 9" "length ipv6_pairs = 9"
    using assms by (simp_all add: basic_databases_def ipv4_pairs_def ipv6_pairs_def)
  have d: "\<forall>bits \<in> {''24'', ''28'', ''32''}. has_addresses env (sized_file ''ipv4'' bits) 4 [''2.3.4.5''] ipv4_pairs"
    "\<forall>bits \<in> {''24'', ''28'', ''32''}. has_addresses env (sized_file ''mixed'' bits) 6 [''2.3.4.5''] ipv4_pairs"
    "\<forall>bits \<in> {''24'', ''28'', ''32''}. has_addresses env (sized_file ''ipv6'' bits) 6 [''2.3.4.5'', ''::abcd''] ipv6_pairs"
    "\<forall>bits \<in> {''24'', ''28'', ''32''}. has_addresses env (sized_file ''mixed'' bits) 6 [''2.3.4.5'', ''::abcd''] ipv6_pairs"
    using assms unfolding basic_databases_def by blast+
  have v4: "passes (for_all_record_sizes (sized_name kind) (run_ipv4_tests env MMDB_MODE_MMAP mode_desc)) 348 (\<lambda>_. True)"
    if "\<forall>bits \<in> {''24'', ''28'', ''32''}. has_addresses env (sized_file kind bits) version [''2.3.4.5''] ipv4_pairs"
      "length kind \<le> 100" for kind version mode_desc
    unfolding run_ipv4_tests_def
    by (rule passes_record_sizes[OF _ that(2)], elim imageE, rule passes_ipX[OF m _ _ refl], rule bspec[OF that(1)])
      (simp_all only:, simp_all add: four)
  have v6: "passes (for_all_record_sizes (sized_name kind) (run_ipv6_tests env MMDB_MODE_MMAP mode_desc)) 366 (\<lambda>_. True)"
    if "\<forall>bits \<in> {''24'', ''28'', ''32''}. has_addresses env (sized_file kind bits) 6 [''2.3.4.5'', ''::abcd''] ipv6_pairs"
      "length kind \<le> 100" for kind mode_desc
    unfolding run_ipv6_tests_def
    by (rule passes_record_sizes[OF _ that(2)], elim imageE, rule passes_ipX[OF m _ _ refl], rule bspec[OF that(1)])
      (simp_all only:, simp_all add: four)
  have "passes (all_record_sizes env MMDB_MODE_MMAP mode_desc) 1428 (\<lambda>_. True)" for mode_desc
    unfolding all_record_sizes_def
    by (rule passes_in_turn_Cons[OF v4[of "''ipv4''" 4]], rule d(1), simp, rule passes_in_turn_Cons[OF v4[of "''mixed''" 6]],
        rule d(2), simp, rule passes_in_turn_Cons[OF v6], rule d(3), simp, rule passes_in_turn_Cons[OF v6], rule d(4), simp,
        rule passes_in_turn_Nil) simp_all
  then show ?thesis unfolding basic_lookup_t_def by (intro succeeds_main passes_for_all_modes)
qed

section \<open>Databases for which they pass\<close>

definition basic_disk :: disk where
  "basic_disk = concat (map (\<lambda>(bits, n).
     [(sized_file ''ipv4'' bits, test_metadata_for n 4, ipv4_networks [] []),
      (sized_file ''mixed'' bits, test_metadata_for n 6, mixed_networks),
      (sized_file ''ipv6'' bits, test_metadata_for n 6, ipv6_networks)]) [(''24'', 24), (''28'', 28), (''32'', 32)])"

abbreviation ipv6_end :: "u8 \<Rightarrow> u8 \<Rightarrow> u8 \<Rightarrow> u8 \<Rightarrow> u8 \<Rightarrow> sockaddr" where
  "ipv6_end a b c d e \<equiv> ipv6 [0, 0, 0, 0, 0, 0, 0, 0, 0, 0, 0, a, b, c, d, e]"

definition basic_hosts :: "(string \<times> sockaddr) list" where
  "basic_hosts =
     [(''1.1.1.1'', ipv4 [1, 1, 1, 1]), (''1.1.1.2'', ipv4 [1, 1, 1, 2]), (''1.1.1.3'', ipv4 [1, 1, 1, 3]),
      (''1.1.1.7'', ipv4 [1, 1, 1, 7]), (''1.1.1.9'', ipv4 [1, 1, 1, 9]), (''1.1.1.15'', ipv4 [1, 1, 1, 15]),
      (''1.1.1.17'', ipv4 [1, 1, 1, 17]), (''1.1.1.31'', ipv4 [1, 1, 1, 31]), (''1.1.1.32'', ipv4 [1, 1, 1, 32]),
      (''2.3.4.5'', ipv4 [2, 3, 4, 5]), (''::abcd'', ipv6_end 0 0 0 0xab 0xcd),
      (''::1:ffff:ffff'', ipv6_end 1 0xff 0xff 0xff 0xff), (''::2:0:0'', ipv6_end 2 0 0 0 0), (''::2:0:1a'', ipv6_end 2 0 0 0 0x1a),
      (''::2:0:40'', ipv6_end 2 0 0 0 0x40), (''::2:0:4f'', ipv6_end 2 0 0 0 0x4f), (''::2:0:50'', ipv6_end 2 0 0 0 0x50),
      (''::2:0:52'', ipv6_end 2 0 0 0 0x52), (''::2:0:58'', ipv6_end 2 0 0 0 0x58), (''::2:0:59'', ipv6_end 2 0 0 0 0x59)]"

abbreviation basic_env :: test_env where
  "basic_env \<equiv> written_env basic_disk basic_hosts"

abbreviation s6_bits :: "u8 \<Rightarrow> u8 \<Rightarrow> u8 \<Rightarrow> u8 \<Rightarrow> u8 \<Rightarrow> bool list" where
  "s6_bits a b c d e \<equiv> addr_bits [0, 0, 0, 0, 0, 0, 0, 0, 0, 0, 0, a, b, c, d, e]"

lemma found_ipv4:
  "network_of (ipv4_networks front name) (addr_bits (front @ [1, 1, 1, 1])) = Some (ip_value (name @ ''1.1.1.1''))"
  "network_of (ipv4_networks front name) (addr_bits (front @ [1, 1, 1, 2])) = Some (ip_value (name @ ''1.1.1.2''))"
  "network_of (ipv4_networks front name) (addr_bits (front @ [1, 1, 1, 3])) = Some (ip_value (name @ ''1.1.1.2''))"
  "network_of (ipv4_networks front name) (addr_bits (front @ [1, 1, 1, 7])) = Some (ip_value (name @ ''1.1.1.4''))"
  "network_of (ipv4_networks front name) (addr_bits (front @ [1, 1, 1, 9])) = Some (ip_value (name @ ''1.1.1.8''))"
  "network_of (ipv4_networks front name) (addr_bits (front @ [1, 1, 1, 15])) = Some (ip_value (name @ ''1.1.1.8''))"
  "network_of (ipv4_networks front name) (addr_bits (front @ [1, 1, 1, 17])) = Some (ip_value (name @ ''1.1.1.16''))"
  "network_of (ipv4_networks front name) (addr_bits (front @ [1, 1, 1, 31])) = Some (ip_value (name @ ''1.1.1.16''))"
  "network_of (ipv4_networks front name) (addr_bits (front @ [1, 1, 1, 32])) = Some (ip_value (name @ ''1.1.1.32''))"
  "network_of (ipv4_networks front name) (addr_bits (front @ [2, 3, 4, 5])) = None"
  by (simp_all add: ipv4_networks_def prefix_net_addr byte_values butlast_append)

lemma found_ipv6:
  "network_of (ipv6_networks @ nets) (s6_bits 1 0xff 0xff 0xff 0xff) = Some (ip_value ''::1:ffff:ffff'')"
  "network_of (ipv6_networks @ nets) (s6_bits 2 0 0 0 0) = Some (ip_value ''::2:0:0'')"
  "network_of (ipv6_networks @ nets) (s6_bits 2 0 0 0 0x1a) = Some (ip_value ''::2:0:0'')"
  "network_of (ipv6_networks @ nets) (s6_bits 2 0 0 0 0x40) = Some (ip_value ''::2:0:40'')"
  "network_of (ipv6_networks @ nets) (s6_bits 2 0 0 0 0x4f) = Some (ip_value ''::2:0:40'')"
  "network_of (ipv6_networks @ nets) (s6_bits 2 0 0 0 0x50) = Some (ip_value ''::2:0:50'')"
  "network_of (ipv6_networks @ nets) (s6_bits 2 0 0 0 0x52) = Some (ip_value ''::2:0:50'')"
  "network_of (ipv6_networks @ nets) (s6_bits 2 0 0 0 0x58) = Some (ip_value ''::2:0:58'')"
  "network_of (ipv6_networks @ nets) (s6_bits 2 0 0 0 0x59) = Some (ip_value ''::2:0:58'')"
  "network_of (ipv6_networks @ nets) (s6_bits 0 a b c d) = network_of nets (s6_bits 0 a b c d)"
  by (simp_all add: ipv6_networks_def prefix_net_addr byte_values)

lemma host_found:
  "map_of basic_hosts ''1.1.1.1'' = Some (ipv4 [1, 1, 1, 1])" "map_of basic_hosts ''1.1.1.2'' = Some (ipv4 [1, 1, 1, 2])"
  "map_of basic_hosts ''1.1.1.3'' = Some (ipv4 [1, 1, 1, 3])" "map_of basic_hosts ''1.1.1.7'' = Some (ipv4 [1, 1, 1, 7])"
  "map_of basic_hosts ''1.1.1.9'' = Some (ipv4 [1, 1, 1, 9])" "map_of basic_hosts ''1.1.1.15'' = Some (ipv4 [1, 1, 1, 15])"
  "map_of basic_hosts ''1.1.1.17'' = Some (ipv4 [1, 1, 1, 17])" "map_of basic_hosts ''1.1.1.31'' = Some (ipv4 [1, 1, 1, 31])"
  "map_of basic_hosts ''1.1.1.32'' = Some (ipv4 [1, 1, 1, 32])" "map_of basic_hosts ''2.3.4.5'' = Some (ipv4 [2, 3, 4, 5])"
  "map_of basic_hosts ''::abcd'' = Some (ipv6_end 0 0 0 0xab 0xcd)"
  "map_of basic_hosts ''::1:ffff:ffff'' = Some (ipv6_end 1 0xff 0xff 0xff 0xff)"
  "map_of basic_hosts ''::2:0:0'' = Some (ipv6_end 2 0 0 0 0)" "map_of basic_hosts ''::2:0:1a'' = Some (ipv6_end 2 0 0 0 0x1a)"
  "map_of basic_hosts ''::2:0:40'' = Some (ipv6_end 2 0 0 0 0x40)" "map_of basic_hosts ''::2:0:4f'' = Some (ipv6_end 2 0 0 0 0x4f)"
  "map_of basic_hosts ''::2:0:50'' = Some (ipv6_end 2 0 0 0 0x50)" "map_of basic_hosts ''::2:0:52'' = Some (ipv6_end 2 0 0 0 0x52)"
  "map_of basic_hosts ''::2:0:58'' = Some (ipv6_end 2 0 0 0 0x58)" "map_of basic_hosts ''::2:0:59'' = Some (ipv6_end 2 0 0 0 0x59)"
  by (simp_all add: basic_hosts_def)

text \<open>What the networks hold for an address.\<close>

definition network_answers :: "(bool list \<times> field) list \<Rightarrow> u16 \<Rightarrow> field option \<Rightarrow> string \<Rightarrow> bool" where
  "network_answers nets version found ip \<longleftrightarrow> plain_address ip
     \<and> (\<exists>sa bits. map_of basic_hosts ip = Some sa \<and> asked_bits version sa = Some bits \<and> network_of nets bits = found
          \<and> (\<forall>(p, v) \<in> set nets. length p \<le> length bits))"

definition network_pairs :: "(bool list \<times> field) list \<Rightarrow> u16 \<Rightarrow> (string \<times> string) list \<Rightarrow> bool" where
  "network_pairs nets version pairs \<longleftrightarrow> (\<forall>(ip, expect) \<in> set pairs.
     0 \<notin> set (c_bytes expect) \<and> network_answers nets version (Some (ip_value (shown_ip version expect))) ip)"

lemma on_disk_addresses:
  assumes d: "on_disk basic_disk file fm nets" and v: "fm_ip_version fm = version"
    and m: "list_all (network_answers nets version None) missing_ips" and p: "network_pairs nets version pairs"
  shows "has_addresses basic_env file version missing_ips pairs"
  unfolding has_addresses_def
proof (intro conjI ballI allI impI)
  let ?fs = "database_file fm (network_tree nets)" and ?path = "database_path basic_env (c_bytes file)"
  show "has_database basic_env file" by (rule on_disk_has_database[OF d])
  have fit: "networks_fit fm nets" using d by (simp add: on_disk_def)
  show "ip_version (metadata h) = version" if "file_opens (depth_bound basic_env) (test_file basic_env file) ?path h" for h
  proof -
    have "file_opens 16 ?fs ?path h" using that by (simp add: on_disk_file[OF d])
    then have "h = written_handle fm (network_tree nets) ?path MMDB_MODE_MMAP"
      using file_opens_same[OF _ written_file_served[OF networks_fit_writable(1)[OF fit]]] by simp
    then show ?thesis using v by (simp add: opened_handle_def filled_metadata_def Let_def)
  qed
  show "plain_address ip" "not_in_database basic_env file ip" if "ip \<in> set missing_ips" for ip
    using m that on_disk_value(2)[OF d] v by (auto simp: list_all_iff network_answers_def)
  show "has_ip basic_env file version pair" if "pair \<in> set pairs" for pair
  proof -
    obtain ip expect where pair: "pair = (ip, expect)" by (cases pair)
    with p that have z: "0 \<notin> set (c_bytes expect)" and a: "network_answers nets version (Some (ip_value (shown_ip version expect))) ip"
      by (auto simp: network_pairs_def)
    have "fdepth (ip_value s) \<le> 16" "field_get (ip_value s) [''ip''] = Inr (F_string (c_bytes s))" for s
      by (simp_all add: ip_value_def fdepth.simps)
    note ip = this
    have "in_database basic_env file ip (ip_value (shown_ip version expect))"
      using a on_disk_value(1)[OF d] v ip(1) by (auto simp: network_answers_def)
    with a z ip(2) show ?thesis unfolding pair has_ip_def fst_conv snd_conv network_answers_def by blast
  qed
qed


lemma asked_ipv4: "asked_bits 4 (ipv4 [a, b, c, d]) = Some (addr_bits ([] @ [a, b, c, d]))"
  "asked_bits 6 (ipv4 [a, b, c, d]) = Some (addr_bits (replicate 12 0 @ [a, b, c, d]))"
  "asked_bits 6 (ipv6_end a b c d e) = Some (s6_bits a b c d e)"
  by (simp_all add: asked_bits_def ipv4_def ipv6_def)

lemma networks_short:
  "\<forall>(p, v) \<in> set (ipv4_networks [] []). length p \<le> 32" "\<forall>(p, v) \<in> set mixed_networks. length p \<le> 128"
  "\<forall>(p, v) \<in> set ipv6_networks. length p \<le> 128"
  by (simp_all add: ipv4_networks_def ipv6_networks_def mixed_networks_def)

lemma zeros_front: "replicate 12 0 @ [a, b, c, d] = [0, 0, 0, 0, 0, 0, 0, 0, 0, 0, 0, 0, a, b, c, d]"
  by (simp add: numeral_eq_Suc)

lemma mixed_ipv4:
  "network_of mixed_networks (addr_bits (replicate 12 0 @ [a, b, c, d]))
    = network_of (ipv4_networks (replicate 12 0) ''::'') (addr_bits (replicate 12 0 @ [a, b, c, d]))"
  unfolding mixed_networks_def zeros_front by (rule found_ipv6(10))

lemma ipv6_missing:
  "network_of ipv6_networks (addr_bits (replicate 12 0 @ [a, b, c, d])) = None" "network_of ipv6_networks (s6_bits 0 a b c d) = None"
  "network_of mixed_networks (s6_bits 0 0 0 0xab 0xcd) = None"
proof -
  have six: "network_of ipv6_networks (s6_bits 0 a b c d) = None" for a b c d
    using found_ipv6(10)[where nets = "[]" and a = a and b = b and c = c and d = d] by simp
  then show "network_of ipv6_networks (addr_bits (replicate 12 0 @ [a, b, c, d])) = None"
    "network_of ipv6_networks (s6_bits 0 a b c d) = None" by (simp_all only: zeros_front)
  show "network_of mixed_networks (s6_bits 0 0 0 0xab 0xcd) = None"
    unfolding mixed_networks_def found_ipv6(10) by (simp add: ipv4_networks_def prefix_net_addr byte_values)
qed

lemma plain_addresses:
  "list_all plain_address [''2.3.4.5'', ''::abcd'']" "list_all (plain_address \<circ> fst) ipv4_pairs" "list_all (plain_address \<circ> fst) ipv6_pairs"
  by (simp_all add: plain_address_def ipv4_pairs_def ipv6_pairs_def)

lemma expected_strings:
  "\<forall>pair \<in> set ipv4_pairs. 0 \<notin> set (c_bytes (snd pair))" "\<forall>pair \<in> set ipv6_pairs. 0 \<notin> set (c_bytes (snd pair))"
  by (simp_all add: ipv4_pairs_def ipv6_pairs_def c_bytes_def)

lemma network_answersI:
  "plain_address ip \<Longrightarrow> map_of basic_hosts ip = Some sa \<Longrightarrow> asked_bits version sa = Some bits \<Longrightarrow> network_of nets bits = found \<Longrightarrow>
    \<forall>(p, v) \<in> set nets. length p \<le> k \<Longrightarrow> k = length bits \<Longrightarrow> network_answers nets version found ip"
  unfolding network_answers_def by blast

lemma basic_answers:
  "network_answers (ipv4_networks [] []) 4 None ''2.3.4.5''" "network_answers mixed_networks 6 None ''2.3.4.5''"
  "network_answers mixed_networks 6 None ''::abcd''" "network_answers ipv6_networks 6 None ''2.3.4.5''"
  "network_answers ipv6_networks 6 None ''::abcd''"
proof -
  have p: "plain_address ''2.3.4.5''" "plain_address ''::abcd''" using plain_addresses(1) by simp_all
  show "network_answers (ipv4_networks [] []) 4 None ''2.3.4.5''"
    by (rule network_answersI[OF p(1) host_found(10) asked_ipv4(1) found_ipv4(10) networks_short(1)]) simp
  show "network_answers mixed_networks 6 None ''2.3.4.5''"
    by (rule network_answersI[OF p(1) host_found(10) asked_ipv4(2) trans[OF mixed_ipv4 found_ipv4(10)] networks_short(2)]) simp
  show "network_answers mixed_networks 6 None ''::abcd''"
    by (rule network_answersI[OF p(2) host_found(11) asked_ipv4(3) ipv6_missing(3) networks_short(2)]) simp
  show "network_answers ipv6_networks 6 None ''2.3.4.5''"
    by (rule network_answersI[OF p(1) host_found(10) asked_ipv4(2) ipv6_missing(1) networks_short(3)]) simp
  show "network_answers ipv6_networks 6 None ''::abcd''"
    by (rule network_answersI[OF p(2) host_found(11) asked_ipv4(3) ipv6_missing(2) networks_short(3)]) simp
qed

text \<open>The pairs of the program, by the shape of the addresses.\<close>

lemma network_pairsI:
  assumes "list_all (plain_address \<circ> fst) pairs" "\<forall>pair \<in> set pairs. 0 \<notin> set (c_bytes (snd pair))"
    and "\<forall>(p, v) \<in> set nets. length p \<le> k"
    and "\<And>ip expect. (ip, expect) \<in> set pairs \<Longrightarrow> \<exists>sa bits. map_of basic_hosts ip = Some sa \<and> asked_bits version sa = Some bits
      \<and> k = length bits \<and> network_of nets bits = Some (ip_value (shown_ip version expect))"
  shows "network_pairs nets version pairs"
  unfolding network_pairs_def
proof (clarify, intro conjI)
  fix ip expect
  assume p: "(ip, expect) \<in> set pairs"
  then show "0 \<notin> set (c_bytes expect)" using assms(2) by auto
  have "plain_address ip" using assms(1) p by (auto simp: list_all_iff)
  with assms(4)[OF p] show "network_answers nets version (Some (ip_value (shown_ip version expect))) ip"
    using assms(3) network_answersI by metis
qed

lemma ipv4_pair_found:
  assumes "(ip, expect) \<in> set ipv4_pairs"
  shows "\<exists>d. map_of basic_hosts ip = Some (ipv4 [1, 1, 1, d])
    \<and> (\<forall>front name. network_of (ipv4_networks front name) (addr_bits (front @ [1, 1, 1, d])) = Some (ip_value (name @ expect)))
    \<and> take 2 expect \<noteq> ''::''"
  using assms unfolding ipv4_pairs_def list.set insert_iff empty_iff prod.inject
  by - (elim disjE conjE FalseE; (hypsubst, intro exI conjI allI, rule host_found, rule found_ipv4, simp))

lemma ipv6_pair_found:
  assumes "(ip, expect) \<in> set ipv6_pairs"
  shows "\<exists>a b c d e. map_of basic_hosts ip = Some (ipv6_end a b c d e)
    \<and> (\<forall>nets. network_of (ipv6_networks @ nets) (s6_bits a b c d e) = Some (ip_value expect)) \<and> take 2 expect = ''::''"
  using assms unfolding ipv6_pairs_def list.set insert_iff empty_iff prod.inject
  by - (elim disjE conjE FalseE; (hypsubst, intro exI conjI allI, rule host_found, rule found_ipv6, simp))


lemma basic_ipv4_pairs:
  "network_pairs (ipv4_networks [] []) 4 ipv4_pairs" "network_pairs mixed_networks 6 ipv4_pairs"
proof -
  show "network_pairs (ipv4_networks [] []) 4 ipv4_pairs"
  proof (rule network_pairsI[OF plain_addresses(2) expected_strings(1) networks_short(1)])
    fix ip expect
    assume "(ip, expect) \<in> set ipv4_pairs"
    then obtain d where d: "map_of basic_hosts ip = Some (ipv4 [1, 1, 1, d])"
      "network_of (ipv4_networks [] []) (addr_bits ([] @ [1, 1, 1, d])) = Some (ip_value ([] @ expect))"
      using ipv4_pair_found by blast
    show "\<exists>sa bits. map_of basic_hosts ip = Some sa \<and> asked_bits 4 sa = Some bits \<and> 32 = length bits
        \<and> network_of (ipv4_networks [] []) bits = Some (ip_value (shown_ip 4 expect))"
      by (intro exI conjI, rule d(1), rule asked_ipv4(1)) (use d(2) in \<open>simp_all add: shown_ip_def\<close>)
  qed
  show "network_pairs mixed_networks 6 ipv4_pairs"
  proof (rule network_pairsI[OF plain_addresses(2) expected_strings(1) networks_short(2)])
    fix ip expect
    assume "(ip, expect) \<in> set ipv4_pairs"
    then obtain d where d: "map_of basic_hosts ip = Some (ipv4 [1, 1, 1, d])" "take 2 expect \<noteq> ''::''"
      "network_of (ipv4_networks (replicate 12 0) ''::'') (addr_bits (replicate 12 0 @ [1, 1, 1, d])) = Some (ip_value (''::'' @ expect))"
      using ipv4_pair_found by blast
    have "shown_ip 6 expect = ''::'' @ expect" using d(2) by (simp add: shown_ip_def)
    then have m: "network_of mixed_networks (addr_bits (replicate 12 0 @ [1, 1, 1, d])) = Some (ip_value (shown_ip 6 expect))"
      unfolding mixed_ipv4 using d(3) by (simp only:)
    show "\<exists>sa bits. map_of basic_hosts ip = Some sa \<and> asked_bits 6 sa = Some bits \<and> 128 = length bits
        \<and> network_of mixed_networks bits = Some (ip_value (shown_ip 6 expect))"
      by (intro exI conjI, rule d(1), rule asked_ipv4(2), simp, rule m)
  qed
qed

lemma basic_ipv6_pairs:
  assumes "\<forall>(p, v) \<in> set nets. length p \<le> 128"
  shows "network_pairs (ipv6_networks @ nets) 6 ipv6_pairs"
proof -
  have "\<forall>(p, v) \<in> set (ipv6_networks @ nets). length p \<le> 128" using assms networks_short(3) by auto
  then show "network_pairs (ipv6_networks @ nets) 6 ipv6_pairs"
  proof (rule network_pairsI[OF plain_addresses(3) expected_strings(2)])
    fix ip expect
    assume "(ip, expect) \<in> set ipv6_pairs"
    then obtain a b c d e where d: "map_of basic_hosts ip = Some (ipv6_end a b c d e)" "take 2 expect = ''::''"
      "network_of (ipv6_networks @ nets) (s6_bits a b c d e) = Some (ip_value expect)"
      using ipv6_pair_found by blast
    show "\<exists>sa bits. map_of basic_hosts ip = Some sa \<and> asked_bits 6 sa = Some bits \<and> 128 = length bits
        \<and> network_of (ipv6_networks @ nets) bits = Some (ip_value (shown_ip 6 expect))"
      by (intro exI conjI, rule d(1), rule asked_ipv4(3)) (use d(2,3) in \<open>simp_all add: shown_ip_def\<close>)
  qed
qed

lemma basic_on_disk:
  assumes "(bits, n) \<in> {(''24'', 24), (''28'', 28), (''32'', 32)}"
  shows "on_disk basic_disk (sized_file ''ipv4'' bits) (test_metadata_for n 4) (ipv4_networks [] [])"
    "on_disk basic_disk (sized_file ''mixed'' bits) (test_metadata_for n 6) mixed_networks"
    "on_disk basic_disk (sized_file ''ipv6'' bits) (test_metadata_for n 6) ipv6_networks"
  using assms address_networks_fit[of n] by (auto simp: on_disk_def basic_disk_def)

theorem basic_lookup_t_passes_witness: "succeeds (basic_lookup_t basic_env) 1428"
proof (rule basic_lookup_t_passes, unfold basic_databases_def, intro conjI ballI)
  show "memory_ok basic_env" by simp
  fix bits
  assume "bits \<in> {''24'', ''28'', ''32''}"
  then obtain n :: u16 where "(bits, n) \<in> {(''24'', 24), (''28'', 28), (''32'', 32)}" by blast
  note d = basic_on_disk[OF this]
  have v: "fm_ip_version (test_metadata_for n k) = k" for k by (simp add: test_metadata_for_def)
  have mixed: "network_pairs mixed_networks 6 ipv6_pairs"
    unfolding mixed_networks_def by (rule basic_ipv6_pairs) (simp add: ipv4_networks_def)
  show "has_addresses basic_env (sized_file ''ipv4'' bits) 4 [''2.3.4.5''] ipv4_pairs"
    by (rule on_disk_addresses[OF d(1) v]) (simp_all add: basic_answers basic_ipv4_pairs)
  show "has_addresses basic_env (sized_file ''mixed'' bits) 6 [''2.3.4.5''] ipv4_pairs"
    by (rule on_disk_addresses[OF d(2) v]) (simp_all add: basic_answers basic_ipv4_pairs)
  show "has_addresses basic_env (sized_file ''ipv6'' bits) 6 [''2.3.4.5'', ''::abcd''] ipv6_pairs"
    by (rule on_disk_addresses[OF d(3) v]) (use basic_ipv6_pairs[of "[]"] in \<open>simp_all add: basic_answers\<close>)
  show "has_addresses basic_env (sized_file ''mixed'' bits) 6 [''2.3.4.5'', ''::abcd''] ipv6_pairs"
    by (rule on_disk_addresses[OF d(2) v]) (simp_all add: basic_answers mixed)
qed

end
