(* ===== verification/Spec2Isabelle.thy ===== *)
theory Spec2Isabelle
  imports EntryTyping DumpTheorems ThreadTheorems HostTheorems Variants BindingEndToEnd EndToEnd
    WrittenDatabase DataTypesTest GetValueTest EntryListTest MetadataTest BasicLookupTest
begin

text \<open>
  A verification library for node-geoip2c: the C library libmaxminddb, which reads MaxMind DB files, its
  command line program \<^verbatim>\<open>mmdblookup\<close>, and the Node.js binding on top of the library.

  \<^bold>\<open>The program.\<close> \<open>MMDB_open\<close> maps a file, finds the metadata behind a marker near the end and fills in a
  handle \<open>MMDB_s\<close>. \<open>MMDB_lookup_string\<close> and \<open>MMDB_lookup_sockaddr\<close> walk the bits of an address through a
  binary tree at the start of the file; a record that leaves the tree is an offset into the data
  section behind it. \<open>MMDB_get_value\<close> and its variants select an element of the value there by a path,
  \<open>MMDB_get_entry_data_list\<close> unfolds it into a list, \<open>MMDB_dump_entry_data_list\<close> prints such a list, and
  \<open>MMDB_close\<close> gives everything back. \<^verbatim>\<open>mmdblookup\<close> does this for one address. The binding keeps five handles,
  opens files into them (\<open>load\<close>), looks an address up in all of them (\<open>lookupIp\<close>) and closes them (\<open>unload\<close>).

  \<^bold>\<open>Conventions.\<close> A computation is a \<open>run\<close>: it returns (\<open>Done\<close>), has no result the language defines (\<open>Fault\<close>:
  a read outside an object, through a null pointer, of an indeterminate value or of a part of a union
  that was not stored, a signed overflow), or needs more than the bound on its recursion (\<open>OutOfFuel\<close>).
  Integers have their width and wrap. A pointer is a block of bytes with an index into it. A function
  with an out parameter returns the object it leaves behind; a handle that is changed is part of the
  result. Whether an allocation succeeds is a function from the place it is made at, or from its
  number, so that every failure is covered. What is freed, unmapped or printed is a result, and so are the
  nodes of a list that stay allocated when nothing points to them any more. The host is
  little-endian, with a \<open>size_t\<close> of 64 bits; floating point numbers are IEEE patterns.

  \<^bold>\<open>Theories.\<close> (All C sources are under \<^verbatim>\<open>src/libmaxminddb\<close>.)

    \<^item> \<open>Prelude\<close>: words, \<open>run\<close> with its sequencing, what holds after a computation (\<open>post\<close>), fact collections.

    \<^item> \<open>CMemory\<close>: byte memory, and \<^verbatim>\<open>src/maxminddb-compat-util.h\<close> (\<open>mmdb_memmem\<close>, \<open>mmdb_strnlen\<close>, \<open>mmdb_strdup\<close>,
      \<open>mmdb_strndup\<close>). \<open>ByteGetters\<close>: the routines that assemble integers, floats, records and pointers
      from bytes. \<open>MMDB_Types\<close>: the types of \<^verbatim>\<open>include/maxminddb.h\<close> and \<open>MMDB_strerror\<close>.

    \<^item> Search tree: \<open>SearchTree\<close> has \<open>MMDB_lookup_string\<close>, \<open>MMDB_lookup_sockaddr\<close>, \<open>find_address_in_search_tree\<close>,
      \<open>find_ipv4_start_node\<close>, \<open>populate_result\<close> and \<open>MMDB_read_node\<close>. \<open>TreeSpec\<close> has the tree of the file
      format and the walk of a bit string; the locale \<open>record_layout\<close> says what the loops need of a record
      layout and is interpreted for 24, 28 and 32 bits. \<open>TreeLookup\<close> proves that the loops are the walk, that
      they stay inside the tree and that the cached IPv4 start node never shows. \<open>LookupTheorems\<close> has the properties.
      \<open>Threads\<close> has lookups of many threads on one handle, as a step relation in which each access to the shared
      start node is a step; \<open>ThreadTheorems\<close> has its invariant and what the threads get.

    \<^item> Data section: \<open>DataSection\<close> has \<open>decode_one\<close> and \<open>decode_one_follow\<close>; \<open>PathLookup\<close> has \<open>skip_map_or_array\<close>, the
      lookups in maps and arrays and \<open>MMDB_aget_value\<close>, \<open>MMDB_vget_value\<close>, \<open>MMDB_get_value\<close>; \<open>EntryList\<close> has
      \<open>get_entry_data_list\<close> and \<open>MMDB_free_entry_data_list\<close>. \<open>DataSpec\<close> has values (\<open>field\<close>) and the relation
      \<open>encoded\<close> between bytes and values, pointers included. \<open>PathSpec\<close> and \<open>PathRefinement\<close> prove that a path
      lookup on bytes is the lookup in the value; the locale \<open>field_reader\<close> says what the loops need of
      decoding and skipping and is interpreted for the code's functions. \<open>ListSpec\<close> proves that the list
      is the value in pre-order. \<open>DataSafety\<close> is about arbitrary bytes: statuses, how far is read, progress
      and termination. \<open>DataTheorems\<close> has the properties. \<open>EntryTyping\<close> has the type invariant of entries.

    \<^item> Opening and closing: \<open>Metadata\<close> has \<open>find_metadata\<close>, \<open>read_metadata\<close> and what it calls; \<open>Handle\<close> has \<open>map_file\<close>,
      \<open>MMDB_open\<close>, with what it does to its label \<open>cleanup\<close> as \<open>open_attempt\<close>, \<open>free_mmdb_struct\<close> and \<open>MMDB_close\<close>. \<open>MetadataSpec\<close> is about searching the marker,
      \<open>HandleSpec\<close> has the invariants of the arrays of languages and descriptions, \<open>HandleInv\<close> what a handle
      holds on every path of opening and what closing gives back, \<open>OpenSpec\<close> the handle that a map of
      metadata describes. \<open>OpenTheorems\<close> has the properties. \<open>HostCalls\<close> has the same functions as calls of the
      operating system, for POSIX and for Windows, with descriptors, handles, mappings and \<open>errno\<close>, which \<open>free\<close>
      may change too, and with the \<open>ssize_t\<close> of the Microsoft compiler, which is an \<open>int\<close>; \<open>HostSpec\<close> states
      the contract of \<open>map_file\<close> as the locale \<open>file_mapper\<close>, proves what follows for opening and closing and
      interprets it for both hosts; \<open>HostTheorems\<close> has the properties.

    \<^item> Printing: \<open>Printing\<close> has the conversions of \<open>printf\<close>, \<open>Dump\<close> the functions of \<^verbatim>\<open>maxminddb.c\<close> that print a list,
      \<open>DumpSpec\<close> the text of a value (\<open>render\<close>) and the proof that it is what is printed; \<open>DumpTheorems\<close> has the
      properties. \<open>Variants\<close> has what only some builds compile: 128-bit integers as arrays of bytes, and the functions
      of debugging builds.

    \<^item> The binding, \<^verbatim>\<open>src/src/binding.cpp\<close>: \<open>BindingConstants\<close>, \<open>Binding\<close> (\<open>loadDb\<close>, \<open>lookupIp\<close>, \<open>unload\<close>, the
      macros, the exports), \<open>BindingSpec\<close> (what is reported of a value, and the invariant of the handles in
      every reachable state) and \<open>BindingTheorems\<close>. \<open>SmallExample\<close> is one small file, for the examples.
      \<open>BindingEndToEnd\<close> is a session, from the bytes of the files to the objects a script gets.

    \<^item> The program \<^verbatim>\<open>bin/mmdblookup.c\<close>: \<open>Mmdblookup\<close> and \<open>MmdblookupTheorems\<close>; \<open>EndToEnd\<close> joins all
      components in one property, from the bytes of a file to the text that is printed. \<open>FormatFiles\<close> says what it is
      that a file shows a value for an address (\<open>file_shows\<close>), from which both of these properties start.

    \<^item> Files of the format: \<open>FieldWriter\<close> writes values, \<open>DatabaseWriter\<close> the tree, the data section and the metadata of a
      list of networks with values, \<open>WrittenNetworks\<close> says when such a file has room and no stray marker;
      \<open>WrittenDatabase\<close> has the round trip through a file. The writer is the specification of a file, not code of the
      repository; it makes the files of the examples, too.

    \<^item> The tests, \<^verbatim>\<open>t\<close>: \<open>Tap\<close> has the part of \<^verbatim>\<open>libtap/tap.c\<close> that they use, and what it is that all tests of a program
      pass (\<open>passes\<close>, \<open>succeeds\<close>); \<open>TestHelper\<close> has \<^verbatim>\<open>maxminddb_test_helper.c\<close>, \<open>TestRules\<close> the rules for its functions on a
      file that holds what is asked for. \<open>BasicLookupTest\<close>, \<open>DataTypesTest\<close>, \<open>GetValueTest\<close>, \<open>EntryListTest\<close> and
      \<open>MetadataTest\<close> have the programs \<^verbatim>\<open>basic_lookup_t.c\<close>, \<^verbatim>\<open>data_types_t.c\<close>, \<^verbatim>\<open>get_value_t.c\<close> with \<^verbatim>\<open>no_map_get_value_t.c\<close>,
      \<^verbatim>\<open>data_entry_list_t.c\<close> and \<^verbatim>\<open>metadata_t.c\<close>, each with the
      proof that its tests pass. \<open>TestDatabases\<close>, \<open>DecoderDatabase\<close> and \<open>AddressDatabases\<close> write databases with the networks
      and values of \<^verbatim>\<open>maxmind-db/test-data/write-test-data.pl\<close>, as examples of the files the proofs ask for.
\<close>

text \<open>
  \<^bold>\<open>What is shown.\<close> Lookups refine the walk of the file format, for every record size and every start,
  and return inside the tree on every well-formed handle; the netmask covers a network of addresses
  with the same answer, except that of an IPv4 address in an IPv6 tree without a subtree for such addresses; an IPv4 address is looked up as its zero-prefixed IPv6 address. Decoding reads every
  encoding of every value back; a lookup by path is the lookup in the value; the list is the value in
  pre-order and well typed on every content; printing is a function of the value; each ends. Opening
  gives the handle the metadata describe and establishes the invariants the lookups rely on. When it fails, it gives back
  what the handle points to, but not an array whose count is still 0, nor the list that languages or descriptions were being read from;
  closing gives back what was acquired, once, except empty arrays; both hosts open a file alike, where its size fits into \<open>ssize_t\<close>, release
  every descriptor, handle and mapping, and keep the \<open>errno\<close> of what failed. In every interleaving of threads
  a lookup gets the answer it has alone or that of a half-stored start node, and only the first once
  the start node is stored. In every reachable state of the
  binding \<open>unload\<close> is safe. A database that is written for networks and values, with room for its records and no
  marker in front of the one before the metadata, is read back: every address gets the value
  of its network, along every path. The tests of six programs of the library pass, the number of tests included,
  on every file that holds the values they ask for, however it is laid out. Where the code does something else than it means to (bytes read behind a
  section and of fields that are cut off at the end of the file, a prefix length from the wrong end, a marker that is the first one instead of the last,
  messages that are dropped, mixed-up exports), a theorem says what it does.

  \<^bold>\<open>Bounds.\<close> \<open>nest\<close> bounds the depth of recursion, and the rounds of the loop over pointers, which need
  not end: a list of a value \<open>v\<close> needs \<open>2 * fdepth v + 2\<close>, a path lookup \<open>fdepth v\<close>; skipping and path lookups
  end on arbitrary bytes with a bound from the size of the section, and the entry list of a pointer to itself
  exceeds every bound. The test programs have a bound of 16 or more, for values that are not as deep. The loop of \<open>find_metadata\<close> takes at most two rounds. All other loops count down. A thread takes
  at most six steps.

  \<^bold>\<open>Parameters.\<close> \<open>getaddrinfo\<close> and \<open>gai_strerror\<close>; \<open>open\<close>, \<open>fstat\<close> and \<open>mmap\<close>, as the bytes of a file and the
  failures; allocation; the texts of \<open>strerror\<close>, \<open>strftime\<close> and of times, \<open>rand\<close>, and the options as
  \<open>getopt_long\<close> returns them; the JavaScript engine's conversions of arguments. In \<open>HostCalls\<close> the answers of each
  system call are parameters instead. The test programs have these parameters in the record \<open>test_env\<close>, with the working directory,
  which files may be read, and the size of a page. The model of threads shows each the last store; a weaker memory, failing writes
  to a stream and exceptions of \<^verbatim>\<open>new\<close> are left out.

  \<^bold>\<open>Not modelled.\<close> The messages under \<^verbatim>\<open>MMDB_DEBUG\<close> that print values computed anyway; \<open>MMDB_lib_version\<close>, a constant
  of the build. Of the tests: the programs \<^verbatim>\<open>bad_pointers_t.c\<close>, \<^verbatim>\<open>dump_t.c\<close>, \<^verbatim>\<open>get_value_pointer_bug_t.c\<close>,
  \<^verbatim>\<open>ipv4_start_cache_t.c\<close>, \<^verbatim>\<open>ipv6_lookup_in_ipv4_t.c\<close>, \<^verbatim>\<open>read_node_t.c\<close>, \<^verbatim>\<open>threads_t.c\<close> and \<^verbatim>\<open>version_t.c\<close>, which call the same
  functions on other files; of \<^verbatim>\<open>tap.c\<close> what no program uses (\<open>isnt_at_loc\<close>, \<open>cmp_mem_at_loc\<close>, skipping, the tests that run in
  a child process) and failing allocations of messages; the names of source lines in messages about failed tests; the blocks
  that the test programs free. The project files; the scripts and the JavaScript examples, which are not part of the
  implementation.
\<close>

end
